(* ===== verification/Upil_Prelude.thy ===== *)
theory Upil_Prelude
  imports Main "HOL-Library.Word" "HOL-Library.Monad_Syntax" "HOL-Library.Sublist"
begin

unbundle bit_operations_syntax

text \<open>
  Shared vocabulary of the development.

  Memory is addressed by natural numbers, raw bytes are 8-bit words, and a C
  \<open>char *\<close> string is the list of the bytes before its terminating NUL.
  An operation of the C code that can reach undefined behaviour (a null or a dangling
  pointer, an access outside an array) returns an \<open>option\<close>: \<open>None\<close> says that
  the execution has left defined behaviour.  The error codes that the C functions return
  to their callers are ordinary integer results inside the \<open>Some\<close>.
\<close>

type_synonym byte = "8 word"
type_synonym addr = nat

named_theorems c_str \<open>evaluation of the C string helpers\<close>
named_theorems ev_defs \<open>definitions of the event loop\<close>
named_theorems mh_defs \<open>definitions of the message handler\<close>
named_theorems sm_defs \<open>definitions of the phone state machine\<close>

section \<open>Strings of the C library\<close>

text \<open>A string literal as bytes.\<close>

definition str :: "string \<Rightarrow> byte list" where
  "str s = map of_char s"

lemma str_Nil [simp, c_str]: "str [] = []"
  by (simp add: str_def)

lemma str_Cons [simp, c_str]: "str (c # s) = of_char c # str s"
  by (simp add: str_def)

lemma length_str [simp]: "length (str s) = length s"
  by (simp add: str_def)

text \<open>What a C function that stops at the NUL sees of a buffer.\<close>

definition c_string :: "byte list \<Rightarrow> byte list" where
  "c_string bs = takeWhile (\<lambda>b. b \<noteq> 0) bs"

lemma c_string_no_nul [simp]: "0 \<notin> set (c_string bs)"
  by (auto simp: c_string_def dest: set_takeWhileD)

lemma c_string_id: "0 \<notin> set bs \<Longrightarrow> c_string bs = bs"
  unfolding c_string_def by (induction bs) auto

lemma c_string_append_nul: "0 \<notin> set bs \<Longrightarrow> c_string (bs @ 0 # zs) = bs"
  unfolding c_string_def by (induction bs) auto

lemma length_c_string: "length (c_string bs) \<le> length bs"
  by (simp add: c_string_def length_takeWhile_le)

lemma take_c_string: "take (length (c_string bs)) bs = c_string bs"
  unfolding c_string_def by (rule takeWhile_eq_take[symmetric])

lemma c_string_less: "0 \<in> set bs \<Longrightarrow> length (c_string bs) < length bs"
  unfolding c_string_def by (induction bs) auto

lemma drop_c_string: "n \<le> length (c_string s) \<Longrightarrow> c_string (drop n s) = drop n (c_string s)"
  by (induction s arbitrary: n) (auto simp: c_string_def drop_Cons split: nat.splits)

text \<open>\<open>strncmp (s, t, n) == 0\<close>: the first \<open>n\<close> bytes agree, the NUL included.\<close>

definition strncmp_eq :: "byte list \<Rightarrow> byte list \<Rightarrow> nat \<Rightarrow> bool" where
  "strncmp_eq s t n \<longleftrightarrow> take n (s @ [0]) = take n (t @ [0])"

lemma strncmp_eq_prefix:
  assumes "0 \<notin> set s" and "0 \<notin> set t"
  shows "strncmp_eq s t (length t) \<longleftrightarrow> prefix t s"
proof
  assume eq: "strncmp_eq s t (length t)"
  then have *: "take (length t) (s @ [0]) = t"
    by (simp add: strncmp_eq_def)
  have "length t \<le> length s"
  proof (rule ccontr)
    assume "\<not> length t \<le> length s"
    with * have "s @ [0] = t"
      by simp
    with assms(2) show False
      by auto
  qed
  with * show "prefix t s"
    by (metis append_take_drop_id prefixI take_append diff_is_0_eq take_0 append_Nil2)
next
  assume "prefix t s"
  then show "strncmp_eq s t (length t)"
    by (auto simp: strncmp_eq_def prefix_def)
qed

text \<open>A decimal number as \<open>printf\<close>'s \<open>%d\<close> writes a non-negative one.\<close>

fun dec_nat :: "nat \<Rightarrow> byte list" where
  "dec_nat n = (if n < 10 then [48 + of_nat n] else dec_nat (n div 10) @ [48 + of_nat (n mod 10)])"

declare dec_nat.simps [simp del]

definition dec_int :: "int \<Rightarrow> byte list" where
  "dec_int i = (if i < 0 then 45 # dec_nat (nat (- i)) else dec_nat (nat i))"

section \<open>Arrays\<close>

text \<open>
  \<open>memcpy\<close> of \<open>src\<close> to the offset \<open>off\<close> of an array: undefined when it would
  write outside the array.
\<close>

definition blit :: "'a list \<Rightarrow> nat \<Rightarrow> 'a list \<Rightarrow> 'a list option" where
  "blit dst off src =
     (if off + length src \<le> length dst
      then Some (take off dst @ src @ drop (off + length src) dst) else None)"

lemma blit_length: "blit dst off src = Some d \<Longrightarrow> length d = length dst"
  by (auto simp: blit_def split: if_splits)

lemma blit_take: "blit dst off src = Some d \<Longrightarrow> take (off + length src) d = take off dst @ src"
  by (auto simp: blit_def split: if_splits)

lemma blit_Some_iff: "(\<exists>d. blit dst off src = Some d) \<longleftrightarrow> off + length src \<le> length dst"
  by (auto simp: blit_def)

text \<open>The bytes \<open>src[off ..< off + n]\<close>, undefined outside the array.\<close>

definition slice :: "'a list \<Rightarrow> nat \<Rightarrow> nat \<Rightarrow> 'a list option" where
  "slice src off n = (if off + n \<le> length src then Some (take n (drop off src)) else None)"

lemma slice_length: "slice src off n = Some s \<Longrightarrow> length s = n"
  by (auto simp: slice_def split: if_splits)

text \<open>\<open>a[i]\<close>, undefined outside the array.\<close>

definition nth_opt :: "'a list \<Rightarrow> nat \<Rightarrow> 'a option" where
  "nth_opt xs i = (if i < length xs then Some (xs ! i) else None)"

lemma nth_opt_Some: "nth_opt xs i = Some x \<longleftrightarrow> i < length xs \<and> xs ! i = x"
  by (auto simp: nth_opt_def)

lemma nth_opt_in [simp]: "i < length xs \<Longrightarrow> nth_opt xs i = Some (xs ! i)"
  by (simp add: nth_opt_def)

lemma nth_opt_out [simp]: "length xs \<le> i \<Longrightarrow> nth_opt xs i = None"
  by (simp add: nth_opt_def)

section \<open>Machine integers\<close>

text \<open>A 32-bit \<open>int\<close> object in memory, little endian, and back.\<close>

definition int_bytes :: "int \<Rightarrow> byte list" where
  "int_bytes i = map (\<lambda>k. word_of_int (i div 256 ^ k)) [0, 1, 2, 3]"

definition bytes_int :: "byte list \<Rightarrow> int" where
  "bytes_int bs =
     signed_take_bit 31 (\<Sum>k<4. uint (bs ! k) * 256 ^ k)"

lemma length_int_bytes [simp]: "length (int_bytes i) = 4"
  by (simp add: int_bytes_def)

lemma unat_byte: "n < 256 \<Longrightarrow> unat (of_nat n :: byte) = n"
  by (simp add: unat_of_nat)

lemma uint_byte: "n < 256 \<Longrightarrow> uint (of_nat n :: byte) = int n"
  by (metis uint_nat unat_byte)

section \<open>Lists and options\<close>

lemma bind_eq_Some: "Option.bind x f = Some y \<longleftrightarrow> (\<exists>z. x = Some z \<and> f z = Some y)"
  by (cases x) auto

lemma removeAll_distinct_notin: "x \<notin> set (remove1 x xs)" if "distinct xs"
  using that by (simp add: distinct_remove1_removeAll)

lemma set_remove1_distinct [simp]: "distinct xs \<Longrightarrow> set (remove1 x xs) = set xs - {x}"
  by (simp add: distinct_remove1_removeAll)

section \<open>Operations that may not return\<close>

text \<open>An operation that waits for the system gives \<open>Ret\<close> a result, \<open>Waits\<close> when a call of
  it does not return any more, or \<open>Fault\<close> when it leaves defined behaviour.\<close>

datatype 'a run = Ret 'a | Waits | Fault

primrec run_bind :: "'a run \<Rightarrow> ('a \<Rightarrow> 'b run) \<Rightarrow> 'b run" where
  "run_bind (Ret x) f = f x"
| "run_bind Waits f = Waits"
| "run_bind Fault f = Fault"

lemma run_bind_assoc: "run_bind (run_bind x f) g = run_bind x (\<lambda>y. run_bind (f y) g)"
  by (cases x) simp_all

lemma run_bind_cong [fundef_cong]:
  "x = x' \<Longrightarrow> (\<And>y. x' = Ret y \<Longrightarrow> f y = g y) \<Longrightarrow> run_bind x f = run_bind x' g"
  by (cases x') simp_all

lemma run_bind_Ret: "run_bind x f = Ret z \<longleftrightarrow> (\<exists>y. x = Ret y \<and> f y = Ret z)"
  by (cases x) auto

lemma run_bind_Fault: "run_bind x f = Fault \<longleftrightarrow> x = Fault \<or> (\<exists>y. x = Ret y \<and> f y = Fault)"
  by (cases x) auto

text \<open>Every result of an operation has the property \<open>P\<close>.\<close>

definition ret_all :: "('a \<Rightarrow> bool) \<Rightarrow> 'a run \<Rightarrow> bool" where
  "ret_all P x \<longleftrightarrow> (\<forall>y. x = Ret y \<longrightarrow> P y)"

lemma ret_all_simps [simp]: "ret_all P (Ret y) \<longleftrightarrow> P y" "ret_all P Waits" "ret_all P Fault"
  by (simp_all add: ret_all_def)

lemma ret_allD: "ret_all P x \<Longrightarrow> x = Ret y \<Longrightarrow> P y"
  by (simp add: ret_all_def)

lemma ret_all_bind: "ret_all (\<lambda>y. ret_all P (f y)) x \<Longrightarrow> ret_all P (run_bind x f)"
  by (cases x) simp_all

lemma ret_all_if: "(b \<Longrightarrow> ret_all P x) \<Longrightarrow> (\<not> b \<Longrightarrow> ret_all P y) \<Longrightarrow> ret_all P (if b then x else y)"
  by simp

lemma ret_all_mono: "ret_all P x \<Longrightarrow> (\<And>y. P y \<Longrightarrow> Q y) \<Longrightarrow> ret_all Q x"
  by (auto simp: ret_all_def)

lemma ret_all_any: "(\<And>y. P y) \<Longrightarrow> ret_all P x"
  by (simp add: ret_all_def)

text \<open>A step of plain option type inside an operation that may wait.\<close>

definition defined :: "'a option \<Rightarrow> 'a run" where
  "defined x = (case x of None \<Rightarrow> Fault | Some y \<Rightarrow> Ret y)"

lemma defined_simps [simp]: "defined None = Fault" "defined (Some y) = Ret y"
  by (simp_all add: defined_def)

lemma sint_small:
  assumes "unat (w :: 32 word) < 2 ^ 31"
  shows "sint w = int (unat w)"
proof -
  have "int (unat w) < 2 ^ 31"
    using assms by (metis of_nat_less_iff of_nat_numeral of_nat_power)
  then have "uint w < 2 ^ 31"
    unfolding uint_nat .
  then have "sint w = uint w"
    unfolding sint_uint by (intro signed_take_bit_int_eq_self) (auto intro: order_trans[OF _ uint_ge_0])
  then show ?thesis
    by (simp only: uint_nat)
qed

text \<open>Counts of frames whose bytes fit into a signed number.\<close>

lemma frames_less:
  fixes a f :: nat
  assumes "a * f < 2 ^ 31" "0 < f"
  shows "a < 2 ^ 31"
proof -
  have "a * 1 \<le> a * f"
    using assms(2) by (intro mult_le_mono2) simp
  then show ?thesis
    using assms(1) unfolding mult_1_right by (rule le_less_trans)
qed

lemma unat_add_frames:
  fixes a b :: "32 word"
  assumes "(unat a + unat b) * f < 2 ^ 31" "0 < f"
  shows "unat (a + b) = unat a + unat b"
  using frames_less[OF assms] by (simp add: unat_word_ariths)

end
