(* ===== verification/Linked_List.thy ===== *)
theory Linked_List
  imports Upil_Prelude
begin

text \<open>
  The circular, doubly linked lists with a sentinel that \<open>upil_event/upil_event.c\<close>
  keeps its timers and its pending events in, and that \<open>state_machine/handler.c\<close>
  keeps its message queues in.  The store holds the two link fields of every node;
  the operations are the assignments of the C code, one after the other.
  The abstraction \<open>dll h s xs\<close> says that the nodes \<open>xs\<close> are linked, in this
  order, into the list with the sentinel \<open>s\<close>.
\<close>

section \<open>Nodes and their links\<close>

record node =
  nxt :: "addr option"
  prv :: "addr option"

type_synonym store = "addr \<Rightarrow> node option"

definition get_next :: "store \<Rightarrow> addr \<Rightarrow> addr option" where
  "get_next h a = do { n \<leftarrow> h a; nxt n }"

definition get_prev :: "store \<Rightarrow> addr \<Rightarrow> addr option" where
  "get_prev h a = do { n \<leftarrow> h a; prv n }"

definition set_next :: "addr \<Rightarrow> addr option \<Rightarrow> store \<Rightarrow> store option" where
  "set_next a v h = do { n \<leftarrow> h a; Some (h(a \<mapsto> n\<lparr>nxt := v\<rparr>)) }"

definition set_prev :: "addr \<Rightarrow> addr option \<Rightarrow> store \<Rightarrow> store option" where
  "set_prev a v h = do { n \<leftarrow> h a; Some (h(a \<mapsto> n\<lparr>prv := v\<rparr>)) }"

section \<open>The operations of the C code\<close>

text \<open>\<open>init_list\<close>: the sentinel is its own successor and predecessor.\<close>

definition init_list :: "addr \<Rightarrow> store \<Rightarrow> store" where
  "init_list l h = h(l \<mapsto> \<lparr>nxt = Some l, prv = Some l\<rparr>)"

text \<open>\<open>addToList(ev, list)\<close> links \<open>ev\<close> in front of the node \<open>list\<close>.\<close>

definition addToList :: "addr \<Rightarrow> addr \<Rightarrow> store \<Rightarrow> store option" where
  "addToList ev l h = do {
     h \<leftarrow> set_next ev (Some l) h;
     lp \<leftarrow> h l;
     h \<leftarrow> set_prev ev (prv lp) h;
     p \<leftarrow> get_prev h ev;
     h \<leftarrow> set_next p (Some ev) h;
     set_prev l (Some ev) h }"

definition removeFromList :: "addr \<Rightarrow> store \<Rightarrow> store option" where
  "removeFromList ev h = do {
     e \<leftarrow> h ev;
     n \<leftarrow> get_next h ev;
     h \<leftarrow> set_prev n (prv e) h;
     p \<leftarrow> get_prev h ev;
     e \<leftarrow> h ev;
     h \<leftarrow> set_next p (nxt e) h;
     h \<leftarrow> set_next ev None h;
     set_prev ev None h }"

text \<open>\<open>init_queue\<close>, \<open>addToQueue\<close> and \<open>removeFromQueue\<close> of the handler; the last
  one only reports a message that is not linked.\<close>

definition init_queue :: "addr \<Rightarrow> store \<Rightarrow> store" where
  "init_queue q h = h(q \<mapsto> \<lparr>nxt = Some q, prv = Some q\<rparr>)"

definition addToQueue :: "addr \<Rightarrow> addr \<Rightarrow> store \<Rightarrow> store option" where
  "addToQueue msg queue h = do {
     h \<leftarrow> set_next msg (Some queue) h;
     qn \<leftarrow> h queue;
     h \<leftarrow> set_prev msg (prv qn) h;
     p \<leftarrow> get_prev h msg;
     h \<leftarrow> set_next p (Some msg) h;
     set_prev queue (Some msg) h }"

definition removeFromQueue :: "addr option \<Rightarrow> store \<Rightarrow> store option" where
  "removeFromQueue msg h =
     (case msg of None \<Rightarrow> Some h
      | Some m \<Rightarrow>
          do { e \<leftarrow> h m;
               if nxt e \<noteq> None \<and> prv e \<noteq> None
               then do {
                 n \<leftarrow> get_next h m;
                 h \<leftarrow> set_prev n (prv e) h;
                 p \<leftarrow> get_prev h m;
                 e \<leftarrow> h m;
                 h \<leftarrow> set_next p (nxt e) h;
                 h \<leftarrow> set_next m None h;
                 set_prev m None h }
               else Some h })"

section \<open>The list a sentinel stands for\<close>

definition edge :: "store \<Rightarrow> addr \<Rightarrow> addr \<Rightarrow> bool" where
  "edge h a b \<longleftrightarrow> get_next h a = Some b \<and> get_prev h b = Some a"

fun seg :: "store \<Rightarrow> addr \<Rightarrow> addr list \<Rightarrow> addr \<Rightarrow> bool" where
  "seg h a [] b \<longleftrightarrow> edge h a b"
| "seg h a (x # xs) b \<longleftrightarrow> edge h a x \<and> seg h x xs b"

definition dll :: "store \<Rightarrow> addr \<Rightarrow> addr list \<Rightarrow> bool" where
  "dll h s xs \<longleftrightarrow> distinct (s # xs) \<and> seg h s xs s"

text \<open>The node is allocated and in no list: both links are NULL.\<close>

definition unlinked :: "store \<Rightarrow> addr \<Rightarrow> bool" where
  "unlinked h a \<longleftrightarrow> (\<exists>n. h a = Some n \<and> nxt n = None \<and> prv n = None)"

section \<open>Link updates\<close>

lemma get_next_set_next:
  "set_next a v h = Some h' \<Longrightarrow> get_next h' = (get_next h)(a := v)"
  by (intro ext) (auto simp: set_next_def get_next_def bind_eq_Some)

lemma get_prev_set_next: "set_next a v h = Some h' \<Longrightarrow> get_prev h' = get_prev h"
  by (intro ext) (auto simp: set_next_def get_prev_def bind_eq_Some)

lemma get_prev_set_prev:
  "set_prev a v h = Some h' \<Longrightarrow> get_prev h' = (get_prev h)(a := v)"
  by (intro ext) (auto simp: set_prev_def get_prev_def bind_eq_Some)

lemma get_next_set_prev: "set_prev a v h = Some h' \<Longrightarrow> get_next h' = get_next h"
  by (intro ext) (auto simp: set_prev_def get_next_def bind_eq_Some)

lemma set_next_alloc: "set_next a v h = Some h' \<Longrightarrow> dom h' = dom h"
  by (auto simp: set_next_def bind_eq_Some split: if_splits)

lemma set_prev_alloc: "set_prev a v h = Some h' \<Longrightarrow> dom h' = dom h"
  by (auto simp: set_prev_def bind_eq_Some split: if_splits)

lemma set_next_ok: "a \<in> dom h \<Longrightarrow> \<exists>h'. set_next a v h = Some h'"
  by (auto simp: set_next_def)

lemma set_prev_ok: "a \<in> dom h \<Longrightarrow> \<exists>h'. set_prev a v h = Some h'"
  by (auto simp: set_prev_def)

lemmas link_updates =
  get_next_set_next get_prev_set_next get_prev_set_prev get_next_set_prev
  set_next_alloc set_prev_alloc

lemma get_next_dom: "get_next h a = Some b \<Longrightarrow> a \<in> dom h"
  by (auto simp: get_next_def bind_eq_Some)

lemma get_prev_dom: "get_prev h a = Some b \<Longrightarrow> a \<in> dom h"
  by (auto simp: get_prev_def bind_eq_Some)

lemma get_prev_node: "h a = Some n \<Longrightarrow> get_prev h a = prv n"
  by (simp add: get_prev_def)

lemma get_next_node: "h a = Some n \<Longrightarrow> get_next h a = nxt n"
  by (simp add: get_next_def)

lemma set_next_frame: "set_next a v h = Some h' \<Longrightarrow> x \<noteq> a \<Longrightarrow> h' x = h x"
  by (auto simp: set_next_def bind_eq_Some)

lemma set_prev_frame: "set_prev a v h = Some h' \<Longrightarrow> x \<noteq> a \<Longrightarrow> h' x = h x"
  by (auto simp: set_prev_def bind_eq_Some)

section \<open>The operations on the links\<close>

lemma addToList_links:
  assumes "get_prev h l = Some p" and "p \<in> dom h" and "ev \<in> dom h" and "ev \<noteq> l"
  shows "\<exists>h'. addToList ev l h = Some h'
    \<and> get_next h' = (get_next h)(ev := Some l, p := Some ev)
    \<and> get_prev h' = (get_prev h)(ev := Some p, l := Some ev)
    \<and> dom h' = dom h \<and> (\<forall>x. x \<notin> {ev, p, l} \<longrightarrow> h' x = h x)"
proof -
  obtain h1 where h1: "set_next ev (Some l) h = Some h1"
    using assms(3) set_next_ok by blast
  note d1 = link_updates(5)[OF h1] and p1 = link_updates(2)[OF h1]
  obtain ln where ln: "h1 l = Some ln" and lp: "prv ln = Some p"
    using assms(1) p1 get_prev_dom[of h1 l p] get_prev_node[of h1 l] by auto
  obtain h2 where h2: "set_prev ev (prv ln) h1 = Some h2"
    using assms(3) d1 set_prev_ok by blast
  have d2: "dom h2 = dom h" and p2: "get_prev h2 ev = Some p"
    using h2 d1 lp link_updates(3,6)[OF h2] by auto
  obtain h3 where h3: "set_next p (Some ev) h2 = Some h3"
    using assms(2) d2 set_next_ok by blast
  have d3: "dom h3 = dom h"
    using h3 d2 link_updates(5) by blast
  obtain h4 where h4: "set_prev l (Some ev) h3 = Some h4"
    using d3 assms(1) get_prev_dom set_prev_ok by metis
  have "addToList ev l h = Some h4"
    by (simp add: addToList_def h1 ln h2 p2 h3 h4)
  moreover have "get_next h4 = (get_next h)(ev := Some l, p := Some ev)"
    using link_updates(1)[OF h1] link_updates(4)[OF h2] link_updates(1)[OF h3] link_updates(4)[OF h4]
    by simp
  moreover have "get_prev h4 = (get_prev h)(ev := Some p, l := Some ev)"
    using link_updates(2)[OF h1] link_updates(3)[OF h2] link_updates(2)[OF h3] link_updates(3)[OF h4] lp
    by simp
  moreover have "dom h4 = dom h"
    using d3 link_updates(6)[OF h4] by simp
  moreover have "\<forall>x. x \<notin> {ev, p, l} \<longrightarrow> h4 x = h x"
    using set_next_frame[OF h1] set_prev_frame[OF h2] set_next_frame[OF h3] set_prev_frame[OF h4]
    by simp
  ultimately show ?thesis
    by blast
qed

lemma removeFromList_links:
  assumes "get_next h ev = Some n" and "get_prev h ev = Some p"
    and "n \<in> dom h" and "p \<in> dom h" and "n \<noteq> ev"
  shows "\<exists>h'. removeFromList ev h = Some h'
    \<and> get_next h' = (get_next h)(p := Some n, ev := None)
    \<and> get_prev h' = (get_prev h)(n := Some p, ev := None)
    \<and> dom h' = dom h \<and> (\<forall>x. x \<notin> {ev, p, n} \<longrightarrow> h' x = h x)"
proof -
  obtain e where e: "h ev = Some e" "prv e = Some p" "nxt e = Some n"
    using assms(1,2) by (auto simp: get_next_def get_prev_def bind_eq_Some)
  obtain h1 where h1: "set_prev n (prv e) h = Some h1"
    using assms(3) set_prev_ok by blast
  have d1: "dom h1 = dom h" and p1: "get_prev h1 ev = Some p" and e1: "h1 ev = Some e"
    using assms(5) e h1 link_updates(3,6)[OF h1] assms(2) set_prev_frame[OF h1] by auto
  obtain h2 where h2: "set_next p (nxt e) h1 = Some h2"
    using assms(4) d1 set_next_ok by blast
  obtain h3 where h3: "set_next ev None h2 = Some h3"
    using assms(1) get_next_dom d1 link_updates(5)[OF h2] set_next_ok by metis
  obtain h4 where h4: "set_prev ev None h3 = Some h4"
    using assms(1) get_next_dom d1 link_updates(5)[OF h2] link_updates(5)[OF h3] set_prev_ok by metis
  have "removeFromList ev h = Some h4"
    by (simp add: removeFromList_def e assms(1) h1[unfolded e] p1 e1 h2[unfolded e] h3 h4)
  moreover have "get_next h4 = (get_next h)(p := Some n, ev := None)"
    using link_updates(4)[OF h1] link_updates(1)[OF h2] link_updates(1)[OF h3] link_updates(4)[OF h4] e
    by simp
  moreover have "get_prev h4 = (get_prev h)(n := Some p, ev := None)"
    using link_updates(3)[OF h1] link_updates(2)[OF h2] link_updates(2)[OF h3] link_updates(3)[OF h4] e
    by simp
  moreover have "dom h4 = dom h"
    using d1 link_updates(5)[OF h2] link_updates(5)[OF h3] link_updates(6)[OF h4] by simp
  moreover have "\<forall>x. x \<notin> {ev, p, n} \<longrightarrow> h4 x = h x"
    using set_prev_frame[OF h1] set_next_frame[OF h2] set_next_frame[OF h3] set_prev_frame[OF h4]
    by simp
  ultimately show ?thesis
    by blast
qed

section \<open>Segments\<close>

lemma seg_append: "seg h a (xs @ y # ys) b \<longleftrightarrow> seg h a xs y \<and> seg h y ys b"
  by (induction xs arbitrary: a) auto

lemma seg_snoc: "seg h a (xs @ [y]) b \<longleftrightarrow> seg h a xs y \<and> edge h y b"
  by (simp add: seg_append)

lemma seg_frame:
  assumes "\<forall>u\<in>set (a # xs). get_next h' u = get_next h u"
    and "\<forall>v\<in>set (b # xs). get_prev h' v = get_prev h v"
  shows "seg h' a xs b \<longleftrightarrow> seg h a xs b"
  using assms by (induction xs arbitrary: a) (auto simp: edge_def)

lemma seg_last_edge: "seg h a xs b \<Longrightarrow> edge h (last (a # xs)) b"
  by (induction xs arbitrary: a) auto

lemma seg_dom: "seg h a xs b \<Longrightarrow> set (a # b # xs) \<subseteq> dom h"
  by (induction xs arbitrary: a) (auto simp: edge_def dest: get_next_dom get_prev_dom)

lemma seg_split:
  "seg h a (xs @ ys) b \<longleftrightarrow>
     seg h a xs (hd (ys @ [b])) \<and> (ys \<noteq> [] \<longrightarrow> seg h (hd ys) (tl ys) b)"
  by (cases ys) (auto simp: seg_append)

section \<open>The operations on the list\<close>

text \<open>
  The sentinel's list after \<open>init_list\<close> is empty; linking a free node in front of the
  node \<open>l\<close> puts it at that place of the list (at the end when \<open>l\<close> is the sentinel);
  removing a node takes it out and leaves both of its links NULL.  A list that shares no
  node with the one that is changed stays as it is.
\<close>

lemma dll_init: "dll (init_list s h) s []"
  by (simp add: dll_def init_list_def edge_def get_next_def get_prev_def)

lemma dll_dom: "dll h s xs \<Longrightarrow> set (s # xs) \<subseteq> dom h"
  using seg_dom unfolding dll_def by fastforce

lemma dll_frame:
  assumes "dll h s xs" and "\<forall>x\<in>set (s # xs). h' x = h x"
  shows "dll h' s xs"
proof -
  have "seg h' s xs s \<longleftrightarrow> seg h s xs s"
    using assms(2) by (intro seg_frame) (auto simp: get_next_def get_prev_def)
  with assms(1) show ?thesis
    by (simp add: dll_def)
qed

lemma dll_add:
  assumes dll: "dll h s (xs @ ys)" and ev: "ev \<in> dom h" "ev \<notin> set (s # xs @ ys)"
    and l: "l = hd (ys @ [s])"
  shows "\<exists>h'. addToList ev l h = Some h' \<and> dll h' s (xs @ ev # ys) \<and> dom h' = dom h
           \<and> (\<forall>x. x \<notin> set (ev # s # xs @ ys) \<longrightarrow> h' x = h x)"
proof -
  have dist: "distinct (s # xs @ ys)" and sg: "seg h s (xs @ ys) s"
    using dll by (auto simp: dll_def)
  have front: "seg h s xs l" and rest: "ys \<noteq> [] \<Longrightarrow> seg h l (tl ys) s"
    using sg seg_split[of h s xs ys s] l by (auto simp: hd_append)
  define p where "p = last (s # xs)"
  have "edge h p l"
    using seg_last_edge[OF front] by (simp add: p_def)
  then have prev_l: "get_prev h l = Some p" and "p \<in> dom h"
    by (auto simp: edge_def dest: get_next_dom)
  have l_in: "l \<in> set (s # ys)" and p_in: "p \<in> set (s # xs)"
    using l by (cases ys) (auto simp: p_def)
  have "ev \<noteq> l"
    using ev(2) l_in by auto
  then obtain h' where h': "addToList ev l h = Some h'"
      and nx: "get_next h' = (get_next h)(ev := Some l, p := Some ev)"
      and pv: "get_prev h' = (get_prev h)(ev := Some p, l := Some ev)"
      and dm: "dom h' = dom h" and fr: "\<forall>x. x \<notin> {ev, p, l} \<longrightarrow> h' x = h x"
    using addToList_links[OF prev_l \<open>p \<in> dom h\<close> ev(1)] by blast
  have pne: "p \<noteq> ev"
    using p_in ev(2) by auto
  have "seg h' s xs ev"
  proof (cases xs rule: rev_cases)
    case Nil
    then show ?thesis
      using nx pv pne \<open>ev \<noteq> l\<close> by (simp add: edge_def p_def)
  next
    case (snoc zs z)
    then have z: "z = p"
      by (simp add: p_def)
    have "seg h s zs z"
      using front snoc by (simp add: seg_snoc)
    moreover have "seg h' s zs z \<longleftrightarrow> seg h s zs z"
    proof (rule seg_frame)
      show "\<forall>u\<in>set (s # zs). get_next h' u = get_next h u"
        using nx z dist snoc ev(2) by auto
      show "\<forall>v\<in>set (z # zs). get_prev h' v = get_prev h v"
        using pv z dist snoc ev(2) l_in by auto
    qed
    ultimately show ?thesis
      using nx pv pne \<open>ev \<noteq> l\<close> z snoc by (simp add: seg_snoc edge_def)
  qed
  moreover have "seg h' ev ys s"
  proof (cases ys)
    case Nil
    then show ?thesis
      using nx pv pne \<open>ev \<noteq> l\<close> l by (simp add: edge_def)
  next
    case (Cons y zs)
    then have y: "y = l"
      using l by simp
    have "seg h' y zs s \<longleftrightarrow> seg h y zs s"
    proof (rule seg_frame)
      show "\<forall>u\<in>set (y # zs). get_next h' u = get_next h u"
        using nx y dist Cons ev(2) p_in by auto
      show "\<forall>v\<in>set (s # zs). get_prev h' v = get_prev h v"
        using pv y dist Cons ev(2) by auto
    qed
    then show ?thesis
      using rest nx pv pne \<open>ev \<noteq> l\<close> y Cons by (simp add: edge_def)
  qed
  ultimately have "seg h' s (xs @ ev # ys) s"
    by (simp add: seg_append)
  moreover have "distinct (s # xs @ ev # ys)"
    using dist ev(2) by auto
  moreover have "\<forall>x. x \<notin> set (ev # s # xs @ ys) \<longrightarrow> h' x = h x"
    using fr l_in p_in by auto
  ultimately show ?thesis
    using h' dm by (auto simp: dll_def)
qed

lemma dll_remove:
  assumes dll: "dll h s (xs @ ev # ys)"
  shows "\<exists>h'. removeFromList ev h = Some h' \<and> dll h' s (xs @ ys) \<and> unlinked h' ev \<and> dom h' = dom h
           \<and> (\<forall>x. x \<notin> set (s # xs @ ev # ys) \<longrightarrow> h' x = h x)"
proof -
  have dist: "distinct (s # xs @ ev # ys)" and front: "seg h s xs ev" and rest: "seg h ev ys s"
    using dll by (auto simp: dll_def seg_append)
  define p n where "p = last (s # xs)" and "n = hd (ys @ [s])"
  have "edge h p ev"
    using seg_last_edge[OF front] by (simp add: p_def)
  moreover have "edge h ev n"
    using rest by (cases ys) (auto simp: n_def)
  ultimately have nxt: "get_next h ev = Some n" and prv: "get_prev h ev = Some p"
      and dom: "n \<in> dom h" "p \<in> dom h"
    by (auto simp: edge_def dest: get_next_dom get_prev_dom)
  have n_in: "n \<in> set (s # ys)" and p_in: "p \<in> set (s # xs)"
    by (cases ys) (auto simp: n_def p_def)
  have "n \<noteq> ev" "p \<noteq> ev"
    using n_in p_in dist by auto
  then obtain h' where h': "removeFromList ev h = Some h'"
      and nx: "get_next h' = (get_next h)(p := Some n, ev := None)"
      and pv: "get_prev h' = (get_prev h)(n := Some p, ev := None)"
      and dm: "dom h' = dom h" and fr: "\<forall>x. x \<notin> {ev, p, n} \<longrightarrow> h' x = h x"
    using removeFromList_links[OF nxt prv dom] by blast
  have f: "seg h' s xs n"
  proof (cases xs rule: rev_cases)
    case Nil
    then show ?thesis
      using nx pv \<open>n \<noteq> ev\<close> \<open>p \<noteq> ev\<close> by (simp add: edge_def p_def)
  next
    case (snoc zs z)
    then have z: "z = p"
      by (simp add: p_def)
    have "seg h' s zs z \<longleftrightarrow> seg h s zs z"
    proof (rule seg_frame)
      show "\<forall>u\<in>set (s # zs). get_next h' u = get_next h u"
        using nx z dist snoc by auto
      show "\<forall>v\<in>set (z # zs). get_prev h' v = get_prev h v"
        using pv z dist snoc n_in by auto
    qed
    then show ?thesis
      using front nx pv \<open>n \<noteq> ev\<close> \<open>p \<noteq> ev\<close> z snoc by (simp add: seg_snoc edge_def)
  qed
  have b: "seg h' n (tl ys) s" if "ys \<noteq> []"
  proof -
    have "seg h' n (tl ys) s \<longleftrightarrow> seg h n (tl ys) s"
    proof (rule seg_frame)
      show "\<forall>u\<in>set (n # tl ys). get_next h' u = get_next h u"
        using nx that dist p_in by (cases ys) (auto simp: n_def)
      show "\<forall>v\<in>set (s # tl ys). get_prev h' v = get_prev h v"
        using pv that dist by (cases ys) (auto simp: n_def)
    qed
    then show ?thesis
      using rest that by (cases ys) (auto simp: n_def)
  qed
  have "seg h' s (xs @ ys) s"
    using f b seg_split[of h' s xs ys s] by (cases ys) (auto simp: n_def)
  moreover have "unlinked h' ev"
    using fun_cong[OF nx, of ev] fun_cong[OF pv, of ev] dm nxt get_next_dom[of h ev]
    by (force simp: unlinked_def get_next_def get_prev_def)
  moreover have "\<forall>x. x \<notin> set (s # xs @ ev # ys) \<longrightarrow> h' x = h x"
    using fr n_in p_in by auto
  ultimately show ?thesis
    using h' dm dist by (auto simp: dll_def)
qed

lemma removeFromList_unlinked: "unlinked h ev \<Longrightarrow> removeFromList ev h = None"
  by (auto simp: removeFromList_def unlinked_def get_next_def)

text \<open>The message queues use the same code.\<close>

lemma addToQueue_is_addToList: "addToQueue = addToList"
  by (intro ext) (simp add: addToQueue_def addToList_def)

lemma removeFromQueue_linked:
  "\<not> unlinked h m \<Longrightarrow> get_next h m \<noteq> None \<Longrightarrow> get_prev h m \<noteq> None \<Longrightarrow>
     removeFromQueue (Some m) h = removeFromList m h"
  by (auto simp: removeFromQueue_def removeFromList_def get_next_def get_prev_def bind_eq_Some
      split: option.splits)

lemma removeFromQueue_unlinked: "unlinked h m \<Longrightarrow> removeFromQueue (Some m) h = Some h"
  by (auto simp: removeFromQueue_def unlinked_def)

section \<open>The interface the clients use\<close>

text \<open>
  What the event loop and the message handler rely on: the list a sentinel stands for,
  linking a free node in front of a node of the list, taking a node out, and the
  successor of a node.
\<close>

locale linked_lists =
  fixes rep :: "'h \<Rightarrow> addr \<Rightarrow> addr list \<Rightarrow> bool"
    and nodes :: "'h \<Rightarrow> addr set"
    and add :: "addr \<Rightarrow> addr \<Rightarrow> 'h \<Rightarrow> 'h option"
    and rem :: "addr \<Rightarrow> 'h \<Rightarrow> 'h option"
    and next_of :: "'h \<Rightarrow> addr \<Rightarrow> addr option"
  assumes rep_nodes: "rep h s xs \<Longrightarrow> set (s # xs) \<subseteq> nodes h"
    and rep_distinct: "rep h s xs \<Longrightarrow> distinct (s # xs)"
    and next_head: "rep h s xs \<Longrightarrow> next_of h s = Some (hd (xs @ [s]))"
    and next_node: "rep h s (xs @ x # ys) \<Longrightarrow> next_of h x = Some (hd (ys @ [s]))"
    and add_rep: "rep h s (xs @ ys) \<Longrightarrow> x \<in> nodes h \<Longrightarrow> x \<notin> set (s # xs @ ys) \<Longrightarrow>
      \<exists>h'. add x (hd (ys @ [s])) h = Some h' \<and> rep h' s (xs @ x # ys) \<and> nodes h' = nodes h
        \<and> (\<forall>t zs. rep h t zs \<longrightarrow> set (t # zs) \<inter> set (x # s # xs @ ys) = {} \<longrightarrow> rep h' t zs)"
    and rem_rep: "rep h s (xs @ x # ys) \<Longrightarrow>
      \<exists>h'. rem x h = Some h' \<and> rep h' s (xs @ ys) \<and> nodes h' = nodes h
        \<and> (\<forall>t zs. rep h t zs \<longrightarrow> set (t # zs) \<inter> set (s # xs @ x # ys) = {} \<longrightarrow> rep h' t zs)"
begin

text \<open>Moving the first node of one list to the end of another one.\<close>

lemma move_first:
  assumes "rep h s (x # xs)" and "rep h t ys" and "set (s # x # xs) \<inter> set (t # ys) = {}"
  shows "\<exists>h1 h2. rem x h = Some h1 \<and> add x t h1 = Some h2 \<and> rep h2 s xs \<and> rep h2 t (ys @ [x])
           \<and> nodes h2 = nodes h"
proof -
  obtain h1 where h1: "rem x h = Some h1" "rep h1 s xs" "nodes h1 = nodes h" "rep h1 t ys"
    using rem_rep[of h s "[]" x xs] assms by (auto simp: Int_commute)
  have "x \<in> nodes h1" "x \<notin> set (t # ys @ [])"
    using rep_nodes[OF assms(1)] h1(3) assms(3) by auto
  then obtain h2 where "add x t h1 = Some h2" "rep h2 t (ys @ [x])" "nodes h2 = nodes h"
      "\<forall>u zs. rep h1 u zs \<longrightarrow> set (u # zs) \<inter> set (x # t # ys) = {} \<longrightarrow> rep h2 u zs"
    using add_rep[of h1 t ys "[]" x] h1 by auto
  moreover have "set (s # xs) \<inter> set (x # t # ys) = {}"
    using rep_distinct[OF assms(1)] assms(3) by auto
  ultimately show ?thesis
    using h1 by blast
qed

end

lemma dll_next_head: "dll h s xs \<Longrightarrow> get_next h s = Some (hd (xs @ [s]))"
  by (cases xs) (auto simp: dll_def edge_def)

lemma dll_next_node: "dll h s (xs @ x # ys) \<Longrightarrow> get_next h x = Some (hd (ys @ [s]))"
  by (cases ys) (auto simp: dll_def seg_append edge_def)

interpretation ll: linked_lists dll dom addToList removeFromList get_next
proof (unfold_locales, goal_cases)
  case (5 h s xs ys x)
  then obtain h' where "addToList x (hd (ys @ [s])) h = Some h'" "dll h' s (xs @ x # ys)"
      "dom h' = dom h" "\<forall>a. a \<notin> set (x # s # xs @ ys) \<longrightarrow> h' a = h a"
    using dll_add[of h s xs ys x "hd (ys @ [s])"] by blast
  then show ?case
    by (metis (no_types, lifting) dll_frame disjoint_iff)
next
  case (6 h s xs x ys)
  then obtain h' where "removeFromList x h = Some h'" "dll h' s (xs @ ys)" "dom h' = dom h"
      "\<forall>a. a \<notin> set (s # xs @ x # ys) \<longrightarrow> h' a = h a"
    using dll_remove[of h s xs x ys] by blast
  then show ?case
    by (metis (no_types, lifting) dll_frame disjoint_iff)
next
  case (1 h s xs)
  then show ?case by (rule dll_dom)
next
  case (3 h s xs)
  then show ?case by (rule dll_next_head)
next
  case (4 h s xs x ys)
  then show ?case by (rule dll_next_node)
qed (simp add: dll_def)

end
