(* ===== verification/Event_Loop.thy ===== *)
theory Event_Loop
  imports Linked_List "HOL-Library.Signed_Division"
begin

text \<open>
  The event loop of \<open>upil_event/upil_event.c\<close> and its wrapper
  \<open>upil_event/upil_event_wrapper.c\<close>: timers kept sorted by their time-out, watched
  file descriptors, and the list of pending events whose callbacks \<open>firePending\<close> runs.

  The context record has the fields of \<open>upile_context\<close>; the two linked lists are
  given by the addresses they hold (\<open>Linked_List\<close> proves that the pointer code
  implements exactly these list operations, and the last sections here do the same for
  the two loops that walk the links), and \<open>evs\<close> holds the event structures.
  \<open>clock\<close> is what \<open>getNow\<close> reads.
\<close>

section \<open>Time\<close>

datatype timeval = TV (tv_sec: int) (tv_usec: int)

text \<open>The macro \<open>timercmp\<close>; with \<open><\<close> it is the order of the time values.\<close>

definition timercmp :: "timeval \<Rightarrow> timeval \<Rightarrow> (int \<Rightarrow> int \<Rightarrow> bool) \<Rightarrow> bool" where
  "timercmp a b op =
     (if tv_sec a = tv_sec b then op (tv_usec a) (tv_usec b) else op (tv_sec a) (tv_sec b))"

instantiation timeval :: linorder
begin

definition less_eq_timeval :: "timeval \<Rightarrow> timeval \<Rightarrow> bool" where
  "less_eq_timeval a b \<longleftrightarrow> tv_sec a < tv_sec b \<or> tv_sec a = tv_sec b \<and> tv_usec a \<le> tv_usec b"

definition less_timeval :: "timeval \<Rightarrow> timeval \<Rightarrow> bool" where
  "less_timeval a b \<longleftrightarrow> timercmp a b (<)"

instance
proof
  fix x y z :: timeval
  show "(x < y) = (x \<le> y \<and> \<not> y \<le> x)"
    by (auto simp: less_timeval_def timercmp_def less_eq_timeval_def)
  show "x \<le> x"
    by (simp add: less_eq_timeval_def)
  show "x \<le> y \<Longrightarrow> y \<le> z \<Longrightarrow> x \<le> z"
    by (auto simp: less_eq_timeval_def)
  show "x \<le> y \<Longrightarrow> y \<le> x \<Longrightarrow> x = y"
    by (cases x; cases y) (auto simp: less_eq_timeval_def)
  show "x \<le> y \<or> y \<le> x"
    by (auto simp: less_eq_timeval_def)
qed

end

text \<open>The macros \<open>timeradd\<close> and \<open>timersub\<close>.\<close>

definition timeradd :: "timeval \<Rightarrow> timeval \<Rightarrow> timeval" where
  "timeradd a b =
     (let sec = tv_sec a + tv_sec b; usec = tv_usec a + tv_usec b
      in if usec \<ge> 1000000 then TV (sec + 1) (usec - 1000000) else TV sec usec)"

definition timersub :: "timeval \<Rightarrow> timeval \<Rightarrow> timeval" where
  "timersub a b =
     (let sec = tv_sec a - tv_sec b; usec = tv_usec a - tv_usec b
      in if usec < 0 then TV (sec - 1) (usec + 1000000) else TV sec usec)"

text \<open>A normalised value has less than a second in its microseconds.\<close>

definition tv_ok :: "timeval \<Rightarrow> bool" where
  "tv_ok t \<longleftrightarrow> 0 \<le> tv_usec t \<and> tv_usec t < 1000000"

definition usecs :: "timeval \<Rightarrow> int" where
  "usecs t = tv_sec t * 1000000 + tv_usec t"

lemma usecs_less: "tv_ok a \<Longrightarrow> tv_ok b \<Longrightarrow> usecs a < usecs b \<longleftrightarrow> a < b"
  by (auto simp: usecs_def tv_ok_def less_timeval_def timercmp_def)

lemma usecs_timeradd [simp]: "usecs (timeradd a b) = usecs a + usecs b"
  by (simp add: usecs_def timeradd_def Let_def)

lemma usecs_timersub [simp]: "usecs (timersub a b) = usecs a - usecs b"
  by (simp add: usecs_def timersub_def Let_def)

lemma tv_ok_timeradd: "tv_ok a \<Longrightarrow> tv_ok b \<Longrightarrow> tv_ok (timeradd a b)"
  by (auto simp: tv_ok_def timeradd_def Let_def)

lemma tv_ok_timersub: "tv_ok a \<Longrightarrow> tv_ok b \<Longrightarrow> tv_ok (timersub a b)"
  by (auto simp: tv_ok_def timersub_def Let_def)

section \<open>Events and the context\<close>

text \<open>The callbacks that the program installs in event structures.\<close>

datatype upil_event_cb =
    CbNone
  | CbWakeup
  | CbMessage
  | CbDevice
  | CbCmdListen
  | CbCmdCommands
  | CbMonListen
  | CbMonMonitor
  | CbRilListen
  | CbRilCommands

record upil_event =
  ev_fd :: int
  ev_index :: int
  ev_persist :: int
  ev_timeout :: timeval
  ev_func :: upil_event_cb
  ev_param :: addr

record upile_context =
  readFds :: "int set"
  nfds :: int
  watch_table :: "addr option list"
  timer_list :: "addr list"
  pending_list :: "addr list"
  evs :: "addr \<Rightarrow> upil_event option"
  clock :: timeval

definition MAX_FD_EVENTS :: nat where
  "MAX_FD_EVENTS = 16"

text \<open>\<open>FD_SET\<close> and \<open>FD_CLR\<close> are defined for descriptors below \<open>FD_SETSIZE\<close>.\<close>

definition fd_ok :: "int \<Rightarrow> bool" where
  "fd_ok d \<longleftrightarrow> 0 \<le> d \<and> d < 1024"

definition linked :: "addr \<Rightarrow> 'a upile_context_scheme \<Rightarrow> bool" where
  "linked ev c \<longleftrightarrow> ev \<in> set (timer_list c) \<or> ev \<in> set (pending_list c)"

section \<open>Operations\<close>

text \<open>\<open>removeFromList\<close> on the context: takes the event out of the list it is in.  An
  event that is in no list has NULL links, which the C code dereferences.\<close>

definition unlink :: "addr \<Rightarrow> 'a upile_context_scheme \<Rightarrow> 'a upile_context_scheme option" where
  "unlink ev c =
     (if linked ev c
      then Some (c\<lparr>timer_list := remove1 ev (timer_list c),
                  pending_list := remove1 ev (pending_list c)\<rparr>)
      else None)"

text \<open>\<open>addToList(ev, &pending_list)\<close>; a node that is still linked would tear its list.\<close>

definition link_pending :: "addr \<Rightarrow> 'a upile_context_scheme \<Rightarrow> 'a upile_context_scheme option" where
  "link_pending ev c =
     (if linked ev c then None else Some (c\<lparr>pending_list := pending_list c @ [ev]\<rparr>))"

definition upil_event_init :: "'a upile_context_scheme \<Rightarrow> 'a upile_context_scheme" where
  "upil_event_init c =
     c\<lparr>readFds := {}, timer_list := [], pending_list := [],
       watch_table := replicate MAX_FD_EVENTS None, nfds := 0\<rparr>"

text \<open>\<open>upil_event_set\<close> clears the whole structure, its links included.\<close>

definition upil_event_set ::
    "addr \<Rightarrow> int \<Rightarrow> int \<Rightarrow> upil_event_cb \<Rightarrow> addr \<Rightarrow> 'a upile_context_scheme
       \<Rightarrow> 'a upile_context_scheme option" where
  "upil_event_set ev d pers f p c =
     (if linked ev c then None
      else Some (c\<lparr>evs := (evs c)(ev \<mapsto>
             \<lparr>ev_fd = d, ev_index = -1, ev_persist = pers, ev_timeout = TV 0 0, ev_func = f, ev_param = p\<rparr>)\<rparr>))"

text \<open>The loop of \<open>removeWatch\<close> over the watch table: the largest descriptor still watched.\<close>

fun max_watched_fd :: "(addr \<Rightarrow> upil_event option) \<Rightarrow> addr option list \<Rightarrow> int \<Rightarrow> int option" where
  "max_watched_fd es [] n = Some n"
| "max_watched_fd es (None # ws) n = max_watched_fd es ws n"
| "max_watched_fd es (Some rv # ws) n =
     do { r \<leftarrow> es rv; max_watched_fd es ws (if ev_fd r > n then ev_fd r else n) }"

definition removeWatch ::
    "addr \<Rightarrow> nat \<Rightarrow> 'a upile_context_scheme \<Rightarrow> 'a upile_context_scheme option" where
  "removeWatch ev i c = do {
     e \<leftarrow> evs c ev;
     let c = c\<lparr>watch_table := (watch_table c)[i := None], evs := (evs c)(ev \<mapsto> e\<lparr>ev_index := -1\<rparr>)\<rparr>;
     if \<not> fd_ok (ev_fd e) then None
     else do {
       let c = c\<lparr>readFds := readFds c - {ev_fd e}\<rparr>;
       if ev_fd e + 1 = nfds c
       then do { n \<leftarrow> max_watched_fd (evs c) (watch_table c) 0; Some (c\<lparr>nfds := n + 1\<rparr>) }
       else Some c } }"

fun first_free :: "addr option list \<Rightarrow> nat option" where
  "first_free [] = None"
| "first_free (None # ws) = Some 0"
| "first_free (Some _ # ws) = map_option Suc (first_free ws)"

definition upil_event_add :: "addr \<Rightarrow> 'a upile_context_scheme \<Rightarrow> 'a upile_context_scheme option" where
  "upil_event_add ev c =
     (case first_free (watch_table c) of
        None \<Rightarrow> Some c
      | Some i \<Rightarrow>
          do { e \<leftarrow> evs c ev;
               if \<not> fd_ok (ev_fd e) then None
               else Some (c\<lparr>watch_table := (watch_table c)[i := Some ev],
                           evs := (evs c)(ev \<mapsto> e\<lparr>ev_index := int i\<rparr>),
                           readFds := insert (ev_fd e) (readFds c),
                           nfds := (if ev_fd e \<ge> nfds c then ev_fd e + 1 else nfds c)\<rparr>) })"

definition timeout_of :: "'a upile_context_scheme \<Rightarrow> addr \<Rightarrow> timeval" where
  "timeout_of c a = (case evs c a of Some e \<Rightarrow> ev_timeout e | None \<Rightarrow> TV 0 0)"

text \<open>The walk of \<open>upil_timer_add\<close>: in front of the first timer that is not earlier.\<close>

fun timer_insert :: "(addr \<Rightarrow> timeval) \<Rightarrow> addr \<Rightarrow> addr list \<Rightarrow> addr list" where
  "timer_insert t ev [] = [ev]"
| "timer_insert t ev (l # ls) = (if t l < t ev then l # timer_insert t ev ls else ev # l # ls)"

definition upil_timer_add ::
    "addr \<Rightarrow> timeval option \<Rightarrow> 'a upile_context_scheme \<Rightarrow> 'a upile_context_scheme option" where
  "upil_timer_add ev tv c =
     (case tv of None \<Rightarrow> Some c
      | Some d \<Rightarrow>
          do { e \<leftarrow> evs c ev;
               if linked ev c then None
               else (let c = c\<lparr>evs := (evs c)(ev \<mapsto> e\<lparr>ev_fd := -1, ev_timeout := timeradd (clock c) d\<rparr>)\<rparr>
                     in Some (c\<lparr>timer_list := timer_insert (timeout_of c) ev (timer_list c)\<rparr>)) })"

definition upil_timer_del :: "addr \<Rightarrow> 'a upile_context_scheme \<Rightarrow> 'a upile_context_scheme option" where
  "upil_timer_del ev c = unlink ev c"

definition upil_event_del :: "addr \<Rightarrow> 'a upile_context_scheme \<Rightarrow> 'a upile_context_scheme option" where
  "upil_event_del ev c = do {
     e \<leftarrow> evs c ev;
     if ev_index e < 0 \<or> ev_index e \<ge> int MAX_FD_EVENTS then Some c
     else removeWatch ev (nat (ev_index e)) c }"

text \<open>\<open>processTimeouts\<close>: the timers that have expired move to the pending list, in order.\<close>

fun move_expired :: "addr list \<Rightarrow> 'a upile_context_scheme \<Rightarrow> 'a upile_context_scheme option" where
  "move_expired [] c = Some c"
| "move_expired (tev # rest) c =
     (if clock c > timeout_of c tev
      then do { c \<leftarrow> unlink tev c; c \<leftarrow> link_pending tev c; move_expired rest c }
      else Some c)"

definition processTimeouts :: "'a upile_context_scheme \<Rightarrow> 'a upile_context_scheme option" where
  "processTimeouts c = move_expired (timer_list c) c"

text \<open>\<open>processReadReadies\<close>: the watched descriptors that \<open>select\<close> reported, at most
  \<open>n\<close> of them, become pending; those that are not persistent are no longer watched.\<close>

function ready_loop ::
    "int set \<Rightarrow> nat \<Rightarrow> int \<Rightarrow> 'a upile_context_scheme \<Rightarrow> 'a upile_context_scheme option" where
  "ready_loop rfds i n c =
     (if i < MAX_FD_EVENTS \<and> n > 0
      then (case watch_table c ! i of
              None \<Rightarrow> ready_loop rfds (Suc i) n c
            | Some rv \<Rightarrow>
                do { r \<leftarrow> evs c rv;
                     if ev_fd r \<in> rfds
                     then do { c \<leftarrow> link_pending rv c;
                               c \<leftarrow> (if ev_persist r = 0 then removeWatch rv i c else Some c);
                               ready_loop rfds (Suc i) (n - 1) c }
                     else ready_loop rfds (Suc i) n c })
      else Some c)"
  by pat_completeness auto
termination
  by (relation "measure (\<lambda>(rfds, i, n, c). MAX_FD_EVENTS - i)") auto

declare ready_loop.simps [simp del]

definition processReadReadies ::
    "int set \<Rightarrow> int \<Rightarrow> 'a upile_context_scheme \<Rightarrow> 'a upile_context_scheme option" where
  "processReadReadies rfds n c = ready_loop rfds 0 n c"

text \<open>
  \<open>firePending\<close>.  \<open>next\<close> is read before the callback runs; \<open>cb\<close> is what
  \<open>ev->func(ev->fd, 0, ev->param)\<close> does.  The cursor \<open>None\<close> is the sentinel.
\<close>

fun succ_in :: "addr \<Rightarrow> addr list \<Rightarrow> addr option option" where
  "succ_in a [] = None"
| "succ_in a (x # xs) = (if x = a then Some (case xs of [] \<Rightarrow> None | y # _ \<Rightarrow> Some y) else succ_in a xs)"

type_synonym 'c callback = "upil_event \<Rightarrow> 'c \<Rightarrow> (int \<times> 'c) option"

partial_function (option) fire_loop ::
    "('a upile_context_scheme) callback \<Rightarrow> addr option \<Rightarrow> 'a upile_context_scheme
       \<Rightarrow> (int \<times> 'a upile_context_scheme) option" where
  "fire_loop cb cur c =
     (case cur of None \<Rightarrow> Some (0, c)
      | Some ev \<Rightarrow>
          do { e \<leftarrow> evs c ev;
               nx \<leftarrow> succ_in ev (pending_list c);
               c \<leftarrow> unlink ev c;
               (ret, c) \<leftarrow> cb e c;
               if ret < 0 then Some (ret, c) else fire_loop cb nx c })"

definition firePending ::
    "('a upile_context_scheme) callback \<Rightarrow> 'a upile_context_scheme
       \<Rightarrow> (int \<times> 'a upile_context_scheme) option" where
  "firePending cb c =
     fire_loop cb (case pending_list c of [] \<Rightarrow> None | ev # _ \<Rightarrow> Some ev) c"

text \<open>\<open>calcNextTimeout\<close>: \<open>None\<close> is the return value -1 (no timer).\<close>

definition calcNextTimeout :: "'a upile_context_scheme \<Rightarrow> timeval option" where
  "calcNextTimeout c =
     (case timer_list c of [] \<Rightarrow> None
      | tev # _ \<Rightarrow>
          Some (if timeout_of c tev > clock c then timersub (timeout_of c tev) (clock c) else TV 0 0))"

text \<open>
  One turn of \<open>upil_event_loop\<close>.  The environment of the turn says what \<open>select\<close>
  returns, the descriptors it leaves in the set, whether a failure is \<open>EINTR\<close>, and the
  time at which it returns.  The result says whether the loop goes on.
\<close>

record select_result =
  sel_n :: int
  sel_rfds :: "int set"
  sel_eintr :: bool
  sel_clock :: timeval

definition upil_event_loop_turn ::
    "('a upile_context_scheme) callback \<Rightarrow> select_result \<Rightarrow> 'a upile_context_scheme
       \<Rightarrow> (bool \<times> 'a upile_context_scheme) option" where
  "upil_event_loop_turn cb sel c = do {
     let c = c\<lparr>clock := sel_clock sel\<rparr>;
     if sel_n sel < 0 then Some (sel_eintr sel, c)
     else do {
       c \<leftarrow> processTimeouts c;
       c \<leftarrow> processReadReadies (sel_rfds sel) (sel_n sel) c;
       (ret, c) \<leftarrow> firePending cb c;
       Some (\<not> ret < 0, c) } }"

fun upil_event_loop ::
    "('a upile_context_scheme) callback \<Rightarrow> select_result list \<Rightarrow> 'a upile_context_scheme
       \<Rightarrow> (bool \<times> 'a upile_context_scheme) option" where
  "upil_event_loop cb [] c = Some (True, c)"
| "upil_event_loop cb (sel # sels) c = do {
     (goes_on, c) \<leftarrow> upil_event_loop_turn cb sel c;
     if goes_on then upil_event_loop cb sels c else Some (False, c) }"

section \<open>The wrapper\<close>

text \<open>
  \<open>uew_context\<close>: the wake-up pipe is the number of bytes in it; \<open>in_loop_thread\<close>
  is \<open>pthread_equal(pthread_self(), tid_dispatch)\<close> for the thread that runs.
\<close>

record uew_context = upile_context +
  fdWakeupRead :: int
  fdWakeupWrite :: int
  wakeupfd_event :: addr
  pipe_bytes :: nat
  in_loop_thread :: bool

definition triggerEvLoop :: "'a uew_context_scheme \<Rightarrow> 'a uew_context_scheme" where
  "triggerEvLoop c = (if in_loop_thread c then c else c\<lparr>pipe_bytes := pipe_bytes c + 1\<rparr>)"

definition processWakeupCallback :: "'a uew_context_scheme \<Rightarrow> int \<times> 'a uew_context_scheme" where
  "processWakeupCallback c = (0, c\<lparr>pipe_bytes := 0\<rparr>)"

definition uew_event_add_wakeup :: "addr \<Rightarrow> 'a uew_context_scheme \<Rightarrow> 'a uew_context_scheme option" where
  "uew_event_add_wakeup ev c = do { c \<leftarrow> upil_event_add ev c; Some (triggerEvLoop c) }"

definition uew_timer_add_wakeup ::
    "addr \<Rightarrow> int \<Rightarrow> 'a uew_context_scheme \<Rightarrow> 'a uew_context_scheme option" where
  "uew_timer_add_wakeup ev msec c = do {
     let relativeTime = TV (msec sdiv 1000) ((msec smod 1000) * 1000);
     c \<leftarrow> upil_timer_add ev (Some relativeTime) c;
     Some (triggerEvLoop c) }"

definition uew_event_del ::
    "addr \<Rightarrow> bool \<Rightarrow> 'a uew_context_scheme \<Rightarrow> 'a uew_context_scheme option" where
  "uew_event_del ev is_timer c = (if is_timer then upil_timer_del ev c else upil_event_del ev c)"

definition uew_event_set ::
    "addr \<Rightarrow> int \<Rightarrow> int \<Rightarrow> upil_event_cb \<Rightarrow> addr \<Rightarrow> 'a uew_context_scheme
       \<Rightarrow> 'a uew_context_scheme option" where
  "uew_event_set ev d pers f p c = upil_event_set ev d pers f p c"

text \<open>The start of the loop's thread (\<open>eventLoop\<close>) up to the loop; \<open>filedes\<close> is what
  \<open>pipe\<close> returns, \<open>None\<close> its failure, after which the thread ends.\<close>

definition eventLoop_start ::
    "(int \<times> int) option \<Rightarrow> 'a uew_context_scheme \<Rightarrow> (bool \<times> 'a uew_context_scheme) option" where
  "eventLoop_start filedes c = do {
     let c = upil_event_init c;
     case filedes of
       None \<Rightarrow> Some (False, c)
     | Some (r, w) \<Rightarrow> do {
         let c = c\<lparr>fdWakeupRead := r, fdWakeupWrite := w, pipe_bytes := 0\<rparr>;
         c \<leftarrow> upil_event_set (wakeupfd_event c) (fdWakeupRead c) 1 CbWakeup 0 c;
         c \<leftarrow> uew_event_add_wakeup (wakeupfd_event c) c;
         Some (True, c) } }"

text \<open>
  \<open>uew_startEventLoop\<close> waits until the new thread has set \<open>s_started\<close>;
  \<open>created\<close> is what \<open>pthread_create\<close> returns.  When no thread was created nobody
  ends the wait, and the function does not return (\<open>None\<close>).
\<close>

definition uew_startEventLoop ::
    "int \<Rightarrow> (int \<times> int) option \<Rightarrow> 'a uew_context_scheme \<Rightarrow> (int \<times> 'a uew_context_scheme) option" where
  "uew_startEventLoop created filedes c =
     (if created \<noteq> 0 then None
      else do {
        (running, c) \<leftarrow> eventLoop_start filedes c;
        Some (if created < 0 then -1 else 0, c) })"

section \<open>Invariants\<close>

text \<open>
  Every linked event is allocated and linked once, and the timers are in the order of
  their time-outs.
\<close>

definition timers_inv :: "'a upile_context_scheme \<Rightarrow> bool" where
  "timers_inv c \<longleftrightarrow>
     distinct (timer_list c @ pending_list c) \<and>
     (\<forall>a\<in>set (timer_list c @ pending_list c). evs c a \<noteq> None) \<and>
     sorted (map (timeout_of c) (timer_list c))"

text \<open>
  The watch table has its 16 slots; the event in slot \<open>i\<close> is allocated, carries the index
  \<open>i\<close> and a descriptor of its own; \<open>readFds\<close> is the set of the watched descriptors
  and \<open>nfds\<close>, the first argument of \<open>select\<close>, is above all of them.
\<close>

definition watched :: "'a upile_context_scheme \<Rightarrow> nat \<Rightarrow> upil_event \<Rightarrow> bool" where
  "watched c i e \<longleftrightarrow>
     i < length (watch_table c) \<and> (\<exists>a. watch_table c ! i = Some a \<and> evs c a = Some e)"

definition watch_inv :: "'a upile_context_scheme \<Rightarrow> bool" where
  "watch_inv c \<longleftrightarrow>
     length (watch_table c) = MAX_FD_EVENTS \<and>
     (\<forall>i<length (watch_table c). \<forall>a. watch_table c ! i = Some a \<longrightarrow> (\<exists>e. evs c a = Some e)) \<and>
     (\<forall>i e. watched c i e \<longrightarrow> ev_index e = int i \<and> fd_ok (ev_fd e) \<and> ev_fd e < nfds c) \<and>
     (\<forall>i j e e'. watched c i e \<longrightarrow> watched c j e' \<longrightarrow> ev_fd e = ev_fd e' \<longrightarrow> i = j) \<and>
     readFds c = {ev_fd e |i e. watched c i e}"

lemma timer_insert_insort: "timer_insert t ev ls = insort_key t ev ls"
  by (induction ls) (auto simp: not_less)

lemma set_timer_insert [simp]: "set (timer_insert t ev ls) = insert ev (set ls)"
  by (simp add: timer_insert_insort set_insort_key)

lemma distinct_timer_insert [simp]:
  "distinct (timer_insert t ev ls) \<longleftrightarrow> ev \<notin> set ls \<and> distinct ls"
  by (simp add: timer_insert_insort distinct_insort)

lemma timeout_of_evs: "evs c' = evs c \<Longrightarrow> timeout_of c' = timeout_of c"
  by (intro ext) (simp add: timeout_of_def)

lemma timeout_of_updates [simp]:
  "timeout_of (c\<lparr>timer_list := ts\<rparr>) = timeout_of c"
  "timeout_of (c\<lparr>pending_list := ps\<rparr>) = timeout_of c"
  "timeout_of (c\<lparr>watch_table := w\<rparr>) = timeout_of c"
  "timeout_of (c\<lparr>readFds := r\<rparr>) = timeout_of c"
  "timeout_of (c\<lparr>nfds := n\<rparr>) = timeout_of c"
  "timeout_of (c\<lparr>clock := t\<rparr>) = timeout_of c"
  by (rule timeout_of_evs; simp)+

lemma timeout_of_evs_upd [simp]:
  "timeout_of (c\<lparr>evs := (evs c)(a \<mapsto> e)\<rparr>) = (timeout_of c)(a := ev_timeout e)"
  by (intro ext) (simp add: timeout_of_def)

lemma timer_insert_cong:
  "t ev = t' ev \<Longrightarrow> (\<And>a. a \<in> set ls \<Longrightarrow> t a = t' a) \<Longrightarrow> timer_insert t ev ls = timer_insert t' ev ls"
  by (induction ls) auto

subsection \<open>Timers\<close>

lemma upil_timer_add_effect:
  assumes "evs c ev = Some e" and "\<not> linked ev c"
  shows "upil_timer_add ev (Some d) c =
    (let e' = e\<lparr>ev_fd := -1, ev_timeout := timeradd (clock c) d\<rparr>;
         t = (timeout_of c)(ev := timeradd (clock c) d)
     in Some (c\<lparr>evs := (evs c)(ev \<mapsto> e'), timer_list := insort_key t ev (timer_list c)\<rparr>))"
proof -
  let ?c = "c\<lparr>evs := (evs c)(ev \<mapsto> e\<lparr>ev_fd := -1, ev_timeout := timeradd (clock c) d\<rparr>)\<rparr>"
  have "timeout_of ?c = (timeout_of c)(ev := timeradd (clock c) d)"
    by simp
  then show ?thesis
    using assms by (simp add: upil_timer_add_def Let_def timer_insert_insort)
qed

lemma upil_timer_add_inv:
  assumes inv: "timers_inv c" and ev: "evs c ev = Some e" "\<not> linked ev c"
  shows "\<exists>c'. upil_timer_add ev (Some d) c = Some c' \<and> timers_inv c'
    \<and> set (timer_list c') = insert ev (set (timer_list c)) \<and> pending_list c' = pending_list c
    \<and> timeout_of c' ev = timeradd (clock c) d"
proof -
  let ?t = "(timeout_of c)(ev := timeradd (clock c) d)"
  let ?c' = "c\<lparr>evs := (evs c)(ev \<mapsto> e\<lparr>ev_fd := -1, ev_timeout := timeradd (clock c) d\<rparr>),
               timer_list := insort_key ?t ev (timer_list c)\<rparr>"
  have t: "timeout_of ?c' = ?t"
    by simp
  have new: "ev \<notin> set (timer_list c)" "ev \<notin> set (pending_list c)"
    using ev(2) by (auto simp: linked_def)
  then have m: "map ?t (timer_list c) = map (timeout_of c) (timer_list c)"
    by auto
  have "sorted (map (timeout_of c) (timer_list c))"
    using inv by (simp add: timers_inv_def)
  then have "sorted (map ?t (insort_key ?t ev (timer_list c)))"
    by (simp only: sorted_insort_key m)
  then have "timers_inv ?c'"
    using inv new t by (auto simp: timers_inv_def set_insort_key distinct_insort)
  then show ?thesis
    using upil_timer_add_effect[OF ev] t by (simp add: Let_def set_insort_key)
qed

lemma unlink_inv:
  assumes "timers_inv c" and "linked ev c"
  shows "\<exists>c'. unlink ev c = Some c' \<and> timers_inv c' \<and> \<not> linked ev c' \<and> evs c' = evs c"
proof -
  let ?c' = "c\<lparr>timer_list := remove1 ev (timer_list c), pending_list := remove1 ev (pending_list c)\<rparr>"
  have d: "distinct (timer_list c)" "distinct (pending_list c)"
      "set (timer_list c) \<inter> set (pending_list c) = {}"
    using assms(1) by (auto simp: timers_inv_def)
  have "sorted (map (timeout_of c) (remove1 ev (timer_list c)))"
    using assms(1) by (simp add: timers_inv_def sorted_map_remove1)
  moreover have "timeout_of ?c' = timeout_of c"
    by simp
  ultimately have "timers_inv ?c'"
    using assms(1) d by (auto simp: timers_inv_def)
  moreover have "\<not> linked ev ?c'"
    using d by (simp add: linked_def)
  ultimately show ?thesis
    using assms(2) by (simp add: unlink_def)
qed

text \<open>\<open>processTimeouts\<close> takes the longest prefix of expired timers.\<close>

lemma move_expired_effect:
  assumes "timer_list c = rest" and "distinct (rest @ pending_list c)"
  shows "move_expired rest c =
    Some (c\<lparr>timer_list := dropWhile (\<lambda>a. timeout_of c a < clock c) rest,
            pending_list := pending_list c @ takeWhile (\<lambda>a. timeout_of c a < clock c) rest\<rparr>)"
  using assms
proof (induction rest arbitrary: c)
  case Nil
  then show ?case by (cases c) simp
next
  case (Cons tev rest)
  show ?case
  proof (cases "timeout_of c tev < clock c")
    case True
    let ?c = "c\<lparr>timer_list := rest, pending_list := pending_list c @ [tev]\<rparr>"
    have u: "unlink tev c = Some (c\<lparr>timer_list := rest, pending_list := pending_list c\<rparr>)"
      using Cons.prems by (simp add: unlink_def linked_def remove1_idem)
    have l: "link_pending tev (c\<lparr>timer_list := rest, pending_list := pending_list c\<rparr>) = Some ?c"
      using Cons.prems by (simp add: link_pending_def linked_def)
    have "move_expired rest ?c =
      Some (?c\<lparr>timer_list := dropWhile (\<lambda>a. timeout_of ?c a < clock ?c) rest,
             pending_list := pending_list ?c @ takeWhile (\<lambda>a. timeout_of ?c a < clock ?c) rest\<rparr>)"
      using Cons.prems by (intro Cons.IH) auto
    then show ?thesis
      using True u l by simp
  next
    case False
    then show ?thesis
      using Cons.prems by (cases c) simp
  qed
qed

lemma processTimeouts_effect:
  assumes "timers_inv c"
  shows "processTimeouts c =
    Some (c\<lparr>timer_list := dropWhile (\<lambda>a. timeout_of c a < clock c) (timer_list c),
            pending_list := pending_list c @ takeWhile (\<lambda>a. timeout_of c a < clock c) (timer_list c)\<rparr>)"
  unfolding processTimeouts_def
  using assms by (intro move_expired_effect) (auto simp: timers_inv_def)

lemma sorted_takeWhile_less:
  assumes "sorted (map f xs)"
  shows "set (takeWhile (\<lambda>a. f a < k) xs) = {a \<in> set xs. f a < (k::'b::linorder)}"
    and "set (dropWhile (\<lambda>a. f a < k) xs) = {a \<in> set xs. k \<le> f a}"
proof -
  have *: "\<forall>a\<in>set (dropWhile (\<lambda>a. f a < k) xs). k \<le> f a"
    using assms
  proof (induction xs)
    case (Cons x xs)
    then show ?case by (cases "f x < k") auto
  qed simp
  have **: "\<forall>a\<in>set (takeWhile (\<lambda>a. f a < k) xs). f a < k"
    by (auto dest: set_takeWhileD)
  have un: "set xs = set (takeWhile (\<lambda>a. f a < k) xs) \<union> set (dropWhile (\<lambda>a. f a < k) xs)"
    by (metis set_append takeWhile_dropWhile_id)
  show "set (takeWhile (\<lambda>a. f a < k) xs) = {a \<in> set xs. f a < k}"
    using un * ** leD by blast
  show "set (dropWhile (\<lambda>a. f a < k) xs) = {a \<in> set xs. k \<le> f a}"
    using un * ** leD by blast
qed

lemma processTimeouts_inv:
  assumes inv: "timers_inv c"
  shows "\<exists>c'. processTimeouts c = Some c' \<and> timers_inv c'
    \<and> pending_list c' = pending_list c @ filter (\<lambda>a. timeout_of c a < clock c) (timer_list c)
    \<and> set (timer_list c') = {a \<in> set (timer_list c). clock c \<le> timeout_of c a}"
proof -
  let ?P = "\<lambda>a. timeout_of c a < clock c"
  let ?xs = "timer_list c"
  have srt: "sorted (map (timeout_of c) ?xs)"
    using inv by (simp add: timers_inv_def)
  have drop: "set (dropWhile ?P ?xs) = {a \<in> set ?xs. clock c \<le> timeout_of c a}"
    by (rule sorted_takeWhile_less(2)[OF srt])
  have "filter ?P ?xs = filter ?P (takeWhile ?P ?xs @ dropWhile ?P ?xs)"
    by simp
  also have "\<dots> = filter ?P (takeWhile ?P ?xs) @ filter ?P (dropWhile ?P ?xs)"
    by (rule filter_append)
  also have "filter ?P (dropWhile ?P ?xs) = []"
    using drop by (auto simp: filter_empty_conv)
  also have "filter ?P (takeWhile ?P ?xs) = takeWhile ?P ?xs"
    by (auto simp: filter_id_conv dest: set_takeWhileD)
  finally have flt: "takeWhile ?P ?xs = filter ?P ?xs"
    by simp
  let ?c' = "c\<lparr>timer_list := dropWhile ?P ?xs, pending_list := pending_list c @ takeWhile ?P ?xs\<rparr>"
  have "set (takeWhile ?P ?xs) \<inter> set (dropWhile ?P ?xs) = {}"
    using drop by (auto dest: set_takeWhileD)
  moreover have "sorted (map (timeout_of c) (dropWhile ?P ?xs))"
    using srt by (simp add: sorted_map sorted_wrt_dropWhile)
  ultimately have "timers_inv ?c'"
    using inv by (auto simp: timers_inv_def dest: set_takeWhileD set_dropWhileD)
  then show ?thesis
    using processTimeouts_effect[OF inv] drop flt by simp
qed

subsection \<open>Pending events\<close>

text \<open>What firing a list of events means: their callbacks, in order, until one fails.\<close>

fun run_callbacks ::
    "('a upile_context_scheme) callback \<Rightarrow> addr list \<Rightarrow> 'a upile_context_scheme
       \<Rightarrow> (int \<times> 'a upile_context_scheme) option" where
  "run_callbacks cb [] c = Some (0, c)"
| "run_callbacks cb (ev # rest) c = do {
     e \<leftarrow> evs c ev;
     (ret, c) \<leftarrow> cb e (c\<lparr>pending_list := rest\<rparr>);
     if ret < 0 then Some (ret, c) else run_callbacks cb rest c }"

text \<open>
  \<open>firePending\<close> remembers the next event before it runs a callback.  It relies on
  callbacks that leave the pending list alone; this is its contract with them.
\<close>

locale quiet_callbacks =
  fixes cb :: "('a upile_context_scheme) callback"
  assumes keeps_pending: "cb e c = Some (ret, c') \<Longrightarrow> pending_list c' = pending_list c"
    and keeps_untimed: "cb e c = Some (ret, c') \<Longrightarrow> a \<in> set (pending_list c) \<Longrightarrow>
      a \<notin> set (timer_list c) \<Longrightarrow> a \<notin> set (timer_list c')"
begin

lemma fire_loop_runs:
  assumes "pending_list c = xs" and "distinct xs" and "set xs \<inter> set (timer_list c) = {}"
  shows "fire_loop cb (case xs of [] \<Rightarrow> None | x # _ \<Rightarrow> Some x) c = run_callbacks cb xs c"
  using assms
proof (induction xs arbitrary: c)
  case Nil
  then show ?case
    by (simp add: fire_loop.simps)
next
  case (Cons ev rest)
  let ?nx = "case rest of [] \<Rightarrow> None | x # _ \<Rightarrow> Some x"
  have "remove1 ev (timer_list c) = timer_list c"
    using Cons.prems(3) by (intro remove1_idem) auto
  then have u: "unlink ev c = Some (c\<lparr>pending_list := rest\<rparr>)"
    using Cons.prems(1) by (cases c) (simp add: unlink_def linked_def)
  have step: "(if ret < 0 then Some (ret, c') else fire_loop cb ?nx c') =
      (if ret < 0 then Some (ret, c') else run_callbacks cb rest c')"
    if "cb e (c\<lparr>pending_list := rest\<rparr>) = Some (ret, c')" for e ret c'
  proof -
    have "pending_list c' = rest"
      using keeps_pending[OF that] by simp
    moreover have "set rest \<inter> set (timer_list c') = {}"
      using keeps_untimed[OF that] Cons.prems(3) by auto
    ultimately show ?thesis
      using Cons.IH[of c'] Cons.prems(2) by simp
  qed
  show ?case
  proof (cases "evs c ev")
    case None
    then show ?thesis
      by (subst fire_loop.simps) simp
  next
    case (Some e)
    show ?thesis
    proof (cases "cb e (c\<lparr>pending_list := rest\<rparr>)")
      case None
      then show ?thesis
        using Some u Cons.prems(1) by (subst fire_loop.simps) simp
    next
      case (Some rc)
      then obtain ret c' where "cb e (c\<lparr>pending_list := rest\<rparr>) = Some (ret, c')"
        by (cases rc) simp
      then show ?thesis
        using \<open>evs c ev = Some e\<close> u Cons.prems(1) step[of e ret c']
        by (subst fire_loop.simps) simp
    qed
  qed
qed

lemma firePending_runs:
  assumes "timers_inv c"
  shows "firePending cb c = run_callbacks cb (pending_list c) c"
  using assms fire_loop_runs[of c] by (auto simp: firePending_def timers_inv_def)

lemma run_callbacks_drains:
  "run_callbacks cb xs c = Some (ret, c') \<Longrightarrow> \<not> ret < 0 \<Longrightarrow> pending_list c = xs \<Longrightarrow> pending_list c' = []"
proof (induction xs arbitrary: c)
  case (Cons ev rest)
  from Cons.prems(1,2) obtain e r c1 where
      "cb e (c\<lparr>pending_list := rest\<rparr>) = Some (r, c1)" "run_callbacks cb rest c1 = Some (ret, c')"
    by (auto simp: bind_eq_Some split: if_splits)
  then show ?case
    using Cons.IH keeps_pending Cons.prems(2) by fastforce
qed simp

end

subsection \<open>Watched descriptors\<close>

lemma max_watched_fd_bound:
  "max_watched_fd es ws n = Some m \<Longrightarrow>
     n \<le> m \<and> (\<forall>a e. Some a \<in> set ws \<longrightarrow> es a = Some e \<longrightarrow> ev_fd e \<le> m)"
proof (induction es ws n rule: max_watched_fd.induct)
  case (3 es rv ws n)
  then obtain r where r: "es rv = Some r"
      "max_watched_fd es ws (if ev_fd r > n then ev_fd r else n) = Some m"
    by (auto simp: bind_eq_Some)
  from 3(1)[OF r] have "(if ev_fd r > n then ev_fd r else n) \<le> m"
      "\<forall>a e. Some a \<in> set ws \<longrightarrow> es a = Some e \<longrightarrow> ev_fd e \<le> m"
    by blast+
  with r(1) show ?case
    by (auto split: if_splits)
qed auto

lemma max_watched_fd_Some:
  "\<forall>a. Some a \<in> set ws \<longrightarrow> es a \<noteq> None \<Longrightarrow> \<exists>m. max_watched_fd es ws n = Some m"
  by (induction es ws n rule: max_watched_fd.induct) auto

lemma first_free_Some:
  "first_free ws = Some i \<Longrightarrow> i < length ws \<and> ws ! i = None \<and> (\<forall>j<i. ws ! j \<noteq> None)"
proof (induction ws arbitrary: i rule: first_free.induct)
  case (3 a ws)
  then show ?case by (auto simp: nth_Cons split: nat.splits)
qed auto

lemma first_free_None: "first_free ws = None \<longleftrightarrow> None \<notin> set ws"
  by (induction ws rule: first_free.induct) auto

lemma watch_inv_init: "watch_inv (upil_event_init c)"
  by (auto simp: watch_inv_def watched_def upil_event_init_def)

lemma watched_table: "watched c i e \<Longrightarrow> \<exists>a. Some a \<in> set (watch_table c) \<and> evs c a = Some e"
  by (metis nth_mem watched_def)

lemma watched_fun: "watched c i e \<Longrightarrow> watched c i e' \<Longrightarrow> e = e'"
  by (auto simp: watched_def)

lemma watched_add:
  assumes "i < length (watch_table c)" and "watch_table c ! i = None"
    and "Some ev \<notin> set (watch_table c)"
  shows "watched (c\<lparr>watch_table := (watch_table c)[i := Some ev], evs := (evs c)(ev \<mapsto> e'),
                   readFds := r, nfds := n\<rparr>) j e \<longleftrightarrow> (if j = i then e = e' else watched c j e)"
proof (cases "j = i")
  case True
  then show ?thesis
    using assms(1) by (auto simp: watched_def)
next
  case False
  have "watch_table c ! j \<noteq> Some ev" if "j < length (watch_table c)"
    using assms(3) that by (metis nth_mem)
  then show ?thesis
    using False by (cases "watch_table c ! j") (auto simp: watched_def)
qed

lemma upil_event_add_inv:
  assumes inv: "watch_inv c" and ev: "evs c ev = Some e" "fd_ok (ev_fd e)"
    and new: "ev_fd e \<notin> readFds c" "Some ev \<notin> set (watch_table c)" and free: "None \<in> set (watch_table c)"
  shows "\<exists>c'. upil_event_add ev c = Some c' \<and> watch_inv c'
           \<and> readFds c' = insert (ev_fd e) (readFds c) \<and> Some ev \<in> set (watch_table c')"
proof -
  obtain i where i: "first_free (watch_table c) = Some i"
    using free first_free_None[of "watch_table c"] by auto
  then have slot: "i < length (watch_table c)" "watch_table c ! i = None"
    using first_free_Some[OF i] by auto
  let ?n = "if ev_fd e \<ge> nfds c then ev_fd e + 1 else nfds c"
  let ?c = "c\<lparr>watch_table := (watch_table c)[i := Some ev], evs := (evs c)(ev \<mapsto> e\<lparr>ev_index := int i\<rparr>),
             readFds := insert (ev_fd e) (readFds c), nfds := ?n\<rparr>"
  note w = watched_add[OF slot new(2)]
  have fds: "readFds c = {ev_fd e |i e. watched c i e}"
    using inv by (simp add: watch_inv_def)
  have old: "ev_fd e' \<noteq> ev_fd e" if "watched c j e'" for j e'
    using that new(1) fds by auto
  have none: "\<not> watched c i e'" for e'
    using slot by (simp add: watched_def)
  have "x \<in> insert (ev_fd e) (readFds c) \<longleftrightarrow> (\<exists>j e'. x = ev_fd e' \<and> watched ?c j e')" for x
  proof
    assume "x \<in> insert (ev_fd e) (readFds c)"
    then consider "x = ev_fd (e\<lparr>ev_index := int i\<rparr>)" | j e' where "x = ev_fd e'" "watched c j e'"
      unfolding fds by auto
    then show "\<exists>j e'. x = ev_fd e' \<and> watched ?c j e'"
      unfolding w using none by cases metis+
  qed (auto simp: fds w split: if_splits)
  then have "insert (ev_fd e) (readFds c) = {ev_fd e' |j e'. watched ?c j e'}"
    by blast
  moreover have "\<forall>j e'. watched ?c j e' \<longrightarrow> ev_index e' = int j \<and> fd_ok (ev_fd e') \<and> ev_fd e' < ?n"
    using inv ev(2) by (fastforce simp: watch_inv_def w split: if_splits)
  moreover have "\<forall>j k a b. watched ?c j a \<longrightarrow> watched ?c k b \<longrightarrow> ev_fd a = ev_fd b \<longrightarrow> j = k"
    using inv old by (fastforce simp: watch_inv_def w split: if_splits)
  moreover have "\<forall>j<length (watch_table ?c). \<forall>a. watch_table ?c ! j = Some a \<longrightarrow> (\<exists>e. evs ?c a = Some e)"
    using inv slot by (auto simp: watch_inv_def nth_list_update split: if_splits)
  ultimately have "watch_inv ?c"
    using inv by (simp add: watch_inv_def)
  moreover have "Some ev \<in> set ((watch_table c)[i := Some ev])"
    using slot by (simp add: set_update_memI)
  ultimately show ?thesis
    using i ev by (simp add: upil_event_add_def)
qed

lemma watch_slot_unique:
  assumes "watch_inv c" and "watched c i e" and "watch_table c ! i = Some ev"
    and "j < length (watch_table c)" and "watch_table c ! j = Some ev"
  shows "j = i"
  using assms by (force simp: watch_inv_def watched_def)

lemma watched_remove:
  assumes inv: "watch_inv c" and i: "watched c i e" and ev: "watch_table c ! i = Some ev"
  shows "watched (c\<lparr>watch_table := (watch_table c)[i := None], evs := (evs c)(ev \<mapsto> e'),
                   readFds := r, nfds := n\<rparr>) j x \<longleftrightarrow> j \<noteq> i \<and> watched c j x"
  using watch_slot_unique[OF inv i ev] i by (auto simp: watched_def nth_list_update)

lemma removeWatch_inv:
  assumes inv: "watch_inv c" and i: "watched c i e" and ev: "watch_table c ! i = Some ev"
  shows "\<exists>c'. removeWatch ev i c = Some c' \<and> watch_inv c'
           \<and> readFds c' = readFds c - {ev_fd e} \<and> watch_table c' = (watch_table c)[i := None]
           \<and> timer_list c' = timer_list c \<and> pending_list c' = pending_list c"
proof -
  have "evs c ev = Some e" "i < length (watch_table c)"
    using i ev by (auto simp: watched_def)
  moreover have "fd_ok (ev_fd e)"
    using inv i unfolding watch_inv_def by blast
  ultimately have e: "evs c ev = Some e" "fd_ok (ev_fd e)" "i < length (watch_table c)"
    by auto
  let ?es = "(evs c)(ev \<mapsto> e\<lparr>ev_index := -1\<rparr>)"
  let ?ws = "(watch_table c)[i := None]"
  let ?r = "readFds c - {ev_fd e}"
  let ?c = "\<lambda>n. c\<lparr>watch_table := ?ws, evs := ?es, readFds := ?r, nfds := n\<rparr>"
  note w = watched_remove[OF inv i ev]
  have fds: "?r = {ev_fd x |j x. watched (?c n) j x}" for n
  proof -
    have r: "readFds c = {ev_fd e |i e. watched c i e}"
        and u: "\<And>j x. watched c j x \<Longrightarrow> ev_fd x = ev_fd e \<longleftrightarrow> j = i"
      using inv i watched_fun[OF i] unfolding watch_inv_def by blast+
    show ?thesis
      unfolding w r by (auto simp: u) (metis u)
  qed
  have tbl: "\<forall>j<length ?ws. \<forall>a. ?ws ! j = Some a \<longrightarrow> (\<exists>x. ?es a = Some x)"
    using inv e by (auto simp: watch_inv_def nth_list_update split: if_splits)
  have mk: "watch_inv (?c n)" if "\<forall>j x. watched (?c n) j x \<longrightarrow> ev_fd x < n" for n
    using inv that fds[of n] tbl by (auto simp: watch_inv_def w)
  show ?thesis
  proof (cases "ev_fd e + 1 = nfds c")
    case True
    have "\<forall>a. Some a \<in> set ?ws \<longrightarrow> ?es a \<noteq> None"
      using tbl by (auto simp: in_set_conv_nth)
    then obtain m where m: "max_watched_fd ?es ?ws 0 = Some m"
      using max_watched_fd_Some by blast
    have "ev_fd x < m + 1" if "watched (?c (m + 1)) j x" for j x
      using watched_table[OF that] max_watched_fd_bound[OF m] by auto
    then have "watch_inv (?c (m + 1))"
      by (intro mk) blast
    then show ?thesis
      using e True m by (simp add: removeWatch_def Let_def)
  next
    case False
    have "\<forall>j x. watched (?c (nfds c)) j x \<longrightarrow> ev_fd x < nfds c"
      unfolding w using inv unfolding watch_inv_def by blast
    then have "watch_inv (?c (nfds c))"
      by (rule mk)
    then show ?thesis
      using e False by (simp add: removeWatch_def Let_def)
  qed
qed

lemma upil_event_del_inv:
  assumes inv: "watch_inv c" and i: "watched c i e" and ev: "watch_table c ! i = Some ev"
  shows "\<exists>c'. upil_event_del ev c = Some c' \<and> watch_inv c' \<and> readFds c' = readFds c - {ev_fd e}"
proof -
  have "ev_index e = int i"
    using inv i unfolding watch_inv_def by blast
  moreover have "evs c ev = Some e" "i < MAX_FD_EVENTS"
    using inv i ev by (auto simp: watch_inv_def watched_def)
  ultimately show ?thesis
    using removeWatch_inv[OF inv i ev] by (auto simp: upil_event_del_def)
qed

section \<open>The loops that walk the links\<close>

text \<open>
  The loop of \<open>processTimeouts\<close> and the walk and insertion of \<open>upil_timer_add\<close> on
  the links themselves: \<open>t\<close> gives the time-outs, \<open>ts\<close> and \<open>ps\<close> are the
  sentinels \<open>timer_list\<close> and \<open>pending_list\<close>.
\<close>

partial_function (option) expire_ptr ::
    "timeval \<Rightarrow> (addr \<Rightarrow> timeval) \<Rightarrow> addr \<Rightarrow> addr \<Rightarrow> addr \<Rightarrow> store \<Rightarrow> store option" where
  "expire_ptr now t ts ps tev h =
     (if tev \<noteq> ts \<and> now > t tev
      then do {
        nx \<leftarrow> get_next h tev;
        h \<leftarrow> removeFromList tev h;
        h \<leftarrow> addToList tev ps h;
        expire_ptr now t ts ps nx h }
      else Some h)"

partial_function (option) timer_walk_ptr ::
    "(addr \<Rightarrow> timeval) \<Rightarrow> addr \<Rightarrow> addr \<Rightarrow> addr \<Rightarrow> store \<Rightarrow> addr option" where
  "timer_walk_ptr t ts ev l h =
     (if t l < t ev \<and> l \<noteq> ts
      then do { nx \<leftarrow> get_next h l; timer_walk_ptr t ts ev nx h }
      else Some l)"

definition timer_add_ptr :: "(addr \<Rightarrow> timeval) \<Rightarrow> addr \<Rightarrow> addr \<Rightarrow> store \<Rightarrow> store option" where
  "timer_add_ptr t ts ev h = do {
     l \<leftarrow> get_next h ts;
     l \<leftarrow> timer_walk_ptr t ts ev l h;
     addToList ev l h }"

lemma expire_ptr_lists:
  assumes "dll h ts xs" and "dll h ps ys" and "set (ts # xs) \<inter> set (ps # ys) = {}"
  shows "\<exists>h'. expire_ptr now t ts ps (hd (xs @ [ts])) h = Some h'
    \<and> dll h' ts (dropWhile (\<lambda>a. t a < now) xs) \<and> dll h' ps (ys @ takeWhile (\<lambda>a. t a < now) xs)"
  using assms
proof (induction xs arbitrary: h ys)
  case Nil
  then show ?case
    by (subst expire_ptr.simps) simp
next
  case (Cons x xs)
  show ?case
  proof (cases "t x < now")
    case True
    obtain h1 h2 where h: "removeFromList x h = Some h1" "addToList x ps h1 = Some h2"
        "dll h2 ts xs" "dll h2 ps (ys @ [x])"
      using ll.move_first[OF Cons.prems] by blast
    have "x \<noteq> ts" "set (ts # xs) \<inter> set (ps # ys @ [x]) = {}"
      using Cons.prems by (auto simp: dll_def)
    moreover have "get_next h x = Some (hd (xs @ [ts]))"
      using ll.next_node[of h ts "[]"] Cons.prems(1) by simp
    ultimately show ?thesis
      using Cons.IH[OF h(3,4)] True h(1,2) by (subst expire_ptr.simps) simp
  next
    case False
    then show ?thesis
      using Cons.prems by (subst expire_ptr.simps) simp
  qed
qed

lemma timer_walk_ptr_finds:
  assumes "dll h ts (as @ bs)"
  shows "\<exists>cs ds. bs = cs @ ds \<and> timer_walk_ptr t ts ev (hd (bs @ [ts])) h = Some (hd (ds @ [ts]))
    \<and> timer_insert t ev bs = cs @ ev # ds"
  using assms
proof (induction bs arbitrary: as)
  case Nil
  then show ?case
    by (subst timer_walk_ptr.simps) simp
next
  case (Cons b bs)
  show ?case
  proof (cases "t b < t ev")
    case True
    have "b \<noteq> ts" "get_next h b = Some (hd (bs @ [ts]))"
      using Cons.prems ll.next_node[OF Cons.prems] by (auto simp: dll_def)
    moreover obtain cs ds where "bs = cs @ ds"
        "timer_walk_ptr t ts ev (hd (bs @ [ts])) h = Some (hd (ds @ [ts]))"
        "timer_insert t ev bs = cs @ ev # ds"
      using Cons.IH[of "as @ [b]"] Cons.prems by auto
    ultimately show ?thesis
      using True by (intro exI[of _ "b # cs"] exI[of _ ds]) (subst timer_walk_ptr.simps, simp)
  next
    case False
    then show ?thesis
      by (intro exI[of _ "[]"] exI[of _ "b # bs"]) (subst timer_walk_ptr.simps, simp)
  qed
qed

lemma timer_add_ptr_list:
  assumes "dll h ts xs" and "ev \<in> dom h" and "ev \<notin> set (ts # xs)"
  shows "\<exists>h'. timer_add_ptr t ts ev h = Some h' \<and> dll h' ts (timer_insert t ev xs)"
proof -
  obtain cs ds where "xs = cs @ ds"
      "timer_walk_ptr t ts ev (hd (xs @ [ts])) h = Some (hd (ds @ [ts]))"
      "timer_insert t ev xs = cs @ ev # ds"
    using timer_walk_ptr_finds[of h ts "[]" xs t ev] assms(1) unfolding append_Nil by blast
  moreover from this obtain h' where "addToList ev (hd (ds @ [ts])) h = Some h'" "dll h' ts (cs @ ev # ds)"
    using ll.add_rep[of h ts cs ds ev] assms by auto
  ultimately show ?thesis
    using ll.next_head[OF assms(1)] by (simp add: timer_add_ptr_def)
qed

section \<open>Properties\<close>

text \<open>A context for examples: the given timers at the given times, nothing watched.\<close>

definition loop_at :: "(addr \<times> timeval) list \<Rightarrow> timeval \<Rightarrow> upile_context" where
  "loop_at ts now =
     \<lparr>readFds = {}, nfds = 0, watch_table = replicate MAX_FD_EVENTS None, timer_list = map fst ts, pending_list = [],
      evs = (map_of (map (\<lambda>(a, t). (a, \<lparr>ev_fd = int a, ev_index = -1, ev_persist = 1, ev_timeout = t,
                                        ev_func = CbNone, ev_param = 0\<rparr>)) ts))
              (0 \<mapsto> \<lparr>ev_fd = 7, ev_index = -1, ev_persist = 1, ev_timeout = TV 0 0, ev_func = CbNone, ev_param = 0\<rparr>),
      clock = now\<rparr>"

text \<open>
  Property C16.  \<open>upil_timer_add\<close> puts an unlinked event into the list of timers by its
  time-out: it is defined, the list stays sorted and without duplicates, its elements are
  the old timers and the new one, nothing becomes pending, and the time-out is the delay
  after the current time.
\<close>

theorem upil_timer_add_sorted:
  assumes "timers_inv c" and "evs c ev = Some e" and "\<not> linked ev c"
  shows "\<exists>c'. upil_timer_add ev (Some d) c = Some c' \<and> timers_inv c'
    \<and> set (timer_list c') = insert ev (set (timer_list c)) \<and> pending_list c' = pending_list c
    \<and> usecs (timeout_of c' ev) = usecs (clock c) + usecs d"
  using upil_timer_add_inv[OF assms, of d] by auto

theorem upil_timer_add_sorted_witness:
  "\<exists>c'. upil_timer_add 0 (Some (TV 2 500000)) (loop_at [(1, TV 3 0), (2, TV 9 0)] (TV 4 700000)) = Some c'
    \<and> timers_inv c' \<and> usecs (timeout_of c' 0) = 7200000"
proof -
  let ?c = "loop_at [(1, TV 3 0), (2, TV 9 0)] (TV 4 700000)"
  have "timers_inv ?c" "\<not> linked 0 ?c"
    by (simp_all add: timers_inv_def loop_at_def timeout_of_def linked_def less_eq_timeval_def)
  moreover obtain e where "evs ?c 0 = Some e"
    by (simp add: loop_at_def)
  ultimately show ?thesis
    using upil_timer_add_sorted[of ?c 0 e "TV 2 500000"] by (auto simp: loop_at_def usecs_def)
qed





text \<open>
  The walk and the insertion of \<open>upil_timer_add\<close> on the links end and
  give the list of \<open>timer_insert\<close>, which is the insertion of a sorted list.
\<close>

lemma timer_add_on_links:
  assumes "dll h ts xs" and "ev \<in> dom h" and "ev \<notin> set (ts # xs)"
  shows "\<exists>h'. timer_add_ptr t ts ev h = Some h' \<and> dll h' ts (insort_key t ev xs)"
  using timer_add_ptr_list[OF assms] by (simp add: timer_insert_insort)

lemma timer_add_on_links_witness:
  "\<exists>h'. timer_add_ptr (\<lambda>a. TV (int a) 0) 10 5
      [10 \<mapsto> \<lparr>nxt = Some 4, prv = Some 6\<rparr>, 4 \<mapsto> \<lparr>nxt = Some 6, prv = Some 10\<rparr>,
       6 \<mapsto> \<lparr>nxt = Some 10, prv = Some 4\<rparr>, 5 \<mapsto> \<lparr>nxt = None, prv = None\<rparr>] = Some h'
    \<and> dll h' 10 [4, 5, 6]"
proof -
  let ?h = "[10 \<mapsto> \<lparr>nxt = Some 4, prv = Some 6\<rparr>, 4 \<mapsto> \<lparr>nxt = Some 6, prv = Some 10\<rparr>,
       6 \<mapsto> \<lparr>nxt = Some 10, prv = Some 4\<rparr>, 5 \<mapsto> \<lparr>nxt = None, prv = None\<rparr>] :: store"
  have "dll ?h 10 [4, 6]"
    by (simp add: dll_def edge_def get_next_def get_prev_def)
  from timer_add_on_links[OF this, of 5 "\<lambda>a. TV (int a) 0"] show ?thesis
    by (simp add: less_eq_timeval_def)
qed

text \<open>
  Watching a descriptor and deleting it again: \<open>upil_event_add\<close> on an
  event that is not watched, with a free slot in the table and a descriptor of its own,
  adds the descriptor to the set that \<open>select\<close> reads, keeping the invariant of the
  table; deleting the event then takes it out and restores the set.
\<close>

lemma watch_unwatch:
  assumes inv: "watch_inv c" and ev: "evs c ev = Some e" "fd_ok (ev_fd e)"
    and new: "ev_fd e \<notin> readFds c" "Some ev \<notin> set (watch_table c)" and free: "None \<in> set (watch_table c)"
  shows "\<exists>c1 c2. upil_event_add ev c = Some c1 \<and> watch_inv c1 \<and> readFds c1 = insert (ev_fd e) (readFds c)
    \<and> upil_event_del ev c1 = Some c2 \<and> watch_inv c2 \<and> readFds c2 = readFds c"
proof -
  obtain c1 where c1: "upil_event_add ev c = Some c1" "watch_inv c1" "readFds c1 = insert (ev_fd e) (readFds c)"
      "Some ev \<in> set (watch_table c1)"
    using upil_event_add_inv[OF assms] by blast
  obtain i where i: "i < length (watch_table c1)" "watch_table c1 ! i = Some ev"
    using c1(4) by (auto simp: in_set_conv_nth)
  obtain e1 where e1: "evs c1 ev = Some e1" "ev_fd e1 = ev_fd e"
    using c1(1) ev by (auto simp: upil_event_add_def split: option.splits if_splits)
  then have "watched c1 i e1"
    using i by (simp add: watched_def)
  from upil_event_del_inv[OF c1(2) this i(2)] obtain c2 where
      "upil_event_del ev c1 = Some c2" "watch_inv c2" "readFds c2 = readFds c1 - {ev_fd e1}"
    by blast
  moreover have "readFds c1 - {ev_fd e1} = readFds c"
    using c1(3) new(1) e1(2) by auto
  ultimately show ?thesis
    using c1(1-3) by auto
qed

lemma watch_unwatch_witness:
  "\<exists>c1 c2. upil_event_add 0 (loop_at [] (TV 0 0)) = Some c1 \<and> readFds c1 = {7}
    \<and> upil_event_del 0 c1 = Some c2 \<and> readFds c2 = {}"
proof -
  let ?c = "loop_at [] (TV 0 0)"
  have "watch_inv ?c"
    using watch_inv_init[of ?c] by (simp add: upil_event_init_def loop_at_def)
  moreover obtain e where "evs ?c 0 = Some e" "ev_fd e = 7"
    by (simp add: loop_at_def)
  ultimately show ?thesis
    using watch_unwatch[of ?c 0 e] by (auto simp: loop_at_def fd_ok_def MAX_FD_EVENTS_def)
qed

end
