(* ===== verification/Requests.thy ===== *)
theory Requests
  imports Upil_Prelude
begin

text \<open>
  The message numbers of the program: the requests, events and states of
  \<open>include/upil_request.h\<close>, the states of \<open>upil_sm.h\<close>, the codes of the
  telephone protocol in \<open>tp_protocol.h\<close>, and \<open>msg2str\<close> of
  \<open>state_machine/state_machine.c\<close>, which names them in the log.  The enumerations
  are the integers the C compiler gives them.
\<close>

section \<open>Requests\<close>

abbreviation (input) UPIL_CTL_BEGIN :: int where
  "UPIL_CTL_BEGIN \<equiv> 0"

abbreviation (input) UPIL_CTL_HANDFREE_ON :: int where
  "UPIL_CTL_HANDFREE_ON \<equiv> 0"

abbreviation (input) UPIL_CTL_HANDFREE_OFF :: int where
  "UPIL_CTL_HANDFREE_OFF \<equiv> 1"

abbreviation (input) UPIL_CTL_RECORD_ON :: int where
  "UPIL_CTL_RECORD_ON \<equiv> 2"

abbreviation (input) UPIL_CTL_RECORD_OFF :: int where
  "UPIL_CTL_RECORD_OFF \<equiv> 3"

abbreviation (input) UPIL_CTL_R_FUNC :: int where
  "UPIL_CTL_R_FUNC \<equiv> 4"

abbreviation (input) UPIL_CTL_RECORD_PLAY_ON :: int where
  "UPIL_CTL_RECORD_PLAY_ON \<equiv> 5"

abbreviation (input) UPIL_CTL_RECORD_PLAY_OFF :: int where
  "UPIL_CTL_RECORD_PLAY_OFF \<equiv> 6"

abbreviation (input) UPIL_CTL_RECORD_LINE_PLAY_ON :: int where
  "UPIL_CTL_RECORD_LINE_PLAY_ON \<equiv> 7"

abbreviation (input) UPIL_CTL_RECORD_LINE_PLAY_OFF :: int where
  "UPIL_CTL_RECORD_LINE_PLAY_OFF \<equiv> 8"

abbreviation (input) UPIL_CTL_USB_ON :: int where
  "UPIL_CTL_USB_ON \<equiv> 9"

abbreviation (input) UPIL_CTL_RINGER_OFF :: int where
  "UPIL_CTL_RINGER_OFF \<equiv> 10"

abbreviation (input) UPIL_CTL_USB_VOIP_ON :: int where
  "UPIL_CTL_USB_VOIP_ON \<equiv> 11"

abbreviation (input) UPIL_CTL_USB_VOIP_OFF :: int where
  "UPIL_CTL_USB_VOIP_OFF \<equiv> 12"

abbreviation (input) UPIL_ASK_PHONE_STATE :: int where
  "UPIL_ASK_PHONE_STATE \<equiv> 13"

abbreviation (input) UPIL_ASK_DTMF_TX :: int where
  "UPIL_ASK_DTMF_TX \<equiv> 14"

abbreviation (input) UPIL_ASK_RECORD_UP :: int where
  "UPIL_ASK_RECORD_UP \<equiv> 15"

abbreviation (input) UPIL_ASK_GET_VERSION :: int where
  "UPIL_ASK_GET_VERSION \<equiv> 16"

abbreviation (input) UPIL_ASK_AUTHORIZATION :: int where
  "UPIL_ASK_AUTHORIZATION \<equiv> 17"

abbreviation (input) UPIL_ASK_READ_MEMORY :: int where
  "UPIL_ASK_READ_MEMORY \<equiv> 18"

abbreviation (input) UPIL_CTL_RINGER_ON :: int where
  "UPIL_CTL_RINGER_ON \<equiv> 19"

abbreviation (input) UPIL_CTL_SET_TIME :: int where
  "UPIL_CTL_SET_TIME \<equiv> 20"

abbreviation (input) UPIL_CTL_SPEECH_RECORDING_ON :: int where
  "UPIL_CTL_SPEECH_RECORDING_ON \<equiv> 21"

abbreviation (input) UPIL_CTL_SPEECH_RECORDING_OFF :: int where
  "UPIL_CTL_SPEECH_RECORDING_OFF \<equiv> 22"

abbreviation (input) UPIL_ASK_BUSY_TONE :: int where
  "UPIL_ASK_BUSY_TONE \<equiv> 23"

abbreviation (input) UPIL_CTL_SET_FLASH_TIME :: int where
  "UPIL_CTL_SET_FLASH_TIME \<equiv> 24"

abbreviation (input) UPIL_CTL_SET_MEMORY_NUMBER :: int where
  "UPIL_CTL_SET_MEMORY_NUMBER \<equiv> 25"

abbreviation (input) UPIL_ASK_READ_MANUFACTURER_INF :: int where
  "UPIL_ASK_READ_MANUFACTURER_INF \<equiv> 26"

abbreviation (input) UPIL_RESERVED_CMD :: int where
  "UPIL_RESERVED_CMD \<equiv> 27"

abbreviation (input) UPIL_ASK_READ_SN :: int where
  "UPIL_ASK_READ_SN \<equiv> 28"

abbreviation (input) UPIL_CTL_WRITE_SN :: int where
  "UPIL_CTL_WRITE_SN \<equiv> 29"

abbreviation (input) UPIL_ASK_HARDWARE_INF :: int where
  "UPIL_ASK_HARDWARE_INF \<equiv> 30"

abbreviation (input) UPIL_CTL_VOIP_RINGER :: int where
  "UPIL_CTL_VOIP_RINGER \<equiv> 31"

abbreviation (input) UPIL_CTL_KEYBOARD_MAP :: int where
  "UPIL_CTL_KEYBOARD_MAP \<equiv> 32"

abbreviation (input) UPIL_CTL_DISP_ICON :: int where
  "UPIL_CTL_DISP_ICON \<equiv> 33"

abbreviation (input) UPIL_CTL_PHONE_VOLUME :: int where
  "UPIL_CTL_PHONE_VOLUME \<equiv> 34"

abbreviation (input) UPIL_CTL_PHONE_UNMUTE :: int where
  "UPIL_CTL_PHONE_UNMUTE \<equiv> 35"

abbreviation (input) UPIL_CTL_EEPROM_INIT :: int where
  "UPIL_CTL_EEPROM_INIT \<equiv> 36"

abbreviation (input) UPIL_CTL_RECORD_LIGHT_ON :: int where
  "UPIL_CTL_RECORD_LIGHT_ON \<equiv> 37"

abbreviation (input) UPIL_CTL_RECORD_LIGHT_OFF :: int where
  "UPIL_CTL_RECORD_LIGHT_OFF \<equiv> 38"

abbreviation (input) UPIL_CTL_INI_SET :: int where
  "UPIL_CTL_INI_SET \<equiv> 39"

abbreviation (input) UPIL_CTL_BBK_VOIP_ON :: int where
  "UPIL_CTL_BBK_VOIP_ON \<equiv> 40"

abbreviation (input) UPIL_CTL_BBK_VOIP_OFF :: int where
  "UPIL_CTL_BBK_VOIP_OFF \<equiv> 41"

abbreviation (input) UPIL_CTL_RECORD_START :: int where
  "UPIL_CTL_RECORD_START \<equiv> 42"

abbreviation (input) UPIL_CTL_RECORD_STOP :: int where
  "UPIL_CTL_RECORD_STOP \<equiv> 43"

abbreviation (input) UPIL_CTL_MAX :: int where
  "UPIL_CTL_MAX \<equiv> 44"

section \<open>Events\<close>

abbreviation (input) UPIL_EVT_BEGIN :: int where
  "UPIL_EVT_BEGIN \<equiv> 44"

abbreviation (input) UPIL_EVT_RESERVE :: int where
  "UPIL_EVT_RESERVE \<equiv> 44"

abbreviation (input) UPIL_EVT_USB_ATTACH :: int where
  "UPIL_EVT_USB_ATTACH \<equiv> 45"

abbreviation (input) UPIL_EVT_USB_DETACH :: int where
  "UPIL_EVT_USB_DETACH \<equiv> 46"

abbreviation (input) UPIL_EVT_PC_HOOK_ON :: int where
  "UPIL_EVT_PC_HOOK_ON \<equiv> 47"

abbreviation (input) UPIL_EVT_PC_HOOK_OFF :: int where
  "UPIL_EVT_PC_HOOK_OFF \<equiv> 48"

abbreviation (input) UPIL_EVT_HAND_HOOK_ON :: int where
  "UPIL_EVT_HAND_HOOK_ON \<equiv> 49"

abbreviation (input) UPIL_EVT_HAND_HOOK_OFF :: int where
  "UPIL_EVT_HAND_HOOK_OFF \<equiv> 50"

abbreviation (input) UPIL_EVT_HFREE_HOOK_ON :: int where
  "UPIL_EVT_HFREE_HOOK_ON \<equiv> 51"

abbreviation (input) UPIL_EVT_HFREE_HOOK_OFF :: int where
  "UPIL_EVT_HFREE_HOOK_OFF \<equiv> 52"

abbreviation (input) UPIL_EVT_PARALL_HOOK_ON :: int where
  "UPIL_EVT_PARALL_HOOK_ON \<equiv> 53"

abbreviation (input) UPIL_EVT_PARALL_HOOK_OFF :: int where
  "UPIL_EVT_PARALL_HOOK_OFF \<equiv> 54"

abbreviation (input) UPIL_EVT_RING :: int where
  "UPIL_EVT_RING \<equiv> 55"

abbreviation (input) UPIL_EVT_KEY_DOWN :: int where
  "UPIL_EVT_KEY_DOWN \<equiv> 56"

abbreviation (input) UPIL_EVT_PHONE_STATE :: int where
  "UPIL_EVT_PHONE_STATE \<equiv> 57"

abbreviation (input) UPIL_EVT_CALL_ID :: int where
  "UPIL_EVT_CALL_ID \<equiv> 58"

abbreviation (input) UPIL_EVT_DIAL_END :: int where
  "UPIL_EVT_DIAL_END \<equiv> 59"

abbreviation (input) UPIL_EVT_SEC_DTMF_RX :: int where
  "UPIL_EVT_SEC_DTMF_RX \<equiv> 60"

abbreviation (input) UPIL_EVT_RESERVED_1 :: int where
  "UPIL_EVT_RESERVED_1 \<equiv> 61"

abbreviation (input) UPIL_EVT_RESERVED_2 :: int where
  "UPIL_EVT_RESERVED_2 \<equiv> 62"

abbreviation (input) UPIL_EVT_RESERVED_3 :: int where
  "UPIL_EVT_RESERVED_3 \<equiv> 63"

abbreviation (input) UPIL_EVT_RESERVED_4 :: int where
  "UPIL_EVT_RESERVED_4 \<equiv> 64"

abbreviation (input) UPIL_EVT_RESERVED_5 :: int where
  "UPIL_EVT_RESERVED_5 \<equiv> 65"

abbreviation (input) UPIL_EVT_BUSY_ON :: int where
  "UPIL_EVT_BUSY_ON \<equiv> 66"

abbreviation (input) UPIL_EVT_RESERVED_6 :: int where
  "UPIL_EVT_RESERVED_6 \<equiv> 67"

abbreviation (input) UPIL_EVT_NEW_CID_TX :: int where
  "UPIL_EVT_NEW_CID_TX \<equiv> 68"

abbreviation (input) UPIL_EVT_OLD_CID_TX :: int where
  "UPIL_EVT_OLD_CID_TX \<equiv> 69"

abbreviation (input) UPIL_EVT_DIALED_TX :: int where
  "UPIL_EVT_DIALED_TX \<equiv> 70"

abbreviation (input) UPIL_EVT_HISTORY_FINISHED :: int where
  "UPIL_EVT_HISTORY_FINISHED \<equiv> 71"

abbreviation (input) UPIL_EVT_VERSION :: int where
  "UPIL_EVT_VERSION \<equiv> 72"

abbreviation (input) UPIL_EVT_RESTART :: int where
  "UPIL_EVT_RESTART \<equiv> 73"

abbreviation (input) UPIL_EVT_REDIAL :: int where
  "UPIL_EVT_REDIAL \<equiv> 74"

abbreviation (input) UPIL_EVT_BAT_CRITICAL :: int where
  "UPIL_EVT_BAT_CRITICAL \<equiv> 75"

abbreviation (input) UPIL_EVT_VOIP_HOOK_OFF :: int where
  "UPIL_EVT_VOIP_HOOK_OFF \<equiv> 76"

abbreviation (input) UPIL_EVT_VOIP_HOOK_ON :: int where
  "UPIL_EVT_VOIP_HOOK_ON \<equiv> 77"

abbreviation (input) UPIL_EVT_PARAL_DTMF :: int where
  "UPIL_EVT_PARAL_DTMF \<equiv> 78"

abbreviation (input) UPIL_MSG_VENDOR :: int where
  "UPIL_MSG_VENDOR \<equiv> 79"

abbreviation (input) UPIL_MSG_SERIAL :: int where
  "UPIL_MSG_SERIAL \<equiv> 80"

abbreviation (input) UPIL_MSG_HW_TYPE :: int where
  "UPIL_MSG_HW_TYPE \<equiv> 81"

abbreviation (input) UPIL_EVT_VOLUM_CHANGE :: int where
  "UPIL_EVT_VOLUM_CHANGE \<equiv> 82"

abbreviation (input) UPIL_EVT_ACK :: int where
  "UPIL_EVT_ACK \<equiv> 83"

abbreviation (input) UPIL_EVT_SYNC_TIMEOUT :: int where
  "UPIL_EVT_SYNC_TIMEOUT \<equiv> 84"

abbreviation (input) UPIL_EVT_DIAL_END_CHECK :: int where
  "UPIL_EVT_DIAL_END_CHECK \<equiv> 85"

abbreviation (input) UPIL_EVT_RING_TIMEOUT :: int where
  "UPIL_EVT_RING_TIMEOUT \<equiv> 86"

abbreviation (input) UPIL_EVT_RECORD_START :: int where
  "UPIL_EVT_RECORD_START \<equiv> 87"

abbreviation (input) UPIL_EVT_RECORD_END :: int where
  "UPIL_EVT_RECORD_END \<equiv> 88"

abbreviation (input) UPIL_EVT_MAX :: int where
  "UPIL_EVT_MAX \<equiv> 89"

abbreviation (input) UPIL_EVT_SM_TRANSITION :: int where
  "UPIL_EVT_SM_TRANSITION \<equiv> 238"

abbreviation (input) UPIL_EVT_UNKOWN :: int where
  "UPIL_EVT_UNKOWN \<equiv> 255"

section \<open>States\<close>

abbreviation (input) UPIL_STATE_OFFLINE :: int where
  "UPIL_STATE_OFFLINE \<equiv> 352"

abbreviation (input) UPIL_STATE_SYNCING :: int where
  "UPIL_STATE_SYNCING \<equiv> 353"

abbreviation (input) UPIL_STATE_IDLE :: int where
  "UPIL_STATE_IDLE \<equiv> 354"

abbreviation (input) UPIL_STATE_DIALING :: int where
  "UPIL_STATE_DIALING \<equiv> 355"

abbreviation (input) UPIL_STATE_INCOMING :: int where
  "UPIL_STATE_INCOMING \<equiv> 356"

abbreviation (input) UPIL_STATE_CONVERSATION :: int where
  "UPIL_STATE_CONVERSATION \<equiv> 357"

abbreviation (input) UPIL_STATE_MEMO :: int where
  "UPIL_STATE_MEMO \<equiv> 358"

abbreviation (input) UPIL_SM_OFFLINE :: int where
  "UPIL_SM_OFFLINE \<equiv> 0"

abbreviation (input) UPIL_SM_SYNCING :: int where
  "UPIL_SM_SYNCING \<equiv> 1"

abbreviation (input) UPIL_SM_IDLE :: int where
  "UPIL_SM_IDLE \<equiv> 2"

abbreviation (input) UPIL_SM_DIALING :: int where
  "UPIL_SM_DIALING \<equiv> 3"

abbreviation (input) UPIL_SM_INCOMING :: int where
  "UPIL_SM_INCOMING \<equiv> 4"

abbreviation (input) UPIL_SM_CONVERSATION :: int where
  "UPIL_SM_CONVERSATION \<equiv> 5"

abbreviation (input) UPIL_SM_MEMO :: int where
  "UPIL_SM_MEMO \<equiv> 6"

section \<open>Codes of the telephone protocol\<close>

abbreviation (input) TPP_EVT_VOLUM_CHANGE :: byte where
  "TPP_EVT_VOLUM_CHANGE \<equiv> 92"

abbreviation (input) TPP_MSG_VERSION :: byte where
  "TPP_MSG_VERSION \<equiv> 129"

abbreviation (input) TPP_MSG_AUTHORIZATION :: byte where
  "TPP_MSG_AUTHORIZATION \<equiv> 130"

abbreviation (input) TPP_MSG_MANUFACTURER_INF :: byte where
  "TPP_MSG_MANUFACTURER_INF \<equiv> 131"

abbreviation (input) TPP_MSG_SN :: byte where
  "TPP_MSG_SN \<equiv> 132"

abbreviation (input) TPP_MSG_HARDWARE_INF :: byte where
  "TPP_MSG_HARDWARE_INF \<equiv> 133"

abbreviation (input) TPP_MSG_EEPROM_INF :: byte where
  "TPP_MSG_EEPROM_INF \<equiv> 134"

abbreviation (input) TPP_MSG_PHONE_STATE :: byte where
  "TPP_MSG_PHONE_STATE \<equiv> 171"

abbreviation (input) TPP_EVT_FSK_RX :: byte where
  "TPP_EVT_FSK_RX \<equiv> 209"

abbreviation (input) TPP_EVT_DTMF_RX :: byte where
  "TPP_EVT_DTMF_RX \<equiv> 210"

abbreviation (input) TPP_MSG_DTMF_TX_FINISHED :: byte where
  "TPP_MSG_DTMF_TX_FINISHED \<equiv> 211"

abbreviation (input) TPP_EVT_NEW_CID_TX :: byte where
  "TPP_EVT_NEW_CID_TX \<equiv> 212"

abbreviation (input) TPP_EVT_OLD_CID_TX :: byte where
  "TPP_EVT_OLD_CID_TX \<equiv> 213"

abbreviation (input) TPP_EVT_DIALED_TX :: byte where
  "TPP_EVT_DIALED_TX \<equiv> 214"

abbreviation (input) TPP_EVT_HISTORY_FINISHED :: byte where
  "TPP_EVT_HISTORY_FINISHED \<equiv> 215"

abbreviation (input) TPP_EVT_ICM_DTMF_RX :: byte where
  "TPP_EVT_ICM_DTMF_RX \<equiv> 216"

abbreviation (input) TPP_EVT_PARALLEL_DTMF_RX :: byte where
  "TPP_EVT_PARALLEL_DTMF_RX \<equiv> 217"

abbreviation (input) TPP_EVT_KEY_DOWN :: byte where
  "TPP_EVT_KEY_DOWN \<equiv> 225"

abbreviation (input) TPP_EVT_CODEC_READY :: byte where
  "TPP_EVT_CODEC_READY \<equiv> 226"

abbreviation (input) TPP_EVT_HOOK_ON :: byte where
  "TPP_EVT_HOOK_ON \<equiv> 227"

abbreviation (input) TPP_EVT_HOOK_OFF :: byte where
  "TPP_EVT_HOOK_OFF \<equiv> 228"

abbreviation (input) TPP_EVT_RING :: byte where
  "TPP_EVT_RING \<equiv> 229"

abbreviation (input) TPP_EVT_RESTART :: byte where
  "TPP_EVT_RESTART \<equiv> 230"

abbreviation (input) TPP_EVT_HKS_ON :: byte where
  "TPP_EVT_HKS_ON \<equiv> 231"

abbreviation (input) TPP_EVT_HKS_OFF :: byte where
  "TPP_EVT_HKS_OFF \<equiv> 232"

abbreviation (input) TPP_EVT_PARALLEL_ON :: byte where
  "TPP_EVT_PARALLEL_ON \<equiv> 233"

abbreviation (input) TPP_EVT_PARALLEL_OFF :: byte where
  "TPP_EVT_PARALLEL_OFF \<equiv> 234"

abbreviation (input) TPP_EVT_BUSY_ON :: byte where
  "TPP_EVT_BUSY_ON \<equiv> 235"

abbreviation (input) TPP_EVT_REDIAL_ON :: byte where
  "TPP_EVT_REDIAL_ON \<equiv> 236"

abbreviation (input) TPP_EVT_BATTERY_LOW :: byte where
  "TPP_EVT_BATTERY_LOW \<equiv> 237"

abbreviation (input) TPP_EVT_VOIP_PHONE_HOOK_ON :: byte where
  "TPP_EVT_VOIP_PHONE_HOOK_ON \<equiv> 238"

abbreviation (input) TPP_EVT_VOIP_PHONE_HOOK_OFF :: byte where
  "TPP_EVT_VOIP_PHONE_HOOK_OFF \<equiv> 239"

abbreviation (input) TPP_ASK_GET_VERSION :: byte where
  "TPP_ASK_GET_VERSION \<equiv> 1"

abbreviation (input) TPP_ASK_DTMF_TX :: byte where
  "TPP_ASK_DTMF_TX \<equiv> 17"

abbreviation (input) TPP_ASK_RECORD :: byte where
  "TPP_ASK_RECORD \<equiv> 18"

abbreviation (input) TPP_ASK_READ_MANUFACTURER_INF :: byte where
  "TPP_ASK_READ_MANUFACTURER_INF \<equiv> 20"

abbreviation (input) TPP_CTL_WRITE_MANUFACTURER_INF :: byte where
  "TPP_CTL_WRITE_MANUFACTURER_INF \<equiv> 21"

abbreviation (input) TPP_ASK_READ_SN :: byte where
  "TPP_ASK_READ_SN \<equiv> 22"

abbreviation (input) TPP_ASK_WRITE_SN :: byte where
  "TPP_ASK_WRITE_SN \<equiv> 23"

abbreviation (input) TPP_ASK_HARDWARE_INF :: byte where
  "TPP_ASK_HARDWARE_INF \<equiv> 24"

abbreviation (input) TPP_ASK_PHONE_STATE :: byte where
  "TPP_ASK_PHONE_STATE \<equiv> 33"

abbreviation (input) TPP_CTL_SET_TIME :: byte where
  "TPP_CTL_SET_TIME \<equiv> 34"

abbreviation (input) TPP_CTL_BUSY_TONE :: byte where
  "TPP_CTL_BUSY_TONE \<equiv> 35"

abbreviation (input) TPP_CTL_MUTE :: byte where
  "TPP_CTL_MUTE \<equiv> 42"

abbreviation (input) TPP_CTL_LIGHT_ON_LED_OF_OGM :: byte where
  "TPP_CTL_LIGHT_ON_LED_OF_OGM \<equiv> 45"

abbreviation (input) TPP_CTL_LIGHT_OFF_LED_OF_OGM :: byte where
  "TPP_CTL_LIGHT_OFF_LED_OF_OGM \<equiv> 46"

abbreviation (input) TPP_CTL_PCHOOK_ON :: byte where
  "TPP_CTL_PCHOOK_ON \<equiv> 97"

abbreviation (input) TPP_CTL_PCHOOK_OFF :: byte where
  "TPP_CTL_PCHOOK_OFF \<equiv> 98"

abbreviation (input) TPP_CTL_RECORD_ON :: byte where
  "TPP_CTL_RECORD_ON \<equiv> 99"

abbreviation (input) TPP_CTL_RECORD_OFF :: byte where
  "TPP_CTL_RECORD_OFF \<equiv> 100"

abbreviation (input) TPP_CTL_R_FUNC :: byte where
  "TPP_CTL_R_FUNC \<equiv> 101"

abbreviation (input) TPP_CTL_RECORD_PLAY_ON :: byte where
  "TPP_CTL_RECORD_PLAY_ON \<equiv> 102"

abbreviation (input) TPP_CTL_RECORD_PLAY_OFF :: byte where
  "TPP_CTL_RECORD_PLAY_OFF \<equiv> 103"

abbreviation (input) TPP_CTL_RECORD_LINE_PLAY_ON :: byte where
  "TPP_CTL_RECORD_LINE_PLAY_ON \<equiv> 104"

abbreviation (input) TPP_CTL_RECORD_LINE_PLAY_OFF :: byte where
  "TPP_CTL_RECORD_LINE_PLAY_OFF \<equiv> 105"

abbreviation (input) TPP_CTL_USB_RUN :: byte where
  "TPP_CTL_USB_RUN \<equiv> 106"

abbreviation (input) TPP_CTL_RINGER_ON :: byte where
  "TPP_CTL_RINGER_ON \<equiv> 107"

abbreviation (input) TPP_CTL_RINGER_OFF :: byte where
  "TPP_CTL_RINGER_OFF \<equiv> 108"

section \<open>Names of messages\<close>

definition ctl_str :: "string list" where
  "ctl_str =
    [''UPIL_CTL_HANDFREE_ON'',
     ''UPIL_CTL_HANDFREE_OFF'',
     ''UPIL_CTL_RECORD_ON'',
     ''UPIL_CTL_RECORD_OFF'',
     ''UPIL_CTL_R_FUNC'',
     ''UPIL_CTL_RECORD_PLAY_ON'',
     ''UPIL_CTL_RECORD_PLAY_OFF'',
     ''UPIL_CTL_RECORD_LINE_PLAY_ON'',
     ''UPIL_CTL_RECORD_LINE_PLAY_OFF'',
     ''UPIL_CTL_USB_ON'',
     ''UPIL_CTL_RINGER_OFF'',
     ''UPIL_CTL_USB_VOIP_ON'',
     ''UPIL_CTL_USB_VOIP_OFF'',
     ''UPIL_ASK_PHONE_STATE'',
     ''UPIL_ASK_DTMF_TX'',
     ''UPIL_ASK_RECORD_UP'',
     ''UPIL_ASK_GET_VERSION'',
     ''UPIL_ASK_AUTHORIZATION'',
     ''UPIL_ASK_READ_MEMORY'',
     ''UPIL_CTL_RINGER_ON'',
     ''UPIL_CTL_SET_TIME'',
     ''UPIL_CTL_SPEECH_RECORDING_ON'',
     ''UPIL_CTL_SPEECH_RECORDING_OFF'',
     ''UPIL_ASK_BUSY_TONE'',
     ''UPIL_CTL_SET_FLASH_TIME'',
     ''UPIL_CTL_SET_MEMORY_NUMBER'',
     ''UPIL_ASK_READ_MANUFACTURER_INF'',
     ''UPIL_RESERVED_CMD'',
     ''UPIL_ASK_READ_SN'',
     ''UPIL_CTL_WRITE_SN'',
     ''UPIL_ASK_HARDWARE_INF'',
     ''UPIL_CTL_VOIP_RINGER'',
     ''UPIL_CTL_KEYBOARD_MAP'',
     ''UPIL_CTL_DISP_ICON'',
     ''UPIL_CTL_PHONE_VOLUME'',
     ''UPIL_CTL_PHONE_UNMUTE'',
     ''UPIL_CTL_EEPROM_INIT'',
     ''UPIL_CTL_RECORD_LIGHT_ON'',
     ''UPIL_CTL_RECORD_LIGHT_OFF'',
     ''UPIL_CTL_INI_SET'',
     ''UPIL_CTL_BBK_VOIP_ON'',
     ''UPIL_CTL_BBK_VOIP_OFF'']"

definition event_str :: "string list" where
  "event_str =
    [''UPIL_EVT_RESERVE'',
     ''UPIL_EVT_USB_ATTACH'',
     ''UPIL_EVT_USB_DETACH'',
     ''UPIL_EVT_PC_HOOK_ON'',
     ''UPIL_EVT_PC_HOOK_OFF'',
     ''UPIL_EVT_HAND_HOOK_ON'',
     ''UPIL_EVT_HAND_HOOK_OFF'',
     ''UPIL_EVT_HFREE_HOOK_ON'',
     ''UPIL_EVT_HFREE_HOOK_OFF'',
     ''UPIL_EVT_PARALL_HOOK_ON'',
     ''UPIL_EVT_PARALL_HOOK_OFF'',
     ''UPIL_EVT_RING'',
     ''UPIL_EVT_KEY_DOWN'',
     ''UPIL_EVT_PHONE_STATE'',
     ''UPIL_EVT_CALL_ID'',
     ''UPIL_EVT_DIAL_END'',
     ''UPIL_EVT_SEC_DTMF_RX'',
     ''UPIL_EVT_RESERVED_1'',
     ''UPIL_EVT_RESERVED_2'',
     ''UPIL_EVT_RESERVED_3'',
     ''UPIL_EVT_RESERVED_4'',
     ''UPIL_EVT_RESERVED_5'',
     ''UPIL_EVT_BUSY_ON'',
     ''UPIL_EVT_RESERVED_6'',
     ''UPIL_EVT_NEW_CID_TX'',
     ''UPIL_EVT_OLD_CID_TX'',
     ''UPIL_EVT_DIALED_TX'',
     ''UPIL_EVT_HISTORY_FINISHED'',
     ''UPIL_EVT_VERSION'',
     ''UPIL_EVT_RESTART'',
     ''UPIL_EVT_REDIAL'',
     ''UPIL_EVT_BAT_CRITICAL'',
     ''UPIL_EVT_VOIP_HOOK_OFF'',
     ''UPIL_EVT_VOIP_HOOK_ON'',
     ''UPIL_EVT_PARAL_DTMF'',
     ''UPIL_MSG_VENDOR'',
     ''UPIL_MSG_SERIAL'',
     ''UPIL_MSG_HW_TYPE'',
     ''UPIL_EVT_VOLUM_CHANGE'',
     ''UPIL_EVT_ACK'',
     ''UPIL_EVT_SYNC_TIMEOUT'',
     ''UPIL_EVT_DIAL_END_CHECK'',
     ''UPIL_EVT_RING_TIMEOUT'',
     ''UPIL_EVT_START_MEMO'']"

text \<open>\<open>msg2str\<close>: \<open>None\<close> is a read past the end of the table.\<close>

definition msg2str :: "int \<Rightarrow> string option" where
  "msg2str msg =
     (if msg \<ge> UPIL_CTL_BEGIN \<and> msg < UPIL_CTL_MAX then nth_opt ctl_str (nat (msg - UPIL_CTL_BEGIN))
      else if msg \<ge> UPIL_EVT_BEGIN \<and> msg < UPIL_EVT_MAX then nth_opt event_str (nat (msg - UPIL_EVT_BEGIN))
      else Some ''unknown'')"

text \<open>
  \<open>msg2str\<close> returns a name for every message number except
  \<open>UPIL_CTL_RECORD_START\<close>, \<open>UPIL_CTL_RECORD_STOP\<close> and \<open>UPIL_EVT_RECORD_END\<close>:
  for these three it passes its range test and reads past the end of a string table,
  which is shorter than the enumeration.
\<close>

lemma msg2str_out_of_table:
  "msg2str m = None \<longleftrightarrow> m \<in> {UPIL_CTL_RECORD_START, UPIL_CTL_RECORD_STOP, UPIL_EVT_RECORD_END}"
proof -
  have "length ctl_str = 42" "length event_str = 44"
    by (simp_all add: ctl_str_def event_str_def)
  then show ?thesis
    by (auto simp: msg2str_def nth_opt_def split: if_splits)
qed

end
