(* ===== verification/Msg_Handler.thy ===== *)
theory Msg_Handler
  imports Event_Loop Requests
begin

text \<open>
  The message handler of \<open>state_machine/handler.c\<close>: messages are allocated, put into
  the handler's queue, and delivered by a timer event of the handler's event loop whose
  callback gets the message.  The event structure is part of the message, so the address
  of a message is also the address of its event.

  Memory is handed out by \<open>malloc\<close>: the \<open>n\<close>-th call returns the address
  \<open>n + 1\<close>, or NULL when \<open>malloc_ok n\<close> does not hold.  The address 0 is that of the
  loop's wake-up event.
\<close>

section \<open>Messages and the handler\<close>

record MSG =
  msg_what :: int
  msg_data_size :: int
  msg_data :: "byte list option"

record handler = uew_context +
  msg_queue :: "addr list"
  defer_msg_queue :: "addr list"
  msg_count :: int
  msgs :: "addr \<Rightarrow> MSG option"
  malloc_calls :: nat
  malloc_ok :: "nat \<Rightarrow> bool"

definition MAX_MSG_QUEUE_SIZE :: int where
  "MAX_MSG_QUEUE_SIZE = 32"

definition malloc :: "'a handler_scheme \<Rightarrow> addr option \<times> 'a handler_scheme" where
  "malloc c =
     (if malloc_ok c (malloc_calls c) then Some (Suc (malloc_calls c)) else None,
      c\<lparr>malloc_calls := Suc (malloc_calls c)\<rparr>)"

section \<open>Operations\<close>

text \<open>\<open>removeFromQueue\<close> on the handler: a message that is in no queue is only reported.\<close>

definition dequeue :: "addr \<Rightarrow> 'a handler_scheme \<Rightarrow> 'a handler_scheme" where
  "dequeue m c =
     c\<lparr>msg_queue := remove1 m (msg_queue c), defer_msg_queue := remove1 m (defer_msg_queue c)\<rparr>"

text \<open>\<open>obtain\<close> does not test the pointer that \<open>malloc\<close> returns.\<close>

definition handler_obtain :: "'a handler_scheme \<Rightarrow> (addr option \<times> 'a handler_scheme) option" where
  "handler_obtain c =
     (if msg_count c + 1 < MAX_MSG_QUEUE_SIZE
      then (case malloc c of
              (None, c) \<Rightarrow> None
            | (Some m, c) \<Rightarrow>
                Some (Some m,
                  c\<lparr>msgs := (msgs c)(m \<mapsto> \<lparr>msg_what = -1, msg_data_size = 0, msg_data = None\<rparr>),
                    msg_queue := msg_queue c @ [m], msg_count := msg_count c + 1\<rparr>))
      else Some (None, c))"

definition remove_from_list :: "addr option \<Rightarrow> 'a handler_scheme \<Rightarrow> 'a handler_scheme option" where
  "remove_from_list msg c =
     (case msg of None \<Rightarrow> Some c
      | Some m \<Rightarrow>
          do { x \<leftarrow> msgs c m;
               c \<leftarrow> (if linked m c then uew_event_del m True c else Some c);
               let c = dequeue m c;
               Some (c\<lparr>msg_count := msg_count c - 1\<rparr>) })"

definition remove_message :: "addr option \<Rightarrow> 'a handler_scheme \<Rightarrow> 'a handler_scheme option" where
  "remove_message msg c =
     (case msg of None \<Rightarrow> Some c
      | Some m \<Rightarrow>
          do { c \<leftarrow> remove_from_list (Some m) c;
               Some (c\<lparr>msgs := (msgs c)(m := None), evs := (evs c)(m := None)\<rparr>) })"

definition obtain_message ::
    "int \<Rightarrow> byte list \<Rightarrow> int \<Rightarrow> 'a handler_scheme \<Rightarrow> (addr option \<times> 'a handler_scheme) option" where
  "obtain_message wh dat sz c = do {
     (msg, c) \<leftarrow> handler_obtain c;
     case msg of
       None \<Rightarrow> Some (None, c)
     | Some m \<Rightarrow> do {
         x \<leftarrow> msgs c m;
         let c = c\<lparr>msgs := (msgs c)(m \<mapsto> x\<lparr>msg_what := wh\<rparr>)\<rparr>;
         if sz > 0
         then (case malloc c of
                 (None, c) \<Rightarrow> do { c \<leftarrow> remove_message (Some m) c; Some (None, c) }
               | (Some _, c) \<Rightarrow>
                   do { bs \<leftarrow> slice dat 0 (nat sz);
                        x \<leftarrow> msgs c m;
                        Some (Some m, c\<lparr>msgs := (msgs c)(m \<mapsto>
                          x\<lparr>msg_data := Some (bs @ [0, 0]), msg_data_size := sz\<rparr>)\<rparr>) })
         else Some (Some m, c) } }"

definition send_message_delay ::
    "addr option \<Rightarrow> int \<Rightarrow> 'a handler_scheme \<Rightarrow> 'a handler_scheme option" where
  "send_message_delay msg msec c =
     (case msg of None \<Rightarrow> Some c
      | Some m \<Rightarrow>
          do { x \<leftarrow> msgs c m;
               c \<leftarrow> uew_event_set m (-1) 0 CbMessage m c;
               uew_timer_add_wakeup m msec c })"

definition defer_message :: "addr option \<Rightarrow> 'a handler_scheme \<Rightarrow> 'a handler_scheme option" where
  "defer_message msg c =
     (case msg of None \<Rightarrow> Some c
      | Some m \<Rightarrow>
          do { x \<leftarrow> msgs c m;
               let c = dequeue m c;
               Some (c\<lparr>defer_msg_queue := defer_msg_queue c @ [m]\<rparr>) })"

text \<open>The loops over a queue read the next message before they treat the current one.\<close>

fun process_defer_loop :: "addr list \<Rightarrow> 'a handler_scheme \<Rightarrow> 'a handler_scheme option" where
  "process_defer_loop [] c = Some c"
| "process_defer_loop (m # rest) c = do {
     c \<leftarrow> send_message_delay (Some m) 0 (dequeue m c);
     process_defer_loop rest c }"

definition process_defer_msg :: "'a handler_scheme \<Rightarrow> 'a handler_scheme option" where
  "process_defer_msg c = process_defer_loop (defer_msg_queue c) c"

fun remove_id_loop :: "int \<Rightarrow> addr list \<Rightarrow> 'a handler_scheme \<Rightarrow> 'a handler_scheme option" where
  "remove_id_loop wh [] c = Some c"
| "remove_id_loop wh (m # rest) c = do {
     x \<leftarrow> msgs c m;
     c \<leftarrow> (if msg_what x = wh then remove_message (Some m) c else Some c);
     remove_id_loop wh rest c }"

text \<open>\<open>remove_message_id\<close> for one of the two queues, which the selector reads.\<close>

definition remove_message_id ::
    "('a handler_scheme \<Rightarrow> addr list) \<Rightarrow> int \<Rightarrow> 'a handler_scheme \<Rightarrow> 'a handler_scheme option" where
  "remove_message_id queue wh c = remove_id_loop wh (queue c) c"

definition start_handler ::
    "int \<Rightarrow> (int \<times> int) option \<Rightarrow> 'a handler_scheme \<Rightarrow> (int \<times> 'a handler_scheme) option" where
  "start_handler created filedes c = do {
     (ret, c) \<leftarrow> uew_startEventLoop created filedes c;
     if ret = 0
     then Some (ret, c\<lparr>msg_queue := [], defer_msg_queue := [], msg_count := 0\<rparr>)
     else Some (ret, c) }"

text \<open>\<open>sm_send_message_delay\<close> and \<open>sm_remove_message_id\<close> of
  \<open>state_machine/state_machine.c\<close>, the two operations the state machine uses.\<close>

definition sm_send_message_delay ::
    "int \<Rightarrow> byte list \<Rightarrow> int \<Rightarrow> int \<Rightarrow> 'a handler_scheme \<Rightarrow> (int \<times> 'a handler_scheme) option" where
  "sm_send_message_delay wh dat sz msec c = do {
     (msg, c) \<leftarrow> obtain_message wh dat sz c;
     c \<leftarrow> send_message_delay msg msec c;
     Some (if msg \<noteq> None then 0 else -1, c) }"

definition sm_remove_message_id :: "int \<Rightarrow> 'a handler_scheme \<Rightarrow> 'a handler_scheme option" where
  "sm_remove_message_id wh c = do {
     c \<leftarrow> remove_message_id msg_queue wh c;
     remove_message_id defer_msg_queue wh c }"

section \<open>Invariant and abstraction\<close>

text \<open>
  Between two operations every queued message is allocated and has its event in exactly
  one of the two lists of the loop, so that it will be delivered; apart from them only
  the wake-up event is ever linked; \<open>msg_count\<close> counts the queue, and no message is
  deferred (nothing in the program calls \<open>defer_message\<close>).
\<close>

definition msg_event :: "'a handler_scheme \<Rightarrow> addr \<Rightarrow> bool" where
  "msg_event c m \<longleftrightarrow> (\<exists>e. evs c m = Some e \<and> ev_func e = CbMessage \<and> ev_param e = m)"

text \<open>\<open>data_size\<close> is the size of the data without the two NULs that follow it.\<close>

definition msg_sized :: "MSG \<Rightarrow> bool" where
  "msg_sized x \<longleftrightarrow>
     msg_data_size x = (case msg_data x of None \<Rightarrow> 0 | Some d \<Rightarrow> int (length d) - 2)"

definition handler_inv :: "'a handler_scheme \<Rightarrow> bool" where
  "handler_inv c \<longleftrightarrow>
     timers_inv c \<and> distinct (msg_queue c) \<and> defer_msg_queue c = [] \<and>
     msg_count c = int (length (msg_queue c)) \<and> msg_count c < MAX_MSG_QUEUE_SIZE \<and>
     set (msg_queue c) \<subseteq> dom (msgs c) \<and>
     (\<forall>m\<in>dom (msgs c). 0 < m \<and> m \<le> malloc_calls c) \<and>
     set (msg_queue c) = (set (timer_list c) \<union> set (pending_list c)) - {0} \<and>
     (\<forall>m\<in>set (msg_queue c). msg_event c m) \<and>
     (\<forall>m\<in>set (msg_queue c). msg_sized (the (msgs c m)))"

text \<open>Memory is available.\<close>

definition mem_ok :: "'a handler_scheme \<Rightarrow> bool" where
  "mem_ok c \<longleftrightarrow> (\<forall>n. malloc_ok c n)"

text \<open>What is waiting for delivery: number, data and due time, in the order of sending.\<close>

type_synonym letter = "int \<times> byte list option \<times> timeval"

definition letter_of :: "'a handler_scheme \<Rightarrow> addr \<Rightarrow> letter" where
  "letter_of c m = (msg_what (the (msgs c m)), msg_data (the (msgs c m)), timeout_of c m)"

definition queued :: "'a handler_scheme \<Rightarrow> letter list" where
  "queued c = map (letter_of c) (msg_queue c)"

definition due :: "'a handler_scheme \<Rightarrow> int \<Rightarrow> timeval" where
  "due c msec = timeradd (clock c) (TV (msec sdiv 1000) ((msec smod 1000) * 1000))"

definition payload :: "byte list \<Rightarrow> int \<Rightarrow> byte list option" where
  "payload dat sz = (if sz > 0 then Some (take (nat sz) dat @ [0, 0]) else None)"

lemma length_queued [simp]: "length (queued c) = length (msg_queue c)"
  by (simp add: queued_def)

text \<open>
  The messages that are allocated and in no queue: the one that is being processed.
  Such a message stays where it is.
\<close>

definition held :: "'a handler_scheme \<Rightarrow> addr set" where
  "held c = dom (msgs c) - set (msg_queue c)"

text \<open>What belongs to the wake-up pipe of the loop.\<close>

definition wake_part :: "'a handler_scheme \<Rightarrow> upil_event option \<times> addr option list \<times> bool" where
  "wake_part c = (evs c 0, watch_table c, 0 \<in> set (timer_list c))"

text \<open>The parts of the state the handler leaves to its client.\<close>

definition same_client :: "'a handler_scheme \<Rightarrow> 'a handler_scheme \<Rightarrow> bool" where
  "same_client c c' \<longleftrightarrow> handler.more c' = handler.more c \<and> clock c' = clock c \<and>
     malloc_ok c' = malloc_ok c \<and> in_loop_thread c' = in_loop_thread c \<and> held c \<subseteq> held c' \<and>
     wake_part c' = wake_part c"

lemma same_client_refl [simp]: "same_client c c"
  by (simp add: same_client_def)

lemma same_client_trans: "same_client a b \<Longrightarrow> same_client b c \<Longrightarrow> same_client a c"
  by (auto simp: same_client_def)

lemma same_client_mem_ok: "same_client c c' \<Longrightarrow> mem_ok c' = mem_ok c"
  by (simp add: same_client_def mem_ok_def)

lemma same_client_due: "same_client c c' \<Longrightarrow> due c' = due c"
  by (intro ext) (simp add: same_client_def due_def)

text \<open>States that agree on what the handler uses.\<close>

definition same_handler :: "'a handler_scheme \<Rightarrow> 'b handler_scheme \<Rightarrow> bool" where
  "same_handler c c' \<longleftrightarrow> timer_list c' = timer_list c \<and> pending_list c' = pending_list c \<and> evs c' = evs c \<and>
     clock c' = clock c \<and> msg_queue c' = msg_queue c \<and> defer_msg_queue c' = defer_msg_queue c \<and>
     msg_count c' = msg_count c \<and> msgs c' = msgs c \<and> malloc_calls c' = malloc_calls c \<and> malloc_ok c' = malloc_ok c"

lemma same_handler_eqs:
  assumes "same_handler c c'"
  shows "handler_inv c' = handler_inv c" and "queued c' = queued c" and "mem_ok c' = mem_ok c"
    and "due c' = due c" and "held c' = held c"
proof -
  have t: "timeout_of c' = timeout_of c"
    using assms by (intro ext) (simp add: same_handler_def timeout_of_def)
  show "handler_inv c' = handler_inv c"
    using assms by (simp add: handler_inv_def timers_inv_def msg_event_def same_handler_def t)
  show "queued c' = queued c"
    using assms by (simp add: queued_def same_handler_def letter_of_def t)
  show "mem_ok c' = mem_ok c" "due c' = due c" "held c' = held c"
    using assms by (auto simp: same_handler_def mem_ok_def due_def held_def)
qed

lemma handler_inv_clock [simp]: "handler_inv (c\<lparr>clock := t\<rparr>) = handler_inv c"
  by (simp add: handler_inv_def timers_inv_def msg_event_def)

subsection \<open>Sending\<close>

lemma handler_inv_fresh:
  assumes "handler_inv c" and "malloc_calls c \<le> n"
  shows "Suc n \<notin> dom (msgs c)" and "Suc n \<notin> set (msg_queue c)" and "\<not> linked (Suc n) c"
proof -
  show "Suc n \<notin> dom (msgs c)"
    using assms unfolding handler_inv_def by (meson Suc_n_not_le_n le_trans)
  moreover have "set (msg_queue c) \<subseteq> dom (msgs c)"
      "set (msg_queue c) = (set (timer_list c) \<union> set (pending_list c)) - {0}"
    using assms(1) by (auto simp: handler_inv_def)
  ultimately show "Suc n \<notin> set (msg_queue c)" and "\<not> linked (Suc n) c"
    by (auto simp: linked_def)
qed

lemma obtain_message_ok:
  assumes "mem_ok c" and "msg_count c + 1 < MAX_MSG_QUEUE_SIZE" and "nat sz \<le> length dat"
  defines "m \<equiv> Suc (malloc_calls c)"
  shows "\<exists>k sz'. obtain_message wh dat sz c = Some (Some m,
     c\<lparr>malloc_calls := k, msgs := (msgs c)(m \<mapsto> \<lparr>msg_what = wh, msg_data_size = sz', msg_data = payload dat sz\<rparr>),
       msg_queue := msg_queue c @ [m], msg_count := msg_count c + 1\<rparr>) \<and> m \<le> k
     \<and> msg_sized \<lparr>msg_what = wh, msg_data_size = sz', msg_data = payload dat sz\<rparr>"
  using assms
  by (cases c)
    (auto simp: obtain_message_def handler_obtain_def malloc_def mem_ok_def payload_def slice_def msg_sized_def)

lemma obtain_message_full:
  "\<not> msg_count c + 1 < MAX_MSG_QUEUE_SIZE \<Longrightarrow> obtain_message wh dat sz c = Some (None, c)"
  by (simp add: obtain_message_def handler_obtain_def)

lemma send_message_delay_ok:
  fixes msec :: int
  assumes "msgs c m = Some x" and "\<not> linked m c"
  defines "t \<equiv> (timeout_of c)(m := due c msec)"
  shows "\<exists>e pb. send_message_delay (Some m) msec c =
     Some (c\<lparr>evs := (evs c)(m \<mapsto> e), timer_list := insort_key t m (timer_list c), pipe_bytes := pb\<rparr>)
     \<and> ev_func e = CbMessage \<and> ev_param e = m \<and> ev_timeout e = due c msec"
proof -
  let ?e = "\<lparr>ev_fd = -1, ev_index = -1, ev_persist = 0, ev_timeout = TV 0 0, ev_func = CbMessage, ev_param = m\<rparr>"
  let ?c = "c\<lparr>evs := (evs c)(m \<mapsto> ?e)\<rparr>"
  have set: "uew_event_set m (-1) 0 CbMessage m c = Some ?c"
    using assms(2) by (simp add: uew_event_set_def upil_event_set_def)
  have "evs ?c m = Some ?e" "\<not> linked m ?c"
    using assms(2) by (auto simp: linked_def)
  from upil_timer_add_effect[OF this]
  have "uew_timer_add_wakeup m msec ?c = Some (triggerEvLoop
      (?c\<lparr>evs := (evs c)(m \<mapsto> ?e\<lparr>ev_timeout := due c msec\<rparr>), timer_list := insort_key t m (timer_list c)\<rparr>))"
    by (simp add: uew_timer_add_wakeup_def Let_def due_def t_def fun_upd_twist)
  then show ?thesis
    using assms(1) set by (cases c) (auto simp: send_message_delay_def triggerEvLoop_def t_def due_def)
qed

lemma sm_send_message_delay_ok:
  assumes inv: "handler_inv c" and mem: "mem_ok c" and room: "length (queued c) < 31"
    and len: "nat sz \<le> length dat"
  shows "\<exists>c'. sm_send_message_delay wh dat sz msec c = Some (0, c') \<and> handler_inv c'
    \<and> queued c' = queued c @ [(wh, payload dat sz, due c msec)] \<and> same_client c c'
    \<and> pending_list c' = pending_list c \<and> (\<forall>x\<in>dom (msgs c). msgs c' x = msgs c x)"
proof -
  define m where "m = Suc (malloc_calls c)"
  have cnt: "msg_count c = int (length (msg_queue c))" "msg_count c + 1 < MAX_MSG_QUEUE_SIZE"
    using inv room by (auto simp: handler_inv_def MAX_MSG_QUEUE_SIZE_def)
  have fresh: "m \<notin> dom (msgs c)" "m \<notin> set (msg_queue c)" "\<not> linked m c"
    unfolding m_def using handler_inv_fresh[OF inv order_refl] by auto
  obtain k s where ob: "obtain_message wh dat sz c = Some (Some m,
     c\<lparr>malloc_calls := k, msgs := (msgs c)(m \<mapsto> \<lparr>msg_what = wh, msg_data_size = s, msg_data = payload dat sz\<rparr>),
       msg_queue := msg_queue c @ [m], msg_count := msg_count c + 1\<rparr>)" and mk: "m \<le> k"
      and sized: "msg_sized \<lparr>msg_what = wh, msg_data_size = s, msg_data = payload dat sz\<rparr>"
    using obtain_message_ok[OF mem cnt(2) len] unfolding m_def by blast
  define c1 where "c1 = c\<lparr>malloc_calls := k,
       msgs := (msgs c)(m \<mapsto> \<lparr>msg_what = wh, msg_data_size = s, msg_data = payload dat sz\<rparr>),
       msg_queue := msg_queue c @ [m], msg_count := msg_count c + 1\<rparr>"
  have c1: "msgs c1 m = Some \<lparr>msg_what = wh, msg_data_size = s, msg_data = payload dat sz\<rparr>"
      "\<not> linked m c1" "timeout_of c1 = timeout_of c" "due c1 msec = due c msec"
    using fresh(3) by (auto simp: c1_def linked_def due_def intro: timeout_of_evs)
  let ?t = "(timeout_of c)(m := due c msec)"
  obtain e pb where sd: "send_message_delay (Some m) msec c1 =
     Some (c1\<lparr>evs := (evs c1)(m \<mapsto> e), timer_list := insort_key ?t m (timer_list c1), pipe_bytes := pb\<rparr>)"
     and e: "ev_func e = CbMessage" "ev_param e = m" "ev_timeout e = due c msec"
    using send_message_delay_ok[OF c1(1,2), of msec] c1(3,4) by auto
  define c2 where "c2 = c1\<lparr>evs := (evs c1)(m \<mapsto> e), timer_list := insort_key ?t m (timer_list c1),
     pipe_bytes := pb\<rparr>"
  have sel: "timer_list c2 = insort_key ?t m (timer_list c)" "pending_list c2 = pending_list c"
      "evs c2 = (evs c)(m \<mapsto> e)" "msg_queue c2 = msg_queue c @ [m]" "msg_count c2 = msg_count c + 1"
      "defer_msg_queue c2 = defer_msg_queue c" "malloc_calls c2 = k"
      "msgs c2 = (msgs c)(m \<mapsto> \<lparr>msg_what = wh, msg_data_size = s, msg_data = payload dat sz\<rparr>)"
    by (simp_all add: c2_def c1_def)
  have t2: "timeout_of c2 = ?t"
    using e(3) by (intro ext) (simp add: timeout_of_def sel(3))
  have new: "m \<notin> set (timer_list c)" "m \<notin> set (pending_list c)"
    using fresh(3) by (auto simp: linked_def)
  have map: "map ?t (timer_list c) = map (timeout_of c) (timer_list c)"
    using new by auto
  have ti: "timers_inv c"
    using inv by (simp add: handler_inv_def)
  then have "sorted (map (timeout_of c) (timer_list c))"
    by (simp add: timers_inv_def)
  then have "sorted (map ?t (insort_key ?t m (timer_list c)))"
    by (simp only: sorted_insort_key map)
  then have "timers_inv c2"
    using ti new unfolding timers_inv_def t2 sel by (auto simp: set_insort_key distinct_insort)
  moreover have "\<forall>x\<in>dom (msgs c2). 0 < x \<and> x \<le> malloc_calls c2"
  proof
    fix x
    assume "x \<in> dom (msgs c2)"
    then consider "x = m" | "x \<in> dom (msgs c)"
      by (auto simp: sel split: if_splits)
    then show "0 < x \<and> x \<le> malloc_calls c2"
    proof cases
      case 2
      then have "0 < x \<and> x \<le> malloc_calls c"
        using inv unfolding handler_inv_def by blast
      then show ?thesis
        using mk by (simp add: sel(7) m_def)
    qed (use mk in \<open>simp add: sel(7) m_def\<close>)
  qed
  moreover have "set (msg_queue c2) = (set (timer_list c2) \<union> set (pending_list c2)) - {0}"
    using inv unfolding handler_inv_def sel by (auto simp: set_insort_key m_def)
  moreover have "\<forall>x\<in>set (msg_queue c2). msg_event c2 x"
    using inv e unfolding handler_inv_def msg_event_def sel by auto
  moreover have "\<forall>x\<in>set (msg_queue c2). msg_sized (the (msgs c2 x))"
    using inv sized unfolding handler_inv_def sel by auto
  moreover have "distinct (msg_queue c2)" "defer_msg_queue c2 = []"
      "msg_count c2 = int (length (msg_queue c2))" "msg_count c2 < MAX_MSG_QUEUE_SIZE"
      "set (msg_queue c2) \<subseteq> dom (msgs c2)"
    using inv fresh(2) cnt by (auto simp: handler_inv_def sel)
  ultimately have "handler_inv c2"
    unfolding handler_inv_def by blast
  moreover have "queued c2 = queued c @ [(wh, payload dat sz, due c msec)]"
  proof -
    have "letter_of c2 x = letter_of c x" if "x \<in> set (msg_queue c)" for x
      using that fresh(2) by (auto simp: letter_of_def t2 sel(8))
    moreover have "letter_of c2 m = (wh, payload dat sz, due c msec)"
      by (simp add: letter_of_def t2 sel(8))
    ultimately show ?thesis
      by (simp add: queued_def sel(4))
  qed
  moreover have "same_client c c2"
    using fresh(1) by (auto simp: same_client_def held_def wake_part_def c2_def c1_def m_def set_insort_key)
  moreover have "sm_send_message_delay wh dat sz msec c = Some (0, c2)"
    by (simp add: sm_send_message_delay_def ob sd[folded c2_def] c1_def[symmetric])
  moreover have "\<forall>x\<in>dom (msgs c). msgs c2 x = msgs c x"
    using fresh(1) by (auto simp: sel(8))
  ultimately show ?thesis
    using sel(2) by blast
qed

lemma sm_send_message_delay_full:
  assumes "handler_inv c" and "31 \<le> length (queued c)"
  shows "sm_send_message_delay wh dat sz msec c = Some (-1, c)"
proof -
  have "\<not> msg_count c + 1 < MAX_MSG_QUEUE_SIZE"
    using assms by (auto simp: handler_inv_def MAX_MSG_QUEUE_SIZE_def)
  then show ?thesis
    by (simp add: sm_send_message_delay_def obtain_message_full send_message_delay_def)
qed

subsection \<open>Cancelling\<close>

lemma remove_message_ok:
  assumes inv: "handler_inv c" and m: "m \<in> set (msg_queue c)"
  shows "\<exists>c'. remove_message (Some m) c = Some c' \<and> handler_inv c' \<and> msg_queue c' = remove1 m (msg_queue c)
    \<and> (\<forall>x\<in>set (msg_queue c'). letter_of c' x = letter_of c x \<and> msgs c' x = msgs c x) \<and> same_client c c'
    \<and> pending_list c' = remove1 m (pending_list c)"
proof -
  have lk: "linked m c" and x: "\<exists>x. msgs c m = Some x" and m0: "m \<noteq> 0"
    using inv m by (auto simp: handler_inv_def linked_def)
  have ti: "timers_inv c"
    using inv by (simp add: handler_inv_def)
  let ?c = "c\<lparr>timer_list := remove1 m (timer_list c), pending_list := remove1 m (pending_list c)\<rparr>"
  have ul: "unlink m c = Some ?c" and ti': "timers_inv ?c"
    using unlink_inv[OF ti lk] lk by (simp_all add: unlink_def)
  define c' where "c' = ?c\<lparr>msg_queue := remove1 m (msg_queue c), defer_msg_queue := remove1 m (defer_msg_queue c),
     msg_count := msg_count c - 1, msgs := (msgs c)(m := None), evs := (evs c)(m := None)\<rparr>"
  have rm: "remove_message (Some m) c = Some c'"
    using lk x ul by (cases c)
      (auto simp: remove_message_def remove_from_list_def uew_event_del_def upil_timer_del_def dequeue_def c'_def)
  have sel: "timer_list c' = remove1 m (timer_list c)" "pending_list c' = remove1 m (pending_list c)"
      "evs c' = (evs c)(m := None)" "msg_queue c' = remove1 m (msg_queue c)"
      "msg_count c' = msg_count c - 1" "defer_msg_queue c' = remove1 m (defer_msg_queue c)"
      "malloc_calls c' = malloc_calls c" "msgs c' = (msgs c)(m := None)"
    by (simp_all add: c'_def)
  have d: "distinct (timer_list c)" "distinct (pending_list c)" "distinct (msg_queue c)"
    using inv by (auto simp: handler_inv_def timers_inv_def)
  have tm: "timeout_of c' a = timeout_of c a" if "a \<noteq> m" for a
    using that by (simp add: timeout_of_def sel(3))
  have "map (timeout_of c') (remove1 m (timer_list c)) = map (timeout_of c) (remove1 m (timer_list c))"
    using tm d by auto
  moreover have "sorted (map (timeout_of c) (remove1 m (timer_list c)))"
    using ti' by (simp add: timers_inv_def)
  ultimately have "sorted (map (timeout_of c') (remove1 m (timer_list c)))"
    by (simp only:)
  moreover have "distinct (timer_list c' @ pending_list c')"
      "\<forall>a\<in>set (timer_list c' @ pending_list c'). evs c' a \<noteq> None"
    using ti d by (auto simp: timers_inv_def sel)
  ultimately have "timers_inv c'"
    unfolding timers_inv_def sel by blast
  moreover have "\<forall>x\<in>set (msg_queue c'). msg_event c' x"
      "\<forall>x\<in>set (msg_queue c'). msg_sized (the (msgs c' x))"
    using inv d unfolding handler_inv_def msg_event_def sel by auto
  moreover have "set (msg_queue c') = (set (timer_list c') \<union> set (pending_list c')) - {0}"
    using inv d unfolding handler_inv_def sel by auto
  moreover have "distinct (msg_queue c')" "defer_msg_queue c' = []" "set (msg_queue c') \<subseteq> dom (msgs c')"
      "\<forall>x\<in>dom (msgs c'). 0 < x \<and> x \<le> malloc_calls c'" "msg_count c' < MAX_MSG_QUEUE_SIZE"
    using inv d by (auto simp: handler_inv_def sel)
  moreover have "msg_count c' = int (length (msg_queue c'))"
  proof -
    have "msg_count c = int (length (msg_queue c))"
      using inv by (simp add: handler_inv_def)
    moreover have "int (length (remove1 m (msg_queue c))) = int (length (msg_queue c)) - 1"
      using m length_pos_if_in_set[OF m] by (simp only: length_remove1 if_True)
    ultimately show ?thesis
      by (simp add: sel)
  qed
  ultimately have "handler_inv c'"
    unfolding handler_inv_def by blast
  moreover have "\<forall>x\<in>set (msg_queue c'). letter_of c' x = letter_of c x \<and> msgs c' x = msgs c x"
    using d tm by (auto simp: letter_of_def sel)
  moreover have "same_client c c'"
    using m d m0 by (auto simp: same_client_def held_def wake_part_def c'_def)
  ultimately show ?thesis
    using rm sel(2,4) by blast
qed

lemma filter_remove1_distinct:
  "distinct xs \<Longrightarrow> filter P (remove1 x xs) = filter (\<lambda>y. y \<noteq> x \<and> P y) xs"
  by (induction xs) (auto intro: filter_cong)

text \<open>The messages of the list \<open>ms\<close> that have the number \<open>wh\<close>.\<close>

definition hit :: "'a handler_scheme \<Rightarrow> int \<Rightarrow> addr list \<Rightarrow> addr \<Rightarrow> bool" where
  "hit c wh ms m \<longleftrightarrow> m \<in> set ms \<and> msg_what (the (msgs c m)) = wh"

text \<open>What cancelling leaves: the other messages, unchanged, where they were.\<close>

definition cancelled :: "int \<Rightarrow> addr list \<Rightarrow> 'a handler_scheme \<Rightarrow> 'a handler_scheme \<Rightarrow> bool" where
  "cancelled wh ms c c' \<longleftrightarrow> handler_inv c' \<and> same_client c c'
    \<and> msg_queue c' = filter (\<lambda>m. \<not> hit c wh ms m) (msg_queue c)
    \<and> pending_list c' = filter (\<lambda>m. \<not> hit c wh ms m) (pending_list c)
    \<and> (\<forall>x\<in>set (msg_queue c'). letter_of c' x = letter_of c x \<and> msgs c' x = msgs c x)"

lemma cancelled_step:
  assumes c1: "handler_inv c1" "msg_queue c1 = remove1 m (msg_queue c)"
      "\<forall>x\<in>set (msg_queue c1). letter_of c1 x = letter_of c x \<and> msgs c1 x = msgs c x"
      "same_client c c1" "pending_list c1 = remove1 m (pending_list c)"
    and c': "cancelled wh ms c1 c'" and m: "msg_what (the (msgs c m)) = wh"
    and ms: "set ms \<subseteq> set (msg_queue c1)" and d: "distinct (msg_queue c)" "distinct (pending_list c)"
  shows "cancelled wh (m # ms) c c'"
proof -
  have h: "hit c1 wh ms = hit c wh ms"
    using ms c1(3) by (intro ext) (auto simp: hit_def)
  have q: "filter (\<lambda>a. \<not> hit c wh ms a) (remove1 m xs) = filter (\<lambda>a. \<not> hit c wh (m # ms) a) xs"
    if "distinct xs" for xs
    using m that by (auto simp: filter_remove1_distinct hit_def intro!: filter_cong)
  have "msg_queue c' = filter (\<lambda>a. \<not> hit c wh (m # ms) a) (msg_queue c)"
      "pending_list c' = filter (\<lambda>a. \<not> hit c wh (m # ms) a) (pending_list c)"
    using c' q[OF d(1)] q[OF d(2)] by (simp_all add: cancelled_def h c1(2,5))
  moreover have "\<forall>x\<in>set (msg_queue c'). letter_of c' x = letter_of c x \<and> msgs c' x = msgs c x"
    using c' c1(3) by (auto simp: cancelled_def)
  ultimately show ?thesis
    using c' same_client_trans[OF c1(4)] unfolding cancelled_def by blast
qed

lemma remove_id_loop_ok:
  assumes "handler_inv c" and "set ms \<subseteq> set (msg_queue c)" and "distinct ms"
  shows "\<exists>c'. remove_id_loop wh ms c = Some c' \<and> cancelled wh ms c c'"
  using assms
proof (induction ms arbitrary: c)
  case Nil
  then show ?case by (simp add: cancelled_def hit_def)
next
  case (Cons m ms)
  then have m: "m \<in> set (msg_queue c)" and d: "distinct (msg_queue c)" "distinct (pending_list c)"
    by (auto simp: handler_inv_def timers_inv_def)
  then obtain x where x: "msgs c m = Some x"
    using Cons.prems(1) by (auto simp: handler_inv_def)
  show ?case
  proof (cases "msg_what x = wh")
    case False
    then have "hit c wh (m # ms) = hit c wh ms"
      using x by (intro ext) (auto simp: hit_def)
    moreover obtain c' where "remove_id_loop wh ms c = Some c'" "cancelled wh ms c c'"
      using Cons.IH[of c] Cons.prems by auto
    ultimately show ?thesis
      using x False by (simp add: cancelled_def)
  next
    case True
    obtain c1 where c1: "remove_message (Some m) c = Some c1" "handler_inv c1"
        "msg_queue c1 = remove1 m (msg_queue c)"
        "\<forall>x\<in>set (msg_queue c1). letter_of c1 x = letter_of c x \<and> msgs c1 x = msgs c x"
        "same_client c c1" "pending_list c1 = remove1 m (pending_list c)"
      using remove_message_ok[OF Cons.prems(1) m] by blast
    have ms: "set ms \<subseteq> set (msg_queue c1)"
      using Cons.prems(2,3) d by (auto simp: c1(3))
    then obtain c' where c': "remove_id_loop wh ms c1 = Some c'" "cancelled wh ms c1 c'"
      using Cons.IH[OF c1(2)] Cons.prems(3) by auto
    then show ?thesis
      using cancelled_step[OF c1(2-6) c'(2) _ ms d] x True c1(1) by simp
  qed
qed

lemma sm_remove_message_id_full:
  assumes inv: "handler_inv c"
  shows "\<exists>c'. sm_remove_message_id wh c = Some c' \<and> cancelled wh (msg_queue c) c c'"
proof -
  have d: "distinct (msg_queue c)"
    using inv by (simp add: handler_inv_def)
  obtain c' where c': "remove_id_loop wh (msg_queue c) c = Some c'" "cancelled wh (msg_queue c) c c'"
    using remove_id_loop_ok[OF inv order_refl d] by blast
  then have "defer_msg_queue c' = []"
    by (simp add: cancelled_def handler_inv_def)
  then have "sm_remove_message_id wh c = Some c'"
    using c'(1) by (simp add: sm_remove_message_id_def remove_message_id_def)
  then show ?thesis
    using c'(2) by blast
qed

lemma sm_remove_message_id_ok:
  assumes inv: "handler_inv c"
  shows "\<exists>c'. sm_remove_message_id wh c = Some c' \<and> handler_inv c' \<and> same_client c c'
    \<and> queued c' = filter (\<lambda>l. fst l \<noteq> wh) (queued c)"
proof -
  obtain c' where c': "sm_remove_message_id wh c = Some c'" "cancelled wh (msg_queue c) c c'"
    using sm_remove_message_id_full[OF inv] by blast
  then have "queued c' = map (letter_of c) (msg_queue c')"
    by (simp add: queued_def cancelled_def)
  moreover have "msg_queue c' = filter (\<lambda>m. fst (letter_of c m) \<noteq> wh) (msg_queue c)"
    using c'(2) by (auto simp: cancelled_def letter_of_def hit_def intro: filter_cong)
  ultimately have "queued c' = filter (\<lambda>l. fst l \<noteq> wh) (queued c)"
    by (simp add: queued_def filter_map comp_def)
  then show ?thesis
    using c' by (simp add: cancelled_def)
qed

section \<open>The channel the state machine sees\<close>

text \<open>
  The contract of the handler: a bag of letters in the order in which they were sent,
  at most 31 of them; sending appends a letter, or refuses it when the queue is full;
  cancelling a number takes out its letters.  Everything else is the client's and stays.
\<close>

locale msg_channel =
  fixes inv :: "'s \<Rightarrow> bool"
    and letters :: "'s \<Rightarrow> letter list"
    and frame :: "'s \<Rightarrow> 's \<Rightarrow> bool"
    and due_at :: "'s \<Rightarrow> int \<Rightarrow> timeval"
    and send :: "int \<Rightarrow> byte list \<Rightarrow> int \<Rightarrow> int \<Rightarrow> 's \<Rightarrow> (int \<times> 's) option"
    and cancel :: "int \<Rightarrow> 's \<Rightarrow> 's option"
  assumes send_ok: "inv s \<Longrightarrow> length (letters s) < 31 \<Longrightarrow> nat n \<le> length d \<Longrightarrow>
      \<exists>s'. send w d n ms s = Some (0, s') \<and> inv s' \<and> frame s s'
        \<and> letters s' = letters s @ [(w, payload d n, due_at s ms)]"
    and send_full: "inv s \<Longrightarrow> 31 \<le> length (letters s) \<Longrightarrow> send w d n ms s = Some (-1, s)"
    and cancel_ok: "inv s \<Longrightarrow>
      \<exists>s'. cancel w s = Some s' \<and> inv s' \<and> frame s s' \<and> letters s' = filter (\<lambda>l. fst l \<noteq> w) (letters s)"
    and frame_refl: "frame s s"
    and frame_trans: "frame s s' \<Longrightarrow> frame s' s'' \<Longrightarrow> frame s s''"
    and frame_due: "frame s s' \<Longrightarrow> due_at s' = due_at s"
begin

text \<open>Sending never leaves the defined states and never loses a waiting letter.\<close>

lemma send_total:
  assumes "inv s" and "nat n \<le> length d"
  shows "\<exists>r s'. send w d n ms s = Some (r, s') \<and> inv s' \<and> frame s s' \<and>
    letters s' = letters s @ (if length (letters s) < 31 then [(w, payload d n, due_at s ms)] else [])"
  using send_ok[OF assms(1) _ assms(2), of w ms] send_full[OF assms(1), of w d n ms] assms(1) frame_refl
  by (cases "length (letters s) < 31") auto

text \<open>Cancelling a time-out and sending it again leaves exactly one, with the new due time.\<close>

lemma restart:
  assumes "inv s" and "length (letters s) < 31"
  shows "\<exists>s1 s2. cancel w s = Some s1 \<and> send w [] 0 ms s1 = Some (0, s2) \<and> inv s2 \<and> frame s s2
    \<and> letters s2 = filter (\<lambda>l. fst l \<noteq> w) (letters s) @ [(w, None, due_at s ms)]"
proof -
  obtain s1 where s1: "cancel w s = Some s1" "inv s1" "frame s s1"
      "letters s1 = filter (\<lambda>l. fst l \<noteq> w) (letters s)"
    using cancel_ok[OF assms(1)] by blast
  have "length (letters s1) < 31"
    using assms(2) length_filter_le[of _ "letters s"] unfolding s1(4) by (rule le_less_trans[rotated])
  then obtain s2 where "send w [] 0 ms s1 = Some (0, s2)" "inv s2" "frame s1 s2"
      "letters s2 = letters s1 @ [(w, payload [] 0, due_at s1 ms)]"
    using send_ok[OF s1(2), of 0 "[]" w ms] by auto
  then show ?thesis
    using s1 frame_trans frame_due[OF s1(3)] by (auto simp: payload_def)
qed

end

interpretation mh: msg_channel
    "\<lambda>c :: 'a handler_scheme. handler_inv c \<and> mem_ok c" queued same_client due
    sm_send_message_delay sm_remove_message_id
proof (unfold_locales, goal_cases)
  case (1 s n d w ms)
  then show ?case
    using sm_send_message_delay_ok[of s n d w ms] same_client_mem_ok by blast
next
  case (2 s w d n ms)
  then show ?case
    by (simp add: sm_send_message_delay_full)
next
  case (3 s w)
  then show ?case
    using sm_remove_message_id_ok[of s w] same_client_mem_ok by blast
next
  case (5 s s' s'')
  then show ?case by (rule same_client_trans)
next
  case (6 s s')
  then show ?case by (rule same_client_due)
qed simp

section \<open>Properties\<close>

text \<open>A handler without messages, for examples.\<close>

definition idle_handler :: "(nat \<Rightarrow> bool) \<Rightarrow> handler" where
  "idle_handler ok =
     \<lparr>readFds = {3}, nfds = 4, watch_table = Some 0 # replicate 15 None, timer_list = [], pending_list = [],
      evs = [0 \<mapsto> \<lparr>ev_fd = 3, ev_index = 0, ev_persist = 1, ev_timeout = TV 0 0, ev_func = CbWakeup, ev_param = 0\<rparr>],
      clock = TV 0 0, fdWakeupRead = 3, fdWakeupWrite = 4, wakeupfd_event = 0, pipe_bytes = 0, in_loop_thread = True,
      msg_queue = [], defer_msg_queue = [], msg_count = 0, msgs = Map.empty, malloc_calls = 0, malloc_ok = ok\<rparr>"

lemma idle_handler_inv: "handler_inv (idle_handler ok)"
  by (simp add: handler_inv_def timers_inv_def idle_handler_def MAX_MSG_QUEUE_SIZE_def)

text \<open>
  Property C18.  Sending a message to a handler in order, with memory and with room in the
  queue, succeeds: the message is queued last, with a copy of its data and the two NULs
  behind it, to be delivered after the delay, and the invariant holds, in which every
  queued message has its event in the loop.  A full queue refuses the message and changes
  nothing.
\<close>

theorem send_message_queued:
  assumes "handler_inv c" and "mem_ok c" and "nat n \<le> length d"
  shows "\<exists>r c'. sm_send_message_delay w d n ms c = Some (r, c') \<and> handler_inv c' \<and>
    (if length (queued c) < 31 then r = 0 \<and> queued c' = queued c @ [(w, payload d n, due c ms)] else r = -1 \<and> c' = c)"
  using sm_send_message_delay_ok[OF assms(1,2) _ assms(3), of w ms] sm_send_message_delay_full[OF assms(1), of w d n ms] assms(1)
  by (cases "length (queued c) < 31") auto

theorem send_message_queued_witness:
  "\<exists>r c'. sm_send_message_delay 5 [1, 2] 2 3000 (idle_handler (\<lambda>_. True)) = Some (r, c')
    \<and> handler_inv c' \<and> queued c' = [(5, Some [1, 2, 0, 0], TV 3 0)]"
proof -
  have "mem_ok (idle_handler (\<lambda>_. True))"
    by (simp add: mem_ok_def idle_handler_def)
  from send_message_queued[OF idle_handler_inv this, of 2 "[1, 2]" 5 3000] show ?thesis
    by (auto simp: idle_handler_def queued_def payload_def due_def timeradd_def)
qed

text \<open>
  Cancelling a message number and sending it again, as every time-out of
  the telephone is restarted, leaves exactly one message with this number, with the new
  delivery time, and all the others.
\<close>

lemma restart_leaves_one:
  assumes "handler_inv c" and "mem_ok c" and "length (queued c) < 31"
  shows "\<exists>c1 c2. sm_remove_message_id w c = Some c1 \<and> sm_send_message_delay w [] 0 ms c1 = Some (0, c2)
    \<and> handler_inv c2 \<and> queued c2 = filter (\<lambda>l. fst l \<noteq> w) (queued c) @ [(w, None, due c ms)]"
  using mh.restart[of c w ms] assms by blast

lemma restart_leaves_one_witness:
  "\<exists>c1 c2. sm_remove_message_id 9 (idle_handler (\<lambda>_. True)) = Some c1 \<and> sm_send_message_delay 9 [] 0 5000 c1 = Some (0, c2)
    \<and> queued c2 = [(9, None, TV 5 0)]"
proof -
  have "mem_ok (idle_handler (\<lambda>_. True))"
    by (simp add: mem_ok_def idle_handler_def)
  from restart_leaves_one[OF idle_handler_inv this, of 9 5000] show ?thesis
    by (auto simp: idle_handler_def queued_def due_def timeradd_def)
qed

text \<open>
  When the memory for the data of a message cannot be allocated,
  \<open>obtain_message\<close> returns no message and takes back what it has done: the queue and
  its count are as before.
\<close>

lemma no_memory_for_data:
  assumes inv: "handler_inv c" and room: "length (queued c) < 31" and sz: "0 < sz"
    and mem: "malloc_ok c (malloc_calls c)" "\<not> malloc_ok c (Suc (malloc_calls c))"
  shows "\<exists>c'. obtain_message wh dat sz c = Some (None, c') \<and> queued c' = queued c \<and> msg_count c' = msg_count c
    \<and> msgs c' = msgs c \<and> timer_list c' = timer_list c \<and> pending_list c' = pending_list c"
proof -
  let ?m = "Suc (malloc_calls c)"
  have f: "msgs c ?m = None" "?m \<notin> set (msg_queue c)" "\<not> linked ?m c"
    using handler_inv_fresh[OF inv order_refl] by auto
  have cnt: "msg_count c + 1 < MAX_MSG_QUEUE_SIZE" "defer_msg_queue c = []" "msg_count c = int (length (msg_queue c))"
    using inv room by (auto simp: handler_inv_def MAX_MSG_QUEUE_SIZE_def)
  let ?c' = "c\<lparr>malloc_calls := Suc (Suc (malloc_calls c)), evs := (evs c)(?m := None)\<rparr>"
  have "obtain_message wh dat sz c = Some (None, ?c')"
    using f cnt sz mem
    by (cases c) (auto simp: obtain_message_def handler_obtain_def malloc_def remove_message_def remove_from_list_def
        linked_def dequeue_def remove1_append fun_upd_idem)
  moreover have "queued ?c' = queued c"
    using f(2) by (auto simp: queued_def letter_of_def timeout_of_def)
  ultimately show ?thesis
    by auto
qed

lemma no_memory_for_data_witness:
  "\<exists>c'. obtain_message 5 [1] 1 (idle_handler (\<lambda>n. n = 0)) = Some (None, c') \<and> queued c' = []"
proof -
  have "length (queued (idle_handler (\<lambda>n. n = 0))) < 31" "malloc_ok (idle_handler (\<lambda>n. n = 0)) (malloc_calls (idle_handler (\<lambda>n. n = 0)))"
      "\<not> malloc_ok (idle_handler (\<lambda>n. n = 0)) (Suc (malloc_calls (idle_handler (\<lambda>n. n = 0))))"
    by (simp_all add: idle_handler_def)
  from no_memory_for_data[OF idle_handler_inv this(1) _ this(2,3), of 1 5 "[1]"] show ?thesis
    by (auto simp: idle_handler_def queued_def)
qed

text \<open>
  \<open>obtain\<close> writes through the pointer that \<open>malloc\<close> returns
  without testing it: when there is room in the queue but no memory for the message, the
  program leaves defined behaviour.
\<close>

lemma no_memory_for_message_undefined:
  assumes "handler_inv c" and "length (queued c) < 31" and "\<not> malloc_ok c (malloc_calls c)"
  shows "sm_send_message_delay w d n ms c = None"
proof -
  have "msg_count c + 1 < MAX_MSG_QUEUE_SIZE"
    using assms(1,2) by (auto simp: handler_inv_def MAX_MSG_QUEUE_SIZE_def)
  then show ?thesis
    using assms(3) by (simp add: sm_send_message_delay_def obtain_message_def handler_obtain_def malloc_def)
qed

lemma no_memory_for_message_undefined_witness:
  "sm_send_message_delay 5 [] 0 0 (idle_handler (\<lambda>_. False)) = None"
  by (rule no_memory_for_message_undefined[OF idle_handler_inv]) (simp_all add: idle_handler_def)

text \<open>
  Two messages that are sent without delay at the same reading of the clock
  are not delivered in the order in which they were sent: the timer of the second goes in
  front of the timer of the first.
\<close>

lemma equal_times_delivered_in_reverse:
  assumes inv: "handler_inv c" and mem: "mem_ok c" and empty: "msg_queue c = []" "0 \<notin> set (timer_list c)"
  shows "\<exists>c1 c2 m1 m2. sm_send_message_delay w1 [] 0 0 c = Some (0, c1) \<and> sm_send_message_delay w2 [] 0 0 c1 = Some (0, c2)
    \<and> timer_list c2 = [m2, m1] \<and> msgs c2 m1 = Some \<lparr>msg_what = w1, msg_data_size = 0, msg_data = None\<rparr>
    \<and> msgs c2 m2 = Some \<lparr>msg_what = w2, msg_data_size = 0, msg_data = None\<rparr>"
proof -
  have "set (timer_list c) \<subseteq> {0}" and e2: "msg_count c = 0"
    using inv empty(1) by (auto simp: handler_inv_def)
  then have e1: "timer_list c = []"
    using empty(2) by (cases "timer_list c") auto
  have f: "\<not> linked (Suc n) c" if "malloc_calls c \<le> n" for n
    using handler_inv_fresh(3)[OF inv that] .
  have a: "malloc_ok c n" for n
    using mem by (simp add: mem_ok_def)
  show ?thesis
    using e1 e2 empty(1) f a
    by (cases c) (simp add: sm_send_message_delay_def obtain_message_def handler_obtain_def malloc_def
        MAX_MSG_QUEUE_SIZE_def send_message_delay_def uew_event_set_def upil_event_set_def linked_def
        uew_timer_add_wakeup_def upil_timer_add_def triggerEvLoop_def timeout_of_def)
qed

lemma equal_times_delivered_in_reverse_witness:
  "\<exists>c1 c2 m1 m2. sm_send_message_delay 1 [] 0 0 (idle_handler (\<lambda>_. True)) = Some (0, c1)
    \<and> sm_send_message_delay 2 [] 0 0 c1 = Some (0, c2) \<and> timer_list c2 = [m2, m1]
    \<and> msgs c2 m1 = Some \<lparr>msg_what = 1, msg_data_size = 0, msg_data = None\<rparr>
    \<and> msgs c2 m2 = Some \<lparr>msg_what = 2, msg_data_size = 0, msg_data = None\<rparr>"
  by (rule equal_times_delivered_in_reverse[OF idle_handler_inv]) (simp_all add: idle_handler_def mem_ok_def)

end
