(* ===== verification/Fsm.thy ===== *)
theory Fsm
  imports Msg_Handler
begin

text \<open>
  The state machines of \<open>state_machine/state_machine.c\<close>.  A machine is a handler with
  a table of states; its messages run either \<open>transition_to\<close> or the process function
  of the current state.  \<open>cur_state\<close> is the index of the current entry of the table.
  The table is an argument of the operations, because its functions work on the machine
  that contains it; \<open>table_set\<close> says whether the pointer to it is set.
\<close>

section \<open>Machines and states\<close>

record fsm = handler +
  fsm_name :: "byte list"
  table_set :: bool
  fsm_size :: int
  cur_state :: "nat option"
  last_incoming_num :: "byte list"
  last_outgoing_num :: "byte list"

record 's FSM_STATE =
  st_id :: int
  st_name :: string
  enter_func :: "('s \<Rightarrow> 's option) option"
  exit_func :: "('s \<Rightarrow> 's option) option"
  process_func :: "(MSG \<Rightarrow> 's \<Rightarrow> (int \<times> 's) option) option"

abbreviation (input) HANDLED :: int where
  "HANDLED \<equiv> 1"

abbreviation (input) NOT_HANDLED :: int where
  "NOT_HANDLED \<equiv> 0"

definition MAX_STATE_MACHINE :: nat where
  "MAX_STATE_MACHINE = 64"

section \<open>Operations\<close>

fun get_state_from :: "'s FSM_STATE list \<Rightarrow> int \<Rightarrow> nat \<Rightarrow> nat option" where
  "get_state_from [] i n = None"
| "get_state_from (s # ss) i n = (if st_id s = i then Some n else get_state_from ss i (Suc n))"

definition get_state :: "'s FSM_STATE list \<Rightarrow> int \<Rightarrow> nat option" where
  "get_state table i = get_state_from table i 0"

text \<open>A function pointer of the table is called unless it is NULL.\<close>

definition call_func :: "('s \<Rightarrow> 's option) option \<Rightarrow> 's \<Rightarrow> 's option" where
  "call_func f c = (case f of None \<Rightarrow> Some c | Some g \<Rightarrow> g c)"

definition cur_entry ::
    "('a fsm_scheme) FSM_STATE list \<Rightarrow> 'a fsm_scheme \<Rightarrow> ('a fsm_scheme) FSM_STATE option option" where
  "cur_entry table c =
     (case cur_state c of None \<Rightarrow> Some None
      | Some i \<Rightarrow> (if i < length table then Some (Some (table ! i)) else None))"

definition transition_to ::
    "('a fsm_scheme) FSM_STATE list \<Rightarrow> int \<Rightarrow> 'a fsm_scheme \<Rightarrow> (int \<times> 'a fsm_scheme) option" where
  "transition_to table i c = do {
     cur \<leftarrow> cur_entry table c;
     if (case cur of None \<Rightarrow> False | Some s \<Rightarrow> st_id s = i) then Some (HANDLED, c)
     else case get_state table i of
       None \<Rightarrow> Some (NOT_HANDLED, c)
     | Some n \<Rightarrow> do {
         c \<leftarrow> (case cur of None \<Rightarrow> Some c | Some s \<Rightarrow> call_func (exit_func s) c);
         let c = c\<lparr>cur_state := Some n\<rparr>;
         c \<leftarrow> call_func (enter_func (table ! n)) c;
         c \<leftarrow> process_defer_msg c;
         Some (HANDLED, c) } }"

definition process_msg ::
    "('a fsm_scheme) FSM_STATE list \<Rightarrow> MSG \<Rightarrow> 'a fsm_scheme \<Rightarrow> (int \<times> 'a fsm_scheme) option" where
  "process_msg table x c = do {
     cur \<leftarrow> cur_entry table c;
     case cur of
       None \<Rightarrow> Some (HANDLED, c)
     | Some s \<Rightarrow> (case process_func s of None \<Rightarrow> Some (HANDLED, c) | Some f \<Rightarrow> f x c) }"

text \<open>\<open>free(msg)\<close>: the memory of the message and of the event in it.\<close>

definition free_msg :: "addr \<Rightarrow> 'a handler_scheme \<Rightarrow> 'a handler_scheme" where
  "free_msg m c = c\<lparr>msgs := (msgs c)(m := None), evs := (evs c)(m := None)\<rparr>"

text \<open>\<open>*((int*)msg->data)\<close> of a transition message.\<close>

definition transition_target :: "MSG \<Rightarrow> int option" where
  "transition_target x = do {
     d \<leftarrow> msg_data x;
     if length d < 4 then None else Some (bytes_int d) }"

definition sm_process_message ::
    "('a fsm_scheme) FSM_STATE list \<Rightarrow> addr \<Rightarrow> 'a fsm_scheme \<Rightarrow> (int \<times> 'a fsm_scheme) option" where
  "sm_process_message table m c = do {
     x \<leftarrow> msgs c m;
     c \<leftarrow> remove_from_list (Some m) c;
     (ret, c) \<leftarrow> (if msg_what x = UPIL_EVT_SM_TRANSITION
                  then do { i \<leftarrow> transition_target x; transition_to table i c }
                  else process_msg table x c);
     Some (if ret = HANDLED then 0 else -1, free_msg m c) }"

definition sm_transition_to :: "int \<Rightarrow> 'a handler_scheme \<Rightarrow> (int \<times> 'a handler_scheme) option" where
  "sm_transition_to i c = sm_send_message_delay UPIL_EVT_SM_TRANSITION (int_bytes i) 4 0 c"

definition sm_set_init_state ::
    "('a fsm_scheme) FSM_STATE list \<Rightarrow> int \<Rightarrow> 'a fsm_scheme \<Rightarrow> (int \<times> 'a fsm_scheme) option" where
  "sm_set_init_state table i c = transition_to table i c"

text \<open>The callbacks of a machine's own event loop: the wake-up pipe and its messages.\<close>

definition fsm_callback :: "('a fsm_scheme) FSM_STATE list \<Rightarrow> ('a fsm_scheme) callback" where
  "fsm_callback table e c =
     (case ev_func e of
        CbWakeup \<Rightarrow> Some (processWakeupCallback c)
      | CbMessage \<Rightarrow> sm_process_message table (ev_param e) c
      | _ \<Rightarrow> None)"

section \<open>The pool of machines\<close>

fun get_idle_fsm :: "'a fsm_scheme list \<Rightarrow> nat option" where
  "get_idle_fsm [] = None"
| "get_idle_fsm (f # fs) = (if \<not> table_set f then Some 0 else map_option Suc (get_idle_fsm fs))"

definition sm_obtain_fsm ::
    "int \<Rightarrow> int \<Rightarrow> (int \<times> int) option \<Rightarrow> 'a fsm_scheme list
       \<Rightarrow> (nat option \<times> 'a fsm_scheme list) option" where
  "sm_obtain_fsm sz created filedes pool =
     (case get_idle_fsm pool of
        None \<Rightarrow> Some (None, pool)
      | Some i \<Rightarrow> do {
          (ret, c) \<leftarrow> start_handler created filedes (pool ! i);
          if ret \<noteq> 0 then Some (None, pool[i := c])
          else Some (Some i,
            pool[i := c\<lparr>table_set := True, fsm_size := sz, cur_state := None,
                       fsm_name := (fsm_name c)[0 := 0]\<rparr>]) })"

definition sm_init_pool :: "'a fsm_scheme list \<Rightarrow> 'a fsm_scheme list" where
  "sm_init_pool pool =
     map (\<lambda>c. c\<lparr>fsm_name := (fsm_name c)[0 := 0], table_set := False, fsm_size := 0, cur_state := None\<rparr>) pool"

section \<open>The table\<close>

lemma get_state_from_Some:
  "get_state_from ss i n = Some k \<longleftrightarrow>
     (\<exists>j<length ss. k = n + j \<and> st_id (ss ! j) = i \<and> (\<forall>l<j. st_id (ss ! l) \<noteq> i))"
proof (induction ss arbitrary: n)
  case (Cons s ss)
  show ?case
  proof (cases "st_id s = i")
    case True
    then show ?thesis
      by (auto simp: Ex_less_Suc2 All_less_Suc2)
  next
    case False
    have "(\<exists>j<length (s # ss). k = n + j \<and> st_id ((s # ss) ! j) = i \<and> (\<forall>l<j. st_id ((s # ss) ! l) \<noteq> i))
        \<longleftrightarrow> (\<exists>j<length ss. k = Suc n + j \<and> st_id (ss ! j) = i \<and> (\<forall>l<j. st_id (ss ! l) \<noteq> i))"
      using False by (simp add: Ex_less_Suc2 All_less_Suc2)
    then show ?thesis
      using False Cons.IH[of "Suc n"] by simp
  qed
qed simp

lemma get_state_Some:
  "get_state ss i = Some n \<longleftrightarrow> n < length ss \<and> st_id (ss ! n) = i \<and> (\<forall>l<n. st_id (ss ! l) \<noteq> i)"
  by (auto simp: get_state_def get_state_from_Some)

lemma get_state_from_None: "get_state_from ss i n = None \<longleftrightarrow> i \<notin> st_id ` set ss"
  by (induction ss arbitrary: n) auto

lemma get_state_None: "get_state ss i = None \<longleftrightarrow> i \<notin> st_id ` set ss"
  by (simp add: get_state_def get_state_from_None)

section \<open>Delivery\<close>

text \<open>The state number that a transition message carries comes out as it went in.\<close>

lemma bytes_int_int_bytes:
  assumes "- (2 ^ 31) \<le> i" and "i < 2 ^ 31"
  shows "bytes_int (int_bytes i @ zs) = i"
proof -
  have "(\<Sum>k<4. uint ((int_bytes i @ zs) ! k) * 256 ^ k) = take_bit 32 i"
  proof -
    have "(\<Sum>k<4. uint ((int_bytes i @ zs) ! k) * 256 ^ k) =
        i mod 256 + (i div 256 mod 256) * 256 + (i div 256 ^ 2 mod 256) * 256 ^ 2 + (i div 256 ^ 3 mod 256) * 256 ^ 3"
      by (simp add: int_bytes_def eval_nat_numeral uint_word_of_int nth_append)
    also have "\<dots> = i mod (256 * (256 * (256 * 256)))"
      by (simp only: zmod_zmult2_eq zdiv_zmult2_eq[symmetric]) simp
    finally show ?thesis
      by (simp add: take_bit_eq_mod)
  qed
  then have "bytes_int (int_bytes i @ zs) = signed_take_bit 31 (take_bit 32 i)"
    by (simp add: bytes_int_def)
  also have "\<dots> = signed_take_bit 31 i"
    by (simp add: signed_take_bit_eq_iff_take_bit_eq)
  also have "\<dots> = i"
    using assms by (intro signed_take_bit_int_eq_self) simp_all
  finally show ?thesis .
qed

text \<open>Taking a fired message out of the queue leaves a handler in order that holds it.\<close>

lemma deliver_ok:
  assumes inv: "handler_inv c" and p: "pending_list c = m # rest" and m: "m \<noteq> 0"
  shows "\<exists>c' x. msgs c m = Some x \<and> evs c m \<noteq> None
    \<and> remove_from_list (Some m) (c\<lparr>pending_list := rest\<rparr>) = Some c' \<and> handler_inv c' \<and> m \<in> held c'
    \<and> msg_queue c' = remove1 m (msg_queue c) \<and> pending_list c' = rest \<and> msgs c' = msgs c
    \<and> evs c' = evs c \<and> malloc_ok c' = malloc_ok c \<and> handler.more c' = handler.more c \<and> clock c' = clock c
    \<and> wake_part c' = wake_part c"
proof -
  have ti: "timers_inv c" and mq: "m \<in> set (msg_queue c)" and d: "distinct (msg_queue c)"
    using inv p m by (auto simp: handler_inv_def)
  have dm: "m \<notin> set (timer_list c)" "m \<notin> set rest" "evs c m \<noteq> None"
    using ti p by (auto simp: timers_inv_def)
  obtain x where x: "msgs c m = Some x"
    using inv mq by (auto simp: handler_inv_def)
  have df: "defer_msg_queue c = []"
    using inv by (simp add: handler_inv_def)
  define c' where "c' = c\<lparr>pending_list := rest, msg_queue := remove1 m (msg_queue c), msg_count := msg_count c - 1\<rparr>"
  have rm: "remove_from_list (Some m) (c\<lparr>pending_list := rest\<rparr>) = Some c'"
    using x dm df by (cases c) (simp add: remove_from_list_def linked_def dequeue_def c'_def)
  have sel: "timer_list c' = timer_list c" "pending_list c' = rest" "evs c' = evs c"
      "msg_queue c' = remove1 m (msg_queue c)" "msg_count c' = msg_count c - 1" "msgs c' = msgs c"
      "defer_msg_queue c' = defer_msg_queue c" "malloc_calls c' = malloc_calls c"
    by (simp_all add: c'_def)
  have t: "timeout_of c' = timeout_of c"
    by (rule timeout_of_evs) (simp add: sel)
  have "timers_inv c'"
    using ti p unfolding timers_inv_def sel t by auto
  moreover have "msg_count c' = int (length (msg_queue c'))"
  proof -
    have "msg_count c = int (length (msg_queue c))"
      using inv by (simp add: handler_inv_def)
    moreover have "int (length (remove1 m (msg_queue c))) = int (length (msg_queue c)) - 1"
      using mq length_pos_if_in_set[OF mq] by (simp only: length_remove1 if_True)
    ultimately show ?thesis
      by (simp add: sel)
  qed
  moreover have "set (msg_queue c') = (set (timer_list c') \<union> set (pending_list c')) - {0}"
    using inv p d dm by (auto simp: handler_inv_def sel)
  moreover have "\<forall>m\<in>set (msg_queue c'). msg_event c' m"
      "\<forall>x\<in>set (msg_queue c'). msg_sized (the (msgs c' x))"
    using inv d by (auto simp: handler_inv_def msg_event_def sel)
  moreover have "distinct (msg_queue c')" "defer_msg_queue c' = []" "set (msg_queue c') \<subseteq> dom (msgs c')"
      "\<forall>x\<in>dom (msgs c'). 0 < x \<and> x \<le> malloc_calls c'" "msg_count c' < MAX_MSG_QUEUE_SIZE"
    using inv d by (auto simp: handler_inv_def sel)
  ultimately have "handler_inv c'"
    unfolding handler_inv_def by blast
  moreover have "m \<in> held c'"
    using x d by (simp add: held_def sel domI)
  ultimately show ?thesis
    using x dm(3) rm by (simp add: c'_def wake_part_def)
qed

lemma free_msg_ok:
  assumes inv: "handler_inv c" and m: "m \<in> held c"
  shows "handler_inv (free_msg m c)" and "queued (free_msg m c) = queued c"
    and "pending_list (free_msg m c) = pending_list c"
    and "x \<in> set (pending_list c) \<Longrightarrow> msgs (free_msg m c) x = msgs c x \<and> evs (free_msg m c) x = evs c x"
proof -
  have q: "m \<notin> set (msg_queue c)" "m \<noteq> 0"
    using assms by (auto simp: held_def handler_inv_def)
  then have l: "m \<notin> set (timer_list c)" "m \<notin> set (pending_list c)"
    using inv by (auto simp: handler_inv_def)
  let ?c = "free_msg m c"
  have t: "timeout_of ?c a = timeout_of c a" if "a \<noteq> m" for a
    using that by (simp add: timeout_of_def free_msg_def)
  have sel: "timer_list ?c = timer_list c" "pending_list ?c = pending_list c" "msg_queue ?c = msg_queue c"
      "evs ?c = (evs c)(m := None)" "msgs ?c = (msgs c)(m := None)" "msg_count ?c = msg_count c"
      "defer_msg_queue ?c = defer_msg_queue c" "malloc_calls ?c = malloc_calls c"
    by (simp_all add: free_msg_def)
  have "map (timeout_of ?c) (timer_list c) = map (timeout_of c) (timer_list c)"
    using l(1) by (intro map_cong refl t) auto
  then have "sorted (map (timeout_of ?c) (timer_list ?c))"
    using inv by (simp only: sel handler_inv_def timers_inv_def)
  moreover have "distinct (timer_list ?c @ pending_list ?c)"
      "\<forall>a\<in>set (timer_list ?c @ pending_list ?c). evs ?c a \<noteq> None"
    using inv l by (auto simp: handler_inv_def timers_inv_def sel)
  ultimately have "timers_inv ?c"
    unfolding timers_inv_def by blast
  then show "handler_inv ?c"
    using inv q by (auto simp: handler_inv_def sel msg_event_def)
  show "queued ?c = queued c"
    using q t by (auto simp: queued_def letter_of_def sel)
  show "pending_list ?c = pending_list c"
    by (rule sel)
  show "x \<in> set (pending_list c) \<Longrightarrow> msgs ?c x = msgs c x \<and> evs ?c x = evs c x"
    using l by (auto simp: sel)
qed

section \<open>Firing the messages of a machine\<close>

text \<open>
  A machine may cancel messages while it processes one.  \<open>W\<close> are the numbers it
  cancels; \<open>firePending\<close> keeps a pointer to the next pending event across the call,
  so none of the events behind the current one may have such a number.
\<close>

definition quiet_msgs :: "int set \<Rightarrow> addr list \<Rightarrow> 'a handler_scheme \<Rightarrow> bool" where
  "quiet_msgs W ps c \<longleftrightarrow> (\<forall>m\<in>set ps. m \<noteq> 0 \<longrightarrow> msg_what (the (msgs c m)) \<notin> W)"

definition keeps :: "int set \<Rightarrow> 'a handler_scheme \<Rightarrow> 'a handler_scheme \<Rightarrow> bool" where
  "keeps W c c' \<longleftrightarrow> held c \<subseteq> held c' \<and>
     (quiet_msgs W (pending_list c) c \<longrightarrow>
        pending_list c' = pending_list c \<and> (\<forall>m\<in>set (pending_list c) - {0}. msgs c' m = msgs c m))"

lemma keeps_refl [simp]: "keeps W c c"
  by (simp add: keeps_def)

lemma quiet_msgs_cong:
  "(\<And>m. m \<in> set ps \<Longrightarrow> m \<noteq> 0 \<Longrightarrow> msgs c' m = msgs c m) \<Longrightarrow> quiet_msgs W ps c' = quiet_msgs W ps c"
  by (auto simp: quiet_msgs_def)

lemma keeps_trans: "keeps W a b \<Longrightarrow> keeps W b c \<Longrightarrow> keeps W a c"
  unfolding keeps_def using quiet_msgs_cong[of "pending_list a" b a W] by auto

lemma keeps_same_handler:
  "pending_list c' = pending_list c \<Longrightarrow> msgs c' = msgs c \<Longrightarrow> msg_queue c' = msg_queue c \<Longrightarrow> keeps W c c'"
  by (simp add: keeps_def held_def)

lemma pending_queued:
  "handler_inv c \<Longrightarrow> m \<in> set (pending_list c) \<Longrightarrow> m \<noteq> 0 \<Longrightarrow> m \<in> set (msg_queue c) \<and> m \<in> dom (msgs c)"
  by (auto simp: handler_inv_def)

lemma send_keeps:
  assumes inv: "handler_inv c" and mem: "mem_ok c" and len: "nat sz \<le> length dat"
  shows "\<exists>r c'. sm_send_message_delay wh dat sz msec c = Some (r, c') \<and> handler_inv c' \<and> same_client c c'
    \<and> set (queued c') \<subseteq> insert (wh, payload dat sz, due c msec) (set (queued c)) \<and> keeps W c c'"
proof (cases "length (queued c) < 31")
  case True
  obtain c' where "sm_send_message_delay wh dat sz msec c = Some (0, c')" "handler_inv c'"
      "queued c' = queued c @ [(wh, payload dat sz, due c msec)]" "same_client c c'"
      "pending_list c' = pending_list c" "\<forall>x\<in>dom (msgs c). msgs c' x = msgs c x"
    using sm_send_message_delay_ok[OF inv mem True len] by blast
  then show ?thesis
    using pending_queued[OF inv] by (auto simp: keeps_def same_client_def)
next
  case False
  then show ?thesis
    using sm_send_message_delay_full[OF inv] inv by auto
qed

lemma cancel_keeps:
  assumes inv: "handler_inv c" and W: "wh \<in> W"
  shows "\<exists>c'. sm_remove_message_id wh c = Some c' \<and> handler_inv c' \<and> same_client c c'
    \<and> set (queued c') \<subseteq> set (queued c) \<and> keeps W c c'"
proof -
  obtain c' where c': "sm_remove_message_id wh c = Some c'" "cancelled wh (msg_queue c) c c'"
    using sm_remove_message_id_full[OF inv] by blast
  have "pending_list c' = pending_list c" if q: "quiet_msgs W (pending_list c) c"
  proof -
    have "\<not> hit c wh (msg_queue c) m" if "m \<in> set (pending_list c)" for m
      using q that W inv by (auto simp: hit_def quiet_msgs_def handler_inv_def)
    then show ?thesis
      using c'(2) by (simp add: cancelled_def)
  qed
  moreover have "msgs c' m = msgs c m" if "pending_list c' = pending_list c" "m \<in> set (pending_list c) - {0}" for m
    using c'(2) that pending_queued[of c' m] by (auto simp: cancelled_def)
  ultimately have "keeps W c c'"
    using c'(2) by (simp add: keeps_def cancelled_def same_client_def)
  moreover have "set (queued c') \<subseteq> set (queued c)"
    using c'(2) by (auto simp: cancelled_def queued_def)
  ultimately show ?thesis
    using c' by (auto simp: cancelled_def)
qed

text \<open>The event of the wake-up pipe is the one that is watched.\<close>

definition wake_ok :: "'a handler_scheme \<Rightarrow> bool" where
  "wake_ok c \<longleftrightarrow> (\<exists>e. evs c 0 = Some e \<and> ev_func e = CbWakeup \<and> ev_persist e \<noteq> 0)
     \<and> watch_table c = Some 0 # replicate 15 None \<and> 0 \<notin> set (timer_list c)"

lemma wake_ok_part: "wake_part c' = wake_part c \<Longrightarrow> wake_ok c' = wake_ok c"
  by (simp add: wake_part_def wake_ok_def)

text \<open>A state with the same client part and no other letters.\<close>

definition fewer :: "'a handler_scheme \<Rightarrow> 'a handler_scheme \<Rightarrow> bool" where
  "fewer c c' \<longleftrightarrow> handler_inv c' \<and> set (queued c') \<subseteq> set (queued c) \<and> handler.more c' = handler.more c \<and>
     malloc_ok c' = malloc_ok c \<and> wake_part c' = wake_part c"

text \<open>
  The part of a turn of the loop before the callbacks: expired timers and a readable
  wake-up pipe become pending.  The state stays in order.
\<close>

lemma handler_timeouts:
  assumes inv: "handler_inv c"
  shows "\<exists>c'. processTimeouts c = Some c' \<and> handler_inv c' \<and> queued c' = queued c \<and> msgs c' = msgs c
    \<and> evs c' = evs c \<and> msg_queue c' = msg_queue c \<and> handler.more c' = handler.more c \<and> malloc_ok c' = malloc_ok c
    \<and> watch_table c' = watch_table c \<and> set (timer_list c') \<subseteq> set (timer_list c)
    \<and> pending_list c' = pending_list c @ filter (\<lambda>a. timeout_of c a < clock c) (timer_list c) \<and> clock c' = clock c"
proof -
  have ti: "timers_inv c"
    using inv by (simp add: handler_inv_def)
  let ?P = "\<lambda>a. timeout_of c a < clock c"
  let ?c' = "c\<lparr>timer_list := dropWhile ?P (timer_list c), pending_list := pending_list c @ takeWhile ?P (timer_list c)\<rparr>"
  have e: "processTimeouts c = Some ?c'"
    by (rule processTimeouts_effect[OF ti])
  then have ti': "timers_inv ?c'" "pending_list ?c' = pending_list c @ filter ?P (timer_list c)"
      "set (timer_list ?c') = {a \<in> set (timer_list c). clock c \<le> timeout_of c a}"
    using processTimeouts_inv[OF ti] by auto
  have "set (timer_list ?c') \<union> set (pending_list ?c') = set (timer_list c) \<union> set (pending_list c)"
    unfolding ti'(2,3) by (auto simp: not_less)
  then have "set (msg_queue ?c') = (set (timer_list ?c') \<union> set (pending_list ?c')) - {0}"
    using inv by (simp add: handler_inv_def)
  moreover have "\<forall>m\<in>set (msg_queue ?c'). msg_event ?c' m"
    using inv by (simp add: handler_inv_def msg_event_def)
  moreover have "distinct (msg_queue ?c')" "defer_msg_queue ?c' = []" "msg_count ?c' = int (length (msg_queue ?c'))"
      "msg_count ?c' < MAX_MSG_QUEUE_SIZE" 
      "\<forall>m\<in>dom (msgs ?c'). 0 < m \<and> m \<le> malloc_calls ?c'" "\<forall>m\<in>set (msg_queue ?c'). msg_sized (the (msgs ?c' m))"
    using inv unfolding handler_inv_def by simp_all
  moreover have "set (msg_queue ?c') \<subseteq> dom (msgs ?c')"
    using inv by (auto simp: handler_inv_def)
  ultimately have "handler_inv ?c'"
    unfolding handler_inv_def using ti'(1) by blast
  moreover have "timeout_of ?c' = timeout_of c"
    by simp
  then have "queued ?c' = queued c"
    by (simp add: queued_def letter_of_def)
  ultimately show ?thesis
    using e ti'(2) by (auto dest: set_dropWhileD)
qed

lemma ready_loop_unwatched:
  assumes "\<forall>j<16. i \<le> j \<longrightarrow> watch_table c ! j = None"
  shows "ready_loop rfds i n c = Some c"
  using assms
proof (induction "16 - i" arbitrary: i)
  case 0
  then show ?case
    by (subst ready_loop.simps) (simp add: MAX_FD_EVENTS_def)
next
  case (Suc k)
  then have "watch_table c ! i = None" "ready_loop rfds (Suc i) n c = Some c"
    by auto
  then show ?case
    by (subst ready_loop.simps) simp
qed

lemma wake_ready:
  assumes "wake_ok c"
  shows "processReadReadies rfds n c = (if n > 0 \<and> ev_fd (the (evs c 0)) \<in> rfds then link_pending 0 c else Some c)"
proof -
  have w: "watch_table c = Some 0 # replicate 15 None"
    using assms by (simp add: wake_ok_def)
  have rest: "ready_loop rfds (Suc 0) m d = Some d" if "watch_table d = watch_table c" for m and d :: "'a handler_scheme"
    using that w by (intro ready_loop_unwatched) (auto simp: nth_Cons split: nat.splits)
  have lp: "link_pending 0 c = Some d \<Longrightarrow> watch_table d = watch_table c" for d
    by (auto simp: link_pending_def split: if_splits)
  obtain e where e: "evs c 0 = Some e" "ev_persist e \<noteq> 0"
    using assms by (auto simp: wake_ok_def)
  show ?thesis
  proof (cases "n > 0")
    case True
    show ?thesis
    proof (cases "link_pending 0 c")
      case None
      then show ?thesis
        using True e w rest[of c] by (subst processReadReadies_def, subst ready_loop.simps) (simp add: MAX_FD_EVENTS_def)
    next
      case (Some d)
      then show ?thesis
        using True e w rest[of c] rest[OF lp[OF Some]]
        by (subst processReadReadies_def, subst ready_loop.simps) (simp add: MAX_FD_EVENTS_def)
    qed
  next
    case False
    then show ?thesis
      by (subst processReadReadies_def, subst ready_loop.simps) simp
  qed
qed

text \<open>
  The contract between the loop of a machine and the functions of its table: \<open>J\<close> is
  the invariant, \<open>good\<close> says which messages may be queued.  Processing a good message
  is defined, is handled, and keeps the invariant.
\<close>

locale fsm_client =
  fixes table :: "('a fsm_scheme) FSM_STATE list"
    and W :: "int set"
    and J :: "'a fsm_scheme \<Rightarrow> bool"
    and good :: "int \<Rightarrow> byte list option \<Rightarrow> bool"
  assumes J_handler: "J c \<Longrightarrow> handler_inv c"
    and J_wake: "J c \<Longrightarrow> wake_ok c"
    and J_good: "J c \<Longrightarrow> (w, d, t) \<in> set (queued c) \<Longrightarrow> good w d"
    and J_fewer: "J c \<Longrightarrow> fewer c c' \<Longrightarrow> J c'"
    and process_ok: "J c \<Longrightarrow> good (msg_what x) (msg_data x) \<Longrightarrow> msg_sized x \<Longrightarrow> msg_what x \<noteq> UPIL_EVT_SM_TRANSITION \<Longrightarrow>
      \<exists>c'. process_msg table x c = Some (HANDLED, c') \<and> J c' \<and> keeps W c c'"
    and transition_ok: "J c \<Longrightarrow> good (msg_what x) (msg_data x) \<Longrightarrow> msg_what x = UPIL_EVT_SM_TRANSITION \<Longrightarrow>
      \<exists>i c'. transition_target x = Some i \<and> transition_to table i c = Some (HANDLED, c') \<and> J c' \<and> keeps W c c'"
begin

lemma message_ok:
  assumes J: "J c" and p: "pending_list c = m # rest" and m: "m \<noteq> 0"
    and quiet: "quiet_msgs W rest c"
  shows "\<exists>c'. sm_process_message table m (c\<lparr>pending_list := rest\<rparr>) = Some (0, c') \<and> J c'
    \<and> pending_list c' = rest \<and> quiet_msgs W rest c'"
proof -
  have inv: "handler_inv c"
    by (rule J_handler[OF J])
  obtain c1 x where c1: "msgs c m = Some x" "remove_from_list (Some m) (c\<lparr>pending_list := rest\<rparr>) = Some c1"
      "handler_inv c1" "m \<in> held c1" "msg_queue c1 = remove1 m (msg_queue c)" "pending_list c1 = rest"
      "msgs c1 = msgs c" "evs c1 = evs c" "malloc_ok c1 = malloc_ok c" "handler.more c1 = handler.more c"
      "wake_part c1 = wake_part c"
    using deliver_ok[OF inv p m] by blast
  have mq: "m \<in> set (msg_queue c)"
    using pending_queued[OF inv] p m by simp
  have lt: "letter_of c1 = letter_of c"
    by (intro ext) (simp add: letter_of_def c1(7) timeout_of_evs[OF c1(8)])
  have "set (queued c1) \<subseteq> set (queued c)"
    unfolding queued_def lt c1(5) set_map by (intro image_mono set_remove1_subset)
  then have J1: "J c1"
    using J_fewer[OF J] c1 by (simp add: fewer_def)
  have "(msg_what x, msg_data x, timeout_of c m) \<in> set (queued c)"
    using mq c1(1) by (force simp: queued_def letter_of_def)
  then have gd: "good (msg_what x) (msg_data x)"
    by (rule J_good[OF J])
  have sz: "msg_sized x"
  proof -
    have "\<forall>m\<in>set (msg_queue c). msg_sized (the (msgs c m))"
      using inv by (simp add: handler_inv_def)
    then show ?thesis
      using mq c1(1) by (metis option.sel)
  qed
  have q1: "quiet_msgs W rest c1"
    using quiet c1(7) by (simp add: quiet_msgs_def)
  obtain c2 where c2: "(if msg_what x = UPIL_EVT_SM_TRANSITION
        then do { i \<leftarrow> transition_target x; transition_to table i c1 }
        else process_msg table x c1) = Some (HANDLED, c2)" "J c2" "keeps W c1 c2"
    using process_ok[OF J1 gd sz] transition_ok[OF J1 gd] by (cases "msg_what x = UPIL_EVT_SM_TRANSITION") auto
  have h2: "handler_inv c2" "m \<in> held c2" "pending_list c2 = rest" "\<forall>a\<in>set rest - {0}. msgs c2 a = msgs c1 a"
    using J_handler[OF c2(2)] c2(3) c1(4,6) q1 by (auto simp: keeps_def)
  let ?c' = "free_msg m c2"
  note f = free_msg_ok[OF h2(1,2)]
  have m0: "m \<noteq> 0 "
    by (rule m)
  have "fewer c2 ?c'"
    using f m0 by (simp add: fewer_def) (simp add: free_msg_def wake_part_def)
  then have "J ?c'"
    by (rule J_fewer[OF c2(2)])
  moreover have "quiet_msgs W rest ?c'"
    using q1 f(4) h2(3,4) by (auto simp: quiet_msgs_def)
  moreover have "sm_process_message table m (c\<lparr>pending_list := rest\<rparr>) = Some (0, ?c')"
    using c1(1,2) c2(1) by (simp add: sm_process_message_def)
  ultimately show ?thesis
    using f(3) h2(3) by auto
qed

lemma wakeup_ok:
  assumes J: "J c" and p: "pending_list c = 0 # rest" and quiet: "quiet_msgs W rest c"
  shows "\<exists>c'. processWakeupCallback (c\<lparr>pending_list := rest\<rparr>) = (0, c') \<and> J c'
    \<and> pending_list c' = rest \<and> quiet_msgs W rest c'"
proof -
  let ?c' = "c\<lparr>pending_list := rest, pipe_bytes := 0\<rparr>"
  have t: "timeout_of ?c' = timeout_of c"
    by (rule timeout_of_evs) simp
  have "handler_inv ?c'"
    using J_handler[OF J] p unfolding handler_inv_def timers_inv_def t by (auto simp: msg_event_def)
  moreover have "queued ?c' = queued c"
    by (simp add: queued_def letter_of_def t)
  ultimately have "J ?c'"
    using J_fewer[OF J, of ?c'] by (simp add: fewer_def wake_part_def)
  then show ?thesis
    using quiet by (simp add: processWakeupCallback_def quiet_msgs_def)
qed

lemma callback_ok:
  assumes J: "J c" and p: "pending_list c = m # rest" and quiet: "quiet_msgs W rest c"
  shows "\<exists>e c'. evs c m = Some e \<and> unlink m c = Some (c\<lparr>pending_list := rest\<rparr>)
    \<and> fsm_callback table e (c\<lparr>pending_list := rest\<rparr>) = Some (0, c') \<and> J c'
    \<and> pending_list c' = rest \<and> quiet_msgs W rest c'"
proof -
  have inv: "handler_inv c"
    by (rule J_handler[OF J])
  then have "m \<notin> set (timer_list c)"
    using p by (auto simp: handler_inv_def timers_inv_def)
  then have u: "unlink m c = Some (c\<lparr>pending_list := rest\<rparr>)"
    using p by (cases c) (simp add: unlink_def linked_def remove1_idem)
  show ?thesis
  proof (cases "m = 0")
    case True
    then show ?thesis
      using wakeup_ok[of c rest] J_wake[OF J] J p quiet u by (auto simp: wake_ok_def fsm_callback_def)
  next
    case False
    then have "msg_event c m"
      using pending_queued[OF inv] p inv by (simp add: handler_inv_def)
    then show ?thesis
      using message_ok[OF J p False quiet] u by (auto simp: msg_event_def fsm_callback_def)
  qed
qed

text \<open>All pending events fire, and the invariant holds again.\<close>

lemma fire_loop_ok:
  assumes "J c" and "pending_list c = ps" and "quiet_msgs W (tl ps) c"
  shows "\<exists>c'. fire_loop (fsm_callback table) (case ps of [] \<Rightarrow> None | x # _ \<Rightarrow> Some x) c = Some (0, c')
    \<and> J c' \<and> pending_list c' = []"
  using assms
proof (induction ps arbitrary: c)
  case Nil
  then show ?case
    by (simp add: fire_loop.simps)
next
  case (Cons m rest)
  obtain e c1 where c1: "evs c m = Some e" "unlink m c = Some (c\<lparr>pending_list := rest\<rparr>)"
      "fsm_callback table e (c\<lparr>pending_list := rest\<rparr>) = Some (0, c1)" "J c1"
      "pending_list c1 = rest" "quiet_msgs W rest c1"
    using callback_ok[OF Cons.prems(1,2)] Cons.prems(3) by auto
  have "quiet_msgs W (tl rest) c1"
    using c1(6) by (cases rest) (auto simp: quiet_msgs_def)
  then obtain c' where "fire_loop (fsm_callback table) (case rest of [] \<Rightarrow> None | x # _ \<Rightarrow> Some x) c1 = Some (0, c')"
      "J c'" "pending_list c' = []"
    using Cons.IH[OF c1(4,5)] by blast
  then show ?case
    using c1(1-3) Cons.prems(2) by (subst fire_loop.simps) simp
qed

lemma firePending_ok:
  assumes "J c" and "quiet_msgs W (tl (pending_list c)) c"
  shows "\<exists>c'. firePending (fsm_callback table) c = Some (0, c') \<and> J c' \<and> pending_list c' = []"
  using fire_loop_ok[OF assms(1) refl assms(2)] by (simp add: firePending_def)

lemma turn_ok:
  assumes J: "J c" and clk: "J (c\<lparr>clock := sel_clock sel\<rparr>)" and p: "pending_list c = []" and n: "\<not> sel_n sel < 0"
    and quiet: "quiet_msgs W (tl (filter (\<lambda>a. timeout_of c a < sel_clock sel) (timer_list c))) c"
  shows "\<exists>c'. upil_event_loop_turn (fsm_callback table) sel c = Some (True, c') \<and> J c' \<and> pending_list c' = []"
proof -
  let ?c = "c\<lparr>clock := sel_clock sel\<rparr>"
  let ?due = "filter (\<lambda>a. timeout_of c a < sel_clock sel) (timer_list c)"
  obtain c1 where c1: "processTimeouts ?c = Some c1" "handler_inv c1" "queued c1 = queued ?c" "msgs c1 = msgs c"
      "evs c1 = evs c" "handler.more c1 = handler.more ?c" "malloc_ok c1 = malloc_ok ?c"
      "watch_table c1 = watch_table ?c" "set (timer_list c1) \<subseteq> set (timer_list c)" "pending_list c1 = ?due"
    using handler_timeouts[OF J_handler[OF clk]] p by auto
  have w: "wake_ok ?c"
    by (rule J_wake[OF clk])
  then have z: "0 \<notin> set (timer_list c)" "0 \<notin> set (timer_list c1)" "0 \<notin> set (pending_list c1)"
    using c1(9,10) by (auto simp: wake_ok_def)
  then have "wake_part c1 = wake_part ?c"
    by (simp add: wake_part_def c1)
  then have "fewer ?c c1"
    using c1 by (simp add: fewer_def)
  then have J1: "J c1"
    by (rule J_fewer[OF clk])
  have q1: "quiet_msgs W (tl (pending_list c1)) c1"
    using quiet c1(4,10) by (simp add: quiet_msgs_def)
  let ?c2 = "c1\<lparr>pending_list := pending_list c1 @ [0]\<rparr>"
  have t2: "timeout_of ?c2 = timeout_of c1"
    by simp
  have "handler_inv ?c2"
    using c1(2) z w c1(5) unfolding handler_inv_def timers_inv_def t2 by (auto simp: msg_event_def wake_ok_def)
  moreover have "queued ?c2 = queued c1"
    by (simp add: queued_def letter_of_def)
  ultimately have J2: "J ?c2"
    using J_fewer[OF J1, of ?c2] by (simp add: fewer_def wake_part_def)
  have q2: "quiet_msgs W (tl (pending_list ?c2)) ?c2"
    using q1 by (cases "pending_list c1") (auto simp: quiet_msgs_def)
  have "link_pending 0 c1 = Some ?c2"
    using z by (simp add: link_pending_def linked_def)
  then have "processReadReadies (sel_rfds sel) (sel_n sel) c1 \<in> {Some c1, Some ?c2}"
    using wake_ready[OF J_wake[OF J1], of "sel_rfds sel" "sel_n sel"] by simp
  then show ?thesis
    using firePending_ok[OF J1 q1] firePending_ok[OF J2 q2] c1(1) n
    by (auto simp: upil_event_loop_turn_def)
qed

end

end
