(* ===== verification/Tp_Protocol.thy ===== *)
theory Tp_Protocol
  imports Fsm
begin

text \<open>
  The telephone protocol of \<open>tp_protocol.c\<close>.  The device is a HID device: every
  report has 8 bytes, a flag, the number of bytes it carries and up to 6 bytes of a
  telephone protocol unit (a flag \<open>0xFF\<close>, a size, a command and its parameters).
  Requests are cut into reports (\<open>make_cmd\<close>, \<open>request2pdu\<close>,
  \<open>tpp_send_cmd\<close>), reports are put together and decoded to events for the state
  machine (\<open>hidpdu2event\<close>, \<open>tppdu2event\<close>, \<open>tpp_recv_event_cb\<close>).

  Arrays are byte lists of their declared length and every access is checked: an
  operation that would read or write outside its array is \<open>None\<close>.  A packed struct
  is the bytes of the array it is laid over.
\<close>

section \<open>Units and events\<close>

abbreviation (input) TP_FLAG :: byte where
  "TP_FLAG \<equiv> 0xFF"

abbreviation (input) HID_FLAG :: byte where
  "HID_FLAG \<equiv> 3"

definition HIDPDU_LINE_BYTES :: nat where
  "HIDPDU_LINE_BYTES = 8"

definition TPPDU_LINE_BYTES :: int where
  "TPPDU_LINE_BYTES = 6"

definition PDU_BUF_BYTES :: nat where
  "PDU_BUF_BYTES = HIDPDU_LINE_BYTES * 10"

definition MAX_EVENT_DATA :: nat where
  "MAX_EVENT_DATA = 512"

text \<open>\<open>TPPReq_t\<close> and \<open>TPPEvt_t\<close> are one structure.\<close>

record TPPEvt_t =
  evt_id :: byte
  evt_data_size :: byte
  evt_data :: "byte list"

type_synonym TPPReq_t = TPPEvt_t

text \<open>The states of a unit: 1 complete, 0 not yet, -1 in error.\<close>

definition check_tppdu :: "byte list \<Rightarrow> int \<Rightarrow> int option" where
  "check_tppdu tp_pdu tp_size =
     (if tp_size \<le> 0 then Some 0
      else do {
        flag \<leftarrow> nth_opt tp_pdu 0;
        if flag \<noteq> TP_FLAG then Some (-1)
        else if tp_size < 2 then Some 0
        else do {
          cmd_size \<leftarrow> nth_opt tp_pdu 1;
          let remain_size = uint cmd_size + 2 - tp_size;
          Some (if remain_size \<noteq> 0 then (if remain_size > 0 then 0 else -1) else 1) } })"

text \<open>The digits of a caller number, two to a byte, up to a half byte that is no digit.\<close>

fun fsk_digits :: "byte list \<Rightarrow> byte list option" where
  "fsk_digits [] = None"
| "fsk_digits (b # cid) =
     (let n = drop_bit 4 b AND 0x0F in
      if n = 0x0F \<or> n > 9 then Some []
      else let n' = b AND 0x0F in
        if n' = 0x0F \<or> n' > 9 then Some [48 + n]
        else do { ds \<leftarrow> fsk_digits cid; Some ((48 + n) # (48 + n') # ds) })"

text \<open>\<open>param\<close> starts at the byte 3 of a unit and \<open>cid\<close> at the byte 6 of \<open>FSK_CID\<close>.\<close>

definition fsk_to_string :: "byte list \<Rightarrow> byte list \<Rightarrow> byte list option" where
  "fsk_to_string msg param = do {
     ds \<leftarrow> fsk_digits (drop 6 param);
     blit msg 0 (ds @ [0]) }"

definition event_param :: "byte list \<Rightarrow> byte \<Rightarrow> byte \<Rightarrow> TPPEvt_t \<Rightarrow> TPPEvt_t option" where
  "event_param tp_pdu i n ev = do {
     bs \<leftarrow> slice tp_pdu 3 (unat n);
     d \<leftarrow> blit (evt_data ev) 0 bs;
     Some (ev\<lparr>evt_id := i, evt_data_size := n, evt_data := d\<rparr>) }"

definition tppdu2event :: "byte list \<Rightarrow> TPPEvt_t \<Rightarrow> TPPEvt_t option" where
  "tppdu2event tp_pdu ev = do {
     let ev = ev\<lparr>evt_id := of_int UPIL_EVT_UNKOWN, evt_data_size := 0\<rparr>;
     cmd_size \<leftarrow> nth_opt tp_pdu 1;
     cmd \<leftarrow> nth_opt tp_pdu 2;
     if cmd \<in> {TPP_EVT_HOOK_ON, TPP_EVT_HKS_ON, TPP_EVT_PARALLEL_ON, TPP_EVT_VOIP_PHONE_HOOK_ON}
       then Some (ev\<lparr>evt_id := of_int UPIL_EVT_HFREE_HOOK_ON\<rparr>)
     else if cmd \<in> {TPP_EVT_HOOK_OFF, TPP_EVT_HKS_OFF, TPP_EVT_PARALLEL_OFF, TPP_EVT_VOIP_PHONE_HOOK_OFF}
       then Some (ev\<lparr>evt_id := of_int UPIL_EVT_HFREE_HOOK_OFF\<rparr>)
     else if cmd = TPP_EVT_BUSY_ON then Some (ev\<lparr>evt_id := of_int UPIL_EVT_BUSY_ON\<rparr>)
     else if cmd = TPP_EVT_HISTORY_FINISHED then Some (ev\<lparr>evt_id := of_int UPIL_EVT_HISTORY_FINISHED\<rparr>)
     else if cmd = TPP_MSG_DTMF_TX_FINISHED then Some (ev\<lparr>evt_id := of_int UPIL_EVT_DIAL_END\<rparr>)
     else if cmd = TPP_MSG_PHONE_STATE then event_param tp_pdu (of_int UPIL_EVT_PHONE_STATE) 1 ev
     else if cmd = TPP_EVT_REDIAL_ON then event_param tp_pdu (of_int UPIL_EVT_REDIAL) 1 ev
     else if cmd = TPP_EVT_KEY_DOWN then event_param tp_pdu (of_int UPIL_EVT_KEY_DOWN) 1 ev
     else if cmd = TPP_EVT_PARALLEL_DTMF_RX then event_param tp_pdu (of_int UPIL_EVT_PARAL_DTMF) 1 ev
     else if cmd \<in> {TPP_EVT_ICM_DTMF_RX, TPP_EVT_DTMF_RX}
       then event_param tp_pdu (of_int UPIL_EVT_SEC_DTMF_RX) (cmd_size - 1) ev
     else if cmd = TPP_EVT_DIALED_TX then event_param tp_pdu (of_int UPIL_EVT_DIALED_TX) 1 ev
     else if cmd = TPP_MSG_HARDWARE_INF then event_param tp_pdu (of_int UPIL_MSG_HW_TYPE) 1 ev
     else if cmd = TPP_MSG_SN then event_param tp_pdu (of_int UPIL_MSG_SERIAL) 8 ev
     else if cmd = TPP_MSG_MANUFACTURER_INF then event_param tp_pdu (of_int UPIL_MSG_VENDOR) 8 ev
     else if cmd = TPP_MSG_VERSION then event_param tp_pdu (of_int UPIL_MSG_VENDOR) 1 ev
     else if cmd = TPP_EVT_RING then Some (ev\<lparr>evt_id := of_int UPIL_EVT_RING\<rparr>)
     else if cmd = TPP_EVT_FSK_RX then do {
       d \<leftarrow> fsk_to_string (evt_data ev) (drop 3 tp_pdu);
       Some (ev\<lparr>evt_id := of_int UPIL_EVT_CALL_ID, evt_data := d,
               evt_data_size := of_nat (length (c_string d))\<rparr>) }
     else Some ev }"

section \<open>Commands\<close>

text \<open>\<open>data\<close> is the rest of the unit, \<open>reply[off]\<close> the start of the next report.\<close>

function make_cmd_loop ::
    "byte list \<Rightarrow> nat \<Rightarrow> byte list \<Rightarrow> int \<Rightarrow> int \<Rightarrow> (byte list \<times> int) option" where
  "make_cmd_loop reply off data tppdu_size line =
     (if tppdu_size > 0
      then do {
        reply \<leftarrow> blit reply off [3, 1, 2, 3, 4, 5, 6, 7];
        let len = (if tppdu_size > TPPDU_LINE_BYTES then TPPDU_LINE_BYTES else tppdu_size);
        reply \<leftarrow> blit reply (off + 1) [of_int len];
        bs \<leftarrow> slice data 0 (nat len);
        reply \<leftarrow> blit reply (off + 2) bs;
        make_cmd_loop reply (off + HIDPDU_LINE_BYTES) (drop (nat len) data) (tppdu_size - len) (line + 1) }
      else Some (reply, line))"
  by pat_completeness auto
termination
  by (relation "measure (\<lambda>(reply, off, data, n, line). nat n)") (auto simp: TPPDU_LINE_BYTES_def)

declare make_cmd_loop.simps [simp del]

definition make_cmd :: "byte list \<Rightarrow> byte \<Rightarrow> byte list \<Rightarrow> byte \<Rightarrow> (byte list \<times> int) option" where
  "make_cmd reply i param param_s = do {
     let cmd_size = 1 + param_s;
     bs \<leftarrow> slice param 0 (unat param_s);
     pdu \<leftarrow> blit (replicate PDU_BUF_BYTES 0) 0 [TP_FLAG, cmd_size, i];
     pdu \<leftarrow> blit pdu 3 bs;
     make_cmd_loop reply 0 pdu (uint cmd_size + 2) 0 }"

definition dial_code :: "byte \<Rightarrow> byte option" where
  "dial_code c =
     (if c = of_char (CHR ''*'') then Some 0xA
      else if c = of_char (CHR ''#'') then Some 0xB
      else if c = of_char (CHR ''P'') then Some 0xC
      else if c = of_char (CHR ''B'') then Some 0xD
      else if c = of_char (CHR ''C'') then Some 0xE
      else if c \<ge> of_char (CHR ''0'') \<and> c \<le> of_char (CHR ''9'') then Some (c - of_char (CHR ''0''))
      else None)"

fun dial_loop :: "byte list \<Rightarrow> byte \<Rightarrow> byte list \<Rightarrow> (byte list \<times> byte) option" where
  "dial_loop reply result [] = Some (reply, result)"
| "dial_loop reply result (c # number) =
     (case dial_code c of
        None \<Rightarrow> dial_loop reply result number
      | Some d \<Rightarrow> do { reply \<leftarrow> blit reply (unat result) [d]; dial_loop reply (result + 1) number })"

definition make_dial_param :: "byte list \<Rightarrow> byte \<Rightarrow> byte list \<Rightarrow> (byte list \<times> byte) option" where
  "make_dial_param reply speed number = do {
     reply \<leftarrow> blit reply 0 [speed];
     dial_loop reply 1 (c_string number) }"

text \<open>What \<open>localtime\<close> returns.\<close>

record tm =
  tm_year :: int
  tm_mon :: int
  tm_mday :: int
  tm_hour :: int
  tm_min :: int
  tm_sec :: int

definition TPP_CMD_ONEBYTE :: "byte list \<Rightarrow> byte \<Rightarrow> byte list option" where
  "TPP_CMD_ONEBYTE reply i = blit reply 0 [3, 3, 0xFF, 1, i, 5, 6, 7]"

text \<open>The requests that are one command byte.\<close>

definition onebyte_code :: "int \<Rightarrow> byte option" where
  "onebyte_code r =
     (if r = UPIL_CTL_USB_ON then Some TPP_CTL_USB_RUN
      else if r = UPIL_CTL_HANDFREE_ON then Some TPP_CTL_PCHOOK_ON
      else if r = UPIL_CTL_HANDFREE_OFF then Some TPP_CTL_PCHOOK_OFF
      else if r = UPIL_ASK_HARDWARE_INF then Some TPP_ASK_HARDWARE_INF
      else if r = UPIL_ASK_PHONE_STATE then Some TPP_ASK_PHONE_STATE
      else if r = UPIL_ASK_READ_SN then Some TPP_ASK_READ_SN
      else if r = UPIL_ASK_GET_VERSION then Some TPP_ASK_GET_VERSION
      else if r = UPIL_ASK_RECORD_UP then Some TPP_ASK_RECORD
      else if r = UPIL_CTL_RINGER_OFF then Some TPP_CTL_RINGER_OFF
      else if r = UPIL_CTL_RECORD_LINE_PLAY_ON then Some TPP_CTL_RECORD_LINE_PLAY_ON
      else if r = UPIL_CTL_RECORD_LINE_PLAY_OFF then Some TPP_CTL_RECORD_LINE_PLAY_OFF
      else if r = UPIL_ASK_BUSY_TONE then Some TPP_CTL_BUSY_TONE
      else None)"

definition request2pdu :: "tm \<Rightarrow> byte list \<Rightarrow> TPPReq_t \<Rightarrow> (byte list \<times> int) option" where
  "request2pdu p reply request =
     (let r = uint (evt_id request) in
      case onebyte_code r of
        Some i \<Rightarrow> do { reply \<leftarrow> TPP_CMD_ONEBYTE reply i; Some (reply, 1) }
      | None \<Rightarrow>
          if r = UPIL_CTL_SET_TIME
          then (if evt_data_size request = 0
                then make_cmd reply TPP_CTL_SET_TIME
                  [of_int (1900 + tm_year p - 2000), of_int (1 + tm_mon p), of_int (tm_mday p),
                   of_int (tm_hour p), of_int (tm_min p), of_int (tm_sec p)] 6
                else make_cmd reply TPP_CTL_SET_TIME (evt_data request) (evt_data_size request))
          else if r = UPIL_ASK_DTMF_TX
          then do {
            (param, param_size) \<leftarrow> make_dial_param (replicate PDU_BUF_BYTES 0) 0x64 (evt_data request);
            if param_size > 0 then make_cmd reply TPP_ASK_DTMF_TX param param_size
            else Some (reply, 0) }
          else Some (reply, 0))"

section \<open>The device\<close>

text \<open>
  The state of the process apart from its main event loop: the machine, and the data of
  the protocol.  \<open>dev_out\<close> are the reports written to the device and
  \<open>dev_write_ok n\<close> says whether the \<open>n\<close>-th write succeeds; after each the
  sender waits until the device acknowledges the report.
\<close>

record upil_io = fsm +
  s_pdu_buf :: "byte list"
  s_pdu_offset :: int
  dev_out :: "byte list list"
  dev_write_ok :: "nat \<Rightarrow> bool"
  dev_time :: tm

fun send_lines :: "nat \<Rightarrow> byte list \<Rightarrow> 'a upil_io_scheme \<Rightarrow> (int \<times> 'a upil_io_scheme) option" where
  "send_lines 0 reply c = Some (0, c)"
| "send_lines (Suc n) reply c = do {
     report \<leftarrow> slice reply 0 HIDPDU_LINE_BYTES;
     if \<not> dev_write_ok c (length (dev_out c)) then Some (-1, c)
     else send_lines n (drop HIDPDU_LINE_BYTES reply) (c\<lparr>dev_out := dev_out c @ [report]\<rparr>) }"

definition tpp_send_cmd ::
    "int \<Rightarrow> byte list \<Rightarrow> int \<Rightarrow> 'a upil_io_scheme \<Rightarrow> (int \<times> 'a upil_io_scheme) option" where
  "tpp_send_cmd req data data_size c = do {
     bs \<leftarrow> slice data 0 (nat data_size);
     d \<leftarrow> blit (replicate MAX_EVENT_DATA 0) 0 bs;
     let tp_req = \<lparr>evt_id = of_int req, evt_data_size = of_int data_size, evt_data = d\<rparr>;
     (reply, line) \<leftarrow> request2pdu (dev_time c) (replicate PDU_BUF_BYTES 0) tp_req;
     send_lines (nat line) reply c }"

section \<open>Reports\<close>

definition hidpdu2event ::
    "byte list \<Rightarrow> byte list \<Rightarrow> int \<Rightarrow> TPPEvt_t \<Rightarrow> (int \<times> byte list \<times> int \<times> TPPEvt_t) option" where
  "hidpdu2event data reply tp_index ev = do {
     flag \<leftarrow> nth_opt data 0;
     if flag \<noteq> HID_FLAG then Some (-1, reply, tp_index, ev)
     else do {
       tp_size \<leftarrow> nth_opt data 1;
       bs \<leftarrow> slice data 2 (unat tp_size);
       reply \<leftarrow> blit reply (nat tp_index) bs;
       let tp_index = tp_index + uint tp_size;
       if tp_size > 0
       then do {
         result \<leftarrow> check_tppdu reply tp_index;
         if result > 0 then do { ev \<leftarrow> tppdu2event reply ev; Some (1, reply, tp_index, ev) }
         else Some (if result < 0 then -1 else 0, reply, tp_index, ev) }
       else Some (0, reply, tp_index, ev) } }"

text \<open>\<open>upil_sm_send_msg\<close> of \<open>upil_sm.c\<close>.\<close>

definition upil_sm_send_msg ::
    "int \<Rightarrow> byte list \<Rightarrow> int \<Rightarrow> 'a handler_scheme \<Rightarrow> (int \<times> 'a handler_scheme) option" where
  "upil_sm_send_msg event data data_size c = sm_send_message_delay event data data_size 0 c"

text \<open>\<open>memset (s_pdu_buf, 0, s_pdu_offset); s_pdu_offset = 0\<close>\<close>

definition reset_pdu :: "'a upil_io_scheme \<Rightarrow> 'a upil_io_scheme option" where
  "reset_pdu c = do {
     b \<leftarrow> blit (s_pdu_buf c) 0 (replicate (nat (s_pdu_offset c)) 0);
     Some (c\<lparr>s_pdu_buf := b, s_pdu_offset := 0\<rparr>) }"

definition empty_event :: TPPEvt_t where
  "empty_event = \<lparr>evt_id = 0, evt_data_size = 0, evt_data = replicate MAX_EVENT_DATA 0\<rparr>"

text \<open>
  The loop of \<open>tpp_recv_event_cb\<close> over the reports of one read: \<open>buf\<close> is what was
  read and \<open>pbuf\<close> the offset of the current report.  An acknowledgement (bit
  \<open>0x80\<close> of the size) ends the unit that was being received; the code then clears
  the bit in the first report of the buffer.
\<close>

function recv_loop ::
    "byte list \<Rightarrow> nat \<Rightarrow> int \<Rightarrow> 'a upil_io_scheme \<Rightarrow> 'a upil_io_scheme option" where
  "recv_loop buf pbuf r_bytes c =
     (if r_bytes \<ge> int HIDPDU_LINE_BYTES
      then do {
        b0 \<leftarrow> nth_opt buf pbuf;
        b1 \<leftarrow> nth_opt buf (pbuf + 1);
        (buf, c) \<leftarrow> (if b0 = 0x03 \<and> b1 AND 0x80 = 0x80
                    then do { c \<leftarrow> reset_pdu c; Some (buf[1 := (buf ! 1) AND 0x3F], c) }
                    else Some (buf, c));
        (ret, pdu, offset, ev) \<leftarrow> hidpdu2event (drop pbuf buf) (s_pdu_buf c) (s_pdu_offset c) empty_event;
        let c = c\<lparr>s_pdu_buf := pdu, s_pdu_offset := offset\<rparr>;
        c \<leftarrow> (if ret \<noteq> 0
             then do {
               c \<leftarrow> (if ret > 0
                    then map_option snd (upil_sm_send_msg (uint (evt_id ev)) (evt_data ev) (uint (evt_data_size ev)) c)
                    else Some c);
               reset_pdu c }
             else Some c);
        recv_loop buf (pbuf + HIDPDU_LINE_BYTES) (r_bytes - int HIDPDU_LINE_BYTES) c }
      else Some c)"
  by pat_completeness auto
termination
  by (relation "measure (\<lambda>(buf, pbuf, n, c). nat n)") (auto simp: HIDPDU_LINE_BYTES_def)

declare recv_loop.simps [simp del]

text \<open>\<open>None\<close> as the data read is a failing \<open>read\<close>.\<close>

definition tpp_recv_event_cb ::
    "byte list option \<Rightarrow> 'a upil_io_scheme \<Rightarrow> (int \<times> 'a upil_io_scheme) option" where
  "tpp_recv_event_cb got c =
     (case got of None \<Rightarrow> Some (-1, c)
      | Some buf \<Rightarrow> do { c \<leftarrow> recv_loop buf 0 (int (length buf)) c; Some (0, c) })"

section \<open>The data of the protocol and the handler\<close>

lemma pdu_upd_same_handler: "same_handler c (c\<lparr>s_pdu_buf := b, s_pdu_offset := n\<rparr>)"
  by (simp add: same_handler_def)

lemma dev_out_same_handler: "same_handler c (c\<lparr>dev_out := d\<rparr>)"
  by (simp add: same_handler_def)

lemma more_upil_io:
  assumes "handler.more c' = handler.more c"
  shows "s_pdu_buf c' = s_pdu_buf c" and "s_pdu_offset c' = s_pdu_offset c" and "dev_out c' = dev_out c"
    and "dev_write_ok c' = dev_write_ok c" and "dev_time c' = dev_time c" and "cur_state c' = cur_state c"
    and "last_incoming_num c' = last_incoming_num c" and "last_outgoing_num c' = last_outgoing_num c"
    and "upil_io.more c' = upil_io.more c"
  using assms by (cases c; cases c'; simp)+

end
