(* ===== verification/Tp_Roundtrip.thy ===== *)
theory Tp_Roundtrip
  imports Tp_Protocol
begin

text \<open>
  The correctness of the telephone protocol: cutting a unit into reports and putting it
  together again, the numbers in both directions, and the bounds of the buffers.
\<close>

section \<open>Cutting a unit into reports\<close>

text \<open>The report that carries the bytes \<open>ch\<close>, and the reports of a unit.\<close>

definition report_of :: "byte list \<Rightarrow> byte list" where
  "report_of ch = [3, of_nat (length ch)] @ ch @ drop (length ch) [2, 3, 4, 5, 6, 7]"

function reports :: "byte list \<Rightarrow> byte list list" where
  "reports u = (if u = [] then [] else report_of (take 6 u) # reports (drop 6 u))"
  by pat_completeness auto
termination
  by (relation "measure length") auto

declare reports.simps [simp del]

lemma reports_Nil [simp]: "reports [] = []"
  by (simp add: reports.simps)

lemma reports_Cons [simp]: "u \<noteq> [] \<Longrightarrow> reports u = report_of (take 6 u) # reports (drop 6 u)"
  by (simp add: reports.simps)

lemma length_report_of [simp]: "length ch \<le> 6 \<Longrightarrow> length (report_of ch) = 8"
  by (simp add: report_of_def)

lemma length_reports: "length (reports u) = (length u + 5) div 6"
proof (induction u rule: reports.induct)
  case (1 u)
  show ?case
  proof (cases "u = []")
    case False
    have "(length u + 5) div 6 = Suc ((length u - 6 + 5) div 6)"
    proof (cases "6 \<le> length u")
      case True
      then show ?thesis by (simp add: div_add_self2[symmetric])
    next
      case False
      moreover from \<open>u \<noteq> []\<close> have "1 \<le> length u"
        by (cases u) auto
      ultimately show ?thesis
        by (auto intro!: div_nat_eqI)
    qed
    then show ?thesis
      using 1[OF False] False by simp
  qed simp
qed

lemma length_concat_reports: "length (concat (reports u)) = 8 * length (reports u)"
proof (induction u rule: reports.induct)
  case (1 u)
  then show ?case by (cases "u = []") simp_all
qed

text \<open>One turn of the loop writes one report.\<close>

lemma blit_report:
  assumes "off + 8 \<le> length reply" and "length ch \<le> 6"
  shows "do { r \<leftarrow> blit reply off [3, 1, 2, 3, 4, 5, 6, 7];
              r \<leftarrow> blit r (off + 1) [of_nat (length ch)];
              blit r (off + 2) ch } = Some (take off reply @ report_of ch @ drop (off + 8) reply)"
proof -
  let ?r = "take off reply @ [3, 1, 2, 3, 4, 5, 6, 7] @ drop (off + 8) reply"
  have l: "length (take off reply) = off"
    using assms(1) by simp
  have 1: "blit reply off [3, 1, 2, 3, 4, 5, 6, 7] = Some ?r"
    using assms(1) by (simp add: blit_def eval_nat_numeral)
  let ?r2 = "take off reply @ [3, of_nat (length ch), 2, 3, 4, 5, 6, 7] @ drop (off + 8) reply"
  have 2: "blit ?r (off + 1) [of_nat (length ch)] = Some ?r2"
    using assms(1) l by (simp add: blit_def)
  have "length ch = 0 \<or> length ch = 1 \<or> length ch = 2 \<or> length ch = 3 \<or> length ch = 4 \<or> length ch = 5 \<or> length ch = 6"
    using assms(2) by linarith
  then have "blit ?r2 (off + 2) ch = Some (take off reply @ report_of ch @ drop (off + 8) reply)"
    using assms(1) l by (auto simp: blit_def report_of_def)
  then show ?thesis
    using 1 2 by simp
qed

text \<open>One turn of the loop, for the \<open>l\<close> bytes of the next report.\<close>

lemma make_cmd_loop_turn:
  assumes "0 < n" and "n \<le> length data"
  defines "l \<equiv> min 6 n"
  shows "make_cmd_loop reply off data (int n) line =
    (if off + 8 \<le> length reply
     then make_cmd_loop (take off reply @ report_of (take l data) @ drop (off + 8) reply) (off + 8)
            (drop l data) (int (n - l)) (line + 1)
     else None)"
proof -
  let ?ch = "take l data"
  have l: "0 < l" "l \<le> n" "l \<le> 6" "length ?ch = l"
    using assms by auto
  have eq: "make_cmd_loop reply off data (int n) line = do {
      reply \<leftarrow> do { r \<leftarrow> blit reply off [3, 1, 2, 3, 4, 5, 6, 7];
            r \<leftarrow> blit r (off + 1) [of_nat (length ?ch)];
            blit r (off + 2) ?ch };
      make_cmd_loop reply (off + 8) (drop l data) (int n - int l) (line + 1) }"
    using assms(1,2)
    by (subst make_cmd_loop.simps, cases "6 < n")
       (simp_all add: TPPDU_LINE_BYTES_def HIDPDU_LINE_BYTES_def l_def slice_def bind_assoc)
  show ?thesis
  proof (cases "off + 8 \<le> length reply")
    case True
    then show ?thesis
      unfolding eq using blit_report[OF True, of ?ch] l by (simp add: of_nat_diff)
  next
    case False
    then show ?thesis
      unfolding eq by (simp add: blit_def)
  qed
qed

lemma reports_take:
  assumes "0 < n" and "n \<le> length data"
  shows "reports (take n data) =
    report_of (take (min 6 n) data) # reports (take (n - min 6 n) (drop (min 6 n) data))"
proof -
  have "take n data \<noteq> []" "take 6 (take n data) = take (min 6 n) data"
      "drop 6 (take n data) = take (n - min 6 n) (drop (min 6 n) data)"
    using assms by (auto simp: min_def drop_take)
  then show ?thesis
    by simp
qed

lemma make_cmd_loop_reports:
  assumes "n \<le> length data" and "off + 8 * length (reports (take n data)) \<le> length reply"
  shows "make_cmd_loop reply off data (int n) line =
    Some (take off reply @ concat (reports (take n data)) @ drop (off + 8 * length (reports (take n data))) reply,
          line + int (length (reports (take n data))))"
  using assms
proof (induction n arbitrary: reply off data line rule: less_induct)
  case (less n)
  show ?case
  proof (cases "n = 0")
    case True
    then show ?thesis
      by (simp add: make_cmd_loop.simps)
  next
    case False
    define l where "l = min 6 n"
    let ?ch = "take l data"
    let ?rest = "take (n - l) (drop l data)"
    have l: "0 < l" "l \<le> n" "l \<le> 6" "length ?ch = l"
      using False less.prems(1) by (auto simp: l_def)
    have rs: "reports (take n data) = report_of ?ch # reports ?rest"
      using reports_take[of n data] False less.prems(1) by (simp add: l_def)
    let ?reply = "take off reply @ report_of ?ch @ drop (off + 8) reply"
    have room: "off + 8 \<le> length reply"
      using less.prems(2) by (simp add: rs)
    have lr: "length ?reply = length reply" "take (off + 8) ?reply = take off reply @ report_of ?ch"
        "drop (off + 8 + k) ?reply = drop (off + 8 + k) reply" for k
      using room l by (auto simp: add.commute)
    have ih: "make_cmd_loop ?reply (off + 8) (drop l data) (int (n - l)) (line + 1) =
      Some (take (off + 8) ?reply @ concat (reports ?rest) @ drop (off + 8 + 8 * length (reports ?rest)) ?reply,
            line + 1 + int (length (reports ?rest)))"
      using less.prems l rs lr(1) by (intro less.IH) auto
    show ?thesis
      using make_cmd_loop_turn[of n data reply off line] False less.prems(1) room ih
      by (simp only: l_def[symmetric] rs lr if_True) (simp add: algebra_simps)
  qed
qed

lemma make_cmd_loop_overflow:
  assumes "n \<le> length data" and "length reply < off + 8 * length (reports (take n data))" and "off \<le> length reply"
  shows "make_cmd_loop reply off data (int n) line = None"
  using assms
proof (induction n arbitrary: reply off data line rule: less_induct)
  case (less n)
  have n: "0 < n"
    using less.prems by (cases n) auto
  define l where "l = min 6 n"
  let ?reply = "take off reply @ report_of (take l data) @ drop (off + 8) reply"
  have l: "0 < l" "l \<le> n" "length (take l data) \<le> 6"
    using n by (auto simp: l_def)
  have "make_cmd_loop ?reply (off + 8) (drop l data) (int (n - l)) (line + 1) = None" if "off + 8 \<le> length reply"
    using that less.prems l reports_take[of n data] n by (intro less.IH) (auto simp: l_def)
  then show ?case
    using make_cmd_loop_turn[of n data reply off line] n less.prems(1) by (simp add: l_def)
qed

text \<open>The unit that \<open>make_cmd\<close> builds.\<close>

definition unit_of :: "byte \<Rightarrow> byte list \<Rightarrow> byte list" where
  "unit_of i param = [0xFF, of_nat (length param + 1), i] @ param"

lemma length_unit_of [simp]: "length (unit_of i param) = length param + 3"
  by (simp add: unit_of_def)

lemma make_cmd_pdu:
  assumes "unat n \<le> length param" and "unat n \<le> 77"
  shows "\<exists>pdu. make_cmd reply i param n = make_cmd_loop reply 0 pdu (int (unat n + 3)) 0
    \<and> take (unat n + 3) pdu = unit_of i (take (unat n) param) \<and> unat n + 3 \<le> length pdu"
proof -
  let ?p = "take (unat n) param"
  let ?pdu = "[0xFF, 1 + n, i] @ ?p @ replicate (77 - unat n) 0"
  have "unat (1 + n) = 1 + unat n"
    using assms(2) unat_add_lem[of 1 n] by simp
  moreover have "uint (1 + n) = int (unat (1 + n))"
    by simp
  ultimately have sz: "uint (1 + n) + 2 = int (unat n + 3)"
    by linarith
  have "replicate 80 (0::byte) = replicate 3 0 @ replicate 77 0"
    by (simp flip: replicate_add)
  then have "make_cmd reply i param n = make_cmd_loop reply 0 ?pdu (int (unat n + 3)) 0"
    using assms unfolding make_cmd_def Let_def sz
    by (simp add: slice_def blit_def PDU_BUF_BYTES_def HIDPDU_LINE_BYTES_def min_def numeral_3_eq_3)
  moreover have "of_nat (unat n + 1) = 1 + n"
    by simp
  ultimately show ?thesis
    using assms by (intro exI[of _ ?pdu]) (auto simp: unit_of_def min_def numeral_3_eq_3)
qed

lemma make_cmd_ok:
  assumes "unat n \<le> length param" and "unat n \<le> 57"
  shows "make_cmd (replicate PDU_BUF_BYTES 0) i param n =
    (let rs = reports (unit_of i (take (unat n) param))
     in Some (concat rs @ replicate (80 - 8 * length rs) 0, int (length rs)))"
proof -
  obtain pdu where pdu: "make_cmd (replicate PDU_BUF_BYTES 0) i param n =
        make_cmd_loop (replicate PDU_BUF_BYTES 0) 0 pdu (int (unat n + 3)) 0"
      "take (unat n + 3) pdu = unit_of i (take (unat n) param)" "unat n + 3 \<le> length pdu"
    using make_cmd_pdu[of n param] assms by fastforce
  have "8 * length (reports (take (unat n + 3) pdu)) \<le> 80"
    using assms unfolding pdu(2) length_reports by (simp add: min_def)
  then show ?thesis
    using make_cmd_loop_reports[OF pdu(3), of 0 "replicate PDU_BUF_BYTES 0" 0]
    unfolding pdu(1,2) by (simp add: Let_def PDU_BUF_BYTES_def HIDPDU_LINE_BYTES_def)
qed

lemma make_cmd_overflow:
  assumes "57 < unat n"
  shows "make_cmd (replicate PDU_BUF_BYTES 0) i param n = None"
proof (cases "unat n \<le> length param \<and> unat n \<le> 77")
  case True
  then obtain pdu where pdu: "make_cmd (replicate PDU_BUF_BYTES 0) i param n =
        make_cmd_loop (replicate PDU_BUF_BYTES 0) 0 pdu (int (unat n + 3)) 0"
      "take (unat n + 3) pdu = unit_of i (take (unat n) param)" "unat n + 3 \<le> length pdu"
    using make_cmd_pdu[of n param] by fastforce
  have "length (take (unat n) param) = unat n"
    using True by simp
  then have "80 < 8 * length (reports (take (unat n + 3) pdu))"
    using assms unfolding pdu(2) length_reports length_unit_of by presburger
  then show ?thesis
    unfolding pdu(1) using pdu(3)
    by (intro make_cmd_loop_overflow) (auto simp: PDU_BUF_BYTES_def HIDPDU_LINE_BYTES_def)
next
  case False
  then show ?thesis
    by (auto simp: make_cmd_def slice_def blit_def PDU_BUF_BYTES_def HIDPDU_LINE_BYTES_def)
qed

section \<open>Putting a unit together\<close>

text \<open>What has been received so far is at the start of a buffer that is zero behind it.\<close>

definition receiving :: "byte list \<Rightarrow> 'a upil_io_scheme \<Rightarrow> bool" where
  "receiving got c \<longleftrightarrow> s_pdu_offset c = int (length got) \<and> length got \<le> 80 \<and>
     s_pdu_buf c = got @ replicate (80 - length got) 0"

text \<open>A unit: the flag and as many bytes as its size byte announces.\<close>

definition is_unit :: "byte list \<Rightarrow> bool" where
  "is_unit u \<longleftrightarrow> 3 \<le> length u \<and> length u \<le> 80 \<and> u ! 0 = 0xFF \<and> uint (u ! 1) + 2 = int (length u)"

lemma is_unit_unit_of:
  assumes "length param \<le> 77"
  shows "is_unit (unit_of i param)"
proof -
  have "uint (of_nat (length param + 1) :: byte) = int (length param + 1)"
    using assms by (intro uint_byte) simp
  then show ?thesis
    using assms by (simp add: is_unit_def unit_of_def)
qed

lemma check_tppdu_prefix:
  assumes u: "is_unit u" and p: "prefix got u" "2 \<le> length got"
  shows "check_tppdu (got @ zs) (int (length got)) = Some (if got = u then 1 else 0)"
proof -
  obtain r where r: "u = got @ r"
    using p(1) by (auto simp: prefix_def)
  have "(got @ zs) ! 0 = u ! 0" "(got @ zs) ! 1 = u ! 1"
    using p(2) by (auto simp: r nth_append)
  moreover have "0 < length (got @ zs)" "1 < length (got @ zs)"
    using p(2) by auto
  ultimately have "nth_opt (got @ zs) 0 = Some (u ! 0)" "nth_opt (got @ zs) 1 = Some (u ! 1)"
    by (simp_all only: nth_opt_in)
  then show ?thesis
    using u r p(2) by (auto simp: check_tppdu_def is_unit_def Let_def)
qed

text \<open>A report adds its bytes; the last one of a unit completes it.\<close>

lemma hidpdu2event_report:
  assumes u: "is_unit u" "u = got @ ch @ rest" and ch: "ch \<noteq> []" "length ch \<le> 6" "2 \<le> length (got @ ch)"
  shows "hidpdu2event (report_of ch @ tail) (got @ replicate (80 - length got) 0) (int (length got)) ev =
    (let buf = (got @ ch) @ replicate (80 - length (got @ ch)) 0
     in if rest = [] then do { ev \<leftarrow> tppdu2event buf ev; Some (1, buf, int (length (got @ ch)), ev) }
        else Some (0, buf, int (length (got @ ch)), ev))"
proof -
  let ?buf = "(got @ ch) @ replicate (80 - length (got @ ch)) 0"
  have len: "length got + length ch \<le> 80"
    using u by (auto simp: is_unit_def)
  have b: "blit (got @ replicate (80 - length got) 0) (length got) ch = Some ?buf"
    using len by (simp add: blit_def)
  have s: "slice (report_of ch @ tail) 2 (unat (of_nat (length ch) :: byte)) = Some ch"
    using ch by (simp add: unat_byte slice_def report_of_def)
  have d: "nth_opt (report_of ch @ tail) 0 = Some 3" "nth_opt (report_of ch @ tail) 1 = Some (of_nat (length ch))"
    by (simp_all add: report_of_def)
  have "prefix (got @ ch) u"
    by (simp add: u(2))
  from check_tppdu_prefix[OF u(1) this ch(3), of "replicate (80 - length (got @ ch)) 0"]
  have k: "check_tppdu ?buf (int (length (got @ ch))) = Some (if rest = [] then 1 else 0)"
    by (simp add: u(2))
  have "uint (of_nat (length ch) :: byte) = int (length ch)"
    using ch(2) by (intro uint_byte) simp
  moreover from this have "(of_nat (length ch) :: byte) > 0"
    using ch(1) by (simp add: word_less_def)
  ultimately show ?thesis
    unfolding hidpdu2event_def Let_def d using s b k by (auto simp del: append_assoc drop_append)
qed

text \<open>What is left to do when a unit is complete.\<close>

definition unit_complete :: "byte list \<Rightarrow> 'a upil_io_scheme \<Rightarrow> 'a upil_io_scheme option" where
  "unit_complete u c = do {
     let buf = u @ replicate (80 - length u) 0;
     ev \<leftarrow> tppdu2event buf empty_event;
     c \<leftarrow> map_option snd (upil_sm_send_msg (uint (evt_id ev)) (evt_data ev) (uint (evt_data_size ev))
          (c\<lparr>s_pdu_buf := buf, s_pdu_offset := int (length u)\<rparr>));
     reset_pdu c }"

lemma no_ack: "length ch \<le> 6 \<Longrightarrow> (of_nat (length ch) :: byte) AND 0x80 \<noteq> 0x80"
proof -
  assume "length ch \<le> 6"
  then have "length ch = 0 \<or> length ch = 1 \<or> length ch = 2 \<or> length ch = 3 \<or> length ch = 4 \<or> length ch = 5 \<or> length ch = 6"
    by linarith
  then show ?thesis
    by (elim disjE) simp_all
qed

lemma recv_loop_report:
  assumes u: "is_unit u" "u = got @ ch @ rest" and ch: "ch \<noteq> []" "length ch \<le> 6" "2 \<le> length (got @ ch)"
    and c: "receiving got c" and n: "8 \<le> n" "length pre = p"
  shows "recv_loop (pre @ report_of ch @ tail) p (int n) c =
    (if rest = [] then do { c \<leftarrow> unit_complete u c;
                           recv_loop (pre @ report_of ch @ tail) (p + 8) (int n - 8) c }
     else recv_loop (pre @ report_of ch @ tail) (p + 8) (int n - 8)
            (c\<lparr>s_pdu_buf := (got @ ch) @ replicate (80 - length (got @ ch)) 0,
               s_pdu_offset := int (length (got @ ch))\<rparr>))"
proof -
  let ?buf = "pre @ report_of ch @ tail"
  have b: "nth_opt ?buf p = Some 3" "nth_opt ?buf (Suc p) = Some (of_nat (length ch))"
    using n(2) by (simp_all add: report_of_def nth_opt_def nth_append)
  have d: "drop p ?buf = report_of ch @ tail"
    using n(2) by simp
  have pd: "s_pdu_buf c = got @ replicate (80 - length got) 0" "s_pdu_offset c = int (length got)"
    using c by (auto simp: receiving_def)
  note h = hidpdu2event_report[OF u ch, of tail empty_event]
  show ?thesis
  proof (cases "rest = []")
    case True
    then have "u = got @ ch"
      using u(2) by simp
    then show ?thesis
      using True n(1) no_ack[OF ch(2)]
      by (subst recv_loop.simps)
         (simp add: b d pd h HIDPDU_LINE_BYTES_def Let_def unit_complete_def bind_assoc split_def
            del: append_assoc drop_append)
  next
    case False
    then show ?thesis
      using n(1) no_ack[OF ch(2)]
      by (subst recv_loop.simps)
         (simp add: b d pd h HIDPDU_LINE_BYTES_def Let_def split_def del: append_assoc drop_append)
  qed
qed

lemma recv_loop_unit:
  assumes u: "is_unit u" "u = got @ rest" and r: "rest \<noteq> []" "got = [] \<or> 2 \<le> length got"
    and c: "receiving got c" and pre: "length pre = p"
  shows "recv_loop (pre @ concat (reports rest)) p (int (8 * length (reports rest))) c = unit_complete u c"
  using u(2) r c pre
proof (induction rest arbitrary: got c pre p rule: reports.induct)
  case (1 rest)
  let ?ch = "take 6 rest"
  let ?rest = "drop 6 rest"
  let ?pre = "pre @ report_of ?ch"
  have rs: "reports rest = report_of ?ch # reports ?rest"
    using "1.prems"(2) by simp
  have ch: "?ch \<noteq> []" "length ?ch \<le> 6" "2 \<le> length (got @ ?ch)"
    using "1.prems"(1-3) u(1) by (auto simp: is_unit_def)
  let ?c = "c\<lparr>s_pdu_buf := (got @ ?ch) @ replicate (80 - length (got @ ?ch)) 0,
               s_pdu_offset := int (length (got @ ?ch))\<rparr>"
  have step: "recv_loop (pre @ concat (reports rest)) p (int (8 * length (reports rest))) c =
     (if ?rest = []
      then do { c \<leftarrow> unit_complete u c;
                recv_loop (pre @ concat (reports rest)) (p + 8) (int (8 * length (reports ?rest))) c }
      else recv_loop (pre @ concat (reports rest)) (p + 8) (int (8 * length (reports ?rest))) ?c)"
    using recv_loop_report[OF u(1) _ ch "1.prems"(4), of ?rest "8 * length (reports rest)" pre p "concat (reports ?rest)"]
      "1.prems"(1,5) rs by (simp del: append_assoc)
  show ?case
  proof (cases "?rest = []")
    case True
    then have "reports ?rest = []"
      by simp
    then show ?thesis
      unfolding step using True by (cases "unit_complete u c") (simp_all add: recv_loop.simps HIDPDU_LINE_BYTES_def)
  next
    case False
    have "length got + length ?ch \<le> 80"
      using u(1) "1.prems"(1) by (auto simp: is_unit_def)
    then have c': "receiving (got @ ?ch) ?c"
      by (simp add: receiving_def)
    have "recv_loop (?pre @ concat (reports ?rest)) (p + 8) (int (8 * length (reports ?rest))) ?c = unit_complete u ?c"
      using "1.prems" ch False c' by (intro "1.IH"[of "got @ ?ch"]) auto
    moreover have "unit_complete u ?c = unit_complete u c"
      by (simp add: unit_complete_def)
    ultimately show ?thesis
      unfolding step using False rs by simp
  qed
qed

section \<open>From a unit to a message\<close>

lemma event_param_length:
  "event_param p i n ev = Some ev' \<Longrightarrow> length (evt_data ev') = length (evt_data ev)"
  by (auto simp: event_param_def bind_eq_Some dest: blit_length)

lemma tppdu2event_length:
  "tppdu2event p ev = Some ev' \<Longrightarrow> length (evt_data ev') = length (evt_data ev)"
  by (auto simp: tppdu2event_def bind_eq_Some fsk_to_string_def Let_def split: if_splits
      dest!: event_param_length dest: blit_length)

text \<open>The machine apart from its queue.\<close>

definition same_machine :: "'a upil_io_scheme \<Rightarrow> 'a upil_io_scheme \<Rightarrow> bool" where
  "same_machine c c' \<longleftrightarrow> wake_part c' = wake_part c \<and> cur_state c' = cur_state c \<and>
     last_incoming_num c' = last_incoming_num c \<and> last_outgoing_num c' = last_outgoing_num c \<and>
     upil_io.more c' = upil_io.more c"

lemma unit_complete_ok:
  assumes inv: "handler_inv c" and mem: "mem_ok c" and room: "length (queued c) < 31" and u: "length u \<le> 80"
    and ev: "tppdu2event (u @ replicate (80 - length u) 0) empty_event = Some ev"
  shows "\<exists>c'. unit_complete u c = Some c' \<and> handler_inv c' \<and> mem_ok c' \<and> receiving [] c' \<and> same_machine c c'
    \<and> queued c' = queued c @ [(uint (evt_id ev), payload (evt_data ev) (uint (evt_data_size ev)), due c 0)]
    \<and> pending_list c' = pending_list c"
proof -
  let ?c = "c\<lparr>s_pdu_buf := u @ replicate (80 - length u) 0, s_pdu_offset := int (length u)\<rparr>"
  note eqs = same_handler_eqs[OF pdu_upd_same_handler]
  have "nat (uint (evt_data_size ev)) < 256"
    using unsigned_less[where 'a = nat, of "evt_data_size ev"] by simp
  then have len: "nat (uint (evt_data_size ev)) \<le> length (evt_data ev)"
    using tppdu2event_length[OF ev] by (simp add: empty_event_def MAX_EVENT_DATA_def)
  obtain c1 where c1: "upil_sm_send_msg (uint (evt_id ev)) (evt_data ev) (uint (evt_data_size ev)) ?c = Some (0, c1)"
      "handler_inv c1" "queued c1 = queued c @ [(uint (evt_id ev), payload (evt_data ev) (uint (evt_data_size ev)), due c 0)]"
      "same_client ?c c1" "pending_list c1 = pending_list c"
    using sm_send_message_delay_ok[of ?c "uint (evt_data_size ev)" "evt_data ev" "uint (evt_id ev)" 0] inv mem room len
    unfolding upil_sm_send_msg_def eqs by auto
  have b: "s_pdu_buf c1 = u @ replicate (80 - length u) 0" "s_pdu_offset c1 = int (length u)"
    using c1(4) more_upil_io[of c1 ?c] by (simp_all add: same_client_def)
  have z: "replicate (length u) (0::byte) @ replicate (80 - length u) 0 = replicate 80 0"
    using u by (simp flip: replicate_add)
  have r: "reset_pdu c1 = Some (c1\<lparr>s_pdu_buf := replicate 80 0, s_pdu_offset := 0\<rparr>)"
    using u z by (simp add: reset_pdu_def b blit_def)
  have "same_machine c (c1\<lparr>s_pdu_buf := replicate 80 0, s_pdu_offset := 0\<rparr>)"
    using c1(4) more_upil_io[of c1 ?c] by (simp add: same_machine_def same_client_def wake_part_def)
  moreover have "mem_ok c1"
    using same_client_mem_ok[OF c1(4)] mem eqs by blast
  ultimately show ?thesis
    using ev c1(1-3,5) r by (simp add: unit_complete_def Let_def eqs receiving_def)
qed

text \<open>
  A unit that arrives in the reports of one read is decoded to one message for the state
  machine, and the receiver is ready for the next unit.
\<close>

lemma recv_unit_ok:
  assumes inv: "handler_inv c" and mem: "mem_ok c" and room: "length (queued c) < 31" and c: "receiving [] c"
    and u: "is_unit u" and ev: "tppdu2event (u @ replicate (80 - length u) 0) empty_event = Some ev"
  shows "\<exists>c'. tpp_recv_event_cb (Some (concat (reports u))) c = Some (0, c') \<and> handler_inv c' \<and> mem_ok c'
    \<and> receiving [] c' \<and> same_machine c c'
    \<and> queued c' = queued c @ [(uint (evt_id ev), payload (evt_data ev) (uint (evt_data_size ev)), due c 0)]
    \<and> pending_list c' = pending_list c"
proof -
  have "u \<noteq> []" "length u \<le> 80"
    using u by (auto simp: is_unit_def)
  moreover have "recv_loop (concat (reports u)) 0 (int (length (concat (reports u)))) c = unit_complete u c"
    using recv_loop_unit[OF u _ \<open>u \<noteq> []\<close> _ c, of "[]" 0] by (simp add: length_concat_reports)
  ultimately show ?thesis
    using unit_complete_ok[OF inv mem room _ ev] by (auto simp: tpp_recv_event_cb_def)
qed

section \<open>Caller numbers\<close>

text \<open>Digits as the device sends them: two to a byte, closed by the half byte \<open>0xF\<close>.\<close>

fun bcd :: "nat list \<Rightarrow> byte list" where
  "bcd [] = [0xFF]"
| "bcd [a] = [of_nat (16 * a + 15)]"
| "bcd (a # b # ds) = of_nat (16 * a + b) # bcd ds"

lemma nibbles:
  assumes "a < 16" and "b < 16"
  shows "drop_bit 4 (of_nat (16 * a + b) :: byte) AND 0x0F = of_nat a"
    and "(of_nat (16 * a + b) :: byte) AND 0x0F = of_nat b"
proof -
  define w :: byte where "w = of_nat (16 * a + b)"
  have n: "unat w = 16 * a + b"
    unfolding w_def using assms by (intro unat_byte) simp
  have m: "x AND 0x0F = take_bit 4 x" for x :: byte
    by (simp add: take_bit_eq_mask mask_eq_exp_minus_1)
  have "unat (take_bit 4 (drop_bit 4 w)) = take_bit 4 (drop_bit 4 (unat w))"
    by (simp only: unsigned_take_bit_eq unat_drop_bit_eq)
  also have "\<dots> = a"
    using assms by (simp add: n take_bit_eq_mod drop_bit_eq_div)
  finally have "take_bit 4 (drop_bit 4 w) = of_nat a"
    by (metis of_nat_unat ucast_id)
  then show "drop_bit 4 (of_nat (16 * a + b) :: byte) AND 0x0F = of_nat a"
    by (simp only: m w_def)
  have "unat (take_bit 4 w) = take_bit 4 (unat w)"
    by (simp only: unsigned_take_bit_eq)
  also have "\<dots> = b"
    using assms by (simp add: n take_bit_eq_mod)
  finally have "take_bit 4 w = of_nat b"
    by (metis of_nat_unat ucast_id)
  then show "(of_nat (16 * a + b) :: byte) AND 0x0F = of_nat b"
    by (simp only: m w_def)
qed

lemma digit_less: "a < 10 \<Longrightarrow> (of_nat a :: byte) \<noteq> 0x0F \<and> \<not> (of_nat a :: byte) > 9"
  using unat_byte[of a] by (auto simp: word_less_nat_alt)

lemma fsk_digits_bcd:
  assumes "\<forall>d\<in>set ds. d < 10"
  shows "fsk_digits (bcd ds @ zs) = Some (map (\<lambda>d. 48 + of_nat d) ds)"
  using assms
proof (induction ds rule: bcd.induct)
  case 1
  then show ?case by simp
next
  case (2 a)
  then show ?case
    using digit_less[of a] nibbles[of a 15] by (simp add: Let_def)
next
  case (3 a b ds)
  then show ?case
    using digit_less[of a] digit_less[of b] nibbles[of a b] by (simp add: Let_def)
qed

definition ascii_digits :: "nat list \<Rightarrow> byte list" where
  "ascii_digits ds = map (\<lambda>d. 48 + of_nat d) ds"

lemma length_bcd: "length (bcd ds) = Suc (length ds div 2)"
  by (induction ds rule: bcd.induct) auto

lemma ascii_digit_nonzero:
  assumes "d < 10"
  shows "(48 + of_nat d :: byte) \<noteq> 0"
proof -
  have "unat (of_nat (48 + d) :: byte) = 48 + d"
    using assms by (intro unat_byte) simp
  then show ?thesis
    using assms by (metis add_is_0 of_nat_add of_nat_numeral unat_0 zero_neq_numeral)
qed

lemma ascii_digits_no_nul: "\<forall>d\<in>set ds. d < 10 \<Longrightarrow> 0 \<notin> set (ascii_digits ds)"
  using ascii_digit_nonzero by (force simp: ascii_digits_def)

text \<open>A caller number report becomes the event \<open>UPIL_EVT_CALL_ID\<close> with the digits.\<close>

lemma fsk_event:
  assumes ds: "\<forall>d\<in>set ds. d < 10" and hdr: "length hdr = 6" and len: "length ds \<le> 140"
  defines "u \<equiv> unit_of TPP_EVT_FSK_RX (hdr @ bcd ds)"
  shows "is_unit u" and "\<exists>ev. tppdu2event (u @ replicate (80 - length u) 0) empty_event = Some ev
    \<and> uint (evt_id ev) = UPIL_EVT_CALL_ID
    \<and> payload (evt_data ev) (uint (evt_data_size ev)) = (if ds = [] then None else Some (ascii_digits ds @ [0, 0]))"
proof -
  have l: "length (hdr @ bcd ds) \<le> 77"
    using len hdr by (simp add: length_bcd)
  then show "is_unit u"
    unfolding u_def by (rule is_unit_unit_of)
  let ?s = "ascii_digits ds"
  let ?d = "?s @ 0 # replicate (511 - length ds) 0"
  let ?pdu = "u @ replicate (80 - length u) 0"
  have f: "fsk_digits (drop 6 (drop 3 ?pdu)) = Some ?s"
    using fsk_digits_bcd[OF ds] hdr by (simp add: u_def unit_of_def ascii_digits_def)
  have ls: "length ?s = length ds"
    by (simp add: ascii_digits_def)
  have b: "fsk_to_string (evt_data empty_event) (drop 3 ?pdu) = Some ?d"
    using f len ls by (simp add: fsk_to_string_def blit_def empty_event_def MAX_EVENT_DATA_def)
  have c: "c_string ?d = ?s"
    by (rule c_string_append_nul[OF ascii_digits_no_nul[OF ds]])
  have "nth_opt ?pdu 1 = Some (of_nat (length (hdr @ bcd ds) + 1))" "nth_opt ?pdu 2 = Some TPP_EVT_FSK_RX"
    by (simp_all add: u_def unit_of_def nth_opt_def)
  then have t: "tppdu2event ?pdu empty_event =
      Some (empty_event\<lparr>evt_id := of_int UPIL_EVT_CALL_ID, evt_data := ?d, evt_data_size := of_nat (length ds)\<rparr>)"
    using b c ls by (simp add: tppdu2event_def Let_def)
  have "uint (of_nat (length ds) :: byte) = int (length ds)"
    using len by (intro uint_byte) simp
  then have "payload ?d (uint (of_nat (length ds) :: byte)) = (if ds = [] then None else Some (?s @ [0, 0]))"
    using ls by (simp add: payload_def)
  then show "\<exists>ev. tppdu2event ?pdu empty_event = Some ev \<and> uint (evt_id ev) = UPIL_EVT_CALL_ID
    \<and> payload (evt_data ev) (uint (evt_data_size ev)) = (if ds = [] then None else Some (?s @ [0, 0]))"
    using t by simp
qed

text \<open>Without the closing half byte the digits run to the end of the buffer and beyond.\<close>

lemma fsk_digits_zeros: "fsk_digits (replicate n 0) = None"
  by (induction n) simp_all

fun bcd_open :: "nat list \<Rightarrow> byte list" where
  "bcd_open (a # b # ds) = of_nat (16 * a + b) # bcd_open ds"
| "bcd_open _ = []"

lemma fsk_digits_open:
  "\<forall>d\<in>set ds. d < 10 \<Longrightarrow> fsk_digits (bcd_open ds @ replicate n 0) = None"
proof (induction ds rule: bcd_open.induct)
  case (1 a b ds)
  then show ?case
    using digit_less[of a] digit_less[of b] nibbles[of a b] by (simp add: Let_def)
qed (simp_all add: fsk_digits_zeros)

section \<open>Sending requests\<close>

lemma send_lines_ok:
  "8 * n \<le> length reply \<Longrightarrow> \<exists>r d. send_lines n reply c = Some (r, c\<lparr>dev_out := d\<rparr>)"
proof (induction n arbitrary: reply c)
  case 0
  have "c = c\<lparr>dev_out := dev_out c\<rparr>"
    by simp
  then show ?case
    by (metis send_lines.simps(1))
next
  case (Suc n)
  let ?c = "c\<lparr>dev_out := dev_out c @ [take 8 reply]\<rparr>"
  have "\<exists>r d. send_lines n (drop 8 reply) ?c = Some (r, ?c\<lparr>dev_out := d\<rparr>)"
    using Suc.prems by (intro Suc.IH) simp
  then obtain r d where rd: "send_lines n (drop 8 reply) ?c = Some (r, ?c\<lparr>dev_out := d\<rparr>)"
    by blast
  have same: "c = c\<lparr>dev_out := dev_out c\<rparr>"
    by simp
  show ?case
  proof (cases "dev_write_ok c (length (dev_out c))")
    case True
    then have "send_lines (Suc n) reply c = Some (r, c\<lparr>dev_out := d\<rparr>)"
      using Suc.prems rd by (simp add: slice_def HIDPDU_LINE_BYTES_def)
    then show ?thesis
      by blast
  next
    case False
    then have "send_lines (Suc n) reply c = Some (-1, c)"
      using Suc.prems by (simp add: slice_def HIDPDU_LINE_BYTES_def)
    then show ?thesis
      using same by metis
  qed
qed

lemma send_lines_all:
  assumes "\<forall>k. dev_write_ok c k" and "\<forall>r\<in>set rs. length r = 8"
  shows "send_lines (length rs) (concat rs @ zs) c = Some (0, c\<lparr>dev_out := dev_out c @ rs\<rparr>)"
  using assms
proof (induction rs arbitrary: c)
  case (Cons r rs)
  have "send_lines (length rs) (concat rs @ zs) (c\<lparr>dev_out := dev_out c @ [r]\<rparr>) =
      Some (0, c\<lparr>dev_out := dev_out c @ r # rs\<rparr>)"
    using Cons.IH[of "c\<lparr>dev_out := dev_out c @ [r]\<rparr>"] Cons.prems by simp
  then show ?case
    using Cons.prems by (simp add: slice_def HIDPDU_LINE_BYTES_def)
qed simp

lemma reports_lengths: "\<forall>r\<in>set (reports u). length r = 8"
proof (induction u rule: reports.induct)
  case (1 u)
  show ?case
  proof (cases "u = []")
    case False
    then show ?thesis
      using 1[OF False] by (subst reports.simps) (simp del: reports_Cons)
  qed simp
qed

definition dial_codes :: "byte list \<Rightarrow> byte list" where
  "dial_codes number = List.map_filter dial_code number"

lemma dial_codes_simps [simp]:
  "dial_codes [] = []"
  "dial_codes (c # cs) = (case dial_code c of None \<Rightarrow> dial_codes cs | Some d \<Rightarrow> d # dial_codes cs)"
  by (simp_all add: dial_codes_def cong: option.case_cong)

lemma dial_loop_ok:
  assumes "unat r + length (dial_codes cs) \<le> length reply" and "length reply \<le> 80"
  shows "dial_loop reply r cs =
    Some (take (unat r) reply @ dial_codes cs @ drop (unat r + length (dial_codes cs)) reply,
          r + of_nat (length (dial_codes cs)))"
  using assms
proof (induction cs arbitrary: reply r)
  case (Cons c cs)
  show ?case
  proof (cases "dial_code c")
    case None
    then show ?thesis
      using Cons by simp
  next
    case (Some d)
    let ?reply = "take (unat r) reply @ d # drop (Suc (unat r)) reply"
    have b: "blit reply (unat r) [d] = Some ?reply"
      using Some Cons.prems(1) by (simp add: blit_def)
    have "unat (r + 1) = unat r + 1"
      using Some Cons.prems unat_add_lem[of r 1] by simp
    moreover have "min (length reply) (unat r) = unat r"
      using Some Cons.prems(1) by simp
    ultimately show ?thesis
      using Cons.IH[of "r + 1" ?reply] Cons.prems Some b by (simp add: add.commute add.left_commute)
  qed
qed simp

lemma dial_loop_overflow:
  assumes "length reply < unat r + length (dial_codes cs)" and "length reply \<le> 80" and "unat r \<le> length reply"
  shows "dial_loop reply r cs = None"
  using assms
proof (induction cs arbitrary: reply r)
  case (Cons c cs)
  show ?case
  proof (cases "dial_code c")
    case (Some d)
    show ?thesis
    proof (cases "unat r < length reply")
      case True
      have "unat (r + 1) = unat r + 1"
        using True Cons.prems unat_add_lem[of r 1] by simp
      then show ?thesis
        using Some True Cons.prems Cons.IH[of _ "r + 1"] by (simp add: blit_def)
    next
      case False
      then show ?thesis
        using Some by (simp add: blit_def)
    qed
  qed (use Cons in simp)
qed simp

text \<open>The dial parameters: the speed and a code for every key of the number.\<close>

lemma make_dial_param_ok:
  assumes "length (dial_codes (c_string number)) < 80"
  shows "make_dial_param (replicate PDU_BUF_BYTES 0) speed number =
    Some (speed # dial_codes (c_string number) @ replicate (79 - length (dial_codes (c_string number))) 0,
          1 + of_nat (length (dial_codes (c_string number))))"
proof -
  have "replicate 80 (0::byte) = 0 # replicate 79 0"
    by (simp add: replicate_Suc[symmetric])
  then have "blit (replicate PDU_BUF_BYTES 0) 0 [speed] = Some (speed # replicate 79 (0::byte))"
    by (simp add: blit_def PDU_BUF_BYTES_def HIDPDU_LINE_BYTES_def)
  then show ?thesis
    using dial_loop_ok[of 1 "c_string number" "speed # replicate 79 0"] assms
    by (simp add: make_dial_param_def)
qed

lemma make_dial_param_overflow:
  assumes "80 \<le> length (dial_codes (c_string number))"
  shows "make_dial_param (replicate PDU_BUF_BYTES 0) speed number = None"
proof -
  have "dial_loop (speed # replicate 79 0) 1 (c_string number) = None"
    using assms by (intro dial_loop_overflow) auto
  moreover have "replicate 80 (0::byte) = 0 # replicate 79 0"
    by (simp add: replicate_Suc[symmetric])
  then have "blit (replicate PDU_BUF_BYTES 0) 0 [speed] = Some (speed # replicate 79 (0::byte))"
    by (simp add: blit_def PDU_BUF_BYTES_def HIDPDU_LINE_BYTES_def)
  ultimately show ?thesis
    by (simp add: make_dial_param_def)
qed

lemma dial_request:
  assumes "0 \<notin> set number" and "length number < 512"
  shows "tpp_send_cmd UPIL_ASK_DTMF_TX (number @ zs) (int (length number)) c = do {
      (param, n) \<leftarrow> make_dial_param (replicate PDU_BUF_BYTES 0) 0x64 (number @ 0 # replicate (511 - length number) 0);
      (reply, line) \<leftarrow> (if n > 0 then make_cmd (replicate PDU_BUF_BYTES 0) TPP_ASK_DTMF_TX param n
                        else Some (replicate PDU_BUF_BYTES 0, 0));
      send_lines (nat line) reply c }"
proof -
  have r: "replicate (512 - length number) (0::byte) = 0 # replicate (511 - length number) 0"
    using assms(2) by (simp add: replicate_Suc[symmetric] Suc_diff_le del: replicate_Suc)
  have "tpp_send_cmd UPIL_ASK_DTMF_TX (number @ zs) (int (length number)) c = do {
      (reply, line) \<leftarrow> do {
        (param, n) \<leftarrow> make_dial_param (replicate PDU_BUF_BYTES 0) 0x64 (number @ 0 # replicate (511 - length number) 0);
        if n > 0 then make_cmd (replicate PDU_BUF_BYTES 0) TPP_ASK_DTMF_TX param n
        else Some (replicate PDU_BUF_BYTES 0, 0) };
      send_lines (nat line) reply c }"
    using assms(2) by (simp add: tpp_send_cmd_def slice_def blit_def MAX_EVENT_DATA_def request2pdu_def
        onebyte_code_def r)
  then show ?thesis
    by (simp add: bind_assoc split_def)
qed

lemma tpp_send_dial:
  assumes n: "0 \<notin> set number" "length number < 512" and len: "length (dial_codes number) \<le> 56"
  shows "\<exists>reply. length reply = 80 \<and> tpp_send_cmd UPIL_ASK_DTMF_TX (number @ zs) (int (length number)) c =
      send_lines (length (reports (unit_of TPP_ASK_DTMF_TX (0x64 # dial_codes number)))) reply c
    \<and> reply = concat (reports (unit_of TPP_ASK_DTMF_TX (0x64 # dial_codes number)))
         @ replicate (80 - 8 * length (reports (unit_of TPP_ASK_DTMF_TX (0x64 # dial_codes number)))) 0"
proof -
  let ?codes = "dial_codes number"
  let ?u = "unit_of TPP_ASK_DTMF_TX (0x64 # ?codes)"
  let ?param = "0x64 # ?codes @ replicate (79 - length ?codes) (0::byte)"
  let ?n = "1 + of_nat (length ?codes) :: byte"
  have cs: "c_string (number @ 0 # replicate (511 - length number) 0) = number"
    by (rule c_string_append_nul[OF n(1)])
  have mp: "make_dial_param (replicate PDU_BUF_BYTES 0) 0x64 (number @ 0 # replicate (511 - length number) 0) =
      Some (?param, ?n)"
    using make_dial_param_ok[of "number @ 0 # replicate (511 - length number) 0"] len unfolding cs by simp
  have un: "unat ?n = length ?codes + 1"
    using unat_byte[of "length ?codes + 1"] len by (simp add: add.commute)
  then have tk: "take (unat ?n) ?param = 0x64 # ?codes" and "?n > 0"
    by (simp_all add: word_less_nat_alt)
  moreover have "make_cmd (replicate PDU_BUF_BYTES 0) TPP_ASK_DTMF_TX ?param ?n =
      Some (concat (reports ?u) @ replicate (80 - 8 * length (reports ?u)) 0, int (length (reports ?u)))"
    using make_cmd_ok[of ?n ?param TPP_ASK_DTMF_TX] un tk len by (simp add: Let_def del: reports_Cons)
  moreover have "8 * length (reports ?u) \<le> 80"
    using len by (simp add: length_reports del: reports_Cons)
  ultimately show ?thesis
    unfolding dial_request[OF n] mp by (simp add: length_concat_reports del: reports_Cons)
qed

lemma tpp_send_dial_overflow:
  assumes n: "0 \<notin> set number" "length number < 512" and len: "56 < length (dial_codes number)"
  shows "tpp_send_cmd UPIL_ASK_DTMF_TX (number @ zs) (int (length number)) c = None"
proof -
  have cs: "c_string (number @ 0 # replicate (511 - length number) 0) = number"
    by (rule c_string_append_nul[OF n(1)])
  show ?thesis
  proof (cases "length (dial_codes number) < 80")
    case True
    have "unat (1 + of_nat (length (dial_codes number)) :: byte) = length (dial_codes number) + 1"
      using unat_byte[of "length (dial_codes number) + 1"] True by (simp add: add.commute)
    then show ?thesis
      using make_dial_param_ok[of "number @ 0 # replicate (511 - length number) 0" "0x64"] True len
      unfolding dial_request[OF n] cs by (simp add: make_cmd_overflow word_less_nat_alt)
  next
    case False
    then show ?thesis
      using make_dial_param_overflow[of "number @ 0 # replicate (511 - length number) 0" "0x64"]
      unfolding dial_request[OF n] cs by simp
  qed
qed

text \<open>The requests without parameters always reach the device or fail at a write.\<close>

lemma tpp_send_onebyte:
  assumes "onebyte_code r = Some i" and "0 \<le> r" "r < 256"
  shows "tpp_send_cmd r [] 0 c = send_lines 1 ([3, 3, 0xFF, 1, i, 5, 6, 7] @ replicate 72 0) c"
proof -
  have "uint (of_int r :: byte) = r"
    using assms by (simp add: uint_word_of_int)
  moreover have "replicate 80 (0::byte) = replicate 8 0 @ replicate 72 0"
    by (simp flip: replicate_add)
  ultimately show ?thesis
    using assms(1) by (simp add: tpp_send_cmd_def slice_def blit_def MAX_EVENT_DATA_def request2pdu_def
        TPP_CMD_ONEBYTE_def PDU_BUF_BYTES_def HIDPDU_LINE_BYTES_def del: send_lines.simps)
qed

lemma tpp_send_time:
  "\<exists>rs. 8 * length rs \<le> 80 \<and> (\<forall>r\<in>set rs. length r = 8) \<and>
     tpp_send_cmd UPIL_CTL_SET_TIME [] 0 c = send_lines (length rs) (concat rs @ replicate (80 - 8 * length rs) 0) c"
proof -
  let ?p = "dev_time c"
  let ?data = "[of_int (1900 + tm_year ?p - 2000), of_int (1 + tm_mon ?p), of_int (tm_mday ?p),
                of_int (tm_hour ?p), of_int (tm_min ?p), of_int (tm_sec ?p)] :: byte list"
  let ?rs = "reports (unit_of TPP_CTL_SET_TIME ?data)"
  have "make_cmd (replicate PDU_BUF_BYTES 0) TPP_CTL_SET_TIME ?data 6 =
      Some (concat ?rs @ replicate (80 - 8 * length ?rs) 0, int (length ?rs))"
    using make_cmd_ok[of 6 ?data TPP_CTL_SET_TIME] by (simp add: Let_def del: reports_Cons)
  then have "tpp_send_cmd UPIL_CTL_SET_TIME [] 0 c =
      send_lines (length ?rs) (concat ?rs @ replicate (80 - 8 * length ?rs) 0) c"
    by (simp add: tpp_send_cmd_def slice_def blit_def MAX_EVENT_DATA_def request2pdu_def onebyte_code_def
        del: reports_Cons send_lines.simps)
  moreover have "8 * length ?rs \<le> 80"
    by (simp add: length_reports del: reports_Cons)
  ultimately show ?thesis
    using reports_lengths by blast
qed

end
