(* ===== verification/Upil_Report.thy ===== *)
theory Upil_Report
  imports Tp_Roundtrip
begin

text \<open>
  What the program tells its clients: the reports to the monitor socket
  (\<open>sendto_monitor\<close> of \<open>upil_monitor.c\<close>) and the unsolicited lines to the
  socket of the RIL library (\<open>upil_ril_unsolicited\<close> of \<open>upil_ril.c\<close>), and the
  state that the state machine, the monitor and the RIL socket share.

  \<open>sock_out\<close> records the calls of \<open>send\<close> and \<open>write\<close> on sockets, with the
  descriptor and the bytes; their results are ignored by the code.  \<open>audio_calls\<close>
  records the calls of the audio module, which is another component.
\<close>

datatype audio_call =
    AudioStart
  | AudioStop
  | AudioPlayFile string
  | AudioRecordFile string int

record phone = upil_io +
  s_ring_count :: int
  audio_calls :: "audio_call list"
  s_fdMonitor :: int
  s_fd_ril :: int
  s_wait_response :: int
  s_call_dir :: int
  sock_out :: "(int \<times> byte list) list"

definition sock_send :: "int \<Rightarrow> byte list \<Rightarrow> 'a phone_scheme \<Rightarrow> 'a phone_scheme" where
  "sock_send fd bs c = c\<lparr>sock_out := sock_out c @ [(fd, bs)]\<rparr>"

definition audio :: "audio_call \<Rightarrow> 'a phone_scheme \<Rightarrow> 'a phone_scheme" where
  "audio a c = c\<lparr>audio_calls := audio_calls c @ [a]\<rparr>"

section \<open>The RIL socket\<close>

text \<open>\<open>process_reply\<close> of \<open>upil_ril.c\<close>; the result line is sent with its NUL.\<close>

definition ril_process_reply ::
    "int \<Rightarrow> int \<Rightarrow> byte list option \<Rightarrow> 'a phone_scheme \<Rightarrow> 'a phone_scheme" where
  "ril_process_reply fd result reply c =
     (let c = (case reply of None \<Rightarrow> c | Some r \<Rightarrow> sock_send fd r c) in
      if result < 1
      then sock_send fd ((if result \<noteq> 0 then str ''ERROR'' @ [10] else str ''OK'' @ [10]) @ [0]) c
      else c)"

definition upil_ril_unsolicited :: "int \<Rightarrow> 'a phone_scheme \<Rightarrow> 'a phone_scheme" where
  "upil_ril_unsolicited msg c =
     (if msg = UPIL_STATE_INCOMING then sock_send (s_fd_ril c) (str ''RING'' @ [10, 0]) c
      else if msg = UPIL_STATE_IDLE
      then (if s_wait_response c = 0 then sock_send (s_fd_ril c) (str ''NO CARRIER'' @ [10, 0]) c
            else (ril_process_reply (s_fd_ril c) 0 None c)\<lparr>s_wait_response := 0\<rparr>)
      else if msg = UPIL_STATE_DIALING
      then (if s_wait_response c \<noteq> 0
            then (ril_process_reply (s_fd_ril c) 0 None c)\<lparr>s_wait_response := 0\<rparr>
            else c)
      else c)"

section \<open>The monitor socket\<close>

text \<open>The text of an event; \<open>Some None\<close> for the numbers that are not reported.  A NULL
  caller number and one that does not fit the 512 bytes of the buffer are undefined.\<close>

definition monitor_text :: "int \<Rightarrow> byte list option \<Rightarrow> byte list option option" where
  "monitor_text msg data =
     (if msg = UPIL_STATE_OFFLINE then Some (Some (str ''STATE OFFLINE''))
      else if msg = UPIL_STATE_SYNCING then Some (Some (str ''STATE SYNCING''))
      else if msg = UPIL_STATE_IDLE then Some (Some (str ''STATE IDLE''))
      else if msg = UPIL_STATE_DIALING then Some (Some (str ''STATE DIALING''))
      else if msg = UPIL_STATE_INCOMING then Some (Some (str ''STATE INCOMING''))
      else if msg = UPIL_STATE_CONVERSATION then Some (Some (str ''STATE CONVERSATION''))
      else if msg = UPIL_STATE_MEMO then Some (Some (str ''STATE MEMO''))
      else if msg = UPIL_EVT_RING then Some (Some (str ''RING''))
      else if msg = UPIL_EVT_CALL_ID
      then (case data of None \<Rightarrow> None
            | Some d \<Rightarrow> (let s = str ''CID '' @ c_string d in
                        if length s < 512 then Some (Some s) else None))
      else if msg = UPIL_EVT_USB_ATTACH then Some (Some (str ''INITIALIZE''))
      else Some None)"

definition sendto_monitor :: "int \<Rightarrow> byte list option \<Rightarrow> 'a phone_scheme \<Rightarrow> 'a phone_scheme option" where
  "sendto_monitor msg data c = do {
     t \<leftarrow> monitor_text msg data;
     case t of None \<Rightarrow> Some c
     | Some event \<Rightarrow> Some (upil_ril_unsolicited msg (sock_send (s_fdMonitor c) event c)) }"

end
