(* ===== verification/Phone_Sm.thy ===== *)
theory Phone_Sm
  imports Upil_Report
begin

text \<open>
  The state machine of the telephone, \<open>upil_sm.c\<close>: the enter and process functions of
  its seven states, the table, and the functions through which the rest of the program
  sends it messages.
\<close>

section \<open>Shared steps\<close>

abbreviation (input) USB_KEEP_ALIVE_TIMER :: int where
  "USB_KEEP_ALIVE_TIMER \<equiv> 5000"

abbreviation (input) SYNCING_TIMEOUT :: int where
  "SYNCING_TIMEOUT \<equiv> 2000"

abbreviation (input) DIAL_DELAY :: int where
  "DIAL_DELAY \<equiv> 1000"

abbreviation (input) DIALINGTIMEOUT :: int where
  "DIALINGTIMEOUT \<equiv> 6000"

abbreviation (input) RING_TIMEOUT :: int where
  "RING_TIMEOUT \<equiv> 8000"

abbreviation (input) RECORD_START_TIMEOUT :: int where
  "RECORD_START_TIMEOUT \<equiv> 24000"

text \<open>Calls whose result the code ignores.\<close>

definition send_cmd_noparam :: "int \<Rightarrow> phone \<Rightarrow> phone option" where
  "send_cmd_noparam req c = map_option snd (tpp_send_cmd req [] 0 c)"

definition post :: "int \<Rightarrow> byte list \<Rightarrow> int \<Rightarrow> int \<Rightarrow> phone \<Rightarrow> phone option" where
  "post wh data data_size msec c = map_option snd (sm_send_message_delay wh data data_size msec c)"

definition goto :: "int \<Rightarrow> phone \<Rightarrow> phone option" where
  "goto i c = map_option snd (sm_transition_to i c)"

text \<open>\<open>sprintf (num, "%s", data)\<close> into a number of 128 bytes.\<close>

definition sprintf_num :: "byte list \<Rightarrow> byte list option \<Rightarrow> byte list option" where
  "sprintf_num num data =
     (case data of None \<Rightarrow> None | Some d \<Rightarrow> blit num 0 (c_string d @ [0]))"

definition upil_sm_hangup :: "phone \<Rightarrow> (int \<times> phone) option" where
  "upil_sm_hangup c = sm_send_message_delay UPIL_CTL_HANDFREE_OFF [] 0 0 c"

section \<open>The states\<close>

text \<open>\<open>id\<close> is \<open>fsm->cur_state->id\<close>.\<close>

definition default_process :: "int \<Rightarrow> MSG \<Rightarrow> phone \<Rightarrow> phone option" where
  "default_process i x c =
     (if i = UPIL_SM_OFFLINE then Some c
      else if msg_what x = UPIL_CTL_USB_ON
      then do { c \<leftarrow> send_cmd_noparam UPIL_CTL_USB_ON c;
                post UPIL_CTL_USB_ON [] 0 USB_KEEP_ALIVE_TIMER c }
      else if msg_what x = UPIL_EVT_USB_DETACH then goto UPIL_SM_OFFLINE c
      else Some c)"

definition handled :: "phone option \<Rightarrow> (int \<times> phone) option" where
  "handled r = map_option (\<lambda>c. (HANDLED, c)) r"

definition offline_enter :: "phone \<Rightarrow> phone option" where
  "offline_enter c = do {
     c \<leftarrow> sm_remove_message_id UPIL_CTL_USB_ON c;
     sendto_monitor UPIL_STATE_OFFLINE None c }"

definition offline_process :: "MSG \<Rightarrow> phone \<Rightarrow> (int \<times> phone) option" where
  "offline_process x c = handled
     (if msg_what x = UPIL_EVT_USB_ATTACH then goto UPIL_SM_SYNCING c
      else if msg_what x = UPIL_ASK_GET_VERSION then Some c
      else default_process UPIL_SM_OFFLINE x c)"

definition syncing_enter :: "phone \<Rightarrow> phone option" where
  "syncing_enter c = do {
     c \<leftarrow> sendto_monitor UPIL_STATE_SYNCING None c;
     c \<leftarrow> send_cmd_noparam UPIL_CTL_USB_ON c;
     c \<leftarrow> send_cmd_noparam UPIL_ASK_HARDWARE_INF c;
     c \<leftarrow> send_cmd_noparam UPIL_ASK_READ_SN c;
     c \<leftarrow> send_cmd_noparam UPIL_ASK_GET_VERSION c;
     c \<leftarrow> send_cmd_noparam UPIL_ASK_PHONE_STATE c;
     c \<leftarrow> send_cmd_noparam UPIL_ASK_RECORD_UP c;
     c \<leftarrow> send_cmd_noparam UPIL_CTL_RINGER_OFF c;
     c \<leftarrow> send_cmd_noparam UPIL_CTL_SET_TIME c;
     c \<leftarrow> post UPIL_CTL_USB_ON [] 0 USB_KEEP_ALIVE_TIMER c;
     post UPIL_EVT_SYNC_TIMEOUT [] 0 SYNCING_TIMEOUT c }"

definition syncing_process :: "MSG \<Rightarrow> phone \<Rightarrow> (int \<times> phone) option" where
  "syncing_process x c = handled
     (if msg_what x = UPIL_EVT_SYNC_TIMEOUT then goto UPIL_SM_IDLE c
      else if msg_what x = UPIL_EVT_PHONE_STATE
      then do { c \<leftarrow> sm_remove_message_id UPIL_EVT_SYNC_TIMEOUT c;
                post UPIL_EVT_SYNC_TIMEOUT [] 0 SYNCING_TIMEOUT c }
      else if msg_what x = UPIL_EVT_HISTORY_FINISHED
      then do { c \<leftarrow> sm_remove_message_id UPIL_EVT_SYNC_TIMEOUT c; goto UPIL_SM_IDLE c }
      else if msg_what x \<in> {UPIL_EVT_DIALED_TX, UPIL_EVT_NEW_CID_TX, UPIL_EVT_OLD_CID_TX} then Some c
      else default_process UPIL_SM_SYNCING x c)"

definition idle_enter :: "phone \<Rightarrow> phone option" where
  "idle_enter c = do {
     c \<leftarrow> sendto_monitor UPIL_STATE_IDLE None c;
     let c = audio AudioStop c;
     num \<leftarrow> blit (last_incoming_num c) 0 (replicate 128 0);
     Some (c\<lparr>last_incoming_num := num, s_ring_count := 0\<rparr>) }"

definition idle_process :: "MSG \<Rightarrow> phone \<Rightarrow> (int \<times> phone) option" where
  "idle_process x c = handled
     (if msg_what x = UPIL_CTL_HANDFREE_ON
      then do {
        num \<leftarrow> blit (last_outgoing_num c) 0 (replicate 128 0);
        num \<leftarrow> (if msg_data x \<noteq> None then sprintf_num num (msg_data x) else Some num);
        let c = c\<lparr>last_outgoing_num := num\<rparr>;
        send_cmd_noparam UPIL_CTL_HANDFREE_ON c }
      else if msg_what x = UPIL_EVT_HFREE_HOOK_ON then goto UPIL_SM_DIALING c
      else if msg_what x = UPIL_EVT_CALL_ID
      then do {
        num \<leftarrow> sprintf_num (last_incoming_num c) (msg_data x);
        let c = c\<lparr>last_incoming_num := num\<rparr>;
        c \<leftarrow> sendto_monitor (msg_what x) (msg_data x) c;
        goto UPIL_SM_INCOMING c }
      else if msg_what x = UPIL_EVT_RING
      then (let c = c\<lparr>s_ring_count := s_ring_count c + 1\<rparr> in
            if s_ring_count c \<ge> 2 then goto UPIL_SM_INCOMING c else Some c)
      else default_process UPIL_SM_IDLE x c)"

text \<open>\<open>strlen (fsm->last_outgoing_num)\<close> needs the NUL inside the array.\<close>

definition dialing_enter :: "phone \<Rightarrow> phone option" where
  "dialing_enter c = do {
     c \<leftarrow> sendto_monitor UPIL_STATE_DIALING None c;
     b \<leftarrow> nth_opt (last_outgoing_num c) 0;
     c \<leftarrow> (if b \<noteq> 0
          then (if 0 \<in> set (last_outgoing_num c)
                then post UPIL_ASK_DTMF_TX (last_outgoing_num c) (int (length (c_string (last_outgoing_num c)))) DIAL_DELAY c
                else None)
          else Some c);
     Some (audio AudioStart c) }"

definition dialing_process :: "MSG \<Rightarrow> phone \<Rightarrow> (int \<times> phone) option" where
  "dialing_process x c = handled
     (if msg_what x = UPIL_ASK_DTMF_TX
      then do {
        (_, c) \<leftarrow> tpp_send_cmd (msg_what x) (case msg_data x of None \<Rightarrow> [] | Some d \<Rightarrow> d) (msg_data_size x) c;
        post UPIL_EVT_DIAL_END_CHECK [] 0 DIALINGTIMEOUT c }
      else if msg_what x \<in> {UPIL_EVT_DIAL_END, UPIL_EVT_DIAL_END_CHECK} then goto UPIL_SM_CONVERSATION c
      else if msg_what x = UPIL_EVT_REDIAL
      then do { c \<leftarrow> sm_remove_message_id UPIL_EVT_DIAL_END_CHECK c;
                post UPIL_EVT_DIAL_END_CHECK [] 0 DIALINGTIMEOUT c }
      else if msg_what x = UPIL_CTL_HANDFREE_OFF then send_cmd_noparam (msg_what x) c
      else default_process UPIL_SM_DIALING x c)"

definition incoming_enter :: "phone \<Rightarrow> phone option" where
  "incoming_enter c = do {
     c \<leftarrow> sendto_monitor UPIL_STATE_INCOMING None c;
     c \<leftarrow> sm_remove_message_id UPIL_EVT_RING_TIMEOUT c;
     c \<leftarrow> post UPIL_EVT_RING_TIMEOUT [] 0 RING_TIMEOUT c;
     c \<leftarrow> sm_remove_message_id UPIL_EVT_RECORD_START c;
     post UPIL_EVT_RECORD_START [] 0 RECORD_START_TIMEOUT c }"

definition incoming_process :: "MSG \<Rightarrow> phone \<Rightarrow> (int \<times> phone) option" where
  "incoming_process x c = handled
     (if msg_what x = UPIL_CTL_HANDFREE_OFF then send_cmd_noparam (msg_what x) c
      else if msg_what x = UPIL_CTL_HANDFREE_ON then send_cmd_noparam (msg_what x) c
      else if msg_what x \<in> {UPIL_EVT_HAND_HOOK_ON, UPIL_EVT_HFREE_HOOK_ON, UPIL_EVT_PARALL_HOOK_ON}
      then goto UPIL_SM_CONVERSATION c
      else if msg_what x = UPIL_EVT_RING
      then do {
        c \<leftarrow> sendto_monitor UPIL_EVT_RING None c;
        c \<leftarrow> sm_remove_message_id UPIL_EVT_RING_TIMEOUT c;
        post UPIL_EVT_RING_TIMEOUT [] 0 RING_TIMEOUT c }
      else if msg_what x = UPIL_EVT_CALL_ID
      then do {
        num \<leftarrow> sprintf_num (last_incoming_num c) (msg_data x);
        let c = c\<lparr>last_incoming_num := num\<rparr>;
        sendto_monitor (msg_what x) (msg_data x) c }
      else if msg_what x = UPIL_EVT_RING_TIMEOUT then goto UPIL_SM_IDLE c
      else if msg_what x = UPIL_EVT_RECORD_START then goto UPIL_SM_MEMO c
      else default_process UPIL_SM_INCOMING x c)"

definition conversation_enter :: "phone \<Rightarrow> phone option" where
  "conversation_enter c = do {
     c \<leftarrow> sendto_monitor UPIL_STATE_CONVERSATION None c;
     let c = audio AudioStart c;
     c \<leftarrow> send_cmd_noparam UPIL_CTL_RECORD_LINE_PLAY_ON c;
     send_cmd_noparam UPIL_ASK_BUSY_TONE c }"

definition conversation_process :: "MSG \<Rightarrow> phone \<Rightarrow> (int \<times> phone) option" where
  "conversation_process x c = handled
     (if msg_what x = UPIL_CTL_HANDFREE_OFF then send_cmd_noparam (msg_what x) c
      else if msg_what x \<in> {UPIL_EVT_HFREE_HOOK_OFF, UPIL_EVT_HAND_HOOK_OFF}
      then do { c \<leftarrow> send_cmd_noparam UPIL_CTL_RECORD_LINE_PLAY_OFF c; goto UPIL_SM_IDLE c }
      else if msg_what x = UPIL_EVT_BUSY_ON then map_option snd (upil_sm_hangup c)
      else default_process UPIL_SM_CONVERSATION x c)"

text \<open>The callbacks that the audio module calls when a file is played or recorded.\<close>

definition begin_record :: "phone \<Rightarrow> phone option" where
  "begin_record c = post UPIL_CTL_RECORD_START [] 0 0 c"

definition end_record :: "phone \<Rightarrow> phone option" where
  "end_record c = post UPIL_EVT_RECORD_END [] 0 0 c"

definition stop_memo_flow :: "phone \<Rightarrow> phone" where
  "stop_memo_flow c = audio AudioStop c"

definition memo_enter :: "phone \<Rightarrow> phone option" where
  "memo_enter c = do {
     c \<leftarrow> sendto_monitor UPIL_STATE_MEMO None c;
     send_cmd_noparam UPIL_CTL_HANDFREE_ON c }"

definition memo_process :: "MSG \<Rightarrow> phone \<Rightarrow> (int \<times> phone) option" where
  "memo_process x c = handled
     (if msg_what x \<in> {UPIL_EVT_HAND_HOOK_ON, UPIL_EVT_HFREE_HOOK_ON, UPIL_EVT_PARALL_HOOK_ON}
      then do {
        c \<leftarrow> send_cmd_noparam UPIL_CTL_RECORD_LINE_PLAY_ON c;
        c \<leftarrow> send_cmd_noparam UPIL_ASK_BUSY_TONE c;
        Some (audio (AudioPlayFile ''/data/welcome.wav'') c) }
      else if msg_what x = UPIL_CTL_HANDFREE_ON
      then do {
        c \<leftarrow> send_cmd_noparam UPIL_CTL_HANDFREE_ON (stop_memo_flow c);
        goto UPIL_SM_CONVERSATION c }
      else if msg_what x = UPIL_CTL_HANDFREE_OFF
      then send_cmd_noparam UPIL_CTL_HANDFREE_OFF (stop_memo_flow c)
      else if msg_what x = UPIL_EVT_RECORD_END then send_cmd_noparam UPIL_CTL_HANDFREE_OFF c
      else if msg_what x \<in> {UPIL_EVT_HFREE_HOOK_OFF, UPIL_EVT_HAND_HOOK_OFF}
      then do {
        c \<leftarrow> send_cmd_noparam UPIL_CTL_RECORD_LINE_PLAY_OFF c;
        goto UPIL_SM_IDLE (audio AudioStop c) }
      else if msg_what x = UPIL_EVT_BUSY_ON then map_option snd (upil_sm_hangup c)
      else if msg_what x = UPIL_CTL_RECORD_START
      then Some (audio (AudioRecordFile ''/data/record.wav'' 30) c)
      else default_process UPIL_SM_MEMO x c)"

definition my_state_table :: "phone FSM_STATE list" where
  "my_state_table =
     [\<lparr>st_id = UPIL_SM_OFFLINE, st_name = ''Offline'', enter_func = Some offline_enter,
        exit_func = None, process_func = Some offline_process\<rparr>,
      \<lparr>st_id = UPIL_SM_SYNCING, st_name = ''Syncing'', enter_func = Some syncing_enter,
        exit_func = None, process_func = Some syncing_process\<rparr>,
      \<lparr>st_id = UPIL_SM_IDLE, st_name = ''Idle'', enter_func = Some idle_enter,
        exit_func = None, process_func = Some idle_process\<rparr>,
      \<lparr>st_id = UPIL_SM_DIALING, st_name = ''Dialing'', enter_func = Some dialing_enter,
        exit_func = None, process_func = Some dialing_process\<rparr>,
      \<lparr>st_id = UPIL_SM_INCOMING, st_name = ''Incoming'', enter_func = Some incoming_enter,
        exit_func = None, process_func = Some incoming_process\<rparr>,
      \<lparr>st_id = UPIL_SM_CONVERSATION, st_name = ''Conversation'', enter_func = Some conversation_enter,
        exit_func = None, process_func = Some conversation_process\<rparr>,
      \<lparr>st_id = UPIL_SM_MEMO, st_name = ''Memo'', enter_func = Some memo_enter,
        exit_func = None, process_func = Some memo_process\<rparr>]"

section \<open>The interface of the machine\<close>

definition upil_sm_get_current_state :: "phone \<Rightarrow> int option" where
  "upil_sm_get_current_state c =
     (case cur_state c of None \<Rightarrow> Some UPIL_SM_OFFLINE
      | Some i \<Rightarrow> map_option st_id (nth_opt my_state_table i))"

text \<open>\<open>None\<close> as the number is NULL: an incoming call is answered.\<close>

definition upil_sm_start_dail :: "byte list option \<Rightarrow> phone \<Rightarrow> (int \<times> phone) option" where
  "upil_sm_start_dail number c =
     sm_send_message_delay UPIL_CTL_HANDFREE_ON (case number of None \<Rightarrow> [] | Some n \<Rightarrow> n)
       (case number of None \<Rightarrow> 0 | Some n \<Rightarrow> int (length (c_string n))) 0 c"

definition upil_sm_usb_attach :: "phone \<Rightarrow> (int \<times> phone) option" where
  "upil_sm_usb_attach c = sm_send_message_delay UPIL_EVT_USB_ATTACH [] 0 0 c"

definition upil_sm_get_version :: "phone \<Rightarrow> int \<times> byte list" where
  "upil_sm_get_version c = (0, str ''1.2.3'')"

definition upil_sm_start ::
    "byte list \<Rightarrow> int \<Rightarrow> (int \<times> int) option \<Rightarrow> phone list \<Rightarrow> (nat option \<times> phone list) option" where
  "upil_sm_start name created filedes pool = do {
     (f, pool) \<leftarrow> sm_obtain_fsm (int (length my_state_table)) created filedes pool;
     case f of
       None \<Rightarrow> Some (None, pool)
     | Some i \<Rightarrow> do {
         (_, c) \<leftarrow> sm_set_init_state my_state_table UPIL_SM_OFFLINE (pool ! i);
         nm \<leftarrow> blit (fsm_name c) 0 (c_string name @ [0]);
         Some (Some i, pool[i := c\<lparr>fsm_name := nm\<rparr>]) } }"

end
