(* ===== verification/Phone_Safety.thy ===== *)
theory Phone_Safety
  imports Phone_Sm
begin

text \<open>
  The state machine of the telephone never leaves defined behaviour: every message that
  may be queued is processed in every state, and what it queues may be queued again.  The
  invariant says which numbers the buffers can hold; the machine cancels the messages of
  \<open>CANCELS\<close>, so these are the ones that must not be pending behind another message
  when \<open>firePending\<close> runs.
\<close>

section \<open>The invariant\<close>

definition CANCELS :: "int set" where
  "CANCELS = {UPIL_CTL_USB_ON, UPIL_EVT_SYNC_TIMEOUT, UPIL_EVT_DIAL_END_CHECK,
              UPIL_EVT_RING_TIMEOUT, UPIL_EVT_RECORD_START}"

text \<open>A number that the dial command can carry.\<close>

definition dialable :: "byte list \<Rightarrow> bool" where
  "dialable n \<longleftrightarrow> length (dial_codes n) \<le> 56"

definition num_ok :: "byte list \<Rightarrow> bool" where
  "num_ok n \<longleftrightarrow> length n = 128 \<and> 0 \<in> set n \<and> dialable (c_string n)"

text \<open>The messages that may be queued.\<close>

definition letter_ok :: "int \<Rightarrow> byte list option \<Rightarrow> bool" where
  "letter_ok w d \<longleftrightarrow>
     (w = UPIL_EVT_CALL_ID \<longrightarrow> (\<exists>s. d = Some s \<and> length (c_string s) < 128)) \<and>
     (w = UPIL_CTL_HANDFREE_ON \<longrightarrow> (\<forall>s. d = Some s \<longrightarrow> length (c_string s) < 128 \<and> dialable (c_string s))) \<and>
     (w = UPIL_ASK_DTMF_TX \<longrightarrow>
        d = None \<or> (\<exists>n. d = Some (n @ [0, 0]) \<and> 0 \<notin> set n \<and> length n < 128 \<and> dialable n)) \<and>
     (w = UPIL_EVT_SM_TRANSITION \<longrightarrow> (\<exists>i. d = Some (int_bytes i @ [0, 0]) \<and> 0 \<le> i \<and> i < 7))"

definition phone_ok :: "phone \<Rightarrow> bool" where
  "phone_ok c \<longleftrightarrow> handler_inv c \<and> mem_ok c \<and> wake_ok c \<and> (\<exists>i<7. cur_state c = Some i) \<and>
     length (last_incoming_num c) = 128 \<and> 0 \<in> set (last_incoming_num c) \<and>
     num_ok (last_outgoing_num c) \<and> receiving [] c \<and>
     (\<forall>l\<in>set (queued c). letter_ok (fst l) (fst (snd l)))"

text \<open>A step that is defined, keeps the invariant and spares the pending messages.\<close>

definition runs :: "phone \<Rightarrow> phone option \<Rightarrow> bool" where
  "runs c r \<longleftrightarrow> (\<exists>c'. r = Some c' \<and> phone_ok c' \<and> keeps CANCELS c c')"

lemma runs_Some: "phone_ok c' \<Longrightarrow> keeps CANCELS c c' \<Longrightarrow> runs c (Some c')"
  by (simp add: runs_def)

lemma runs_refl: "phone_ok c \<Longrightarrow> runs c (Some c)"
  by (simp add: runs_def)

lemma runs_bind:
  assumes "runs c r" and "\<And>c'. phone_ok c' \<Longrightarrow> runs c' (f c')"
  shows "runs c (Option.bind r f)"
proof -
  obtain c' where "r = Some c'" "phone_ok c'" "keeps CANCELS c c'"
    using assms(1) by (auto simp: runs_def)
  then show ?thesis
    using assms(2)[of c'] keeps_trans by (fastforce simp: runs_def)
qed

section \<open>The steps\<close>

lemma phone_ok_client:
  assumes "phone_ok c" and "same_handler c c'" and "wake_ok c' = wake_ok c"
    and "\<exists>i<7. cur_state c' = Some i" and "length (last_incoming_num c') = 128" "0 \<in> set (last_incoming_num c')"
    and "num_ok (last_outgoing_num c')" and "s_pdu_buf c' = s_pdu_buf c" "s_pdu_offset c' = s_pdu_offset c"
  shows "runs c (Some c')"
proof -
  have "keeps CANCELS c c'"
    using assms(2) by (intro keeps_same_handler) (auto simp: same_handler_def)
  then show ?thesis
    using assms same_handler_eqs[OF assms(2)] by (auto simp: runs_def phone_ok_def receiving_def)
qed

lemma phone_ok_handler:
  assumes c: "phone_ok c" and c': "handler_inv c'" "same_client c c'" "keeps CANCELS c c'"
    and q: "set (queued c') \<subseteq> insert (w, d, t) (set (queued c))" and l: "letter_ok w d"
  shows "phone_ok c'"
proof -
  have "cur_state c' = cur_state c" "last_incoming_num c' = last_incoming_num c"
      "last_outgoing_num c' = last_outgoing_num c" "receiving [] c' = receiving [] c"
    using c'(2) more_upil_io[of c' c] by (simp_all add: same_client_def receiving_def)
  moreover have "mem_ok c' = mem_ok c" "wake_ok c' = wake_ok c"
    using c'(2) wake_ok_part by (auto simp: same_client_mem_ok same_client_def)
  moreover have "\<forall>x\<in>set (queued c'). letter_ok (fst x) (fst (snd x))"
    using c q l unfolding phone_ok_def by auto
  ultimately show ?thesis
    using c c'(1) by (simp add: phone_ok_def)
qed

lemma runs_post:
  assumes c: "phone_ok c" and n: "nat n \<le> length d" and l: "letter_ok w (payload d n)"
  shows "runs c (post w d n ms c)"
proof -
  have "handler_inv c" "mem_ok c"
    using c by (auto simp: phone_ok_def)
  from send_keeps[OF this n, of w ms CANCELS] obtain r c' where
      "sm_send_message_delay w d n ms c = Some (r, c')" "handler_inv c'" "same_client c c'"
      "set (queued c') \<subseteq> insert (w, payload d n, due c ms) (set (queued c))" "keeps CANCELS c c'"
    by blast
  then show ?thesis
    using phone_ok_handler[OF c _ _ _ _ l] by (auto simp: runs_def post_def)
qed

lemma letter_ok_plain:
  "w \<noteq> UPIL_EVT_CALL_ID \<Longrightarrow> w \<noteq> UPIL_EVT_SM_TRANSITION \<Longrightarrow> letter_ok w None"
  by (simp add: letter_ok_def)

lemma letter_ok_transition:
  "0 \<le> i \<Longrightarrow> i < 7 \<Longrightarrow> letter_ok UPIL_EVT_SM_TRANSITION (Some (int_bytes i @ [0, 0]))"
  by (auto simp: letter_ok_def)

lemma runs_post0:
  "phone_ok c \<Longrightarrow> w \<noteq> UPIL_EVT_CALL_ID \<Longrightarrow> w \<noteq> UPIL_EVT_SM_TRANSITION \<Longrightarrow> runs c (post w [] 0 ms c)"
  by (rule runs_post) (simp_all add: payload_def letter_ok_plain)

lemma runs_goto:
  assumes "phone_ok c" and "0 \<le> i" "i < 7"
  shows "runs c (goto i c)"
proof -
  have "payload (int_bytes i) 4 = Some (int_bytes i @ [0, 0])"
    by (simp add: payload_def)
  then have "letter_ok UPIL_EVT_SM_TRANSITION (payload (int_bytes i) 4)"
    using assms(2,3) by (auto simp: letter_ok_def intro: exI[of _ i])
  then show ?thesis
    using runs_post[OF assms(1), of 4 "int_bytes i" UPIL_EVT_SM_TRANSITION 0]
    by (simp add: goto_def sm_transition_to_def post_def)
qed

lemma runs_cancel:
  assumes c: "phone_ok c" and w: "w \<in> CANCELS"
  shows "runs c (sm_remove_message_id w c)"
proof -
  have "handler_inv c"
    using c by (simp add: phone_ok_def)
  from cancel_keeps[OF this w] obtain c' where
      "sm_remove_message_id w c = Some c'" "handler_inv c'" "same_client c c'"
      "set (queued c') \<subseteq> set (queued c)" "keeps CANCELS c c'"
    by blast
  then show ?thesis
    using phone_ok_handler[OF c, of c' UPIL_EVT_RING None "TV 0 0"] by (auto simp: runs_def letter_ok_plain)
qed

lemma runs_dev_out: "phone_ok c \<Longrightarrow> runs c (Some (c\<lparr>dev_out := d\<rparr>))"
  by (rule phone_ok_client) (auto simp: same_handler_def wake_ok_def phone_ok_def)

lemma runs_sock: "phone_ok c \<Longrightarrow> runs c (Some (c\<lparr>sock_out := d, s_wait_response := w\<rparr>))"
  by (rule phone_ok_client) (auto simp: same_handler_def wake_ok_def phone_ok_def)

lemma runs_audio: "phone_ok c \<Longrightarrow> runs c (Some (audio a c))"
  by (rule phone_ok_client) (auto simp: same_handler_def wake_ok_def phone_ok_def audio_def)

lemma runs_hangup: "phone_ok c \<Longrightarrow> runs c (map_option snd (upil_sm_hangup c))"
  using runs_post0[of c UPIL_CTL_HANDFREE_OFF 0] by (simp add: upil_sm_hangup_def post_def)

text \<open>A command without parameters only writes to the device.\<close>

lemma send_cmd_upd:
  assumes "onebyte_code r \<noteq> None" and "0 \<le> r" "r < 256"
  shows "\<exists>d. send_cmd_noparam r c = Some (c\<lparr>dev_out := d\<rparr>)"
proof -
  obtain i where "onebyte_code r = Some i"
    using assms(1) by auto
  then have "tpp_send_cmd r [] 0 c = send_lines 1 ([3, 3, 0xFF, 1, i, 5, 6, 7] @ replicate 72 0) c"
    using assms(2,3) by (rule tpp_send_onebyte)
  moreover obtain x d where "send_lines 1 ([3, 3, 0xFF, 1, i, 5, 6, 7] @ replicate 72 0) c = Some (x, c\<lparr>dev_out := d\<rparr>)"
    using send_lines_ok[of 1 "[3, 3, 0xFF, 1, i, 5, 6, 7] @ replicate 72 0" c] by auto
  ultimately have "send_cmd_noparam r c = Some (c\<lparr>dev_out := d\<rparr>)"
    by (simp only: send_cmd_noparam_def option.map snd_conv)
  then show ?thesis
    by blast
qed

lemma send_time_upd: "\<exists>d. send_cmd_noparam UPIL_CTL_SET_TIME c = Some (c\<lparr>dev_out := d\<rparr>)"
proof -
  obtain rs where rs: "8 * length rs \<le> 80" "\<forall>r\<in>set rs. length r = 8"
      "tpp_send_cmd UPIL_CTL_SET_TIME [] 0 c = send_lines (length rs) (concat rs @ replicate (80 - 8 * length rs) 0) c"
    using tpp_send_time[of c] by blast
  have "length (concat rs) = 8 * length rs"
    using rs(2) by (induction rs) auto
  then obtain x d where "tpp_send_cmd UPIL_CTL_SET_TIME [] 0 c = Some (x, c\<lparr>dev_out := d\<rparr>)"
    using send_lines_ok[of "length rs" "concat rs @ replicate (80 - 8 * length rs) 0" c] rs by auto
  then have "send_cmd_noparam UPIL_CTL_SET_TIME c = Some (c\<lparr>dev_out := d\<rparr>)"
    by (simp add: send_cmd_noparam_def)
  then show ?thesis
    by blast
qed

lemma runs_cmd:
  "phone_ok c \<Longrightarrow> onebyte_code r \<noteq> None \<Longrightarrow> 0 \<le> r \<Longrightarrow> r < 256 \<Longrightarrow> runs c (send_cmd_noparam r c)"
  using send_cmd_upd[of r c] runs_dev_out by auto

lemma runs_set_time: "phone_ok c \<Longrightarrow> runs c (send_cmd_noparam UPIL_CTL_SET_TIME c)"
  using send_time_upd[of c] runs_dev_out by auto

lemma dial_upd:
  assumes x: "letter_ok UPIL_ASK_DTMF_TX (msg_data x)" "msg_sized x"
  shows "\<exists>y d. tpp_send_cmd UPIL_ASK_DTMF_TX (case msg_data x of None \<Rightarrow> [] | Some d \<Rightarrow> d) (msg_data_size x) c =
    Some (y, c\<lparr>dev_out := d\<rparr>)"
proof -
  obtain n zs where n: "0 \<notin> set n" "length n < 128" "dialable n"
      "(case msg_data x of None \<Rightarrow> [] | Some d \<Rightarrow> d) = n @ zs" "msg_data_size x = int (length n)"
    using x by (auto simp: letter_ok_def msg_sized_def dialable_def)
  let ?rs = "reports (unit_of TPP_ASK_DTMF_TX (0x64 # dial_codes n))"
  have "length n < 512" "length (dial_codes n) \<le> 56"
    using n(2,3) by (auto simp: dialable_def)
  from tpp_send_dial[OF n(1) this, of zs c] obtain reply where r: "length reply = 80"
      "tpp_send_cmd UPIL_ASK_DTMF_TX (n @ zs) (int (length n)) c = send_lines (length ?rs) reply c"
    by blast
  have "8 * length ?rs \<le> length reply"
    using n(3) unfolding r(1) length_reports by (simp add: dialable_def)
  then show ?thesis
    using send_lines_ok[of "length ?rs" reply c] r(2) n(4,5) by simp
qed

lemma runs_dial:
  assumes c: "phone_ok c" and x: "letter_ok UPIL_ASK_DTMF_TX (msg_data x)" "msg_sized x"
  shows "runs c (map_option snd (tpp_send_cmd UPIL_ASK_DTMF_TX (case msg_data x of None \<Rightarrow> [] | Some d \<Rightarrow> d) (msg_data_size x) c))"
  using dial_upd[OF x, of c] runs_dev_out[OF c] by auto

lemma unsolicited_upd:
  "upil_ril_unsolicited m c = c\<lparr>sock_out := sock_out (upil_ril_unsolicited m c),
     s_wait_response := s_wait_response (upil_ril_unsolicited m c)\<rparr>"
  by (simp add: upil_ril_unsolicited_def ril_process_reply_def sock_send_def)

lemma monitor_upd:
  assumes t: "monitor_text m d \<noteq> None"
  shows "\<exists>x w. sendto_monitor m d c = Some (c\<lparr>sock_out := x, s_wait_response := w\<rparr>)"
proof -
  obtain u where u: "monitor_text m d = Some u"
    using t by auto
  show ?thesis
  proof (cases u)
    case None
    then have "sendto_monitor m d c = Some (c\<lparr>sock_out := sock_out c, s_wait_response := s_wait_response c\<rparr>)"
      using u by (simp add: sendto_monitor_def)
    then show ?thesis
      by blast
  next
    case (Some e)
    obtain x w where "upil_ril_unsolicited m (sock_send (s_fdMonitor c) e c) =
        (sock_send (s_fdMonitor c) e c)\<lparr>sock_out := x, s_wait_response := w\<rparr>"
      using unsolicited_upd by metis
    then have "sendto_monitor m d c = Some (c\<lparr>sock_out := x, s_wait_response := w\<rparr>)"
      using u Some by (simp add: sendto_monitor_def sock_send_def)
    then show ?thesis
      by blast
  qed
qed

lemma runs_monitor:
  "phone_ok c \<Longrightarrow> monitor_text m d \<noteq> None \<Longrightarrow> runs c (sendto_monitor m d c)"
  using monitor_upd[of m d c] runs_sock by auto

section \<open>The states\<close>

lemmas phone_steps = runs_refl runs_post0 runs_goto runs_cancel runs_audio runs_hangup runs_cmd runs_set_time

lemma onebyte_ok:
  "r \<in> {UPIL_CTL_USB_ON, UPIL_CTL_HANDFREE_ON, UPIL_CTL_HANDFREE_OFF, UPIL_ASK_HARDWARE_INF,
         UPIL_ASK_PHONE_STATE, UPIL_ASK_READ_SN, UPIL_ASK_GET_VERSION, UPIL_ASK_RECORD_UP, UPIL_CTL_RINGER_OFF,
         UPIL_CTL_RECORD_LINE_PLAY_ON, UPIL_CTL_RECORD_LINE_PLAY_OFF, UPIL_ASK_BUSY_TONE} \<Longrightarrow>
     onebyte_code r \<noteq> None \<and> 0 \<le> r \<and> r < 256"
  by (elim insertE) (simp_all add: onebyte_code_def)

lemma runs_cmds:
  "phone_ok c \<Longrightarrow> r \<in> {UPIL_CTL_USB_ON, UPIL_CTL_HANDFREE_ON, UPIL_CTL_HANDFREE_OFF, UPIL_ASK_HARDWARE_INF,
         UPIL_ASK_PHONE_STATE, UPIL_ASK_READ_SN, UPIL_ASK_GET_VERSION, UPIL_ASK_RECORD_UP, UPIL_CTL_RINGER_OFF,
         UPIL_CTL_RECORD_LINE_PLAY_ON, UPIL_CTL_RECORD_LINE_PLAY_OFF, UPIL_ASK_BUSY_TONE} \<Longrightarrow>
     runs c (send_cmd_noparam r c)"
  by (rule runs_cmd) (simp_all only: onebyte_ok simp_thms)

lemma monitor_states:
  "m \<in> {UPIL_STATE_OFFLINE, UPIL_STATE_SYNCING, UPIL_STATE_IDLE, UPIL_STATE_DIALING, UPIL_STATE_INCOMING,
         UPIL_STATE_CONVERSATION, UPIL_STATE_MEMO, UPIL_EVT_RING} \<Longrightarrow> monitor_text m d \<noteq> None"
  by (elim insertE) (simp_all add: monitor_text_def)

lemma runs_state:
  "phone_ok c \<Longrightarrow> m \<in> {UPIL_STATE_OFFLINE, UPIL_STATE_SYNCING, UPIL_STATE_IDLE, UPIL_STATE_DIALING,
     UPIL_STATE_INCOMING, UPIL_STATE_CONVERSATION, UPIL_STATE_MEMO, UPIL_EVT_RING} \<Longrightarrow>
     runs c (sendto_monitor m d c)"
  by (rule runs_monitor[OF _ monitor_states])

lemma runs_handled: "runs c r \<Longrightarrow> \<exists>c'. handled r = Some (HANDLED, c') \<and> phone_ok c' \<and> keeps CANCELS c c'"
  by (auto simp: runs_def handled_def)

lemma runs_default: "phone_ok c \<Longrightarrow> runs c (default_process i x c)"
  by (auto simp: default_process_def intro!: runs_bind runs_refl runs_post0 runs_goto runs_cmds)

lemma runs_offline_enter: "phone_ok c \<Longrightarrow> runs c (offline_enter c)"
  by (auto simp: offline_enter_def CANCELS_def intro!: runs_bind runs_cancel runs_state)

lemma runs_syncing_enter: "phone_ok c \<Longrightarrow> runs c (syncing_enter c)"
  unfolding syncing_enter_def
  by (intro runs_bind runs_state runs_cmds runs_set_time runs_post0) simp_all

lemma runs_idle_enter:
  assumes "phone_ok c"
  shows "runs c (idle_enter c)"
proof -
  have "runs c' (let c = audio AudioStop c' in do {
      num \<leftarrow> blit (last_incoming_num c) 0 (replicate 128 0);
      Some (c\<lparr>last_incoming_num := num, s_ring_count := 0\<rparr>) })" if c': "phone_ok c'" for c'
    using c' by (auto simp: Let_def audio_def blit_def phone_ok_def same_handler_def wake_ok_def
        intro!: phone_ok_client[OF c'])
  then show ?thesis
    unfolding idle_enter_def using assms by (intro runs_bind runs_state) simp_all
qed

lemma runs_dialing_enter:
  assumes "phone_ok c"
  shows "runs c (dialing_enter c)"
proof -
  have step: "runs c' (do {
      b \<leftarrow> nth_opt (last_outgoing_num c') 0;
      c \<leftarrow> (if b \<noteq> 0
           then (if 0 \<in> set (last_outgoing_num c')
                 then post UPIL_ASK_DTMF_TX (last_outgoing_num c') (int (length (c_string (last_outgoing_num c')))) DIAL_DELAY c'
                 else None)
           else Some c');
      Some (audio AudioStart c) })" if c': "phone_ok c'" for c'
  proof -
    let ?n = "last_outgoing_num c'"
    let ?s = "c_string ?n"
    have n: "length ?n = 128" "0 \<in> set ?n" "dialable ?s"
      using c' by (auto simp: phone_ok_def num_ok_def)
    have "length ?s < length ?n"
      by (rule c_string_less[OF n(2)])
    then have "letter_ok UPIL_ASK_DTMF_TX (payload ?n (int (length ?s)))"
      using n by (auto simp: letter_ok_def payload_def take_c_string)
    then have "runs c' (post UPIL_ASK_DTMF_TX ?n (int (length ?s)) DIAL_DELAY c')"
      using length_c_string[of ?n] by (intro runs_post[OF c']) simp_all
    then have "runs c' (if ?n ! 0 \<noteq> 0 then post UPIL_ASK_DTMF_TX ?n (int (length ?s)) DIAL_DELAY c' else Some c')"
      using runs_refl[OF c'] by simp
    then have "runs c' (Option.bind (if ?n ! 0 \<noteq> 0 then post UPIL_ASK_DTMF_TX ?n (int (length ?s)) DIAL_DELAY c' else Some c')
        (\<lambda>c. Some (audio AudioStart c)))"
      by (rule runs_bind) (rule runs_audio)
    then show ?thesis
      using n by (cases "?n ! 0 = 0") simp_all
  qed
  show ?thesis
    unfolding dialing_enter_def using assms by (intro runs_bind[OF runs_state] step) simp_all
qed

lemma runs_incoming_enter: "phone_ok c \<Longrightarrow> runs c (incoming_enter c)"
  unfolding incoming_enter_def
  by (intro runs_bind runs_state runs_cancel runs_post0) (simp_all add: CANCELS_def)

lemma runs_conversation_enter: "phone_ok c \<Longrightarrow> runs c (conversation_enter c)"
proof -
  have "runs c' (let c = audio AudioStart c' in do {
      c \<leftarrow> send_cmd_noparam UPIL_CTL_RECORD_LINE_PLAY_ON c;
      send_cmd_noparam UPIL_ASK_BUSY_TONE c })" if "phone_ok c'" for c'
    using runs_bind[OF runs_audio[OF that, of AudioStart], of "\<lambda>c. do {
        c \<leftarrow> send_cmd_noparam UPIL_CTL_RECORD_LINE_PLAY_ON c; send_cmd_noparam UPIL_ASK_BUSY_TONE c }"]
    by (simp add: runs_bind runs_cmds)
  then show "phone_ok c \<Longrightarrow> runs c (conversation_enter c)"
    unfolding conversation_enter_def by (intro runs_bind[OF runs_state]) simp_all
qed

lemma runs_memo_enter: "phone_ok c \<Longrightarrow> runs c (memo_enter c)"
  unfolding memo_enter_def by (intro runs_bind runs_state runs_cmds) simp_all

lemma runs_offline_process: "phone_ok c \<Longrightarrow> runs c (if msg_what x = UPIL_EVT_USB_ATTACH then goto UPIL_SM_SYNCING c
      else if msg_what x = UPIL_ASK_GET_VERSION then Some c else default_process UPIL_SM_OFFLINE x c)"
  by (auto intro: runs_default runs_goto runs_refl)

lemma offline_process_ok:
  "phone_ok c \<Longrightarrow> \<exists>c'. offline_process x c = Some (HANDLED, c') \<and> phone_ok c' \<and> keeps CANCELS c c'"
  unfolding offline_process_def by (intro runs_handled runs_offline_process)

lemma syncing_process_ok:
  "phone_ok c \<Longrightarrow> \<exists>c'. syncing_process x c = Some (HANDLED, c') \<and> phone_ok c' \<and> keeps CANCELS c c'"
  unfolding syncing_process_def
  by (rule runs_handled)
     (auto intro!: runs_default runs_goto runs_refl runs_bind runs_cancel runs_post0 simp: CANCELS_def)

lemma conversation_process_ok:
  "phone_ok c \<Longrightarrow> \<exists>c'. conversation_process x c = Some (HANDLED, c') \<and> phone_ok c' \<and> keeps CANCELS c c'"
  unfolding conversation_process_def
  by (rule runs_handled) (auto intro!: runs_default runs_goto runs_bind runs_cmds runs_hangup)

lemma runs_after_audio: "phone_ok c \<Longrightarrow> (\<And>c'. phone_ok c' \<Longrightarrow> runs c' (f c')) \<Longrightarrow> runs c (f (audio a c))"
  using runs_bind[OF runs_audio[of c a], of f] by simp

lemma memo_process_ok:
  "phone_ok c \<Longrightarrow> \<exists>c'. memo_process x c = Some (HANDLED, c') \<and> phone_ok c' \<and> keeps CANCELS c c'"
  unfolding memo_process_def stop_memo_flow_def
  by (rule runs_handled)
     (auto intro!: runs_default runs_bind runs_cmds runs_hangup runs_audio runs_goto
        runs_after_audio[where f = "send_cmd_noparam _"] runs_after_audio[where f = "goto _"])

lemma dialing_process_ok:
  assumes c: "phone_ok c" and x: "letter_ok (msg_what x) (msg_data x)" "msg_sized x"
  shows "\<exists>c'. dialing_process x c = Some (HANDLED, c') \<and> phone_ok c' \<and> keeps CANCELS c c'"
proof -
  have "runs c (do {
        (_, c) \<leftarrow> tpp_send_cmd (msg_what x) (case msg_data x of None \<Rightarrow> [] | Some d \<Rightarrow> d) (msg_data_size x) c;
        post UPIL_EVT_DIAL_END_CHECK [] 0 DIALINGTIMEOUT c })" if w: "msg_what x = UPIL_ASK_DTMF_TX"
  proof -
    have "runs c (Option.bind (map_option snd (tpp_send_cmd UPIL_ASK_DTMF_TX
        (case msg_data x of None \<Rightarrow> [] | Some d \<Rightarrow> d) (msg_data_size x) c))
        (\<lambda>c. post UPIL_EVT_DIAL_END_CHECK [] 0 DIALINGTIMEOUT c))"
      using x w by (intro runs_bind runs_dial[OF c] runs_post0) simp_all
    then show ?thesis
      by (simp add: w bind_map_option split_def comp_def)
  qed
  then show ?thesis
    unfolding dialing_process_def using c
    by (intro runs_handled)
       (auto intro!: runs_default runs_goto runs_bind runs_cancel runs_post0 runs_cmds simp: CANCELS_def)
qed

lemma sprintf_num_ok:
  assumes "length n = 128" and "length (c_string d) < 128"
  shows "\<exists>n'. sprintf_num n (Some d) = Some n' \<and> length n' = 128 \<and> c_string n' = c_string d \<and> 0 \<in> set n'"
proof -
  let ?n = "(c_string d @ [0]) @ drop (Suc (length (c_string d))) n"
  have "sprintf_num n (Some d) = Some ?n"
    using assms by (simp add: sprintf_num_def blit_def)
  moreover have "c_string ?n = c_string d"
    by (simp add: c_string_append_nul)
  ultimately show ?thesis
    using assms by simp
qed

text \<open>A caller number is stored and reported.\<close>

lemma runs_call_id:
  assumes c: "phone_ok c" and x: "msg_data x = Some d" "length (c_string d) < 128" "msg_what x = UPIL_EVT_CALL_ID"
  shows "runs c (do {
     num \<leftarrow> sprintf_num (last_incoming_num c) (msg_data x);
     let c = c\<lparr>last_incoming_num := num\<rparr>;
     sendto_monitor (msg_what x) (msg_data x) c })"
proof -
  have "length (last_incoming_num c) = 128"
    using c by (simp add: phone_ok_def)
  then obtain n' where n': "sprintf_num (last_incoming_num c) (Some d) = Some n'" "length n' = 128"
      "0 \<in> set n'"
    using sprintf_num_ok x(2) by blast
  have "runs c (Some (c\<lparr>last_incoming_num := n'\<rparr>))"
    using c n'(2,3) by (intro phone_ok_client[OF c]) (auto simp: same_handler_def wake_ok_def phone_ok_def)
  moreover have "monitor_text UPIL_EVT_CALL_ID (Some d) \<noteq> None"
    using x(2) by (simp add: monitor_text_def Let_def)
  ultimately have "runs c (Option.bind (Some (c\<lparr>last_incoming_num := n'\<rparr>)) (sendto_monitor UPIL_EVT_CALL_ID (Some d)))"
    by (intro runs_bind runs_monitor)
  then show ?thesis
    using x n'(1) by simp
qed

lemma incoming_process_ok:
  assumes c: "phone_ok c" and x: "letter_ok (msg_what x) (msg_data x)"
  shows "\<exists>c'. incoming_process x c = Some (HANDLED, c') \<and> phone_ok c' \<and> keeps CANCELS c c'"
proof -
  have "runs c (do {
     num \<leftarrow> sprintf_num (last_incoming_num c) (msg_data x);
     let c = c\<lparr>last_incoming_num := num\<rparr>;
     sendto_monitor (msg_what x) (msg_data x) c })" if w: "msg_what x = UPIL_EVT_CALL_ID"
  proof -
    obtain d where "msg_data x = Some d" "length (c_string d) < 128"
      using w x by (auto simp: letter_ok_def)
    then show ?thesis
      by (rule runs_call_id[OF c _ _ w])
  qed
  then show ?thesis
    unfolding incoming_process_def using c
    by (intro runs_handled)
       (auto intro!: runs_default runs_goto runs_bind runs_cancel runs_post0 runs_cmds runs_state simp: CANCELS_def)
qed

lemma num_ok_zeros: "num_ok (replicate 128 0)"
  by (simp add: num_ok_def c_string_def dialable_def)

lemma runs_set_outgoing:
  assumes c: "phone_ok c" and d: "d = None \<or> (\<exists>s. d = Some s \<and> length (c_string s) < 128 \<and> dialable (c_string s))"
  shows "runs c (do {
        num \<leftarrow> blit (last_outgoing_num c) 0 (replicate 128 0);
        num \<leftarrow> (if d \<noteq> None then sprintf_num num d else Some num);
        let c = c\<lparr>last_outgoing_num := num\<rparr>;
        send_cmd_noparam UPIL_CTL_HANDFREE_ON c })"
proof -
  have "length (last_outgoing_num c) = 128"
    using c by (simp add: phone_ok_def num_ok_def)
  then have b: "blit (last_outgoing_num c) 0 (replicate 128 0) = Some (replicate 128 0)"
    by (simp add: blit_def)
  obtain n' where n': "(if d \<noteq> None then sprintf_num (replicate 128 0) d else Some (replicate 128 0)) = Some n'" "num_ok n'"
    using d sprintf_num_ok[of "replicate 128 0"] num_ok_zeros by (fastforce simp: num_ok_def)
  have "runs c (Some (c\<lparr>last_outgoing_num := n'\<rparr>))"
    using c n'(2) by (intro phone_ok_client[OF c]) (auto simp: same_handler_def wake_ok_def phone_ok_def)
  then have "runs c (Option.bind (Some (c\<lparr>last_outgoing_num := n'\<rparr>)) (send_cmd_noparam UPIL_CTL_HANDFREE_ON))"
    by (rule runs_bind) (simp add: runs_cmds)
  then show ?thesis
    using b n'(1) by simp
qed

lemma idle_process_ok:
  assumes c: "phone_ok c" and x: "letter_ok (msg_what x) (msg_data x)"
  shows "\<exists>c'. idle_process x c = Some (HANDLED, c') \<and> phone_ok c' \<and> keeps CANCELS c c'"
proof -
  have 1: "runs c (do {
        num \<leftarrow> blit (last_outgoing_num c) 0 (replicate 128 0);
        num \<leftarrow> (if msg_data x \<noteq> None then sprintf_num num (msg_data x) else Some num);
        let c = c\<lparr>last_outgoing_num := num\<rparr>;
        send_cmd_noparam UPIL_CTL_HANDFREE_ON c })" if "msg_what x = UPIL_CTL_HANDFREE_ON"
    using that x by (intro runs_set_outgoing[OF c]) (cases "msg_data x"; simp add: letter_ok_def)
  have 2: "runs c (do {
     num \<leftarrow> sprintf_num (last_incoming_num c) (msg_data x);
     let c = c\<lparr>last_incoming_num := num\<rparr>;
     c \<leftarrow> sendto_monitor (msg_what x) (msg_data x) c;
     goto UPIL_SM_INCOMING c })" if w: "msg_what x = UPIL_EVT_CALL_ID"
  proof -
    obtain d where d: "msg_data x = Some d" "length (c_string d) < 128"
      using w x by (auto simp: letter_ok_def)
    from runs_bind[OF runs_call_id[OF c d w], of "goto UPIL_SM_INCOMING"]
    show ?thesis
      by (simp add: runs_goto bind_assoc Let_def)
  qed
  have 3: "runs c (let c = c\<lparr>s_ring_count := s_ring_count c + 1\<rparr> in
            if s_ring_count c \<ge> 2 then goto UPIL_SM_INCOMING c else Some c)"
  proof -
    have "runs c (Some (c\<lparr>s_ring_count := s_ring_count c + 1\<rparr>))"
      using c by (intro phone_ok_client[OF c]) (auto simp: same_handler_def wake_ok_def phone_ok_def)
    then have "runs c (Option.bind (Some (c\<lparr>s_ring_count := s_ring_count c + 1\<rparr>))
        (\<lambda>c. if s_ring_count c \<ge> 2 then goto UPIL_SM_INCOMING c else Some c))"
      by (rule runs_bind) (simp add: runs_goto runs_refl)
    then show ?thesis
      by (simp add: Let_def)
  qed
  show ?thesis
    unfolding idle_process_def using c 1 2 3
    by (intro runs_handled) (auto intro!: runs_default runs_goto)
qed

section \<open>The machine\<close>

lemma table_length [simp]: "length my_state_table = 7"
  by (simp add: my_state_table_def)

lemma table_entries:
  "n < 7 \<Longrightarrow> st_id (my_state_table ! n) = int n \<and> exit_func (my_state_table ! n) = None"
  by (auto simp: my_state_table_def less_Suc_eq numeral_eq_Suc)

lemma table_enter_ok:
  assumes "phone_ok c" and "n < 7"
  shows "runs c (call_func (enter_func (my_state_table ! n)) c)"
proof -
  consider "n = 0" | "n = 1" | "n = 2" | "n = 3" | "n = 4" | "n = 5" | "n = 6"
    using assms(2) by linarith
  then show ?thesis
    using assms(1) by cases
      (simp_all add: my_state_table_def call_func_def runs_offline_enter runs_syncing_enter runs_idle_enter
        runs_dialing_enter runs_incoming_enter runs_conversation_enter runs_memo_enter)
qed

lemma table_process_ok:
  assumes "phone_ok c" and "n < 7" and "letter_ok (msg_what x) (msg_data x)" "msg_sized x"
  shows "\<exists>f c'. process_func (my_state_table ! n) = Some f \<and> f x c = Some (HANDLED, c') \<and> phone_ok c'
    \<and> keeps CANCELS c c'"
proof -
  consider "n = 0" | "n = 1" | "n = 2" | "n = 3" | "n = 4" | "n = 5" | "n = 6"
    using assms(2) by linarith
  then show ?thesis
    using assms(1,3,4) by cases
      (simp_all add: my_state_table_def offline_process_ok syncing_process_ok idle_process_ok
        dialing_process_ok incoming_process_ok conversation_process_ok memo_process_ok)
qed

lemma cur_entry_ok:
  "phone_ok c \<Longrightarrow> \<exists>i<7. cur_state c = Some i \<and> cur_entry my_state_table c = Some (Some (my_state_table ! i))"
  by (auto simp: phone_ok_def cur_entry_def)

lemma get_state_table: "0 \<le> i \<Longrightarrow> i < 7 \<Longrightarrow> get_state my_state_table i = Some (nat i)"
  using table_entries by (auto simp: get_state_Some)

lemma defer_nothing: "phone_ok c \<Longrightarrow> process_defer_msg c = Some c"
  by (simp add: phone_ok_def handler_inv_def process_defer_msg_def)

lemma transition_to_ok:
  assumes c: "phone_ok c" and i: "0 \<le> i" "i < 7"
  shows "\<exists>c'. transition_to my_state_table i c = Some (HANDLED, c') \<and> phone_ok c' \<and> keeps CANCELS c c'"
proof -
  obtain k where k: "k < 7" "cur_state c = Some k" "cur_entry my_state_table c = Some (Some (my_state_table ! k))"
    using cur_entry_ok[OF c] by blast
  show ?thesis
  proof (cases "int k = i")
    case True
    then show ?thesis
      using k c table_entries[OF k(1)] by (simp add: transition_to_def)
  next
    case False
    let ?c = "c\<lparr>cur_state := Some (nat i)\<rparr>"
    have "runs c (Some ?c)"
      using c i by (intro phone_ok_client[OF c]) (auto simp: same_handler_def wake_ok_def phone_ok_def)
    then have "runs c (Option.bind (Some ?c) (\<lambda>c. call_func (enter_func (my_state_table ! nat i)) c))"
      using i by (intro runs_bind table_enter_ok) auto
    then obtain c' where "call_func (enter_func (my_state_table ! nat i)) ?c = Some c'" "phone_ok c'" "keeps CANCELS c c'"
      by (auto simp: runs_def)
    then show ?thesis
      using False k i table_entries[OF k(1)] get_state_table[OF i] defer_nothing[of c']
      by (auto simp: transition_to_def call_func_def)
  qed
qed

lemma process_msg_ok:
  assumes c: "phone_ok c" and x: "letter_ok (msg_what x) (msg_data x)" "msg_sized x"
  shows "\<exists>c'. process_msg my_state_table x c = Some (HANDLED, c') \<and> phone_ok c' \<and> keeps CANCELS c c'"
proof -
  obtain k where k: "k < 7" "cur_entry my_state_table c = Some (Some (my_state_table ! k))"
    using cur_entry_ok[OF c] by blast
  then show ?thesis
    using table_process_ok[OF c k(1) x] by (auto simp: process_msg_def)
qed

lemma phone_ok_fewer:
  assumes c: "phone_ok c" and f: "fewer c c'"
  shows "phone_ok c'"
proof -
  have "cur_state c' = cur_state c" "last_incoming_num c' = last_incoming_num c"
      "last_outgoing_num c' = last_outgoing_num c" "receiving [] c' = receiving [] c"
    using f more_upil_io[of c' c] by (simp_all add: fewer_def receiving_def)
  moreover have "wake_ok c' = wake_ok c" "mem_ok c' = mem_ok c"
    using f wake_ok_part[of c' c] by (simp_all add: fewer_def mem_ok_def)
  ultimately show ?thesis
    using c f by (auto simp: phone_ok_def fewer_def)
qed

interpretation phone_client: fsm_client my_state_table CANCELS phone_ok letter_ok
proof (unfold_locales, goal_cases)
  case (1 c)
  then show ?case by (simp add: phone_ok_def)
next
  case (2 c)
  then show ?case by (simp add: phone_ok_def)
next
  case (3 c w d t)
  then show ?case by (force simp: phone_ok_def)
next
  case (4 c c')
  then show ?case by (rule phone_ok_fewer)
next
  case (5 c x)
  then show ?case by (intro process_msg_ok)
next
  case (6 c x)
  then obtain i where i: "msg_data x = Some (int_bytes i @ [0, 0])" "0 \<le> i" "i < 7"
    by (auto simp: letter_ok_def)
  then have "transition_target x = Some i"
    by (simp add: transition_target_def bytes_int_int_bytes)
  then show ?case
    using transition_to_ok[OF 6(1) i(2,3)] by blast
qed

end
