(* ===== verification/Phone_Flow.thy ===== *)
theory Phone_Flow
  imports Phone_Safety
begin

text \<open>
  What the state machine of the telephone does: its transitions as an abstract automaton
  that the process functions implement, the timers it restarts, and the flow of a call.
\<close>

declare length_queued [simp del] One_nat_def [simp del]

section \<open>The transitions\<close>

text \<open>
  The abstract automaton: the state to which a message moves the telephone.
  \<open>rings\<close> is the number of rings counted before the message.
\<close>

definition phone_next :: "nat \<Rightarrow> int \<Rightarrow> int \<Rightarrow> int list" where
  "phone_next s w rings =
     (if s = 0 then (if w = UPIL_EVT_USB_ATTACH then [UPIL_SM_SYNCING] else [])
      else if s = 1 \<and> w \<in> {UPIL_EVT_SYNC_TIMEOUT, UPIL_EVT_HISTORY_FINISHED} then [UPIL_SM_IDLE]
      else if s = 2 \<and> w = UPIL_EVT_HFREE_HOOK_ON then [UPIL_SM_DIALING]
      else if s = 2 \<and> (w = UPIL_EVT_CALL_ID \<or> w = UPIL_EVT_RING \<and> rings \<ge> 1) then [UPIL_SM_INCOMING]
      else if s = 3 \<and> w \<in> {UPIL_EVT_DIAL_END, UPIL_EVT_DIAL_END_CHECK} then [UPIL_SM_CONVERSATION]
      else if s = 4 \<and> w \<in> {UPIL_EVT_HAND_HOOK_ON, UPIL_EVT_HFREE_HOOK_ON, UPIL_EVT_PARALL_HOOK_ON}
        then [UPIL_SM_CONVERSATION]
      else if s = 4 \<and> w = UPIL_EVT_RING_TIMEOUT then [UPIL_SM_IDLE]
      else if s = 4 \<and> w = UPIL_EVT_RECORD_START then [UPIL_SM_MEMO]
      else if s = 5 \<and> w \<in> {UPIL_EVT_HFREE_HOOK_OFF, UPIL_EVT_HAND_HOOK_OFF} then [UPIL_SM_IDLE]
      else if s = 6 \<and> w = UPIL_CTL_HANDFREE_ON then [UPIL_SM_CONVERSATION]
      else if s = 6 \<and> w \<in> {UPIL_EVT_HFREE_HOOK_OFF, UPIL_EVT_HAND_HOOK_OFF} then [UPIL_SM_IDLE]
      else if w = UPIL_EVT_USB_DETACH then [UPIL_SM_OFFLINE]
      else [])"

text \<open>The transitions that are waiting to be made.\<close>

definition waiting :: "'a handler_scheme \<Rightarrow> (byte list option \<times> timeval) list" where
  "waiting c = map snd (filter (\<lambda>l. fst l = UPIL_EVT_SM_TRANSITION) (queued c))"

text \<open>
  A step that is defined, keeps the invariant, queues at most \<open>k\<close> messages and, when
  there is room for them, exactly the transitions to \<open>ts\<close>.
\<close>

definition moves :: "phone \<Rightarrow> phone option \<Rightarrow> int list \<Rightarrow> nat \<Rightarrow> bool" where
  "moves c r ts k \<longleftrightarrow> (\<exists>c'. r = Some c' \<and> phone_ok c' \<and> clock c' = clock c \<and>
     (length (queued c) + k \<le> 31 \<longrightarrow>
        waiting c' = waiting c @ map (\<lambda>t. (Some (int_bytes t @ [0, 0]), due c 0)) ts \<and>
        length (queued c') \<le> length (queued c) + k))"

lemma due_clock: "clock c' = clock c \<Longrightarrow> due c' = due c"
  by (intro ext) (simp add: due_def)

lemma moves_bind:
  assumes "moves c r ts k" and "\<And>c'. phone_ok c' \<Longrightarrow> moves c' (f c') us l"
  shows "moves c (Option.bind r f) (ts @ us) (k + l)"
proof -
  obtain c1 where c1: "r = Some c1" "phone_ok c1" "clock c1 = clock c"
      "length (queued c) + k \<le> 31 \<longrightarrow>
        waiting c1 = waiting c @ map (\<lambda>t. (Some (int_bytes t @ [0, 0]), due c 0)) ts \<and>
        length (queued c1) \<le> length (queued c) + k"
    using assms(1) by (auto simp: moves_def)
  then show ?thesis
    using assms(2)[OF c1(2)] due_clock[OF c1(3)] unfolding moves_def by fastforce
qed

lemma moves_bind_plain:
  "moves c r [] k \<Longrightarrow> (\<And>c'. phone_ok c' \<Longrightarrow> moves c' (f c') us l) \<Longrightarrow> k + l = n \<Longrightarrow> moves c (Option.bind r f) us n"
  using moves_bind[of c r "[]" k f us l] by simp

lemma moves_mono: "moves c r ts k \<Longrightarrow> k \<le> l \<Longrightarrow> moves c r ts l"
  unfolding moves_def by fastforce

lemma moves_client:
  assumes "runs c (Some c')" and "same_handler c c'"
  shows "moves c (Some c') [] 0"
  using assms same_handler_eqs[OF assms(2)]
  by (auto simp: runs_def moves_def waiting_def same_handler_def)

lemma moves_refl: "phone_ok c \<Longrightarrow> moves c (Some c) [] 0"
  by (simp add: moves_def)

text \<open>What a message that is sent adds, from the contract of the handler.\<close>

lemma post_effect:
  assumes c: "phone_ok c" and n: "nat n \<le> length d" and l: "letter_ok w (payload d n)"
  shows "\<exists>c'. post w d n ms c = Some c' \<and> phone_ok c' \<and> clock c' = clock c \<and> same_client c c'
    \<and> queued c' = queued c @ (if length (queued c) < 31 then [(w, payload d n, due c ms)] else [])"
proof -
  have "handler_inv c \<and> mem_ok c"
    using c by (simp add: phone_ok_def)
  from mh.send_total[OF this n, of w ms] obtain r c' where c':
      "sm_send_message_delay w d n ms c = Some (r, c')" "same_client c c'"
      "queued c' = queued c @ (if length (queued c) < 31 then [(w, payload d n, due c ms)] else [])"
    by blast
  then have "post w d n ms c = Some c'"
    by (simp add: post_def)
  moreover from this have "phone_ok c'"
    using runs_post[OF c n l, of ms] by (simp add: runs_def)
  ultimately show ?thesis
    using c' by (auto simp: same_client_def)
qed

lemma moves_post0:
  assumes "phone_ok c" and "w \<noteq> UPIL_EVT_CALL_ID" and "w \<noteq> UPIL_EVT_SM_TRANSITION"
  shows "moves c (post w [] 0 ms c) [] 1"
  using post_effect[OF assms(1), of 0 "[]" w ms] assms(2,3) letter_ok_plain[of w]
  by (auto simp: moves_def waiting_def payload_def)

lemma moves_goto:
  assumes c: "phone_ok c" and i: "0 \<le> i" "i < 7"
  shows "moves c (goto i c) [i] 1"
proof -
  have p: "payload (int_bytes i) 4 = Some (int_bytes i @ [0, 0])"
    by (simp add: payload_def)
  then have "letter_ok UPIL_EVT_SM_TRANSITION (payload (int_bytes i) 4)"
    using i by (auto simp: letter_ok_def intro: exI[of _ i])
  moreover have "goto i c = post UPIL_EVT_SM_TRANSITION (int_bytes i) 4 0 c"
    by (simp add: goto_def sm_transition_to_def post_def)
  ultimately show ?thesis
    using post_effect[OF c, of 4 "int_bytes i" UPIL_EVT_SM_TRANSITION 0] p
    by (auto simp: moves_def waiting_def)
qed

lemma moves_cancel:
  assumes c: "phone_ok c" and w: "w \<in> CANCELS"
  shows "moves c (sm_remove_message_id w c) [] 0"
proof -
  have "handler_inv c \<and> mem_ok c"
    using c by (simp add: phone_ok_def)
  from mh.cancel_ok[OF this, of w] obtain c' where c': "sm_remove_message_id w c = Some c'" "same_client c c'"
      "queued c' = filter (\<lambda>l. fst l \<noteq> w) (queued c)"
    by blast
  have "w \<noteq> UPIL_EVT_SM_TRANSITION"
    using w by (auto simp: CANCELS_def)
  then have "waiting c' = waiting c"
    unfolding waiting_def c'(3) by (auto simp: conj_commute intro!: arg_cong[of _ _ "map snd"] filter_cong)
  moreover have "length (queued c') \<le> length (queued c)"
    unfolding c'(3) by (rule length_filter_le)
  moreover have "phone_ok c'"
    using runs_cancel[OF c w] c'(1) by (simp add: runs_def)
  ultimately show ?thesis
    using c' by (auto simp: moves_def same_client_def)
qed

lemma moves_dev_out: "phone_ok c \<Longrightarrow> moves c (Some (c\<lparr>dev_out := d\<rparr>)) [] 0"
  by (intro moves_client runs_dev_out) (simp_all add: same_handler_def)

lemma moves_cmds:
  "phone_ok c \<Longrightarrow> r \<in> {UPIL_CTL_USB_ON, UPIL_CTL_HANDFREE_ON, UPIL_CTL_HANDFREE_OFF, UPIL_ASK_HARDWARE_INF,
         UPIL_ASK_PHONE_STATE, UPIL_ASK_READ_SN, UPIL_ASK_GET_VERSION, UPIL_ASK_RECORD_UP, UPIL_CTL_RINGER_OFF,
         UPIL_CTL_RECORD_LINE_PLAY_ON, UPIL_CTL_RECORD_LINE_PLAY_OFF, UPIL_ASK_BUSY_TONE} \<Longrightarrow>
     moves c (send_cmd_noparam r c) [] 0"
  using send_cmd_upd[of r c] onebyte_ok[of r] moves_dev_out[of c] by (metis (no_types, lifting))

lemma moves_audio: "phone_ok c \<Longrightarrow> moves c (Some (audio a c)) [] 0"
  by (intro moves_client runs_audio) (simp_all add: same_handler_def audio_def)

lemma moves_after_audio:
  "phone_ok c \<Longrightarrow> (\<And>c'. phone_ok c' \<Longrightarrow> moves c' (f c') ts k) \<Longrightarrow> moves c (f (audio a c)) ts k"
  using moves_bind[OF moves_audio[of c a], of f ts k] by simp

lemma moves_monitor:
  assumes "phone_ok c" and "monitor_text m d \<noteq> None"
  shows "moves c (sendto_monitor m d c) [] 0"
proof -
  obtain x w where "sendto_monitor m d c = Some (c\<lparr>sock_out := x, s_wait_response := w\<rparr>)"
    using monitor_upd[OF assms(2)] by blast
  then show ?thesis
    using moves_client[OF runs_sock[OF assms(1)]] by (simp add: same_handler_def)
qed

lemma moves_hangup: "phone_ok c \<Longrightarrow> moves c (map_option snd (upil_sm_hangup c)) [] 1"
  using moves_post0[of c UPIL_CTL_HANDFREE_OFF 0] by (simp add: upil_sm_hangup_def post_def)

lemma moves_default:
  assumes "phone_ok c"
  shows "moves c (default_process i x c) (if i \<noteq> UPIL_SM_OFFLINE \<and> msg_what x = UPIL_EVT_USB_DETACH then [UPIL_SM_OFFLINE] else []) 1"
proof -
  have "moves c (do { c \<leftarrow> send_cmd_noparam UPIL_CTL_USB_ON c; post UPIL_CTL_USB_ON [] 0 USB_KEEP_ALIVE_TIMER c }) [] 1"
    using assms by (intro moves_bind_plain[of _ _ 0 _ _ 1] moves_cmds moves_post0) simp_all
  moreover have "moves c (Some c) [] 1"
    by (rule moves_mono[OF moves_refl[OF assms]]) simp
  ultimately show ?thesis
    using moves_goto[OF assms, of UPIL_SM_OFFLINE] by (simp add: default_process_def)
qed

lemma moves_goto1: "phone_ok c \<Longrightarrow> 0 \<le> i \<Longrightarrow> i < 7 \<Longrightarrow> ts = [i] \<Longrightarrow> moves c (goto i c) ts 1"
  using moves_goto by simp

lemma moves_keep: "phone_ok c \<Longrightarrow> moves c (Some c) [] 1"
  using moves_mono[OF moves_refl] by simp

lemma moves_restart:
  assumes "phone_ok c" and "w \<in> CANCELS"
  shows "moves c (do { c \<leftarrow> sm_remove_message_id w c; post w [] 0 ms c }) [] 1"
  using assms by (intro moves_bind_plain[of _ _ 0 _ _ 1] moves_cancel moves_post0) (auto simp: CANCELS_def)

lemma unhandled [simp]: "map_option snd (handled r) = r"
  by (cases r) (simp_all add: handled_def)

lemma moves_offline:
  "phone_ok c \<Longrightarrow> moves c (map_option snd (offline_process x c)) (phone_next 0 (msg_what x) (s_ring_count c)) 1"
  using moves_default[of c UPIL_SM_OFFLINE x]
  by (simp add: offline_process_def phone_next_def moves_goto moves_keep)

lemma moves_syncing:
  assumes "phone_ok c"
  shows "moves c (map_option snd (syncing_process x c)) (phone_next 1 (msg_what x) (s_ring_count c)) 1"
proof -
  have "moves c (do { c \<leftarrow> sm_remove_message_id UPIL_EVT_SYNC_TIMEOUT c; goto UPIL_SM_IDLE c }) [UPIL_SM_IDLE] 1"
    using assms by (intro moves_bind_plain[of _ _ 0 _ _ 1] moves_cancel moves_goto) (auto simp: CANCELS_def)
  moreover have "moves c (do { c \<leftarrow> sm_remove_message_id UPIL_EVT_SYNC_TIMEOUT c;
                post UPIL_EVT_SYNC_TIMEOUT [] 0 SYNCING_TIMEOUT c }) [] 1"
    using assms by (intro moves_restart) (auto simp: CANCELS_def)
  ultimately show ?thesis
    using assms moves_default[of c UPIL_SM_SYNCING x]
    by (auto simp: syncing_process_def phone_next_def moves_goto moves_keep)
qed

lemma moves_conversation:
  assumes "phone_ok c"
  shows "moves c (map_option snd (conversation_process x c)) (phone_next 5 (msg_what x) (s_ring_count c)) 1"
proof -
  have "moves c (do { c \<leftarrow> send_cmd_noparam UPIL_CTL_RECORD_LINE_PLAY_OFF c; goto UPIL_SM_IDLE c }) [UPIL_SM_IDLE] 1"
    using assms by (intro moves_bind_plain[of _ _ 0 _ _ 1] moves_cmds moves_goto) auto
  moreover have "moves c (send_cmd_noparam UPIL_CTL_HANDFREE_OFF c) [] 1"
    using assms by (intro moves_mono[OF moves_cmds]) auto
  ultimately show ?thesis
    using assms moves_default[of c UPIL_SM_CONVERSATION x]
    by (auto simp: conversation_process_def phone_next_def moves_hangup)
qed

lemma moves_memo:
  assumes "phone_ok c"
  shows "moves c (map_option snd (memo_process x c)) (phone_next 6 (msg_what x) (s_ring_count c)) 1"
proof -
  have "moves c (do { c \<leftarrow> send_cmd_noparam UPIL_CTL_RECORD_LINE_PLAY_OFF c; goto UPIL_SM_IDLE (audio AudioStop c) }) [UPIL_SM_IDLE] 1"
    using assms by (intro moves_bind_plain[of _ _ 0 _ _ 1] moves_cmds moves_after_audio[where f = "goto _"] moves_goto) auto
  moreover have "moves c (do { c \<leftarrow> send_cmd_noparam UPIL_CTL_RECORD_LINE_PLAY_ON c; c \<leftarrow> send_cmd_noparam UPIL_ASK_BUSY_TONE c;
        Some (audio (AudioPlayFile ''/data/welcome.wav'') c) }) [] 1"
    using assms by (intro moves_bind_plain[of _ _ 0 _ _ 1] moves_mono[OF moves_audio] moves_cmds) auto
  moreover have "moves c (do { c \<leftarrow> send_cmd_noparam UPIL_CTL_HANDFREE_ON (stop_memo_flow c); goto UPIL_SM_CONVERSATION c }) [UPIL_SM_CONVERSATION] 1"
    unfolding stop_memo_flow_def
    using assms by (intro moves_bind_plain[of _ _ 0 _ _ 1] moves_after_audio[where f = "send_cmd_noparam _"] moves_cmds moves_goto) auto
  moreover have "moves c (send_cmd_noparam UPIL_CTL_HANDFREE_OFF (stop_memo_flow c)) [] 1"
      "moves c (send_cmd_noparam UPIL_CTL_HANDFREE_OFF c) [] 1"
    unfolding stop_memo_flow_def
    using assms by (intro moves_after_audio[where f = "send_cmd_noparam _"] moves_mono[OF moves_cmds]; auto)+
  moreover have "moves c (Some (audio a c)) [] 1" for a
    using assms by (intro moves_mono[OF moves_audio]) auto
  ultimately show ?thesis
    using assms moves_default[of c UPIL_SM_MEMO x]
    by (auto simp: memo_process_def phone_next_def moves_hangup)
qed

lemma moves_dialing:
  assumes c: "phone_ok c" and x: "letter_ok (msg_what x) (msg_data x)" "msg_sized x"
  shows "moves c (map_option snd (dialing_process x c)) (phone_next 3 (msg_what x) (s_ring_count c)) 1"
proof -
  have "moves c (do {
        (_, c) \<leftarrow> tpp_send_cmd (msg_what x) (case msg_data x of None \<Rightarrow> [] | Some d \<Rightarrow> d) (msg_data_size x) c;
        post UPIL_EVT_DIAL_END_CHECK [] 0 DIALINGTIMEOUT c }) [] 1" if w: "msg_what x = UPIL_ASK_DTMF_TX"
  proof -
    obtain y d where "tpp_send_cmd UPIL_ASK_DTMF_TX (case msg_data x of None \<Rightarrow> [] | Some d \<Rightarrow> d) (msg_data_size x) c =
        Some (y, c\<lparr>dev_out := d\<rparr>)"
      using dial_upd x w by metis
    moreover have "moves c (Option.bind (Some (c\<lparr>dev_out := d\<rparr>)) (post UPIL_EVT_DIAL_END_CHECK [] 0 DIALINGTIMEOUT)) [] 1"
      using c by (intro moves_bind_plain[of _ _ 0 _ _ 1] moves_dev_out moves_post0) auto
    ultimately show ?thesis
      by (simp add: w)
  qed
  moreover have "moves c (do { c \<leftarrow> sm_remove_message_id UPIL_EVT_DIAL_END_CHECK c;
                post UPIL_EVT_DIAL_END_CHECK [] 0 DIALINGTIMEOUT c }) [] 1"
    using c by (intro moves_restart) (auto simp: CANCELS_def)
  moreover have "moves c (send_cmd_noparam UPIL_CTL_HANDFREE_OFF c) [] 1"
    using c by (intro moves_mono[OF moves_cmds]) auto
  ultimately show ?thesis
    using c moves_default[of c UPIL_SM_DIALING x]
    by (auto simp: dialing_process_def phone_next_def moves_goto)
qed

text \<open>Storing and reporting a caller number.\<close>

lemma moves_call_id:
  assumes c: "phone_ok c" and x: "letter_ok (msg_what x) (msg_data x)" "msg_what x = UPIL_EVT_CALL_ID"
  shows "moves c (do {
     num \<leftarrow> sprintf_num (last_incoming_num c) (msg_data x);
     let c = c\<lparr>last_incoming_num := num\<rparr>;
     sendto_monitor (msg_what x) (msg_data x) c }) [] 0"
proof -
  obtain d where d: "msg_data x = Some d" "length (c_string d) < 128"
    using x by (auto simp: letter_ok_def)
  have "length (last_incoming_num c) = 128"
    using c by (simp add: phone_ok_def)
  then obtain n' where n': "sprintf_num (last_incoming_num c) (Some d) = Some n'" "length n' = 128"
      "0 \<in> set n'"
    using sprintf_num_ok d(2) by blast
  have "runs c (Some (c\<lparr>last_incoming_num := n'\<rparr>))"
    using c n'(2,3) by (intro phone_ok_client[OF c]) (auto simp: same_handler_def wake_ok_def phone_ok_def)
  then have "moves c (Some (c\<lparr>last_incoming_num := n'\<rparr>)) [] 0"
    by (rule moves_client) (simp add: same_handler_def)
  moreover have "monitor_text UPIL_EVT_CALL_ID (Some d) \<noteq> None"
    using d(2) by (simp add: monitor_text_def Let_def)
  ultimately have "moves c (Option.bind (Some (c\<lparr>last_incoming_num := n'\<rparr>)) (sendto_monitor UPIL_EVT_CALL_ID (Some d))) [] 0"
    by (intro moves_bind_plain[of _ _ 0 _ _ 0] moves_monitor) auto
  then show ?thesis
    using x d n'(1) by simp
qed

lemma moves_incoming:
  assumes c: "phone_ok c" and x: "letter_ok (msg_what x) (msg_data x)"
  shows "moves c (map_option snd (incoming_process x c)) (phone_next 4 (msg_what x) (s_ring_count c)) 1"
proof -
  have "moves c (do { c \<leftarrow> sendto_monitor UPIL_EVT_RING None c; c \<leftarrow> sm_remove_message_id UPIL_EVT_RING_TIMEOUT c;
        post UPIL_EVT_RING_TIMEOUT [] 0 RING_TIMEOUT c }) [] 1"
    using c by (intro moves_bind_plain[of _ _ 0 _ _ 1] moves_monitor moves_restart) (auto simp: CANCELS_def monitor_text_def)
  moreover have "moves c (send_cmd_noparam UPIL_CTL_HANDFREE_OFF c) [] 1"
      "moves c (send_cmd_noparam UPIL_CTL_HANDFREE_ON c) [] 1"
    using c by (intro moves_mono[OF moves_cmds]; auto)+
  moreover have "moves c (do {
     num \<leftarrow> sprintf_num (last_incoming_num c) (msg_data x);
     let c = c\<lparr>last_incoming_num := num\<rparr>;
     sendto_monitor (msg_what x) (msg_data x) c }) [] 1" if "msg_what x = UPIL_EVT_CALL_ID"
    using moves_mono[OF moves_call_id[OF c x that]] by simp
  ultimately show ?thesis
    using c moves_default[of c UPIL_SM_INCOMING x]
    by (auto simp: incoming_process_def phone_next_def moves_goto)
qed

lemma moves_idle:
  assumes c: "phone_ok c" and x: "letter_ok (msg_what x) (msg_data x)"
  shows "moves c (map_option snd (idle_process x c)) (phone_next 2 (msg_what x) (s_ring_count c)) 1"
proof -
  have 1: "moves c (do {
        num \<leftarrow> blit (last_outgoing_num c) 0 (replicate 128 0);
        num \<leftarrow> (if msg_data x \<noteq> None then sprintf_num num (msg_data x) else Some num);
        let c = c\<lparr>last_outgoing_num := num\<rparr>;
        send_cmd_noparam UPIL_CTL_HANDFREE_ON c }) [] 1" (is "moves c ?body [] 1")
    if "msg_what x = UPIL_CTL_HANDFREE_ON"
  proof -
    have "runs c ?body"
      using that x by (intro runs_set_outgoing[OF c]) (cases "msg_data x"; simp add: letter_ok_def)
    then obtain c' where c': "?body = Some c'" "phone_ok c'"
      by (auto simp: runs_def)
    from c'(1) obtain num where "send_cmd_noparam UPIL_CTL_HANDFREE_ON (c\<lparr>last_outgoing_num := num\<rparr>) = Some c'"
      by (auto simp: bind_eq_Some Let_def)
    then obtain d where "c' = c\<lparr>last_outgoing_num := num, dev_out := d\<rparr>"
      using send_cmd_upd[of UPIL_CTL_HANDFREE_ON "c\<lparr>last_outgoing_num := num\<rparr>"] by (auto simp: onebyte_code_def)
    then have "same_handler c c'"
      by (simp add: same_handler_def)
    moreover have "runs c (Some c')"
      using \<open>runs c ?body\<close> by (simp only: c'(1))
    ultimately have "moves c (Some c') [] 0"
      by (intro moves_client)
    then show ?thesis
      unfolding c'(1) by (rule moves_mono) simp
  qed
  have 2: "moves c (do {
     num \<leftarrow> sprintf_num (last_incoming_num c) (msg_data x);
     let c = c\<lparr>last_incoming_num := num\<rparr>;
     c \<leftarrow> sendto_monitor (msg_what x) (msg_data x) c;
     goto UPIL_SM_INCOMING c }) [UPIL_SM_INCOMING] 1" if "msg_what x = UPIL_EVT_CALL_ID"
    using moves_bind_plain[OF moves_call_id[OF c x that], of "goto UPIL_SM_INCOMING" "[UPIL_SM_INCOMING]" 1 1]
    by (simp add: moves_goto bind_assoc Let_def)
  have 3: "moves c (let c = c\<lparr>s_ring_count := s_ring_count c + 1\<rparr> in
            if s_ring_count c \<ge> 2 then goto UPIL_SM_INCOMING c else Some c)
          (if s_ring_count c \<ge> 1 then [UPIL_SM_INCOMING] else []) 1"
  proof -
    let ?c = "c\<lparr>s_ring_count := s_ring_count c + 1\<rparr>"
    have "runs c (Some ?c)"
      using c by (intro phone_ok_client[OF c]) (auto simp: same_handler_def wake_ok_def phone_ok_def)
    then have m: "moves c (Some ?c) [] 0"
      by (rule moves_client) (simp add: same_handler_def)
    have "moves c (Option.bind (Some ?c) (goto UPIL_SM_INCOMING)) [UPIL_SM_INCOMING] 1"
      using m by (rule moves_bind_plain) (auto intro: moves_goto)
    then show ?thesis
      using moves_mono[OF m, of 1] by (simp add: Let_def)
  qed
  show ?thesis
    using c 1 2 3 moves_default[of c UPIL_SM_IDLE x]
    by (auto simp: idle_process_def phone_next_def moves_goto)
qed

text \<open>The process function of every state implements the automaton.\<close>

lemma table_moves:
  assumes c: "phone_ok c" "cur_state c = Some s" and x: "letter_ok (msg_what x) (msg_data x)" "msg_sized x"
  shows "moves c (map_option snd (process_msg my_state_table x c)) (phone_next s (msg_what x) (s_ring_count c)) 1"
proof -
  have "s < 7"
    using c by (auto simp: phone_ok_def)
  then have pm: "process_msg my_state_table x c =
      (case process_func (my_state_table ! s) of None \<Rightarrow> Some (HANDLED, c) | Some f \<Rightarrow> f x c)"
    using c(2) by (simp add: process_msg_def cur_entry_def)
  consider "s = 0" | "s = 1" | "s = 2" | "s = 3" | "s = 4" | "s = 5" | "s = 6"
    using \<open>s < 7\<close> by linarith
  then show ?thesis
    unfolding pm using c(1) x
    by cases (simp_all add: my_state_table_def moves_offline moves_syncing moves_idle moves_dialing
        moves_incoming moves_conversation moves_memo)
qed

section \<open>Turns of the loop\<close>

declare length_queued [simp] One_nat_def [simp]

lemma phone_ok_clock: "phone_ok c \<Longrightarrow> phone_ok (c\<lparr>clock := t\<rparr>)"
proof -
  assume c: "phone_ok c"
  have t: "timeout_of (c\<lparr>clock := t\<rparr>) = timeout_of c"
    by simp
  have "queued (c\<lparr>clock := t\<rparr>) = queued c"
    by (simp add: queued_def letter_of_def t)
  moreover have "wake_ok (c\<lparr>clock := t\<rparr>) = wake_ok c" "mem_ok (c\<lparr>clock := t\<rparr>) = mem_ok c"
    "receiving [] (c\<lparr>clock := t\<rparr>) = receiving [] c"
    by (simp_all add: wake_ok_def mem_ok_def receiving_def)
  ultimately show ?thesis
    using c by (simp add: phone_ok_def)
qed

text \<open>
  States for examples: the machine is in state \<open>s\<close> at time 0, and the messages \<open>xs\<close>
  are queued, the first \<open>k\<close> of them pending and the others to expire at time 0.
\<close>

definition wake_event :: upil_event where
  "wake_event = \<lparr>ev_fd = 3, ev_index = 0, ev_persist = 1, ev_timeout = TV 0 0, ev_func = CbWakeup, ev_param = 0\<rparr>"

definition message_event :: "addr \<Rightarrow> upil_event" where
  "message_event m = \<lparr>ev_fd = -1, ev_index = -1, ev_persist = 0, ev_timeout = TV 0 0, ev_func = CbMessage, ev_param = m\<rparr>"

definition phone_at :: "nat \<Rightarrow> MSG list \<Rightarrow> nat \<Rightarrow> phone" where
  "phone_at s xs k =
     \<lparr>readFds = {3}, nfds = 4, watch_table = Some 0 # replicate 15 None,
      timer_list = [Suc k..<Suc (length xs)], pending_list = [1..<Suc k],
      evs = (\<lambda>a. if a = 0 then Some wake_event else if a \<le> length xs then Some (message_event a) else None),
      clock = TV 0 0, fdWakeupRead = 3, fdWakeupWrite = 4, wakeupfd_event = 0, pipe_bytes = 0, in_loop_thread = True,
      msg_queue = [1..<Suc (length xs)], defer_msg_queue = [], msg_count = int (length xs),
      msgs = (\<lambda>a. if 0 < a \<and> a \<le> length xs then Some (xs ! (a - 1)) else None),
      malloc_calls = length xs, malloc_ok = (\<lambda>_. True),
      fsm_name = replicate 64 0, table_set = True, fsm_size = 7, cur_state = Some s,
      last_incoming_num = replicate 128 0, last_outgoing_num = replicate 128 0,
      s_pdu_buf = replicate 80 0, s_pdu_offset = 0, dev_out = [], dev_write_ok = (\<lambda>_. True),
      dev_time = \<lparr>tm_year = 112, tm_mon = 4, tm_mday = 26, tm_hour = 16, tm_min = 57, tm_sec = 41\<rparr>,
      s_ring_count = 0, audio_calls = [], s_fdMonitor = 5, s_fd_ril = 6, s_wait_response = 0, s_call_dir = 0,
      sock_out = []\<rparr>"

lemma phone_at_timeout: "timeout_of (phone_at s xs k) a = TV 0 0"
  by (simp add: timeout_of_def phone_at_def wake_event_def message_event_def)

lemma phone_at_ok:
  assumes "s < 7" and "k \<le> length xs" and "length xs < 32"
    and xs: "\<forall>x\<in>set xs. letter_ok (msg_what x) (msg_data x) \<and> msg_sized x"
  shows "phone_ok (phone_at s xs k)"
proof -
  let ?c = "phone_at s xs k"
  have "map (timeout_of ?c) (timer_list ?c) = map (\<lambda>_. TV 0 0) (timer_list ?c)"
    by (simp add: phone_at_timeout)
  then have "sorted (map (timeout_of ?c) (timer_list ?c))"
    by (simp add: map_replicate_const)
  then have "timers_inv ?c"
    using assms(2) unfolding timers_inv_def by (auto simp: phone_at_def simp del: upt_Suc)
  then have "handler_inv ?c"
    using assms by (auto simp: handler_inv_def phone_at_def MAX_MSG_QUEUE_SIZE_def msg_event_def message_event_def
        simp del: upt_Suc split: if_splits)
  moreover have "\<forall>l\<in>set (queued ?c). letter_ok (fst l) (fst (snd l))"
    using xs by (auto simp: queued_def letter_of_def phone_at_def simp del: upt_Suc)
  moreover have "wake_ok ?c" "mem_ok ?c" "cur_state ?c = Some s" "length (last_incoming_num ?c) = 128"
      "0 \<in> set (last_incoming_num ?c)" "num_ok (last_outgoing_num ?c)" "receiving [] ?c"
    using num_ok_zeros by (simp_all add: wake_ok_def mem_ok_def phone_at_def wake_event_def receiving_def del: upt_Suc)
  ultimately show ?thesis
    using assms(1) by (simp add: phone_ok_def)
qed

lemma phone_at_sel [simp]:
  "pending_list (phone_at s xs k) = [1..<Suc k]" "timer_list (phone_at s xs k) = [Suc k..<Suc (length xs)]"
  "msgs (phone_at s xs k) a = (if 0 < a \<and> a \<le> length xs then Some (xs ! (a - 1)) else None)"
  "cur_state (phone_at s xs k) = Some s" "length (queued (phone_at s xs k)) = length xs"
  "dev_write_ok (phone_at s xs k) i" "msg_queue (phone_at s xs k) = [1..<Suc (length xs)]"
  by (simp_all add: phone_at_def queued_def del: upt_Suc)



text \<open>
  Property C33.  While a call comes in, a ring that is delivered in the same turn in which
  the ring time-out has expired makes \<open>firePending\<close> follow its saved pointer to the
  time-out message, which the ring has just cancelled and freed: the turn leaves defined
  behaviour.
\<close>

theorem ring_timeout_race:
  assumes c: "phone_ok c" "cur_state c = Some 4" and p: "pending_list c = [m1, m2]" "m1 \<noteq> 0" "m2 \<noteq> 0"
    and m1: "msgs c m1 = Some x1" "msg_what x1 = UPIL_EVT_RING"
    and m2: "msgs c m2 = Some x2" "msg_what x2 = UPIL_EVT_RING_TIMEOUT"
  shows "firePending (fsm_callback my_state_table) c = None"
proof -
  have inv: "handler_inv c"
    using c(1) by (simp add: phone_ok_def)
  obtain c1 x where c1: "msgs c m1 = Some x" "evs c m1 \<noteq> None"
      "remove_from_list (Some m1) (c\<lparr>pending_list := [m2]\<rparr>) = Some c1" "handler_inv c1"
      "msg_queue c1 = remove1 m1 (msg_queue c)" "pending_list c1 = [m2]" "msgs c1 = msgs c"
      "handler.more c1 = handler.more c" "malloc_ok c1 = malloc_ok c" "wake_part c1 = wake_part c" "evs c1 = evs c"
    using deliver_ok[OF inv p(1,2)] by blast
  have d: "distinct (pending_list c)" "m1 \<notin> set (timer_list c)"
    using inv p(1) by (auto simp: handler_inv_def timers_inv_def)
  have "letter_of c1 = letter_of c"
    by (intro ext) (simp add: letter_of_def c1(7) timeout_of_evs[OF c1(11)])
  then have "set (queued c1) \<subseteq> set (queued c)"
    unfolding queued_def c1(5) set_map by (simp only: image_mono set_remove1_subset)
  then have ok1: "phone_ok c1"
    using phone_ok_fewer[OF c(1)] c1 by (simp add: fewer_def)
  have s1: "cur_state c1 = Some 4"
    using c(2) more_upil_io(6)[OF c1(8)] by simp
  obtain y w where mon: "sendto_monitor UPIL_EVT_RING None c1 = Some (c1\<lparr>sock_out := y, s_wait_response := w\<rparr>)"
    using monitor_upd[of UPIL_EVT_RING None c1] by (auto simp: monitor_text_def)
  let ?c2 = "c1\<lparr>sock_out := y, s_wait_response := w\<rparr>"
  have ok2: "phone_ok ?c2"
    using runs_sock[OF ok1] by (simp add: runs_def)
  then have "handler_inv ?c2"
    by (simp add: phone_ok_def)
  from sm_remove_message_id_full[OF this, of UPIL_EVT_RING_TIMEOUT] obtain c3 where
      c3: "sm_remove_message_id UPIL_EVT_RING_TIMEOUT ?c2 = Some c3"
        "cancelled UPIL_EVT_RING_TIMEOUT (msg_queue ?c2) ?c2 c3"
    by blast
  have "m2 \<in> set (msg_queue c1)"
    using pending_queued[OF c1(4)] c1(6) p(3) by simp
  then have "pending_list c3 = []"
    using c3(2) c1(6,7) m2 by (simp add: cancelled_def hit_def)
  moreover have ok3: "phone_ok c3"
    using runs_cancel[OF ok2, of UPIL_EVT_RING_TIMEOUT] c3(1) by (simp add: runs_def CANCELS_def)
  ultimately obtain c4 where c4: "post UPIL_EVT_RING_TIMEOUT [] 0 RING_TIMEOUT c3 = Some c4" "pending_list c4 = []"
    using runs_post0[OF ok3, of UPIL_EVT_RING_TIMEOUT RING_TIMEOUT] by (auto simp: runs_def keeps_def quiet_msgs_def)
  have "x = x1"
    using c1(1) m1(1) by simp
  have "process_msg my_state_table x1 c1 = Some (HANDLED, c4)"
    using s1 m1(2) mon c3(1) c4(1)
    by (simp add: process_msg_def cur_entry_def my_state_table_def incoming_process_def handled_def)
  then have pm: "sm_process_message my_state_table m1 (c\<lparr>pending_list := [m2]\<rparr>) = Some (0, free_msg m1 c4)"
    using m1 c1(3) by (simp add: sm_process_message_def)
  have u: "unlink m1 c = Some (c\<lparr>pending_list := [m2]\<rparr>)"
    using p d by (cases c) (simp add: unlink_def linked_def remove1_idem)
  have "m1 \<in> set (msg_queue c)"
    using pending_queued[OF inv] p by simp
  then have "msg_event c m1"
    using inv by (simp add: handler_inv_def)
  then obtain e where e: "evs c m1 = Some e" "ev_func e = CbMessage" "ev_param e = m1"
    by (auto simp: msg_event_def)
  have stop: "fire_loop cb (Some m2) (free_msg m1 c4) = None" for cb
    using c4(2) by (subst fire_loop.simps) (simp add: free_msg_def bind_eq_None_conv)
  have "firePending (fsm_callback my_state_table) c = fire_loop (fsm_callback my_state_table) (Some m2) (free_msg m1 c4)"
    using e u p(1) pm by (simp add: firePending_def, subst fire_loop.simps) (simp add: fsm_callback_def)
  then show ?thesis
    using stop by simp
qed

theorem ring_timeout_race_witness:
  "firePending (fsm_callback my_state_table)
     (phone_at 4 [\<lparr>msg_what = UPIL_EVT_RING, msg_data_size = 0, msg_data = None\<rparr>,
                  \<lparr>msg_what = UPIL_EVT_RING_TIMEOUT, msg_data_size = 0, msg_data = None\<rparr>] 2) = None"
proof (rule ring_timeout_race[where ?m1.0 = 1 and ?m2.0 = 2
      and ?x1.0 = "\<lparr>msg_what = UPIL_EVT_RING, msg_data_size = 0, msg_data = None\<rparr>"
      and ?x2.0 = "\<lparr>msg_what = UPIL_EVT_RING_TIMEOUT, msg_data_size = 0, msg_data = None\<rparr>"])
  show "phone_ok (phone_at 4 [\<lparr>msg_what = UPIL_EVT_RING, msg_data_size = 0, msg_data = None\<rparr>,
      \<lparr>msg_what = UPIL_EVT_RING_TIMEOUT, msg_data_size = 0, msg_data = None\<rparr>] 2)"
    by (rule phone_at_ok) (simp_all add: letter_ok_def msg_sized_def)
qed (simp_all add: upt_rec)

end
