(* ===== verification/Tp_Properties.thy ===== *)
theory Tp_Properties
  imports Phone_Flow
begin

text \<open>
  The properties of the telephone protocol: what is sent is what is received, however the
  reports are distributed over reads, and the reports for which the receiver leaves
  defined behaviour.
\<close>

section \<open>Reads\<close>

text \<open>One callback for each read.\<close>

fun recv_reads :: "byte list list \<Rightarrow> 'a upil_io_scheme \<Rightarrow> 'a upil_io_scheme option" where
  "recv_reads [] c = Some c"
| "recv_reads (buf # bufs) c = do { (r, c) \<leftarrow> tpp_recv_event_cb (Some buf) c; recv_reads bufs c }"

lemma recv_reads_unit:
  assumes u: "is_unit u" "u = got @ rest" and r: "rest \<noteq> []" "got = [] \<or> 2 \<le> length got"
    and c: "receiving got c"
  shows "recv_reads (reports rest) c = unit_complete u c"
  using u(2) r c
proof (induction rest arbitrary: got c rule: reports.induct)
  case (1 rest)
  let ?ch = "take 6 rest"
  let ?rest = "drop 6 rest"
  have rs: "reports rest = report_of ?ch # reports ?rest"
    using "1.prems"(2) by simp
  have ch: "?ch \<noteq> []" "length ?ch \<le> 6" "2 \<le> length (got @ ?ch)"
    using "1.prems"(1-3) u(1) by (auto simp: is_unit_def)
  let ?c = "c\<lparr>s_pdu_buf := (got @ ?ch) @ replicate (80 - length (got @ ?ch)) 0,
               s_pdu_offset := int (length (got @ ?ch))\<rparr>"
  have fin: "recv_loop b p 0 x = Some x" for b p and x :: "'a upil_io_scheme"
    by (simp add: recv_loop.simps HIDPDU_LINE_BYTES_def)
  have "u = got @ ?ch @ ?rest"
    using "1.prems"(1) by simp
  from recv_loop_report[OF u(1) this ch "1.prems"(4), of 8 "[]" 0 "[]"]
  have step: "recv_loop (report_of ?ch) 0 8 c = (if ?rest = [] then unit_complete u c else Some ?c)"
    using fin by (cases "unit_complete u c") (simp_all del: append_assoc)
  show ?case
  proof (cases "?rest = []")
    case True
    then have "reports ?rest = []"
      by simp
    then show ?thesis
      unfolding rs using step True ch by (cases "unit_complete u c") (simp_all add: tpp_recv_event_cb_def)
  next
    case False
    have "length got + length ?ch \<le> 80"
      using u(1) "1.prems"(1) by (auto simp: is_unit_def)
    then have "receiving (got @ ?ch) ?c"
      by (simp add: receiving_def)
    then have "recv_reads (reports ?rest) ?c = unit_complete u ?c"
      using "1.prems" ch False by (intro "1.IH"[of "got @ ?ch"]) auto
    moreover have "unit_complete u ?c = unit_complete u c"
      by (simp add: unit_complete_def)
    ultimately show ?thesis
      unfolding rs using step False ch by (simp add: tpp_recv_event_cb_def del: reports_Cons append_assoc)
  qed
qed

section \<open>Round trip\<close>

text \<open>
  Property C6.  What \<open>make_cmd\<close> cuts into reports, the receiver puts together: a
  command with up to 57 bytes of parameters is written as one report for every 6 bytes of
  its unit, and reading these reports decodes exactly this unit, queues its event, and
  leaves the receiver ready for the next one.
\<close>

theorem reports_roundtrip:
  assumes c: "handler_inv c" "mem_ok c" "length (queued c) < 31" "receiving [] c"
    and n: "unat n \<le> length param" "unat n \<le> 57"
    and ev: "tppdu2event (unit_of i (take (unat n) param) @ replicate (77 - unat n) 0) empty_event = Some ev"
  shows "\<exists>reply line c'. make_cmd (replicate PDU_BUF_BYTES 0) i param n = Some (reply, line)
    \<and> line = int ((unat n + 8) div 6)
    \<and> tpp_recv_event_cb (Some (take (8 * nat line) reply)) c = Some (0, c') \<and> handler_inv c' \<and> receiving [] c'
    \<and> queued c' = queued c @ [(uint (evt_id ev), payload (evt_data ev) (uint (evt_data_size ev)), due c 0)]"
proof -
  let ?u = "unit_of i (take (unat n) param)"
  let ?rs = "reports ?u"
  have len: "length ?u = unat n + 3"
    using n(1) by simp
  have mk: "make_cmd (replicate PDU_BUF_BYTES 0) i param n =
      Some (concat ?rs @ replicate (80 - 8 * length ?rs) 0, int (length ?rs))"
    using make_cmd_ok[OF n] by (simp add: Let_def del: reports_Cons)
  have "is_unit ?u"
    using n by (intro is_unit_unit_of) simp
  moreover have "tppdu2event (?u @ replicate (80 - length ?u) 0) empty_event = Some ev"
    using ev unfolding len by simp
  ultimately obtain c' where "tpp_recv_event_cb (Some (concat ?rs)) c = Some (0, c')" "handler_inv c'" "receiving [] c'"
      "queued c' = queued c @ [(uint (evt_id ev), payload (evt_data ev) (uint (evt_data_size ev)), due c 0)]"
    using recv_unit_ok[OF c] by blast
  moreover have "take (8 * nat (int (length ?rs))) (concat ?rs @ replicate (80 - 8 * length ?rs) 0) = concat ?rs"
    by (simp add: length_concat_reports del: reports_Cons)
  moreover have "length ?rs = (unat n + 8) div 6"
    using n(1) by (simp add: length_reports del: reports_Cons)
  ultimately show ?thesis
    using mk by auto
qed

theorem reports_roundtrip_witness:
  "\<exists>reply line c'. make_cmd (replicate PDU_BUF_BYTES 0) TPP_EVT_KEY_DOWN [5] 1 = Some (reply, line) \<and> line = 1
    \<and> tpp_recv_event_cb (Some (take (8 * nat line) reply)) (phone_at 2 [] 0) = Some (0, c')
    \<and> queued c' = [(UPIL_EVT_KEY_DOWN, Some [5, 0, 0], TV 0 0)]"
proof -
  let ?c = "phone_at 2 [] 0"
  have "phone_ok ?c"
    by (rule phone_at_ok) simp_all
  then have c: "handler_inv ?c" "mem_ok ?c" "length (queued ?c) < 31" "receiving [] ?c"
    by (auto simp: phone_ok_def phone_at_def receiving_def queued_def)
  let ?ev = "empty_event\<lparr>evt_id := of_int UPIL_EVT_KEY_DOWN, evt_data_size := 1, evt_data := 5 # replicate 511 0\<rparr>"
  have "tppdu2event (unit_of TPP_EVT_KEY_DOWN [5] @ replicate 76 0) empty_event = Some ?ev"
    by (simp add: tppdu2event_def unit_of_def nth_opt_def event_param_def slice_def blit_def empty_event_def MAX_EVENT_DATA_def)
  then show ?thesis
    using reports_roundtrip[OF c, of 1 "[5]" TPP_EVT_KEY_DOWN ?ev]
    by (auto simp: payload_def due_def timeradd_def phone_at_def queued_def)
qed

text \<open>
  Property C7.  It does not matter how the reports of a unit are distributed over reads:
  one read with all of them and one read for each of them have the same effect.
\<close>

theorem reads_do_not_matter:
  assumes "is_unit u" and "receiving [] c"
  shows "recv_reads (reports u) c = map_option snd (tpp_recv_event_cb (Some (concat (reports u))) c)"
proof -
  have "u \<noteq> []"
    using assms(1) by (auto simp: is_unit_def)
  then have "recv_reads (reports u) c = unit_complete u c"
      "recv_loop (concat (reports u)) 0 (int (length (concat (reports u)))) c = unit_complete u c"
    using recv_reads_unit[OF assms(1) _ _ _ assms(2)] recv_loop_unit[OF assms(1) _ _ _ assms(2), of u "[]" 0]
    by (simp_all add: length_concat_reports del: reports_Cons)
  then show ?thesis
    by (cases "unit_complete u c") (simp_all add: tpp_recv_event_cb_def del: reports_Cons)
qed

theorem reads_do_not_matter_witness:
  "recv_reads [[3, 6, 0xFF, 9, TPP_MSG_SN, 1, 2, 3], [3, 5, 4, 5, 6, 7, 8, 7]] (phone_at 2 [] 0) =
   map_option snd (tpp_recv_event_cb
     (Some [3, 6, 0xFF, 9, TPP_MSG_SN, 1, 2, 3, 3, 5, 4, 5, 6, 7, 8, 7]) (phone_at 2 [] 0))"
proof -
  have "is_unit (unit_of TPP_MSG_SN [1, 2, 3, 4, 5, 6, 7, 8])"
    by (rule is_unit_unit_of) simp
  moreover have "receiving [] (phone_at 2 [] 0)"
    by (simp add: receiving_def phone_at_def)
  moreover have "reports (unit_of TPP_MSG_SN [1, 2, 3, 4, 5, 6, 7, 8]) =
      [[3, 6, 0xFF, 9, TPP_MSG_SN, 1, 2, 3], [3, 5, 4, 5, 6, 7, 8, 7]]"
    by (simp add: unit_of_def report_of_def)
  ultimately show ?thesis
    using reads_do_not_matter[of "unit_of TPP_MSG_SN [1, 2, 3, 4, 5, 6, 7, 8]" "phone_at 2 [] 0"] by simp
qed

section \<open>Limits\<close>

text \<open>
  Property C37.  A caller number whose digits are not closed by a half byte that is no
  digit makes \<open>fsk_to_string\<close> run on through the zeros behind the unit and out of
  the buffer: the program leaves defined behaviour.
\<close>

theorem open_caller_number_undefined:
  assumes c: "receiving [] c" and ds: "\<forall>d\<in>set ds. d < 10" "length ds \<le> 140" and hdr: "length hdr = 6"
  shows "tpp_recv_event_cb (Some (concat (reports (unit_of TPP_EVT_FSK_RX (hdr @ bcd_open ds))))) c = None"
proof -
  let ?u = "unit_of TPP_EVT_FSK_RX (hdr @ bcd_open ds)"
  let ?pdu = "?u @ replicate (80 - length ?u) 0"
  have "length (bcd_open ds) = length ds div 2"
    by (induction ds rule: bcd_open.induct) auto
  then have u: "is_unit ?u"
    using ds(2) hdr by (intro is_unit_unit_of) simp
  have "?u \<noteq> []"
    by (simp add: unit_of_def)
  have "nth_opt ?pdu 1 = Some (of_nat (length (hdr @ bcd_open ds) + 1))" "nth_opt ?pdu 2 = Some TPP_EVT_FSK_RX"
    by (simp_all add: unit_of_def nth_opt_def)
  moreover have "fsk_to_string (evt_data empty_event) (drop 3 ?pdu) = None"
    using fsk_digits_open[OF ds(1)] hdr by (simp add: fsk_to_string_def unit_of_def)
  ultimately have "tppdu2event ?pdu empty_event = None"
    by (simp add: tppdu2event_def Let_def empty_event_def)
  then have "unit_complete ?u c = None"
    by (simp add: unit_complete_def Let_def)
  then show ?thesis
    using recv_loop_unit[OF u _ \<open>?u \<noteq> []\<close> _ c, of "[]" 0]
    by (simp add: tpp_recv_event_cb_def length_concat_reports del: reports_Cons)
qed

theorem open_caller_number_undefined_witness:
  "tpp_recv_event_cb (Some (concat (reports (unit_of TPP_EVT_FSK_RX (replicate 6 0 @ [0x12, 0x34]))))) (phone_at 2 [] 0) = None"
proof -
  have "receiving [] (phone_at 2 [] 0)"
    by (simp add: receiving_def phone_at_def)
  then show ?thesis
    using open_caller_number_undefined[of "phone_at 2 [] 0" "[1, 2, 3, 4]" "replicate 6 0"] by (simp del: reports_Cons)
qed

lemma ack_size:
  assumes "(b :: byte) AND 0x80 = 0x80"
  shows "128 \<le> unat b"
proof -
  have "unat ((0x80 :: byte) AND b) \<le> unat b"
    unfolding word_le_nat_alt[symmetric] by (rule word_and_le1)
  then show ?thesis
    using assms by (simp add: and.commute)
qed



end
