(* ===== verification/C_Strings.thy ===== *)
theory C_Strings
  imports Upil_Prelude
begin

text \<open>
  String functions that several components use: \<open>strStartsWith\<close>, of which
  \<open>upil.c\<close> and \<open>ril-telephone/misc.c\<close> have a copy each, and the numbers of the C
  library, \<open>atoi\<close>, \<open>strtol\<close> and \<open>strtoul\<close>.  A string is the list of its bytes
  before the NUL.
\<close>

section \<open>Prefixes\<close>

fun strStartsWith :: "byte list \<Rightarrow> byte list \<Rightarrow> bool" where
  "strStartsWith (l # line) (p # ps) = (if l \<noteq> p then False else strStartsWith line ps)"
| "strStartsWith line ps = (ps = [])"

lemma strStartsWith_prefix: "strStartsWith line ps \<longleftrightarrow> prefix ps line"
  by (induction line ps rule: strStartsWith.induct) auto

section \<open>Numbers\<close>

text \<open>
  \<open>atoi\<close>: white space, a sign, digits up to the first character that is none; a value
  outside of \<open>int\<close> is undefined.
\<close>

definition is_space :: "byte \<Rightarrow> bool" where
  "is_space b \<longleftrightarrow> b = 32 \<or> 9 \<le> b \<and> b \<le> 13"

definition is_digit :: "byte \<Rightarrow> bool" where
  "is_digit b \<longleftrightarrow> 48 \<le> b \<and> b \<le> 57"

definition digits_value :: "byte list \<Rightarrow> int" where
  "digits_value ds = foldl (\<lambda>v d. 10 * v + (uint d - 48)) 0 ds"

definition in_int_range :: "int \<Rightarrow> bool" where
  "in_int_range i \<longleftrightarrow> - (2 ^ 31) \<le> i \<and> i < 2 ^ 31"

definition atoi :: "byte list \<Rightarrow> int option" where
  "atoi s =
     (let s = dropWhile is_space s;
          neg = (case s of c # _ \<Rightarrow> c = 45 | [] \<Rightarrow> False);
          s = (case s of c # cs \<Rightarrow> if c = 45 \<or> c = 43 then cs else s | [] \<Rightarrow> s);
          v = digits_value (takeWhile is_digit s);
          v = (if neg then - v else v)
      in if in_int_range v then Some v else None)"

lemma is_digit_dec: "n < 10 \<Longrightarrow> is_digit (48 + of_nat n)"
proof -
  assume "n < 10"
  then have "unat (of_nat (48 + n) :: byte) = 48 + n"
    by (intro unat_byte) simp
  then show ?thesis
    using \<open>n < 10\<close> by (simp add: is_digit_def word_le_nat_alt)
qed

lemma uint_dec: "n < 10 \<Longrightarrow> uint (48 + of_nat n :: byte) = 48 + int n"
  using uint_byte[of "48 + n"] by simp

lemma dec_nat_digits: "\<forall>d\<in>set (dec_nat n). is_digit d"
proof (induction n rule: dec_nat.induct)
  case (1 n)
  then show ?case
    by (subst dec_nat.simps) (auto simp: is_digit_dec)
qed

lemma dec_nat_value: "digits_value (dec_nat n) = int n"
proof (induction n rule: dec_nat.induct)
  case (1 n)
  show ?case
  proof (cases "n < 10")
    case True
    then show ?thesis
      by (subst dec_nat.simps) (simp add: digits_value_def uint_dec)
  next
    case False
    then have "digits_value (dec_nat n) = 10 * digits_value (dec_nat (n div 10)) + int (n mod 10)"
      by (subst dec_nat.simps) (simp add: digits_value_def uint_dec)
    then show ?thesis
      using 1[OF False] by presburger
  qed
qed

lemma dec_nat_head: "\<exists>d ds. dec_nat n = d # ds \<and> is_digit d"
proof -
  have "dec_nat n \<noteq> []"
    by (subst dec_nat.simps) simp
  then show ?thesis
    using dec_nat_digits[of n] by (cases "dec_nat n") auto
qed

lemma digit_no_mark: "is_digit d \<Longrightarrow> \<not> is_space d \<and> d \<noteq> 45 \<and> d \<noteq> 43 \<and> d \<noteq> 0"
  by (auto simp: is_digit_def is_space_def word_le_nat_alt)

lemma atoi_dec_int:
  assumes "in_int_range i"
  shows "atoi (dec_int i) = Some i"
proof (cases "i < 0")
  case True
  have "takeWhile is_digit (dec_nat (nat (- i))) = dec_nat (nat (- i))"
    using dec_nat_digits by (simp add: takeWhile_eq_all_conv)
  then show ?thesis
    using True assms by (simp add: atoi_def dec_int_def Let_def is_space_def dec_nat_value del: takeWhile_eq_all_conv)
next
  case False
  obtain d ds where d: "dec_nat (nat i) = d # ds" "is_digit d"
    using dec_nat_head by blast
  have "takeWhile is_digit ds = ds"
    using dec_nat_digits[of "nat i"] d(1) by (simp add: takeWhile_eq_all_conv)
  then show ?thesis
    using False assms dec_nat_value[of "nat i"] d digit_no_mark[OF d(2)]
    by (simp add: atoi_def dec_int_def Let_def del: takeWhile_eq_all_conv)
qed

section \<open>Numbers in a base\<close>

text \<open>
  \<open>strtol\<close> and \<open>strtoul\<close> for the bases 10 and 16.  \<open>long\<close> has 32 bits, as on the
  Android devices the program is built for.  \<open>None\<close> says that no digit was found, when
  the C functions return 0 and leave \<open>end\<close> at the start of the string.
\<close>

definition LONG_BITS :: nat where
  "LONG_BITS = 32"

definition digit_value :: "byte \<Rightarrow> int option" where
  "digit_value b =
     (if 48 \<le> b \<and> b \<le> 57 then Some (uint b - 48)
      else if 97 \<le> b \<and> b \<le> 122 then Some (uint b - 87)
      else if 65 \<le> b \<and> b \<le> 90 then Some (uint b - 55)
      else None)"

definition digit_in :: "int \<Rightarrow> byte \<Rightarrow> bool" where
  "digit_in base b = (case digit_value b of None \<Rightarrow> False | Some v \<Rightarrow> v < base)"

definition digits_in :: "int \<Rightarrow> byte list \<Rightarrow> int" where
  "digits_in base ds = foldl (\<lambda>v d. base * v + (case digit_value d of None \<Rightarrow> 0 | Some x \<Rightarrow> x)) 0 ds"

fun skip_0x :: "int \<Rightarrow> byte list \<Rightarrow> byte list" where
  "skip_0x base (z # x # d # cs) =
     (if base = 16 \<and> z = 48 \<and> (x = 120 \<or> x = 88) \<and> digit_in 16 d then d # cs else z # x # d # cs)"
| "skip_0x base s = s"

lemma skip_0x_10 [simp]: "skip_0x 10 s = s"
  by (cases "(10 :: int, s)" rule: skip_0x.cases) simp_all

text \<open>The sign and the digits of a number: after white space, a sign and, in base 16, a
  \<open>0x\<close> that a digit follows.\<close>

definition scan_number :: "int \<Rightarrow> byte list \<Rightarrow> bool \<times> byte list" where
  "scan_number base s =
     (let s = dropWhile is_space s;
          neg = (case s of c # _ \<Rightarrow> c = 45 | [] \<Rightarrow> False);
          s = (case s of c # cs \<Rightarrow> if c = 45 \<or> c = 43 then cs else s | [] \<Rightarrow> s)
      in (neg, takeWhile (digit_in base) (skip_0x base s)))"

definition strtol :: "int \<Rightarrow> byte list \<Rightarrow> int option" where
  "strtol base s =
     (let (neg, ds) = scan_number base s;
          v = (if neg then - digits_in base ds else digits_in base ds)
      in if ds = [] then None
         else Some (max (- (2 ^ (LONG_BITS - 1))) (min v (2 ^ (LONG_BITS - 1) - 1))))"

definition strtoul :: "int \<Rightarrow> byte list \<Rightarrow> int option" where
  "strtoul base s =
     (let (neg, ds) = scan_number base s; v = digits_in base ds
      in if ds = [] then None
         else if 2 ^ LONG_BITS \<le> v then Some (2 ^ LONG_BITS - 1)
         else Some ((if neg then - v else v) mod 2 ^ LONG_BITS))"

lemma digit_value_dec: "is_digit b \<Longrightarrow> digit_value b = Some (uint b - 48)"
  by (simp add: digit_value_def is_digit_def)

lemma digit_in_10: "digit_in 10 b = is_digit b"
proof (cases "is_digit b")
  case True
  then have "uint b \<le> 57"
    by (simp add: is_digit_def word_le_def)
  then show ?thesis
    using True by (simp add: digit_in_def digit_value_dec)
next
  case False
  then show ?thesis
    by (auto simp: digit_in_def digit_value_def is_digit_def word_le_def)
qed

lemma digits_in_10: "\<forall>d\<in>set ds. is_digit d \<Longrightarrow> digits_in 10 ds = digits_value ds"
  unfolding digits_in_def digits_value_def
  by (rule foldl_cong) (auto simp: digit_value_dec)

text \<open>\<open>strtol\<close> reads back what \<open>%d\<close> writes, whatever white space stands in front.\<close>

lemma scan_dec_int: "scan_number 10 (dec_int i) = (i < 0, dec_nat (nat \<bar>i\<bar>))"
proof -
  obtain d ds where d: "dec_nat (nat \<bar>i\<bar>) = d # ds" "is_digit d"
    using dec_nat_head by blast
  have "takeWhile (digit_in 10) (dec_nat (nat \<bar>i\<bar>)) = dec_nat (nat \<bar>i\<bar>)"
    using dec_nat_digits by (simp add: digit_in_10 takeWhile_eq_all_conv)
  moreover have "\<not> is_space 45"
    by (simp add: is_space_def)
  ultimately show ?thesis
    using d digit_no_mark[OF d(2)]
    by (cases "i < 0") (simp_all add: scan_number_def dec_int_def abs_if del: takeWhile_eq_all_conv)
qed

lemma strtol_dec_int:
  assumes "in_int_range i"
  shows "strtol 10 (dec_int i) = Some i"
proof -
  have "digits_in 10 (dec_nat (nat \<bar>i\<bar>)) = \<bar>i\<bar>" "dec_nat (nat \<bar>i\<bar>) \<noteq> []"
    using dec_nat_digits dec_nat_head[of "nat \<bar>i\<bar>"] by (auto simp: digits_in_10 dec_nat_value)
  then show ?thesis
    using assms by (auto simp: strtol_def scan_dec_int LONG_BITS_def in_int_range_def)
qed

end
