(* ===== verification/Sockets.thy ===== *)
theory Sockets
  imports Phone_Flow C_Strings
begin

text \<open>
  The three sockets of the program and its main event loop: the control socket
  (\<open>upil_command.c\<close>), the monitor socket (\<open>upil_monitor.c\<close>), the socket of the
  RIL library (\<open>upil_ril.c\<close>), and the set-up of the program (\<open>upil.c\<close>).

  The main loop has its own context and thread, beside the loop of the state machine; the
  record \<open>upil\<close> is that context with the state machine and the data of the sockets in
  \<open>fsm_ref\<close>.  A callback is one step: the interleavings of the two threads inside a
  callback are not modelled.  What the system calls return is an argument of the
  callbacks.
\<close>

section \<open>Commands of the control socket\<close>

definition UPIL_MAX_MSG_LEN :: nat where
  "UPIL_MAX_MSG_LEN = 512"

abbreviation (input) REPLY_SUCCESS :: "byte list" where
  "REPLY_SUCCESS \<equiv> str ''[SUCCESS]''"

abbreviation (input) REPLY_FAILURE :: "byte list" where
  "REPLY_FAILURE \<equiv> str ''[FAILURE]''"

abbreviation (input) UPIL_CTRL_GET_VER :: "byte list" where
  "UPIL_CTRL_GET_VER \<equiv> str ''GET_VERSION''"

abbreviation (input) UPIL_CTRL_DIAL :: "byte list" where
  "UPIL_CTRL_DIAL \<equiv> str ''DIAL''"

abbreviation (input) UPIL_CTRL_HANGUP :: "byte list" where
  "UPIL_CTRL_HANGUP \<equiv> str ''HANGUP''"

abbreviation (input) UPIL_CTRL_GET_STATE :: "byte list" where
  "UPIL_CTRL_GET_STATE \<equiv> str ''GET_CURR_STATE''"

text \<open>The header defines the length of \<open>GET_CURR_STATE\<close> as that of \<open>GET_VERSION\<close>.\<close>

definition UPIL_CTRL_GET_STATE_LEN :: nat where
  "UPIL_CTRL_GET_STATE_LEN = length UPIL_CTRL_GET_VER"

definition cmd_process_reply :: "int \<Rightarrow> int \<Rightarrow> byte list option \<Rightarrow> phone \<Rightarrow> phone" where
  "cmd_process_reply fd result reply c =
     (let reply_buf = take (UPIL_MAX_MSG_LEN - 1)
            ((if result \<noteq> 0 then REPLY_FAILURE else REPLY_SUCCESS) @ (case reply of None \<Rightarrow> [] | Some r \<Rightarrow> r))
      in sock_send fd reply_buf c)"

text \<open>\<open>buffer\<close> is the array of 512 bytes, zero behind what was received.\<close>

definition cmd_processCommandBuffer :: "int \<Rightarrow> byte list \<Rightarrow> phone \<Rightarrow> phone option" where
  "cmd_processCommandBuffer fd buffer c =
     (if strncmp_eq (c_string buffer) UPIL_CTRL_GET_VER (length UPIL_CTRL_GET_VER)
      then (let (result, reply) = upil_sm_get_version c in Some (cmd_process_reply fd result (Some reply) c))
      else if strncmp_eq (c_string buffer) UPIL_CTRL_DIAL (length UPIL_CTRL_DIAL)
      then do {
        let dial_num = drop (length UPIL_CTRL_DIAL) buffer;
        d \<leftarrow> nth_opt dial_num 0;
        (result, c) \<leftarrow> upil_sm_start_dail (if d \<noteq> 0 then Some dial_num else None) c;
        Some (cmd_process_reply fd result None c) }
      else if strncmp_eq (c_string buffer) UPIL_CTRL_HANGUP (length UPIL_CTRL_HANGUP)
      then do { (result, c) \<leftarrow> upil_sm_hangup c; Some (cmd_process_reply fd result None c) }
      else if strncmp_eq (c_string buffer) UPIL_CTRL_GET_STATE UPIL_CTRL_GET_STATE_LEN
      then do { s \<leftarrow> upil_sm_get_current_state c; Some (cmd_process_reply fd 0 (Some (dec_int s)) c) }
      else Some c)"

section \<open>Commands of the RIL socket\<close>

definition MAX_AT_COMMAND :: nat where
  "MAX_AT_COMMAND = 8 * 1024"

text \<open>
  \<open>dial_num[strlen(dial_num)-1] = '\0'\<close>: the last character of the number is cut off; with
  no number the index wraps around to the byte in front of it.
\<close>

definition ril_cut_number :: "byte list \<Rightarrow> byte list" where
  "ril_cut_number buffer =
     (let s = c_string (drop 3 buffer) in buffer[(if s = [] then 2 else 3 + length s - 1) := 0])"

text \<open>The line of a call; \<open>None\<close> where the number is not closed inside its array.\<close>

definition clcc_line :: "int \<Rightarrow> int \<Rightarrow> byte list \<Rightarrow> byte list option" where
  "clcc_line dir state num =
     (if 0 \<in> set num
      then Some (str ''+CLCC: 1,'' @ dec_int dir @ str '','' @ dec_int state @ str '',0,0,'' @ [34]
             @ c_string num @ [34] @ str '',129'' @ [10])
      else None)"

definition ril_current_calls :: "phone \<Rightarrow> (byte list option \<times> phone) option" where
  "ril_current_calls c = do {
     s \<leftarrow> upil_sm_get_current_state c;
     if s > UPIL_SM_IDLE
     then do {
       let (c, state) = (if s = UPIL_SM_DIALING then (c\<lparr>s_call_dir := 0\<rparr>, 2)
                         else if s = UPIL_SM_INCOMING then (c\<lparr>s_call_dir := 1\<rparr>, 4)
                         else (c, 0));
       l \<leftarrow> clcc_line (s_call_dir c) state (if s_call_dir c \<noteq> 0 then last_incoming_num c else last_outgoing_num c);
       Some (Some l, c) }
     else Some (None, c) }"

definition ril_processCommandBuffer :: "int \<Rightarrow> byte list \<Rightarrow> phone \<Rightarrow> phone option" where
  "ril_processCommandBuffer fd buffer c =
     (let line = c_string buffer in
      if line = [13] then Some c
      else do {
        result \<leftarrow> (if strStartsWith line (str ''ATE0'')
                   then do { s \<leftarrow> upil_sm_get_current_state c; Some (if s < UPIL_SM_IDLE then -1 else 0) }
                   else Some (0 :: int));
        if strStartsWith line (str ''ATD'')
        then do {
          let dial_num = drop 3 (ril_cut_number buffer);
          d \<leftarrow> nth_opt dial_num 0;
          (result, c) \<leftarrow> upil_sm_start_dail (if d \<noteq> 0 then Some dial_num else None) c;
          Some (if result = 0 then ril_process_reply fd 1 None (c\<lparr>s_wait_response := 1\<rparr>)
                else ril_process_reply fd result None c) }
        else if strStartsWith line (str ''AT+CHLD='')
        then do {
          (result, c) \<leftarrow> upil_sm_hangup c;
          Some (if result = 0 then ril_process_reply fd 1 None (c\<lparr>s_wait_response := 1\<rparr>)
                else ril_process_reply fd result None c) }
        else if strStartsWith line (str ''ATA'')
        then do {
          (result, c) \<leftarrow> upil_sm_start_dail None c;
          Some (ril_process_reply fd result None c) }
        else if strStartsWith line (str ''AT+CLCC'')
        then do {
          (reply, c) \<leftarrow> ril_current_calls c;
          Some (ril_process_reply fd result reply c) }
        else Some (ril_process_reply fd result None c) })"

section \<open>The main loop\<close>

text \<open>\<open>g_upil_s.fsm\<close> is a pointer; the machine behind it is the pointer's argument.\<close>

datatype fsm_ptr = FSM (machine: phone)

record upil = uew_context +
  fsm_ref :: fsm_ptr
  device_fd :: int
  closed :: "int list"

abbreviation fsm_of :: "upil \<Rightarrow> phone" where
  "fsm_of c \<equiv> machine (fsm_ref c)"

abbreviation with_fsm :: "phone \<Rightarrow> upil \<Rightarrow> upil" where
  "with_fsm p c \<equiv> c\<lparr>fsm_ref := FSM p\<rparr>"

text \<open>
  The system calls of a callback, for the descriptor they are called with: what
  \<open>accept\<close> returns, and what \<open>recv\<close> or \<open>read\<close> returns (\<open>None\<close> a failure,
  \<open>Some []\<close> the end of the stream).
\<close>

record world =
  accepted :: "int \<Rightarrow> int"
  received :: "int \<Rightarrow> byte list option"

text \<open>The addresses of the static event structures.\<close>

abbreviation (input) CMD_LISTEN :: addr where "CMD_LISTEN \<equiv> 1"
abbreviation (input) CMD_COMMANDS :: addr where "CMD_COMMANDS \<equiv> 2"
abbreviation (input) MON_LISTEN :: addr where "MON_LISTEN \<equiv> 3"
abbreviation (input) MON_MONITOR :: addr where "MON_MONITOR \<equiv> 4"
abbreviation (input) RIL_LISTEN :: addr where "RIL_LISTEN \<equiv> 5"
abbreviation (input) RIL_COMMANDS :: addr where "RIL_COMMANDS \<equiv> 6"
abbreviation (input) DEVICE :: addr where "DEVICE \<equiv> 7"

text \<open>\<open>close\<close>, the end of the client's event, and listening again: the same in all three.\<close>

definition hang_up_client :: "int \<Rightarrow> addr \<Rightarrow> addr \<Rightarrow> upil \<Rightarrow> upil option" where
  "hang_up_client fd client listen c = do {
     let c = c\<lparr>closed := closed c @ [fd]\<rparr>;
     c \<leftarrow> uew_event_del client False c;
     uew_event_add_wakeup listen c }"

text \<open>The buffer of a command: the bytes received, at most one less than its size, and zeros.\<close>

definition command_buffer :: "nat \<Rightarrow> byte list \<Rightarrow> byte list" where
  "command_buffer n bs = take (n - 1) bs @ replicate (n - length (take (n - 1) bs)) 0"

definition cmd_processCommandsCallback :: "world \<Rightarrow> int \<Rightarrow> upil \<Rightarrow> (int \<times> upil) option" where
  "cmd_processCommandsCallback w fd c = do {
     c \<leftarrow> (case received w fd of
            Some (b # bs) \<Rightarrow> do {
              p \<leftarrow> cmd_processCommandBuffer fd (command_buffer UPIL_MAX_MSG_LEN (b # bs)) (fsm_of c);
              Some (with_fsm p c) }
          | _ \<Rightarrow> hang_up_client fd CMD_COMMANDS CMD_LISTEN c);
     Some (0, c) }"

definition cmd_listenCallback :: "world \<Rightarrow> int \<Rightarrow> upil \<Rightarrow> (int \<times> upil) option" where
  "cmd_listenCallback w fd c =
     (let fd_cmd = accepted w fd in
      if fd_cmd < 0 then do { c \<leftarrow> uew_event_add_wakeup CMD_LISTEN c; Some (-1, c) }
      else do {
        c \<leftarrow> uew_event_set CMD_COMMANDS fd_cmd 1 CbCmdCommands 0 c;
        c \<leftarrow> uew_event_add_wakeup CMD_COMMANDS c;
        Some (0, c) })"

definition event_monitor_cb :: "world \<Rightarrow> int \<Rightarrow> upil \<Rightarrow> (int \<times> upil) option" where
  "event_monitor_cb w fd c = do {
     c \<leftarrow> (case received w fd of
            Some (b # bs) \<Rightarrow> Some c
          | _ \<Rightarrow> hang_up_client fd MON_MONITOR MON_LISTEN c);
     Some (0, c) }"

definition mon_listenCallback :: "world \<Rightarrow> int \<Rightarrow> upil \<Rightarrow> (int \<times> upil) option" where
  "mon_listenCallback w fd c = do {
     let c = with_fsm ((fsm_of c)\<lparr>s_fdMonitor := accepted w fd\<rparr>) c;
     if accepted w fd < 0 then do { c \<leftarrow> uew_event_add_wakeup MON_LISTEN c; Some (-1, c) }
     else do {
       c \<leftarrow> uew_event_set MON_MONITOR (accepted w fd) 1 CbMonMonitor 0 c;
       c \<leftarrow> uew_event_add_wakeup MON_MONITOR c;
       Some (0, c) } }"

definition ril_processCommandsCallback :: "world \<Rightarrow> int \<Rightarrow> upil \<Rightarrow> (int \<times> upil) option" where
  "ril_processCommandsCallback w fd c = do {
     c \<leftarrow> (case received w fd of
            Some (b # bs) \<Rightarrow> do {
              p \<leftarrow> ril_processCommandBuffer fd (command_buffer MAX_AT_COMMAND (b # bs)) (fsm_of c);
              Some (with_fsm p c) }
          | _ \<Rightarrow> hang_up_client fd RIL_COMMANDS RIL_LISTEN c);
     Some (0, c) }"

definition ril_listenCallback :: "world \<Rightarrow> int \<Rightarrow> upil \<Rightarrow> (int \<times> upil) option" where
  "ril_listenCallback w fd c =
     (let fd_cmd = accepted w fd in
      if fd_cmd < 0 then do { c \<leftarrow> uew_event_add_wakeup RIL_LISTEN c; Some (-1, c) }
      else do {
        c \<leftarrow> uew_event_set RIL_COMMANDS fd_cmd 1 CbRilCommands 0 c;
        c \<leftarrow> uew_event_add_wakeup RIL_COMMANDS c;
        Some (0, with_fsm ((fsm_of c)\<lparr>s_fd_ril := fd_cmd\<rparr>) c) })"

definition device_cb :: "world \<Rightarrow> int \<Rightarrow> upil \<Rightarrow> (int \<times> upil) option" where
  "device_cb w fd c = do {
     (ret, p) \<leftarrow> tpp_recv_event_cb (map_option (take UPIL_MAX_MSG_LEN) (received w fd)) (fsm_of c);
     Some (ret, with_fsm p c) }"

text \<open>\<open>ev->func(ev->fd, 0, ev->param)\<close> in the main loop; a NULL function is undefined.\<close>

definition main_callback :: "world \<Rightarrow> upil callback" where
  "main_callback w e c =
     (case ev_func e of
        CbWakeup \<Rightarrow> Some (processWakeupCallback c)
      | CbDevice \<Rightarrow> device_cb w (ev_fd e) c
      | CbCmdListen \<Rightarrow> cmd_listenCallback w (ev_fd e) c
      | CbCmdCommands \<Rightarrow> cmd_processCommandsCallback w (ev_fd e) c
      | CbMonListen \<Rightarrow> mon_listenCallback w (ev_fd e) c
      | CbMonMonitor \<Rightarrow> event_monitor_cb w (ev_fd e) c
      | CbRilListen \<Rightarrow> ril_listenCallback w (ev_fd e) c
      | CbRilCommands \<Rightarrow> ril_processCommandsCallback w (ev_fd e) c
      | _ \<Rightarrow> None)"

section \<open>Set-up\<close>

text \<open>\<open>fd\<close> is what \<open>socket_local_server\<close> returns.\<close>

definition setup_cmd_processor :: "int \<Rightarrow> upil \<Rightarrow> (int \<times> upil) option" where
  "setup_cmd_processor fd c =
     (if fd < 0 then Some (-1, c)
      else do {
        c \<leftarrow> uew_event_set CMD_LISTEN fd 0 CbCmdListen 0 c;
        c \<leftarrow> uew_event_add_wakeup CMD_LISTEN c;
        Some (0, c) })"

definition setup_event_monitor :: "int \<Rightarrow> upil \<Rightarrow> (int \<times> upil) option" where
  "setup_event_monitor fd c =
     (if fd < 0 then Some (-1, c)
      else do {
        c \<leftarrow> uew_event_set MON_LISTEN fd 0 CbMonListen 0 c;
        c \<leftarrow> uew_event_add_wakeup MON_LISTEN c;
        Some (0, c) })"

definition upil_ril_setup :: "int \<Rightarrow> upil \<Rightarrow> (int \<times> upil) option" where
  "upil_ril_setup fd c =
     (if fd < 0 then Some (-1, c)
      else do {
        c \<leftarrow> uew_event_set RIL_LISTEN fd 0 CbRilListen 0 c;
        c \<leftarrow> uew_event_add_wakeup RIL_LISTEN c;
        Some (0, c) })"

text \<open>\<open>fd\<close> is what \<open>open\<close> returns for the device.\<close>

definition setup_device :: "int \<Rightarrow> upil \<Rightarrow> (int \<times> upil) option" where
  "setup_device fd c =
     (if fd < 0 then Some (-1, c)
      else do {
        let c = c\<lparr>device_fd := fd\<rparr>;
        c \<leftarrow> uew_event_set DEVICE fd 1 CbDevice DEVICE c;
        c \<leftarrow> uew_event_add_wakeup DEVICE c;
        (_, p) \<leftarrow> upil_sm_usb_attach (fsm_of c);
        Some (0, with_fsm p c) })"

text \<open>
  \<open>main\<close> from the state machine on, which \<open>upil_sm_start\<close> gives, up to the endless
  sleep; \<open>cfd\<close>, \<open>mfd\<close>, \<open>dfd\<close> and \<open>rfd\<close> are the descriptors of the control
  socket, the monitor socket, the device and the RIL socket.  \<open>Some None\<close> is
  \<open>exit(-1)\<close>.
\<close>

definition main_setup ::
    "int \<Rightarrow> (int \<times> int) option \<Rightarrow> int \<Rightarrow> int \<Rightarrow> int \<Rightarrow> int \<Rightarrow> upil \<Rightarrow> upil option option" where
  "main_setup created filedes cfd mfd dfd rfd c = do {
     (ret, c) \<leftarrow> uew_startEventLoop created filedes c;
     if ret \<noteq> 0 then Some None
     else do {
       (_, c) \<leftarrow> setup_cmd_processor cfd c;
       (_, c) \<leftarrow> setup_event_monitor mfd c;
       (ret, c) \<leftarrow> setup_device dfd c;
       if ret \<noteq> 0 then Some None
       else do {
         (_, c) \<leftarrow> upil_ril_setup rfd c;
         Some (Some c) } } }"

section \<open>The callbacks of the main loop are quiet\<close>

text \<open>Watching and unwatching touch neither the timers nor the pending events.\<close>

definition same_lists :: "'a upile_context_scheme \<Rightarrow> 'a upile_context_scheme \<Rightarrow> bool" where
  "same_lists c c' \<longleftrightarrow> timer_list c' = timer_list c \<and> pending_list c' = pending_list c"

lemma same_lists_trans: "same_lists c c1 \<Longrightarrow> same_lists c1 c2 \<Longrightarrow> same_lists c c2"
  by (simp add: same_lists_def)

lemma same_lists_event_add: "upil_event_add ev c = Some c' \<Longrightarrow> same_lists c c'"
  unfolding upil_event_add_def same_lists_def
  by (cases "first_free (watch_table c)"; cases "evs c ev") (auto split: if_splits)

lemma same_lists_add: "uew_event_add_wakeup ev c = Some c' \<Longrightarrow> same_lists c c'"
  using same_lists_event_add[of ev c]
  by (cases "upil_event_add ev c") (auto simp: uew_event_add_wakeup_def triggerEvLoop_def same_lists_def)

lemma same_lists_set: "uew_event_set ev d pers f p c = Some c' \<Longrightarrow> same_lists c c'"
  by (auto simp: uew_event_set_def upil_event_set_def same_lists_def split: if_splits)

lemma same_lists_removeWatch: "removeWatch ev i c = Some c' \<Longrightarrow> same_lists c c'"
  unfolding removeWatch_def same_lists_def
  by (cases "evs c ev") (auto simp: Let_def bind_eq_Some split: if_splits)

lemma same_lists_del: "uew_event_del ev False c = Some c' \<Longrightarrow> same_lists c c'"
  unfolding uew_event_del_def upil_event_del_def
  by (cases "evs c ev") (auto split: if_splits dest: same_lists_removeWatch simp: same_lists_def)

lemma same_lists_upd [simp]:
  "same_lists (c\<lparr>fsm_ref := p\<rparr>) c' = same_lists c c'" "same_lists c (c'\<lparr>fsm_ref := p\<rparr>) = same_lists c c'"
  "same_lists (c\<lparr>closed := l\<rparr>) c' = same_lists c c'" "same_lists c c"
  by (simp_all add: same_lists_def)

lemma same_lists_hang_up: "hang_up_client fd k l c = Some c' \<Longrightarrow> same_lists c c'"
  by (auto simp: hang_up_client_def bind_eq_Some dest!: same_lists_del same_lists_add
      intro: same_lists_trans)

lemma main_callback_lists: "main_callback w e c = Some (ret, c') \<Longrightarrow> same_lists c c'"
  by (cases "ev_func e")
    (auto simp: main_callback_def processWakeupCallback_def device_cb_def cmd_listenCallback_def
      cmd_processCommandsCallback_def mon_listenCallback_def event_monitor_cb_def ril_listenCallback_def
      ril_processCommandsCallback_def same_lists_def Let_def bind_eq_Some split: if_splits option.splits list.splits
      dest!: same_lists_add[unfolded same_lists_def] same_lists_set[unfolded same_lists_def]
        same_lists_hang_up[unfolded same_lists_def])

interpretation main_loop: quiet_callbacks "main_callback w" for w
  by unfold_locales (auto dest: main_callback_lists simp: same_lists_def)

end
