(* ===== verification/Socket_Properties.thy ===== *)
theory Socket_Properties
  imports Sockets
begin

text \<open>
  The properties of the sockets: the clients' connections in the event loop, the commands
  of the control socket and of the RIL socket, and their errors.
\<close>

section \<open>Connections\<close>

lemma watch_inv_upd [simp]:
  "watch_inv (c\<lparr>fsm_ref := p\<rparr>) = watch_inv c" "watch_inv (c\<lparr>closed := l\<rparr>) = watch_inv c"
  by (simp_all add: watch_inv_def watched_def)

lemma watch_inv_trigger [simp]: "watch_inv (triggerEvLoop c) = watch_inv c"
  by (simp add: triggerEvLoop_def watch_inv_def watched_def)

lemma trigger_sel [simp]:
  "readFds (triggerEvLoop c) = readFds c" "watch_table (triggerEvLoop c) = watch_table c"
  "evs (triggerEvLoop c) = evs c" "fsm_ref (triggerEvLoop d) = fsm_ref d" "closed (triggerEvLoop d) = closed d"
  by (simp_all add: triggerEvLoop_def)

lemma watch_inv_evs_upd:
  assumes "watch_inv c" and "Some k \<notin> set (watch_table c)"
  shows "watch_inv (c\<lparr>evs := (evs c)(k \<mapsto> e)\<rparr>)"
proof -
  have ne: "watch_table c ! i \<noteq> Some k" if "i < length (watch_table c)" for i
    using assms(2) nth_mem[OF that] by metis
  then have w: "watched (c\<lparr>evs := (evs c)(k \<mapsto> e)\<rparr>) i x = watched c i x" for i x
    by (auto simp: watched_def)
  have "\<forall>i<length (watch_table c). \<forall>a. watch_table c ! i = Some a \<longrightarrow> (\<exists>x. ((evs c)(k \<mapsto> e)) a = Some x)"
    using assms(1) by (auto simp: watch_inv_def)
  then show ?thesis
    using assms(1) unfolding watch_inv_def w by simp
qed

text \<open>What an added and a deleted event leave in the table.\<close>

lemma upil_event_add_table:
  assumes "upil_event_add ev c = Some c'" and "None \<in> set (watch_table c)" and "evs c ev = Some e"
  shows "\<exists>i. i < length (watch_table c) \<and> watch_table c' = (watch_table c)[i := Some ev]
    \<and> evs c' = (evs c)(ev \<mapsto> e\<lparr>ev_index := int i\<rparr>)"
proof -
  obtain i where i: "first_free (watch_table c) = Some i"
    using assms(2) first_free_None[of "watch_table c"] by auto
  then show ?thesis
    using assms first_free_Some[OF i] by (intro exI[of _ i]) (auto simp: upil_event_add_def split: if_splits)
qed

lemma upil_event_add_rest:
  fixes c :: upil
  assumes "upil_event_add ev c = Some c'"
  shows "fsm_ref c' = fsm_ref c \<and> closed c' = closed c"
  using assms unfolding upil_event_add_def
  by (cases "first_free (watch_table c)"; cases "evs c ev") (auto split: if_splits)

lemma connect_client:
  fixes c :: upil
  assumes inv: "watch_inv c" and k: "\<not> linked k c" "Some k \<notin> set (watch_table c)"
    and fd: "fd_ok fd" "fd \<notin> readFds c" and free: "None \<in> set (watch_table c)"
  shows "\<exists>c0 c1 e. uew_event_set k fd 1 f 0 c = Some c0 \<and> uew_event_add_wakeup k c0 = Some c1 \<and> watch_inv c1
    \<and> readFds c1 = insert fd (readFds c) \<and> Some k \<in> set (watch_table c1)
    \<and> set (watch_table c1) \<subseteq> insert (Some k) (set (watch_table c))
    \<and> evs c1 k = Some e \<and> ev_fd e = fd \<and> (\<forall>a. a \<noteq> k \<longrightarrow> evs c1 a = evs c a)
    \<and> fsm_ref c1 = fsm_ref c \<and> closed c1 = closed c"
proof -
  let ?e = "\<lparr>ev_fd = fd, ev_index = -1, ev_persist = 1, ev_timeout = TV 0 0, ev_func = f, ev_param = 0\<rparr>"
  let ?c0 = "c\<lparr>evs := (evs c)(k \<mapsto> ?e)\<rparr>"
  have s: "uew_event_set k fd 1 f 0 c = Some ?c0"
    using k(1) by (simp add: uew_event_set_def upil_event_set_def)
  obtain c1 where c1: "upil_event_add k ?c0 = Some c1" "watch_inv c1" "readFds c1 = insert fd (readFds c)"
      "Some k \<in> set (watch_table c1)"
    using upil_event_add_inv[OF watch_inv_evs_upd[OF inv k(2)], of ?e k ?e] fd k(2) free by auto
  obtain i where i: "watch_table c1 = (watch_table c)[i := Some k]" "evs c1 = (evs ?c0)(k \<mapsto> ?e\<lparr>ev_index := int i\<rparr>)"
    using upil_event_add_table[OF c1(1), of ?e] free by auto
  have "set (watch_table c1) \<subseteq> insert (Some k) (set (watch_table c))"
    unfolding i(1) by (rule set_update_subset_insert)
  moreover have "uew_event_add_wakeup k ?c0 = Some (triggerEvLoop c1)"
    using c1(1) by (simp add: uew_event_add_wakeup_def)
  ultimately show ?thesis
    using s c1 i upil_event_add_rest[OF c1(1)] by (intro exI[of _ ?c0] exI[of _ "triggerEvLoop c1"]) auto
qed

lemma removeWatch_table:
  assumes "removeWatch ev i c = Some c'" and "evs c ev = Some e"
  shows "watch_table c' = (watch_table c)[i := None] \<and> evs c' = (evs c)(ev \<mapsto> e\<lparr>ev_index := -1\<rparr>)"
  using assms by (auto simp: removeWatch_def Let_def bind_eq_Some split: if_splits)

lemma removeWatch_rest:
  fixes c :: upil
  assumes "removeWatch ev i c = Some c'"
  shows "fsm_ref c' = fsm_ref c \<and> closed c' = closed c"
  using assms unfolding removeWatch_def by (cases "evs c ev") (auto simp: Let_def bind_eq_Some split: if_splits)

lemma disconnect_client:
  fixes c :: upil
  assumes inv: "watch_inv c" and k: "Some k \<in> set (watch_table c)" "evs c k = Some e" "ev_fd e = fd"
    and l: "evs c l = Some el" "fd_ok (ev_fd el)" "ev_fd el \<notin> readFds c" "Some l \<notin> set (watch_table c)" "l \<noteq> k"
  shows "\<exists>c2. hang_up_client fd k l c = Some c2 \<and> watch_inv c2
    \<and> readFds c2 = insert (ev_fd el) (readFds c - {fd}) \<and> Some l \<in> set (watch_table c2) \<and> Some k \<notin> set (watch_table c2)
    \<and> closed c2 = closed c @ [fd] \<and> fsm_ref c2 = fsm_ref c"
proof -
  let ?c = "c\<lparr>closed := closed c @ [fd]\<rparr>"
  obtain i where i: "i < length (watch_table c)" "watch_table c ! i = Some k"
    using k(1) by (auto simp: in_set_conv_nth)
  have w: "watched ?c i e"
    using i k(2) by (simp add: watched_def)
  have idx: "ev_index e = int i" "i < MAX_FD_EVENTS"
    using inv i k(2) unfolding watch_inv_def watched_def by (auto 4 3)
  have only: "j = i" if "j < length (watch_table c)" "watch_table c ! j = Some k" for j
    using inv i k(2) that unfolding watch_inv_def watched_def by (metis of_nat_eq_iff)
  obtain c1 where c1: "upil_event_del k ?c = Some c1" "watch_inv c1" "readFds c1 = readFds c - {fd}"
    using upil_event_del_inv[of ?c i e k] inv w i(2) k(3) by auto
  then have rm: "removeWatch k i ?c = Some c1"
    using k(2) idx by (simp add: upil_event_del_def)
  then have t: "watch_table c1 = (watch_table c)[i := None]" "evs c1 = (evs c)(k \<mapsto> e\<lparr>ev_index := -1\<rparr>)"
    using removeWatch_table[OF rm, of e] k(2) by auto
  have nk: "Some k \<notin> set (watch_table c1)"
    unfolding t(1) using only
    by (metis in_set_conv_nth length_list_update nth_list_update_eq nth_list_update_neq option.distinct(1))
  have nl: "Some l \<notin> set (watch_table c1)"
    unfolding t(1) using l(4) set_update_subset_insert[of "watch_table c" i None] by auto
  have free: "None \<in> set (watch_table c1)"
    unfolding t(1) using i(1) by (rule set_update_memI)
  have el: "evs c1 l = Some el"
    using t(2) l(1,5) by simp
  obtain c2 where c2: "upil_event_add l c1 = Some c2" "watch_inv c2" "readFds c2 = insert (ev_fd el) (readFds c1)"
      "Some l \<in> set (watch_table c2)"
    using upil_event_add_inv[OF c1(2) el l(2) _ nl free] c1(3) l(3) by auto
  then have "Some k \<notin> set (watch_table c2)"
    using upil_event_add_table[OF c2(1) free el] nk l(5) set_update_subset_insert by fastforce
  moreover have "fsm_ref c2 = fsm_ref c" "closed c2 = closed c @ [fd]"
    using upil_event_add_rest[OF c2(1)] removeWatch_rest[OF rm] by simp_all
  moreover have "hang_up_client fd k l c = Some (triggerEvLoop c2)"
    using c1(1) c2(1) by (simp add: hang_up_client_def uew_event_del_def uew_event_add_wakeup_def)
  ultimately show ?thesis
    using c2 c1(3) by simp
qed

text \<open>A main loop for examples: the wake-up pipe and the device are watched.\<close>

definition listening :: "int \<Rightarrow> upil_event_cb \<Rightarrow> upil_event" where
  "listening fd f = \<lparr>ev_fd = fd, ev_index = -1, ev_persist = 0, ev_timeout = TV 0 0, ev_func = f, ev_param = 0\<rparr>"

definition upil_at :: "addr list \<Rightarrow> phone \<Rightarrow> upil" where
  "upil_at ps p =
     \<lparr>readFds = {}, nfds = 0, watch_table = replicate MAX_FD_EVENTS None, timer_list = [], pending_list = ps,
      evs = [CMD_LISTEN \<mapsto> listening 11 CbCmdListen, MON_LISTEN \<mapsto> listening 12 CbMonListen,
             RIL_LISTEN \<mapsto> listening 13 CbRilListen],
      clock = TV 0 0, fdWakeupRead = 3, fdWakeupWrite = 4, wakeupfd_event = 0, pipe_bytes = 0, in_loop_thread = True,
      fsm_ref = FSM p, device_fd = 9, closed = []\<rparr>"

lemma upil_at_watch: "watch_inv (upil_at ps p)"
proof -
  have "\<not> watched (upil_at ps p) i e" for i e
    by (auto simp: watched_def upil_at_def)
  then show ?thesis
    by (auto simp: watch_inv_def upil_at_def)
qed

lemma upil_at_pending [simp]: "(upil_at ps p)\<lparr>pending_list := qs\<rparr> = upil_at qs p"
  by (simp add: upil_at_def)

lemma upil_at_sel [simp]:
  "pending_list (upil_at ps p) = ps" "timer_list (upil_at ps p) = []" "readFds (upil_at ps p) = {}"
  "set (watch_table (upil_at ps p)) = {None}" "fsm_ref (upil_at ps p) = FSM p" "closed (upil_at ps p) = []"
  "evs (upil_at ps p) (Suc 0) = Some (listening 11 CbCmdListen)" "evs (upil_at ps p) 3 = Some (listening 12 CbMonListen)"
  "evs (upil_at ps p) 5 = Some (listening 13 CbRilListen)"
  by (simp_all add: upil_at_def MAX_FD_EVENTS_def)

lemma listening_sel [simp]: "ev_fd (listening fd f) = fd" "ev_func (listening fd f) = f"
  by (simp_all add: listening_def)

text \<open>
  Property C27.  A session of the control socket.  When the listening callback runs, its
  event is no longer watched; accepting a client then watches the client and not the
  listening socket, so that there is one client at a time.  When the client is gone, its
  descriptor is closed and no longer watched, and the program listens again.  The
  invariant of the watch table holds throughout.
\<close>

theorem control_session:
  assumes inv: "watch_inv c" and free: "None \<in> set (watch_table c)"
    and l: "evs c CMD_LISTEN = Some el" "fd_ok (ev_fd el)" "ev_fd el \<notin> readFds c" "Some CMD_LISTEN \<notin> set (watch_table c)"
    and k: "\<not> linked CMD_COMMANDS c" "Some CMD_COMMANDS \<notin> set (watch_table c)"
    and fd: "accepted w (ev_fd el) = fd" "fd_ok fd" "fd \<notin> readFds c" "fd \<noteq> ev_fd el" and gone: "received w fd = Some []"
  shows "\<exists>c1 c2. cmd_listenCallback w (ev_fd el) c = Some (0, c1) \<and> watch_inv c1 \<and> readFds c1 = insert fd (readFds c)
    \<and> Some CMD_COMMANDS \<in> set (watch_table c1) \<and> Some CMD_LISTEN \<notin> set (watch_table c1)
    \<and> cmd_processCommandsCallback w fd c1 = Some (0, c2) \<and> watch_inv c2 \<and> readFds c2 = insert (ev_fd el) (readFds c)
    \<and> Some CMD_LISTEN \<in> set (watch_table c2) \<and> Some CMD_COMMANDS \<notin> set (watch_table c2)
    \<and> closed c2 = closed c @ [fd] \<and> fsm_of c2 = fsm_of c"
proof -
  have pos: "\<not> fd < 0"
    using fd(2) by (simp add: fd_ok_def)
  obtain c0 c1 e where c1: "uew_event_set CMD_COMMANDS fd 1 CbCmdCommands 0 c = Some c0"
      "uew_event_add_wakeup CMD_COMMANDS c0 = Some c1" "watch_inv c1" "readFds c1 = insert fd (readFds c)"
      "Some CMD_COMMANDS \<in> set (watch_table c1)"
      "set (watch_table c1) \<subseteq> insert (Some CMD_COMMANDS) (set (watch_table c))"
      "evs c1 CMD_COMMANDS = Some e" "ev_fd e = fd" "\<forall>a. a \<noteq> CMD_COMMANDS \<longrightarrow> evs c1 a = evs c a"
      "fsm_ref c1 = fsm_ref c" "closed c1 = closed c"
    using connect_client[OF inv k fd(2,3) free, of CbCmdCommands] by blast
  have nl: "Some CMD_LISTEN \<notin> set (watch_table c1)"
    using c1(6) l(4) by auto
  have "evs c1 CMD_LISTEN = Some el" "ev_fd el \<notin> readFds c1"
    using c1(4,9) l fd(4) by auto
  then obtain c2 where c2: "hang_up_client fd CMD_COMMANDS CMD_LISTEN c1 = Some c2" "watch_inv c2"
      "readFds c2 = insert (ev_fd el) (readFds c1 - {fd})" "Some CMD_LISTEN \<in> set (watch_table c2)"
      "Some CMD_COMMANDS \<notin> set (watch_table c2)" "closed c2 = closed c1 @ [fd]" "fsm_ref c2 = fsm_ref c1"
    using disconnect_client[OF c1(3,5,7,8), of CMD_LISTEN el] l(2) nl by auto
  have "cmd_listenCallback w (ev_fd el) c = Some (0, c1)"
    using c1(1,2) pos fd(1) by (simp add: cmd_listenCallback_def)
  moreover have "cmd_processCommandsCallback w fd c1 = Some (0, c2)"
    using c2(1) gone by (simp add: cmd_processCommandsCallback_def)
  moreover have "insert (ev_fd el) (readFds c1 - {fd}) = insert (ev_fd el) (readFds c)"
    using c1(4) fd(3) by auto
  ultimately show ?thesis
    using c1(3-5,10,11) nl c2(2-7) by auto
qed

theorem control_session_witness:
  "\<exists>c1 c2. cmd_listenCallback \<lparr>accepted = (\<lambda>_. 20), received = (\<lambda>_. Some [])\<rparr> 11 (upil_at [] (phone_at 2 [] 0)) = Some (0, c1)
    \<and> readFds c1 = {20}
    \<and> cmd_processCommandsCallback \<lparr>accepted = (\<lambda>_. 20), received = (\<lambda>_. Some [])\<rparr> 20 c1 = Some (0, c2)
    \<and> readFds c2 = {11} \<and> closed c2 = [20]"
  using control_session[OF upil_at_watch, of "[]" "phone_at 2 [] 0" "listening 11 CbCmdListen"
      "\<lparr>accepted = (\<lambda>_. 20), received = (\<lambda>_. Some [])\<rparr>" 20]
  by (auto simp: fd_ok_def linked_def)

text \<open>
  In the main loop every pending event is fired exactly once and in its
  turn: \<open>firePending\<close>, which follows the links of a list that the callbacks could
  change, runs the callbacks of the events that were pending, one after the other, and
  when no callback fails nothing is left pending.
\<close>

lemma main_loop_fires_pending:
  assumes "timers_inv c"
  shows "firePending (main_callback w) c = run_callbacks (main_callback w) (pending_list c) c \<and>
    (\<forall>ret c'. firePending (main_callback w) c = Some (ret, c') \<and> 0 \<le> ret \<longrightarrow> pending_list c' = [])"
  using main_loop.firePending_runs[OF assms] main_loop.run_callbacks_drains[of w "pending_list c" c] by auto

lemma main_loop_fires_pending_witness:
  "\<exists>c'. firePending (main_callback \<lparr>accepted = (\<lambda>_. 20), received = (\<lambda>_. None)\<rparr>) (upil_at [1] (phone_at 2 [] 0)) = Some (0, c')
    \<and> pending_list c' = []"
proof -
  let ?w = "\<lparr>accepted = (\<lambda>_. 20), received = (\<lambda>_. None)\<rparr> :: world"
  let ?c = "upil_at [1] (phone_at 2 [] 0)"
  have t: "timers_inv ?c"
    by (simp add: timers_inv_def)
  let ?c1 = "upil_at [] (phone_at 2 [] 0)"
  obtain c0 c1 where "uew_event_set CMD_COMMANDS 20 1 CbCmdCommands 0 ?c1 = Some c0"
      "uew_event_add_wakeup CMD_COMMANDS c0 = Some c1"
    using connect_client[OF upil_at_watch, of CMD_COMMANDS "[]" "phone_at 2 [] 0" 20 CbCmdCommands]
    by (auto simp: linked_def fd_ok_def)
  then have "cmd_listenCallback ?w 11 ?c1 = Some (0, c1)"
    by (simp add: cmd_listenCallback_def)
  then have "run_callbacks (main_callback ?w) (pending_list ?c) ?c = Some (0, c1)"
    by (simp add: main_callback_def)
  then show ?thesis
    using main_loop_fires_pending[OF t, of ?w] by auto
qed

end
