(* ===== verification/System.thy ===== *)
theory System
  imports Socket_Properties
begin

text \<open>
  The program as a whole: the commands of the clients, the reports of the device and the
  turns of the state machine's loop, one after the other in any order, from the start of
  the state machine on.
\<close>

section \<open>Sending to the machine\<close>

text \<open>The answer \<open>r\<close> and the state after the letter \<open>l\<close> was sent: it is queued or refused.\<close>

definition told :: "phone \<Rightarrow> letter \<Rightarrow> int \<Rightarrow> phone \<Rightarrow> bool" where
  "told c l r c' \<longleftrightarrow> runs c (Some c') \<and> same_client c c' \<and>
     (if length (queued c) < 31 then r = 0 \<and> queued c' = queued c @ [l] else r = -1 \<and> c' = c)"

lemma tell_ok:
  assumes c: "phone_ok c" and n: "nat n \<le> length d" and l: "letter_ok w (payload d n)"
  shows "\<exists>r c'. sm_send_message_delay w d n ms c = Some (r, c') \<and> told c (w, payload d n, due c ms) r c'"
proof -
  have inv: "handler_inv c" "mem_ok c"
    using c by (auto simp: phone_ok_def)
  have "runs c (post w d n ms c)"
    by (rule runs_post[OF c n l])
  then obtain r c' where c': "sm_send_message_delay w d n ms c = Some (r, c')" "runs c (Some c')"
    by (auto simp: runs_def post_def)
  then show ?thesis
    using sm_send_message_delay_ok[OF inv _ n, of w ms] sm_send_message_delay_full[OF inv(1), of w d n ms]
    by (cases "length (queued c) < 31") (auto simp: told_def)
qed

lemma runs_sock_send: "phone_ok c \<Longrightarrow> runs c (Some (sock_send fd bs c))"
  by (rule phone_ok_client) (auto simp: same_handler_def wake_ok_def phone_ok_def sock_send_def)

lemma runs_wait: "phone_ok c \<Longrightarrow> runs c (Some (c\<lparr>s_wait_response := w\<rparr>))"
  by (rule phone_ok_client) (auto simp: same_handler_def wake_ok_def phone_ok_def)

lemma runs_call_dir: "phone_ok c \<Longrightarrow> runs c (Some (c\<lparr>s_call_dir := w\<rparr>))"
  by (rule phone_ok_client) (auto simp: same_handler_def wake_ok_def phone_ok_def)

lemma runs_trans: "runs c (Some c1) \<Longrightarrow> runs c1 r \<Longrightarrow> runs c r"
  using keeps_trans by (fastforce simp: runs_def)

lemma runs_ok: "runs c (Some c') \<Longrightarrow> phone_ok c'"
  by (simp add: runs_def)

lemma runs_cmd_reply: "phone_ok c \<Longrightarrow> runs c (Some (cmd_process_reply fd result reply c))"
  by (simp add: cmd_process_reply_def runs_sock_send)

lemma runs_ril_reply:
  assumes "phone_ok c"
  shows "runs c (Some (ril_process_reply fd result reply c))"
proof -
  have r: "runs c (Some (case reply of None \<Rightarrow> c | Some r \<Rightarrow> sock_send fd r c))"
    using assms by (auto simp: runs_refl runs_sock_send split: option.splits)
  show ?thesis
    using r runs_trans[OF r runs_sock_send[OF runs_ok[OF r]]] by (simp add: ril_process_reply_def Let_def)
qed

text \<open>The number that a command carries, and calling it.\<close>

lemma letter_ok_dial:
  assumes "length (c_string d) < 128" and "dialable (c_string d)"
  shows "letter_ok UPIL_CTL_HANDFREE_ON (payload d (int (length (c_string d))))"
proof -
  have "c_string (take (length (c_string d)) d @ [0, 0]) = c_string d"
    by (simp add: take_c_string c_string_append_nul)
  then show ?thesis
    using assms by (auto simp: letter_ok_def payload_def)
qed

definition number_ok :: "byte list \<Rightarrow> bool" where
  "number_ok n \<longleftrightarrow> length n < 128 \<and> dialable n"

text \<open>The data of the message for the number \<open>n\<close>; an empty one answers a call.\<close>

definition dial_data :: "byte list \<Rightarrow> byte list option" where
  "dial_data n = (if n = [] then None else Some (n @ [0, 0]))"

lemma start_dail_ok:
  assumes "phone_ok c" and "number_ok (c_string n)"
  shows "\<exists>r c'. upil_sm_start_dail (if c_string n \<noteq> [] then Some n else None) c = Some (r, c')
    \<and> told c (UPIL_CTL_HANDFREE_ON, dial_data (c_string n), due c 0) r c'"
proof (cases "c_string n = []")
  case False
  have p: "payload n (int (length (c_string n))) = dial_data (c_string n)"
    using False by (simp add: payload_def take_c_string dial_data_def)
  have "nat (int (length (c_string n))) \<le> length n"
    by (simp add: length_c_string)
  from tell_ok[OF assms(1) this, of UPIL_CTL_HANDFREE_ON 0] show ?thesis
    using letter_ok_dial[of n] assms(2) False unfolding p by (simp add: upil_sm_start_dail_def number_ok_def)
next
  case True
  then show ?thesis
    using tell_ok[OF assms(1), of 0 "[]" UPIL_CTL_HANDFREE_ON 0]
    by (simp add: upil_sm_start_dail_def payload_def letter_ok_plain dial_data_def)
qed

lemma hangup_ok:
  assumes "phone_ok c"
  shows "\<exists>r c'. upil_sm_hangup c = Some (r, c') \<and> told c (UPIL_CTL_HANDFREE_OFF, None, due c 0) r c'"
  using tell_ok[OF assms, of 0 "[]" UPIL_CTL_HANDFREE_OFF 0]
  by (simp add: upil_sm_hangup_def payload_def letter_ok_plain)

lemma current_state_ok:
  assumes "phone_ok c"
  shows "\<exists>s. upil_sm_get_current_state c = Some s \<and> 0 \<le> s \<and> s < 7 \<and> cur_state c = Some (nat s)"
proof -
  obtain i where i: "i < 7" "cur_state c = Some i"
    using assms by (auto simp: phone_ok_def)
  then show ?thesis
    using table_entries[OF i(1)] by (intro exI[of _ "int i"]) (simp add: upil_sm_get_current_state_def nth_opt_def)
qed

section \<open>Commands\<close>

lemma length_command_buffer: "0 < n \<Longrightarrow> length (command_buffer n bs) = n"
  by (auto simp: command_buffer_def)

lemma c_string_command_buffer:
  assumes "0 < n"
  shows "c_string (command_buffer n bs) = c_string (take (n - 1) bs)"
proof -
  have "n - length (take (n - 1) bs) = Suc (n - 1 - length (take (n - 1) bs))"
    using assms by (auto simp: min_def)
  then have "command_buffer n bs = take (n - 1) bs @ 0 # replicate (n - 1 - length (take (n - 1) bs)) 0"
    by (simp add: command_buffer_def)
  moreover have "c_string (xs @ 0 # zs) = c_string xs" for xs zs :: "byte list"
    by (induction xs) (auto simp: c_string_def)
  ultimately show ?thesis
    by simp
qed

lemma nth_c_string: "bs \<noteq> [] \<Longrightarrow> \<exists>d. nth_opt bs 0 = Some d \<and> (d \<noteq> 0 \<longleftrightarrow> c_string bs \<noteq> [])"
  by (cases bs) (auto simp: nth_opt_def c_string_def)

lemma strncmp_line:
  "0 \<notin> set t \<Longrightarrow> strncmp_eq (c_string bs) t (length t) \<longleftrightarrow> prefix t (c_string bs)"
  by (rule strncmp_eq_prefix) simp_all

text \<open>The line that a client sent, as the command processor sees it.\<close>

definition command_line :: "nat \<Rightarrow> byte list \<Rightarrow> byte list" where
  "command_line n bs = c_string (take (n - 1) bs)"

subsection \<open>The control socket\<close>

lemma control_dial:
  assumes c: "phone_ok c" and line: "command_line UPIL_MAX_MSG_LEN bs = UPIL_CTRL_DIAL @ n" and n: "number_ok n"
  shows "\<exists>r c'. cmd_processCommandBuffer fd (command_buffer UPIL_MAX_MSG_LEN bs) c = Some (cmd_process_reply fd r None c')
    \<and> told c (UPIL_CTL_HANDFREE_ON, dial_data n, due c 0) r c'"
proof -
  let ?buf = "command_buffer UPIL_MAX_MSG_LEN bs"
  let ?num = "drop (length UPIL_CTRL_DIAL) ?buf"
  have l: "c_string ?buf = UPIL_CTRL_DIAL @ n"
    using line c_string_command_buffer[of UPIL_MAX_MSG_LEN bs] by (simp add: command_line_def UPIL_MAX_MSG_LEN_def)
  have "c_string ?num = drop (length UPIL_CTRL_DIAL) (c_string ?buf)"
    using l by (intro drop_c_string) simp
  then have cs: "c_string ?num = n"
    using l by simp
  have "?num \<noteq> []"
    using length_command_buffer[of UPIL_MAX_MSG_LEN bs] by (simp add: UPIL_MAX_MSG_LEN_def)
  then obtain d where d: "nth_opt ?num 0 = Some d" "d \<noteq> 0 \<longleftrightarrow> c_string ?num \<noteq> []"
    using nth_c_string by blast
  obtain r c' where dial: "upil_sm_start_dail (if d \<noteq> 0 then Some ?num else None) c = Some (r, c')"
      "told c (UPIL_CTL_HANDFREE_ON, dial_data n, due c 0) r c'"
    using start_dail_ok[OF c, of ?num] n d(2) unfolding cs by auto
  have cmp: "\<not> strncmp_eq (c_string ?buf) UPIL_CTRL_GET_VER (length UPIL_CTRL_GET_VER)"
      "strncmp_eq (c_string ?buf) UPIL_CTRL_DIAL (length UPIL_CTRL_DIAL)"
    using l by (simp_all add: strncmp_eq_def)
  have "cmd_processCommandBuffer fd ?buf c = Some (cmd_process_reply fd r None c')"
    by (simp only: cmd_processCommandBuffer_def Let_def cmp d(1) dial(1) if_True if_False Option.bind.bind_lunit
        case_prod_conv)
  then show ?thesis
    using dial(2) by blast
qed

lemma control_hangup:
  assumes c: "phone_ok c" and line: "prefix UPIL_CTRL_HANGUP (command_line UPIL_MAX_MSG_LEN bs)"
  shows "\<exists>r c'. cmd_processCommandBuffer fd (command_buffer UPIL_MAX_MSG_LEN bs) c = Some (cmd_process_reply fd r None c')
    \<and> told c (UPIL_CTL_HANDFREE_OFF, None, due c 0) r c'"
proof -
  have l: "prefix UPIL_CTRL_HANGUP (c_string (command_buffer UPIL_MAX_MSG_LEN bs))"
    using line c_string_command_buffer[of UPIL_MAX_MSG_LEN bs] by (simp add: command_line_def UPIL_MAX_MSG_LEN_def)
  then obtain t where "c_string (command_buffer UPIL_MAX_MSG_LEN bs) = UPIL_CTRL_HANGUP @ t"
    by (auto simp: prefix_def)
  moreover obtain r c' where "upil_sm_hangup c = Some (r, c')" "told c (UPIL_CTL_HANDFREE_OFF, None, due c 0) r c'"
    using hangup_ok[OF c] by blast
  ultimately show ?thesis
    by (intro exI[of _ r] exI[of _ c']) (simp add: cmd_processCommandBuffer_def strncmp_eq_def)
qed

lemma control_state:
  assumes c: "phone_ok c" and line: "prefix (str ''GET_CURR_ST'') (command_line UPIL_MAX_MSG_LEN bs)"
  shows "\<exists>s. upil_sm_get_current_state c = Some s
    \<and> cmd_processCommandBuffer fd (command_buffer UPIL_MAX_MSG_LEN bs) c =
        Some (cmd_process_reply fd 0 (Some (dec_int s)) c)"
proof -
  obtain t where t: "c_string (command_buffer UPIL_MAX_MSG_LEN bs) = str ''GET_CURR_ST'' @ t"
    using line c_string_command_buffer[of UPIL_MAX_MSG_LEN bs]
    by (auto simp: command_line_def UPIL_MAX_MSG_LEN_def prefix_def)
  then have "strncmp_eq (c_string (command_buffer UPIL_MAX_MSG_LEN bs)) UPIL_CTRL_GET_STATE UPIL_CTRL_GET_STATE_LEN"
    by (simp add: strncmp_eq_def UPIL_CTRL_GET_STATE_LEN_def)
  then show ?thesis
    using current_state_ok[OF c] t by (auto simp: cmd_processCommandBuffer_def strncmp_eq_def)
qed

text \<open>A control command is well formed unless it dials a number that the buffers cannot hold.\<close>

definition control_ok :: "byte list \<Rightarrow> bool" where
  "control_ok bs \<longleftrightarrow> (let l = command_line UPIL_MAX_MSG_LEN bs in prefix UPIL_CTRL_DIAL l \<longrightarrow> number_ok (drop 4 l))"

lemma told_reply: "told c l r c' \<Longrightarrow> runs c (Some (cmd_process_reply fd r' x c'))"
  using runs_trans[OF _ runs_cmd_reply[OF runs_ok]] by (auto simp: told_def)

lemma control_runs:
  assumes c: "phone_ok c" and ok: "control_ok bs"
  shows "runs c (cmd_processCommandBuffer fd (command_buffer UPIL_MAX_MSG_LEN bs) c)"
proof (cases "prefix UPIL_CTRL_DIAL (command_line UPIL_MAX_MSG_LEN bs)")
  case True
  then obtain n where "command_line UPIL_MAX_MSG_LEN bs = UPIL_CTRL_DIAL @ n" "number_ok n"
    using ok by (auto simp: control_ok_def prefix_def)
  from control_dial[OF c this, of fd] show ?thesis
    using told_reply by fastforce
next
  case False
  have no_nul: "0 \<notin> set UPIL_CTRL_DIAL"
    by simp
  from False have nd: "\<not> strncmp_eq (c_string (command_buffer UPIL_MAX_MSG_LEN bs)) UPIL_CTRL_DIAL (length UPIL_CTRL_DIAL)"
    using c_string_command_buffer[of UPIL_MAX_MSG_LEN bs] strncmp_line[OF no_nul, of "command_buffer UPIL_MAX_MSG_LEN bs"]
    by (simp only: command_line_def) (simp add: UPIL_MAX_MSG_LEN_def)
  obtain r c' where h: "upil_sm_hangup c = Some (r, c')" "told c (UPIL_CTL_HANDFREE_OFF, None, due c 0) r c'"
    using hangup_ok[OF c] by blast
  obtain s where "upil_sm_get_current_state c = Some s"
    using current_state_ok[OF c] by blast
  then show ?thesis
    using nd h told_reply[OF h(2)] runs_cmd_reply[OF c] runs_refl[OF c]
    unfolding cmd_processCommandBuffer_def by (simp add: upil_sm_get_version_def)
qed

subsection \<open>The RIL socket\<close>

lemma c_string_cut: "k < length (c_string bs) \<Longrightarrow> c_string (bs[k := 0]) = take k (c_string bs)"
proof (induction bs arbitrary: k)
  case (Cons b bs)
  then show ?case
    by (cases k) (auto simp: c_string_def split: if_splits)
qed (simp add: c_string_def)

lemma ril_cut:
  assumes "prefix (str ''ATD'') (c_string buf)"
  shows "c_string (drop 3 (ril_cut_number buf)) = butlast (drop 3 (c_string buf))"
proof -
  let ?s = "c_string (drop 3 buf)"
  have "3 \<le> length (c_string buf)"
    using prefix_length_le[OF assms] by simp
  then have s: "?s = drop 3 (c_string buf)"
    by (rule drop_c_string)
  show ?thesis
  proof (cases "?s = []")
    case True
    then show ?thesis
      using s by (simp add: ril_cut_number_def drop_update_cancel)
  next
    case False
    then have "3 \<le> 3 + length ?s - 1" "3 + length ?s - 1 - 3 = length ?s - 1" "length ?s - 1 < length ?s"
      by (auto simp: Suc_le_eq)
    then show ?thesis
      using False s by (simp add: ril_cut_number_def drop_update_swap c_string_cut butlast_conv_take)
  qed
qed

lemma ril_buffer: "c_string (command_buffer MAX_AT_COMMAND bs) = command_line MAX_AT_COMMAND bs"
  using c_string_command_buffer[of MAX_AT_COMMAND bs] by (simp add: command_line_def MAX_AT_COMMAND_def)

lemma ril_dial:
  assumes c: "phone_ok c" and line: "prefix (str ''ATD'') (command_line MAX_AT_COMMAND bs)"
    and n: "n = butlast (drop 3 (command_line MAX_AT_COMMAND bs))" "number_ok n"
  shows "\<exists>r c'. ril_processCommandBuffer fd (command_buffer MAX_AT_COMMAND bs) c =
      Some (if r = 0 then c'\<lparr>s_wait_response := 1\<rparr> else ril_process_reply fd r None c')
    \<and> told c (UPIL_CTL_HANDFREE_ON, dial_data n, due c 0) r c'"
proof -
  let ?buf = "command_buffer MAX_AT_COMMAND bs"
  let ?num = "drop 3 (ril_cut_number ?buf)"
  obtain t where t: "c_string ?buf = str ''ATD'' @ t"
    using line ril_buffer by (auto simp: prefix_def)
  have cs: "c_string ?num = n"
    using ril_cut[of ?buf] line n(1) ril_buffer[of bs] by (simp only:)
  have "length ?num = MAX_AT_COMMAND - 3"
    using length_command_buffer[of MAX_AT_COMMAND bs] by (simp add: ril_cut_number_def Let_def MAX_AT_COMMAND_def)
  then have "?num \<noteq> []"
    by (auto simp: MAX_AT_COMMAND_def)
  then obtain d where d: "nth_opt ?num 0 = Some d" "d \<noteq> 0 \<longleftrightarrow> c_string ?num \<noteq> []"
    using nth_c_string by blast
  obtain r c' where dial: "upil_sm_start_dail (if d \<noteq> 0 then Some ?num else None) c = Some (r, c')"
      "told c (UPIL_CTL_HANDFREE_ON, dial_data n, due c 0) r c'"
    using start_dail_ok[OF c, of ?num] n(2) d(2) unfolding cs by auto
  have cmp: "c_string ?buf \<noteq> [13]" "\<not> strStartsWith (c_string ?buf) (str ''ATE0'')" "strStartsWith (c_string ?buf) (str ''ATD'')"
    using t by simp_all
  have one: "ril_process_reply fd 1 None x = x" for x :: phone
    by (simp add: ril_process_reply_def)
  have "ril_processCommandBuffer fd ?buf c = Some (if r = 0 then c'\<lparr>s_wait_response := 1\<rparr> else ril_process_reply fd r None c')"
    by (simp only: ril_processCommandBuffer_def Let_def cmp d(1) dial(1) if_True if_False Option.bind.bind_lunit
        case_prod_conv one)
  then show ?thesis
    using dial(2) by blast
qed

lemma ril_hangup:
  assumes c: "phone_ok c" and line: "prefix (str ''AT+CHLD='') (command_line MAX_AT_COMMAND bs)"
  shows "\<exists>r c'. ril_processCommandBuffer fd (command_buffer MAX_AT_COMMAND bs) c =
      Some (if r = 0 then c'\<lparr>s_wait_response := 1\<rparr> else ril_process_reply fd r None c')
    \<and> told c (UPIL_CTL_HANDFREE_OFF, None, due c 0) r c'"
proof -
  obtain t where t: "c_string (command_buffer MAX_AT_COMMAND bs) = str ''AT+CHLD='' @ t"
    using line ril_buffer by (auto simp: prefix_def)
  obtain r c' where "upil_sm_hangup c = Some (r, c')" "told c (UPIL_CTL_HANDFREE_OFF, None, due c 0) r c'"
    using hangup_ok[OF c] by blast
  moreover have "ril_process_reply fd 1 None x = x" for x :: phone
    by (simp add: ril_process_reply_def)
  ultimately show ?thesis
    using t by (intro exI[of _ r] exI[of _ c']) (simp add: ril_processCommandBuffer_def)
qed

text \<open>The line of the current call.\<close>

lemma ril_calls:
  assumes "phone_ok c"
  shows "\<exists>l c'. ril_current_calls c = Some (l, c') \<and> runs c (Some c')"
proof -
  have num: "\<exists>l. clcc_line d s (last_incoming_num c) = Some l" "\<exists>l. clcc_line d s (last_outgoing_num c) = Some l" for d s
    using assms by (simp_all add: clcc_line_def phone_ok_def num_ok_def)
  obtain s where "upil_sm_get_current_state c = Some s"
    using current_state_ok[OF assms] by blast
  then show ?thesis
    using num[of 0 2] num[of 1 4] num[of "s_call_dir c" 0] assms
    by (auto simp: ril_current_calls_def runs_refl runs_call_dir)
qed

definition ril_ok :: "byte list \<Rightarrow> bool" where
  "ril_ok bs \<longleftrightarrow> (let l = command_line MAX_AT_COMMAND bs in
     prefix (str ''ATD'') l \<longrightarrow> number_ok (butlast (drop 3 l)))"

lemma told_ril_reply: "told c l r c' \<Longrightarrow> runs c (Some (ril_process_reply fd r' x c'))"
  using runs_trans[OF _ runs_ril_reply[OF runs_ok]] by (auto simp: told_def)

lemma told_wait: "told c l r c' \<Longrightarrow> runs c (Some (c'\<lparr>s_wait_response := w\<rparr>))"
  using runs_trans[OF _ runs_wait[OF runs_ok]] by (auto simp: told_def)

lemma ril_runs:
  assumes c: "phone_ok c" and ok: "ril_ok bs"
  shows "runs c (ril_processCommandBuffer fd (command_buffer MAX_AT_COMMAND bs) c)"
proof (cases "prefix (str ''ATD'') (command_line MAX_AT_COMMAND bs)")
  case True
  then have "number_ok (butlast (drop 3 (command_line MAX_AT_COMMAND bs)))"
    using ok by (simp only: ril_ok_def Let_def)
  from ril_dial[OF c True refl this, of fd] show ?thesis
    using told_ril_reply told_wait by fastforce
next
  case False
  let ?line = "c_string (command_buffer MAX_AT_COMMAND bs)"
  have nd: "\<not> strStartsWith ?line (str ''ATD'')"
    using False by (simp only: strStartsWith_prefix ril_buffer simp_thms)
  have one: "ril_process_reply fd 1 None x = x" for x :: phone
    by (simp add: ril_process_reply_def)
  obtain s where s: "upil_sm_get_current_state c = Some s"
    using current_state_ok[OF c] by blast
  obtain r1 c1 where h: "upil_sm_hangup c = Some (r1, c1)" "told c (UPIL_CTL_HANDFREE_OFF, None, due c 0) r1 c1"
    using hangup_ok[OF c] by blast
  obtain r2 c2 where a: "upil_sm_start_dail None c = Some (r2, c2)" "told c (UPIL_CTL_HANDFREE_ON, None, due c 0) r2 c2"
    using start_dail_ok[OF c, of "[]"] by (auto simp: c_string_def dial_data_def number_ok_def dialable_def)
  obtain l c3 where l: "ril_current_calls c = Some (l, c3)" "runs c (Some c3)"
    using ril_calls[OF c] by blast
  show ?thesis
    using s h a l runs_refl[OF c] told_ril_reply[OF h(2)] told_wait[OF h(2)] told_ril_reply[OF a(2)]
      runs_trans[OF l(2) runs_ril_reply[OF runs_ok[OF l(2)]]] runs_ril_reply[OF c]
    unfolding ril_processCommandBuffer_def Let_def
    by (simp only: nd if_False one Option.bind.bind_lunit case_prod_conv split: if_splits) auto
qed

section \<open>The device\<close>

text \<open>A unit that decodes to a message the machine may get.\<close>

definition device_ok :: "byte list \<Rightarrow> bool" where
  "device_ok u \<longleftrightarrow> is_unit u \<and>
     (case tppdu2event (u @ replicate (80 - length u) 0) empty_event of
        None \<Rightarrow> False
      | Some ev \<Rightarrow> letter_ok (uint (evt_id ev)) (payload (evt_data ev) (uint (evt_data_size ev))))"

lemma unit_complete_full:
  assumes inv: "handler_inv c" and full: "31 \<le> length (queued c)" and r: "receiving [] c" and u: "length u \<le> 80"
    and ev: "tppdu2event (u @ replicate (80 - length u) 0) empty_event = Some ev"
  shows "unit_complete u c = Some c"
proof -
  let ?c = "c\<lparr>s_pdu_buf := u @ replicate (80 - length u) 0, s_pdu_offset := int (length u)\<rparr>"
  note eqs = same_handler_eqs[OF pdu_upd_same_handler]
  have "upil_sm_send_msg (uint (evt_id ev)) (evt_data ev) (uint (evt_data_size ev)) ?c = Some (-1, ?c)"
    unfolding upil_sm_send_msg_def using inv full eqs by (intro sm_send_message_delay_full) auto
  moreover have "replicate (length u) (0::byte) @ replicate (80 - length u) 0 = replicate 80 0"
    using u by (simp flip: replicate_add)
  then have "reset_pdu ?c = Some (c\<lparr>s_pdu_buf := replicate 80 0, s_pdu_offset := 0\<rparr>)"
    using u by (simp add: reset_pdu_def blit_def)
  moreover have "c\<lparr>s_pdu_buf := replicate 80 0, s_pdu_offset := 0\<rparr> = c"
    using r by (cases c) (simp add: receiving_def)
  ultimately show ?thesis
    using ev by (simp add: unit_complete_def Let_def)
qed

lemma device_runs:
  assumes c: "phone_ok c" and ok: "device_ok u"
  shows "\<exists>c'. tpp_recv_event_cb (Some (concat (reports u))) c = Some (0, c') \<and> phone_ok c' \<and> pending_list c' = pending_list c"
proof -
  obtain ev where u: "is_unit u" "tppdu2event (u @ replicate (80 - length u) 0) empty_event = Some ev"
      "letter_ok (uint (evt_id ev)) (payload (evt_data ev) (uint (evt_data_size ev)))"
    using ok by (auto simp: device_ok_def split: option.splits)
  have inv: "handler_inv c" "mem_ok c" "receiving [] c"
    using c by (auto simp: phone_ok_def)
  show ?thesis
  proof (cases "length (queued c) < 31")
    case True
    then obtain c' where c': "tpp_recv_event_cb (Some (concat (reports u))) c = Some (0, c')" "handler_inv c'" "mem_ok c'"
        "receiving [] c'" "same_machine c c'" "pending_list c' = pending_list c"
        "queued c' = queued c @ [(uint (evt_id ev), payload (evt_data ev) (uint (evt_data_size ev)), due c 0)]"
      using recv_unit_ok[OF inv(1,2) True inv(3) u(1,2)] by blast
    then have "phone_ok c'"
      using c u(3) wake_ok_part[of c' c] by (auto simp: phone_ok_def same_machine_def)
    then show ?thesis
      using c' by blast
  next
    case False
    then have "unit_complete u c = Some c"
      using u inv by (intro unit_complete_full) (auto simp: is_unit_def)
    moreover have "u \<noteq> []"
      using u(1) by (auto simp: is_unit_def)
    ultimately show ?thesis
      using recv_loop_unit[OF u(1) _ _ _ inv(3), of u "[]" 0] c
      by (simp add: tpp_recv_event_cb_def length_concat_reports del: reports_Cons)
  qed
qed

section \<open>Steps\<close>

text \<open>
  What happens to the program: a line from a client, the reports of a unit from the
  device, a turn of the state machine's loop, a new client on the monitor socket or on
  the RIL socket.
\<close>

datatype upil_input =
    Control int "byte list"
  | Ril int "byte list"
  | Device "byte list"
  | Turn select_result
  | MonitorClient int
  | RilClient int

fun upil_react :: "upil_input \<Rightarrow> phone \<Rightarrow> phone option" where
  "upil_react (Control fd bs) p = cmd_processCommandBuffer fd (command_buffer UPIL_MAX_MSG_LEN bs) p"
| "upil_react (Ril fd bs) p = ril_processCommandBuffer fd (command_buffer MAX_AT_COMMAND bs) p"
| "upil_react (Device u) p = map_option snd (tpp_recv_event_cb (Some (concat (reports u))) p)"
| "upil_react (Turn sel) p = map_option snd (upil_event_loop_turn (fsm_callback my_state_table) sel p)"
| "upil_react (MonitorClient fd) p = Some (p\<lparr>s_fdMonitor := fd\<rparr>)"
| "upil_react (RilClient fd) p = Some (p\<lparr>s_fd_ril := fd\<rparr>)"

text \<open>
  The inputs for which the program stays inside its buffers: the numbers fit, and of the
  messages that expire in one turn none behind the first is one that the machine may
  cancel.
\<close>

fun input_ok :: "upil_input \<Rightarrow> phone \<Rightarrow> bool" where
  "input_ok (Control fd bs) p = control_ok bs"
| "input_ok (Ril fd bs) p = ril_ok bs"
| "input_ok (Device u) p = device_ok u"
| "input_ok (Turn sel) p \<longleftrightarrow> \<not> sel_n sel < 0 \<and>
     quiet_msgs CANCELS (tl (filter (\<lambda>a. timeout_of p a < sel_clock sel) (timer_list p))) p"
| "input_ok (MonitorClient fd) p = True"
| "input_ok (RilClient fd) p = True"

definition upil_ok :: "phone \<Rightarrow> bool" where
  "upil_ok p \<longleftrightarrow> phone_ok p \<and> pending_list p = []"

lemma runs_upil_ok: "upil_ok p \<Longrightarrow> runs p r \<Longrightarrow> \<exists>p'. r = Some p' \<and> upil_ok p'"
  by (auto simp: upil_ok_def runs_def keeps_def quiet_msgs_def)

lemma upil_react_ok:
  assumes p: "upil_ok p" and i: "input_ok i p"
  shows "\<exists>p'. upil_react i p = Some p' \<and> upil_ok p'"
proof (cases i)
  case (Control fd bs)
  then show ?thesis
    using runs_upil_ok[OF p control_runs] p i by (simp add: upil_ok_def)
next
  case (Ril fd bs)
  then show ?thesis
    using runs_upil_ok[OF p ril_runs] p i by (simp add: upil_ok_def)
next
  case (Device u)
  then show ?thesis
    using device_runs[of p u] p i by (auto simp: upil_ok_def)
next
  case (Turn sel)
  then have "\<exists>p'. upil_event_loop_turn (fsm_callback my_state_table) sel p = Some (True, p') \<and> phone_ok p' \<and> pending_list p' = []"
    using phone_client.turn_ok[OF _ phone_ok_clock] p i by (auto simp: upil_ok_def)
  then show ?thesis
    using Turn by (auto simp: upil_ok_def)
next
  case (MonitorClient fd)
  have "runs p (Some (p\<lparr>s_fdMonitor := fd\<rparr>))"
    using p by (intro phone_ok_client) (auto simp: upil_ok_def same_handler_def wake_ok_def phone_ok_def)
  from runs_upil_ok[OF p this] show ?thesis
    using MonitorClient by simp
next
  case (RilClient fd)
  have "runs p (Some (p\<lparr>s_fd_ril := fd\<rparr>))"
    using p by (intro phone_ok_client) (auto simp: upil_ok_def same_handler_def wake_ok_def phone_ok_def)
  from runs_upil_ok[OF p this] show ?thesis
    using RilClient by simp
qed

inductive upil_runs :: "phone \<Rightarrow> upil_input list \<Rightarrow> phone \<Rightarrow> bool" where
  stop: "upil_runs p [] p"
| step: "input_ok i p \<Longrightarrow> upil_react i p = Some p' \<Longrightarrow> upil_runs p' is p'' \<Longrightarrow> upil_runs p (i # is) p''"

inductive_cases upil_runs_ConsE: "upil_runs p (i # is) p''"

lemma upil_runs_ok: "upil_runs p is p' \<Longrightarrow> upil_ok p \<Longrightarrow> upil_ok p'"
proof (induction rule: upil_runs.induct)
  case (step i p p' inputs p'')
  then show ?case
    using upil_react_ok[of p i] by auto
qed

section \<open>The start\<close>

text \<open>A machine of the pool as the program starts: static data, all zero.\<close>

definition blank_phone :: "timeval \<Rightarrow> tm \<Rightarrow> (nat \<Rightarrow> bool) \<Rightarrow> phone" where
  "blank_phone now t wr =
     \<lparr>readFds = {}, nfds = 0, watch_table = replicate 16 None, timer_list = [], pending_list = [],
      evs = Map.empty, clock = now, fdWakeupRead = 0, fdWakeupWrite = 0, wakeupfd_event = 0, pipe_bytes = 0,
      in_loop_thread = False,
      msg_queue = [], defer_msg_queue = [], msg_count = 0, msgs = Map.empty, malloc_calls = 0, malloc_ok = (\<lambda>_. True),
      fsm_name = replicate 64 0, table_set = False, fsm_size = 0, cur_state = None,
      last_incoming_num = replicate 128 0, last_outgoing_num = replicate 128 0,
      s_pdu_buf = replicate 80 0, s_pdu_offset = 0, dev_out = [], dev_write_ok = wr, dev_time = t,
      s_ring_count = 0, audio_calls = [], s_fdMonitor = 0, s_fd_ril = -1, s_wait_response = 0, s_call_dir = 0,
      sock_out = []\<rparr>"

text \<open>The machine after its handler has been started and its state is the offline state.\<close>

definition offline_phone :: "int \<Rightarrow> int \<Rightarrow> timeval \<Rightarrow> tm \<Rightarrow> (nat \<Rightarrow> bool) \<Rightarrow> phone" where
  "offline_phone r w now t wr = (blank_phone now t wr)
     \<lparr>readFds := {r}, nfds := (if 0 \<le> r then r + 1 else 0), watch_table := Some 0 # replicate 15 None,
      evs := [0 \<mapsto> \<lparr>ev_fd = r, ev_index = 0, ev_persist = 1, ev_timeout = TV 0 0, ev_func = CbWakeup, ev_param = 0\<rparr>],
      fdWakeupRead := r, fdWakeupWrite := w, pipe_bytes := 1, table_set := True, fsm_size := 7, cur_state := Some 0\<rparr>"

lemma offline_phone_ok: "upil_ok (offline_phone r w now t wr)"
  using num_ok_zeros
  by (simp add: upil_ok_def phone_ok_def offline_phone_def blank_phone_def handler_inv_def timers_inv_def
      mem_ok_def wake_ok_def receiving_def queued_def MAX_MSG_QUEUE_SIZE_def)

lemma start_handler_blank:
  assumes "fd_ok r"
  shows "start_handler 0 (Some (r, w)) (blank_phone now t wr) =
    Some (0, (offline_phone r w now t wr)\<lparr>table_set := False, fsm_size := 0, cur_state := None\<rparr>)"
proof -
  have "replicate 16 (None :: addr option) = None # replicate 15 None"
    by (simp add: replicate_Suc[symmetric])
  then show ?thesis
    using assms
    by (simp add: start_handler_def uew_startEventLoop_def eventLoop_start_def upil_event_init_def upil_event_set_def
        linked_def uew_event_add_wakeup_def upil_event_add_def triggerEvLoop_def MAX_FD_EVENTS_def fd_ok_def Let_def
        blank_phone_def offline_phone_def)
qed

lemma init_pool_blank: "sm_init_pool (replicate n (blank_phone now t wr)) = replicate n (blank_phone now t wr)"
  by (simp add: sm_init_pool_def blank_phone_def list_update_same_conv)

text \<open>Entering the offline state for the first time: nothing is queued, the monitor is told.\<close>

lemma enter_offline:
  "sm_set_init_state my_state_table UPIL_SM_OFFLINE ((offline_phone r w now t wr)\<lparr>cur_state := None\<rparr>) =
     Some (HANDLED, (offline_phone r w now t wr)\<lparr>sock_out := [(0, str ''STATE OFFLINE'')]\<rparr>)"
proof -
  let ?c = "offline_phone r w now t wr"
  have "sm_remove_message_id UPIL_CTL_USB_ON ?c = Some ?c"
    by (simp add: sm_remove_message_id_def remove_message_id_def offline_phone_def blank_phone_def)
  moreover have "sendto_monitor UPIL_STATE_OFFLINE None ?c = Some (?c\<lparr>sock_out := [(0, str ''STATE OFFLINE'')]\<rparr>)"
    by (simp add: sendto_monitor_def monitor_text_def upil_ril_unsolicited_def sock_send_def offline_phone_def blank_phone_def)
  ultimately have "offline_enter ?c = Some (?c\<lparr>sock_out := [(0, str ''STATE OFFLINE'')]\<rparr>)"
    by (simp add: offline_enter_def)
  moreover have "get_state my_state_table UPIL_SM_OFFLINE = Some 0"
    using get_state_table[of 0] by simp
  ultimately show ?thesis
    by (simp add: sm_set_init_state_def transition_to_def cur_entry_def call_func_def process_defer_msg_def
        offline_phone_def blank_phone_def my_state_table_def)
qed

lemma upil_sm_start_ok:
  assumes "fd_ok r"
  shows "\<exists>pool. upil_sm_start (str ''MainSM'' @ [0]) 0 (Some (r, w))
      (sm_init_pool (replicate MAX_STATE_MACHINE (blank_phone now t wr))) = Some (Some 0, pool) \<and> upil_ok (pool ! 0)"
proof -
  let ?b = "blank_phone now t wr"
  let ?o = "offline_phone r w now t wr"
  let ?nm = "str ''MainSM'' @ replicate 58 0"
  let ?c = "?o\<lparr>sock_out := [(0, str ''STATE OFFLINE'')]\<rparr>"
  have nm: "fsm_name ?o = replicate 64 0" "(replicate 64 (0::byte))[0 := 0] = replicate 64 0"
    by (simp_all add: offline_phone_def blank_phone_def list_update_same_conv)
  have idle: "get_idle_fsm (replicate MAX_STATE_MACHINE ?b) = Some 0"
    by (simp add: MAX_STATE_MACHINE_def blank_phone_def numeral_eq_Suc)
  let ?p = "(replicate MAX_STATE_MACHINE ?b)[0 := ?o\<lparr>cur_state := None\<rparr>]"
  have "?o\<lparr>table_set := True, fsm_size := 7, cur_state := None, fsm_name := replicate 64 0\<rparr> = ?o\<lparr>cur_state := None\<rparr>"
    by (simp add: offline_phone_def blank_phone_def)
  then have ob: "sm_obtain_fsm (int (length my_state_table)) 0 (Some (r, w)) (replicate MAX_STATE_MACHINE ?b) = Some (Some 0, ?p)"
    using start_handler_blank[OF assms, of w now t wr] idle nm
    by (simp add: sm_obtain_fsm_def MAX_STATE_MACHINE_def)
  have p0: "?p ! 0 = ?o\<lparr>cur_state := None\<rparr>"
    by (simp add: MAX_STATE_MACHINE_def)
  have "c_string (str ''MainSM'' @ [0]) = str ''MainSM''"
    by (rule c_string_append_nul) simp
  then have bl: "blit (fsm_name ?c) 0 (c_string (str ''MainSM'' @ [0]) @ [0]) = Some (str ''MainSM'' @ 0 # drop 7 (replicate 64 0))"
    using nm by (simp add: blit_def)
  have "upil_sm_start (str ''MainSM'' @ [0]) 0 (Some (r, w)) (replicate MAX_STATE_MACHINE ?b) =
      Some (Some 0, ?p[0 := ?c\<lparr>fsm_name := str ''MainSM'' @ 0 # drop 7 (replicate 64 0)\<rparr>])"
    by (simp only: upil_sm_start_def ob p0 enter_offline bl Option.bind.bind_lunit case_prod_conv option.case)
  moreover have "upil_ok (?c\<lparr>fsm_name := n\<rparr>)" for n
  proof -
    have "runs ?o (Some (?c\<lparr>fsm_name := n\<rparr>))"
      using offline_phone_ok[of r w now t wr]
      by (intro phone_ok_client) (auto simp: upil_ok_def same_handler_def wake_ok_def phone_ok_def)
    from runs_upil_ok[OF offline_phone_ok this] show ?thesis
      by simp
  qed
  ultimately show ?thesis
    unfolding init_pool_blank by (simp add: MAX_STATE_MACHINE_def del: list_update.simps)
qed

section \<open>Properties\<close>



text \<open>
  Property C28.  A client that sends \<open>DIAL\<close> and a number has it queued for the state
  machine exactly as it sent it, and is answered \<open>[SUCCESS]\<close>; when the queue is full the
  answer is \<open>[FAILURE]\<close> and nothing changes.  \<open>DIAL\<close> alone answers a call.
\<close>

theorem control_dial_queued:
  assumes c: "phone_ok c" and n: "0 \<notin> set n" "number_ok n"
  shows "\<exists>c'. cmd_processCommandBuffer fd (command_buffer UPIL_MAX_MSG_LEN (str ''DIAL'' @ n)) c = Some c' \<and>
    (if length (queued c) < 31
     then queued c' = queued c @ [(UPIL_CTL_HANDFREE_ON, if n = [] then None else Some (n @ [0, 0]), due c 0)]
       \<and> sock_out c' = sock_out c @ [(fd, str ''[SUCCESS]'')]
     else c' = c\<lparr>sock_out := sock_out c @ [(fd, str ''[FAILURE]'')]\<rparr>)"
proof -
  have "length (str ''DIAL'' @ n) \<le> UPIL_MAX_MSG_LEN - 1" "0 \<notin> set (str ''DIAL'' @ n)"
    using n by (simp_all add: number_ok_def UPIL_MAX_MSG_LEN_def)
  then have "command_line UPIL_MAX_MSG_LEN (str ''DIAL'' @ n) = str ''DIAL'' @ n"
    unfolding command_line_def by (simp only: take_all) (rule c_string_id)
  from control_dial[OF c this n(2), of fd] obtain r c' where
      1: "cmd_processCommandBuffer fd (command_buffer UPIL_MAX_MSG_LEN (str ''DIAL'' @ n)) c = Some (cmd_process_reply fd r None c')"
      "told c (UPIL_CTL_HANDFREE_ON, dial_data n, due c 0) r c'"
    by blast
  have "handler.more c' = handler.more c"
    using 1(2) by (simp add: told_def same_client_def)
  then have so: "sock_out c' = sock_out c"
    by (cases c; cases c'; simp)
  have q: "queued (sock_send fd bs c') = queued c'" for bs
    using same_handler_eqs(2)[of c' "sock_send fd bs c'"] by (simp add: same_handler_def sock_send_def)
  show ?thesis
    using 1 so q
    by (cases "length (queued c) < 31") (simp_all add: told_def cmd_process_reply_def UPIL_MAX_MSG_LEN_def sock_send_def dial_data_def)
qed

theorem control_dial_queued_witness:
  "\<exists>c'. cmd_processCommandBuffer 20 (command_buffer UPIL_MAX_MSG_LEN (str ''DIAL'' @ str ''110'')) (phone_at 2 [] 0) = Some c'
    \<and> queued c' = [(UPIL_CTL_HANDFREE_ON, Some (str ''110'' @ [0, 0]), TV 0 0)]
    \<and> sock_out c' = [(20, str ''[SUCCESS]'')]"
proof -
  have "phone_ok (phone_at 2 [] 0)"
    by (rule phone_at_ok) simp_all
  from control_dial_queued[OF this, of "str ''110''" 20] show ?thesis
    by (auto simp: number_ok_def dialable_def dial_code_def phone_at_def queued_def due_def timeradd_def)
qed

text \<open>
  The length that is compared for \<open>GET_CURR_STATE\<close> is that of
  \<open>GET_VERSION\<close>: every command that begins with \<open>GET_CURR_ST\<close> is answered with the
  current state of the machine.
\<close>

lemma state_command_by_prefix:
  assumes "phone_ok c" and "prefix (str ''GET_CURR_ST'') (command_line UPIL_MAX_MSG_LEN bs)"
  shows "\<exists>s. cur_state c = Some (nat s) \<and> 0 \<le> s \<and>
    cmd_processCommandBuffer fd (command_buffer UPIL_MAX_MSG_LEN bs) c =
      Some (c\<lparr>sock_out := sock_out c @ [(fd, str ''[SUCCESS]'' @ dec_int s)]\<rparr>)"
proof -
  obtain s where s: "upil_sm_get_current_state c = Some s" "cur_state c = Some (nat s)" "0 \<le> s" "s < 7"
    using current_state_ok[OF assms(1)] by blast
  moreover have "length (dec_int s) = 1"
    using s(3,4) by (simp add: dec_int_def dec_nat.simps)
  ultimately show ?thesis
    using control_state[OF assms, of fd] by (auto simp: cmd_process_reply_def sock_send_def UPIL_MAX_MSG_LEN_def)
qed

lemma state_command_by_prefix_witness:
  "\<exists>s. cur_state (phone_at 2 [] 0) = Some (nat s) \<and> 0 \<le> s \<and>
    cmd_processCommandBuffer 20 (command_buffer UPIL_MAX_MSG_LEN (str ''GET_CURR_STUFF'')) (phone_at 2 [] 0) =
      Some ((phone_at 2 [] 0)\<lparr>sock_out := sock_out (phone_at 2 [] 0) @ [(20, str ''[SUCCESS]'' @ dec_int s)]\<rparr>)"
proof (rule state_command_by_prefix)
  show "phone_ok (phone_at 2 [] 0)"
    by (rule phone_at_ok) simp_all
qed (simp add: command_line_def UPIL_MAX_MSG_LEN_def c_string_def)

text \<open>A dial command that finds room in the queue: the number without its last character is
  queued, and the answer waits.\<close>

lemma ril_dial_queued:
  assumes c: "phone_ok c" and n: "0 \<notin> set n" "number_ok n" and z: "z \<noteq> 0" and room: "length (queued c) < 31"
  shows "\<exists>c'. ril_processCommandBuffer fd (command_buffer MAX_AT_COMMAND (str ''ATD'' @ n @ [z])) c = Some c'
    \<and> queued c' = queued c @ [(UPIL_CTL_HANDFREE_ON, dial_data n, due c 0)]
    \<and> sock_out c' = sock_out c \<and> s_wait_response c' = 1 \<and> s_fd_ril c' = s_fd_ril c"
proof -
  let ?l = "str ''ATD'' @ n @ [z]"
  have "length ?l \<le> MAX_AT_COMMAND - 1" "0 \<notin> set ?l"
    using n z by (simp_all add: number_ok_def MAX_AT_COMMAND_def)
  then have l: "command_line MAX_AT_COMMAND ?l = ?l"
    unfolding command_line_def by (simp only: take_all) (rule c_string_id)
  have "prefix (str ''ATD'') (command_line MAX_AT_COMMAND ?l)" "n = butlast (drop 3 (command_line MAX_AT_COMMAND ?l))"
    unfolding l by simp_all
  from ril_dial[OF c this n(2), of fd] obtain c' where
      1: "ril_processCommandBuffer fd (command_buffer MAX_AT_COMMAND ?l) c = Some (c'\<lparr>s_wait_response := 1\<rparr>)"
      "queued c' = queued c @ [(UPIL_CTL_HANDFREE_ON, dial_data n, due c 0)]" "same_client c c'"
    using room by (auto simp: told_def)
  have "handler.more c' = handler.more c"
    using 1(3) by (simp add: same_client_def)
  then have more: "sock_out c' = sock_out c" "s_fd_ril c' = s_fd_ril c"
    by (cases c; cases c'; simp)+
  have "queued (c'\<lparr>s_wait_response := 1\<rparr>) = queued c'"
    using same_handler_eqs(2)[of c' "c'\<lparr>s_wait_response := 1\<rparr>"] by (simp add: same_handler_def)
  then show ?thesis
    using 1(1,2) more by simp
qed

text \<open>
  Property C29.  A dial command of the RIL is not answered at once: its number, without
  the character at the end of the line, is queued for the machine, and the report that the
  machine dials answers \<open>OK\<close> and ends the wait.
\<close>

theorem ril_dial_answered:
  assumes c: "phone_ok c" and n: "0 \<notin> set n" "number_ok n" and z: "z \<noteq> 0" and room: "length (queued c) < 31"
  shows "\<exists>c'. ril_processCommandBuffer fd (command_buffer MAX_AT_COMMAND (str ''ATD'' @ n @ [z])) c = Some c'
    \<and> queued c' = queued c @ [(UPIL_CTL_HANDFREE_ON, if n = [] then None else Some (n @ [0, 0]), due c 0)]
    \<and> sock_out c' = sock_out c \<and> s_wait_response c' = 1
    \<and> upil_ril_unsolicited UPIL_STATE_DIALING c' =
        c'\<lparr>sock_out := sock_out c @ [(s_fd_ril c, str ''OK'' @ [10, 0])], s_wait_response := 0\<rparr>"
  using ril_dial_queued[OF assms, of fd]
  by (auto simp: dial_data_def upil_ril_unsolicited_def ril_process_reply_def sock_send_def)

theorem ril_dial_answered_witness:
  "\<exists>c'. ril_processCommandBuffer 21 (command_buffer MAX_AT_COMMAND (str ''ATD'' @ str ''110'' @ [59])) (phone_at 2 [] 0) = Some c'
    \<and> queued c' = [(UPIL_CTL_HANDFREE_ON, Some (str ''110'' @ [0, 0]), TV 0 0)]"
proof -
  have "phone_ok (phone_at 2 [] 0)"
    by (rule phone_at_ok) simp_all
  from ril_dial_answered[OF this, of "str ''110''" 59 21] show ?thesis
    by (auto simp: number_ok_def dialable_def dial_code_def phone_at_def queued_def due_def timeradd_def)
qed

text \<open>
  A hang-up command of the RIL while the telephone is idle is never
  answered: nothing is written, and the message it queues changes nothing when the idle
  state processes it, so the state report that would answer it does not come.
\<close>

lemma ril_hangup_idle_unanswered:
  assumes c: "phone_ok c" and room: "length (queued c) < 31"
  shows "\<exists>c'. ril_processCommandBuffer fd (command_buffer MAX_AT_COMMAND (str ''AT+CHLD=1'' @ [13])) c = Some c'
    \<and> sock_out c' = sock_out c \<and> s_wait_response c' = 1
    \<and> queued c' = queued c @ [(UPIL_CTL_HANDFREE_OFF, None, due c 0)]
    \<and> (\<forall>p. idle_process \<lparr>msg_what = UPIL_CTL_HANDFREE_OFF, msg_data_size = 0, msg_data = None\<rparr> p = Some (HANDLED, p))"
proof -
  let ?l = "str ''AT+CHLD=1'' @ [13]"
  have "prefix (str ''AT+CHLD='') (command_line MAX_AT_COMMAND ?l)"
    by (simp add: command_line_def MAX_AT_COMMAND_def c_string_def)
  from ril_hangup[OF c this, of fd] obtain c' where
      1: "ril_processCommandBuffer fd (command_buffer MAX_AT_COMMAND ?l) c = Some (c'\<lparr>s_wait_response := 1\<rparr>)"
      "queued c' = queued c @ [(UPIL_CTL_HANDFREE_OFF, None, due c 0)]" "same_client c c'"
    using room by (auto simp: told_def)
  have "handler.more c' = handler.more c"
    using 1(3) by (simp add: same_client_def)
  then have "sock_out c' = sock_out c"
    by (cases c; cases c'; simp)
  moreover have "queued (c'\<lparr>s_wait_response := 1\<rparr>) = queued c'"
    using same_handler_eqs(2)[of c' "c'\<lparr>s_wait_response := 1\<rparr>"] by (simp add: same_handler_def)
  ultimately show ?thesis
    using 1(1,2) by (simp add: idle_process_def default_process_def handled_def)
qed

lemma ril_hangup_idle_unanswered_witness:
  "\<exists>c'. ril_processCommandBuffer 21 (command_buffer MAX_AT_COMMAND (str ''AT+CHLD=1'' @ [13])) (phone_at 2 [] 0) = Some c'
    \<and> sock_out c' = [] \<and> s_wait_response c' = 1"
proof -
  have "phone_ok (phone_at 2 [] 0)"
    by (rule phone_at_ok) simp_all
  from ril_hangup_idle_unanswered[OF this, of 21] show ?thesis
    by (auto simp: phone_at_def queued_def)
qed

text \<open>
  When \<open>accept\<close> fails, the listening callback watches the listening
  socket again but returns -1, and \<open>firePending\<close> stops at it: the events behind it are
  not fired, and the loop ends, upon which the program is killed.
\<close>

lemma accept_failure_ends_loop:
  assumes inv: "timers_inv c" and p: "pending_list c = CMD_LISTEN # rest"
    and e: "evs c CMD_LISTEN = Some e" "ev_func e = CbCmdListen" "fd_ok (ev_fd e)" and acc: "accepted w (ev_fd e) < 0"
  shows "\<exists>c'. firePending (main_callback w) c = Some (-1, c') \<and> pending_list c' = rest"
proof -
  let ?c = "c\<lparr>pending_list := rest\<rparr>"
  obtain c1 where c1: "uew_event_add_wakeup CMD_LISTEN ?c = Some c1"
    using e by (cases "first_free (watch_table c)") (auto simp: uew_event_add_wakeup_def upil_event_add_def)
  then have "main_callback w e ?c = Some (-1, c1)"
    using e(2) acc by (simp add: main_callback_def cmd_listenCallback_def)
  then have "run_callbacks (main_callback w) (pending_list c) c = Some (-1, c1)"
    using p e(1) by simp
  moreover have "pending_list c1 = rest"
    using same_lists_add[OF c1] by (simp add: same_lists_def)
  ultimately show ?thesis
    using main_loop.firePending_runs[OF inv] by simp
qed

lemma accept_failure_ends_loop_witness:
  "\<exists>c'. firePending (main_callback \<lparr>accepted = (\<lambda>_. -1), received = (\<lambda>_. None)\<rparr>) (upil_at [1, 3] (phone_at 2 [] 0)) = Some (-1, c')
    \<and> pending_list c' = [3]"
  by (rule accept_failure_ends_loop) (auto simp: timers_inv_def fd_ok_def)

text \<open>
  When the RIL closes its connection, the descriptor is closed but stays in
  \<open>s_fd_ril\<close>: the next incoming call is written to the closed descriptor, which by then
  may be another client's.
\<close>

lemma closed_ril_descriptor_used:
  assumes inv: "watch_inv c" and k: "Some RIL_COMMANDS \<in> set (watch_table c)" "evs c RIL_COMMANDS = Some e" "ev_fd e = fd"
    and l: "evs c RIL_LISTEN = Some el" "fd_ok (ev_fd el)" "ev_fd el \<notin> readFds c" "Some RIL_LISTEN \<notin> set (watch_table c)"
    and gone: "received w fd = Some []" and cur: "s_fd_ril (fsm_of c) = fd"
  shows "\<exists>c'. ril_processCommandsCallback w fd c = Some (0, c') \<and> closed c' = closed c @ [fd]
    \<and> sendto_monitor UPIL_STATE_INCOMING None (fsm_of c') =
        Some ((fsm_of c)\<lparr>sock_out := sock_out (fsm_of c) @
          [(s_fdMonitor (fsm_of c), str ''STATE INCOMING''), (fd, str ''RING'' @ [10, 0])]\<rparr>)"
proof -
  have "RIL_LISTEN \<noteq> RIL_COMMANDS"
    by simp
  then obtain c2 where "hang_up_client fd RIL_COMMANDS RIL_LISTEN c = Some c2" "closed c2 = closed c @ [fd]" "fsm_ref c2 = fsm_ref c"
    using disconnect_client[OF inv k l] by blast
  then show ?thesis
    using gone cur
    by (auto simp: ril_processCommandsCallback_def sendto_monitor_def monitor_text_def upil_ril_unsolicited_def sock_send_def)
qed

lemma closed_ril_descriptor_used_witness:
  "\<exists>c c'. ril_processCommandsCallback \<lparr>accepted = (\<lambda>_. -1), received = (\<lambda>_. Some [])\<rparr> 6 c = Some (0, c') \<and> closed c' = [6]
    \<and> sendto_monitor UPIL_STATE_INCOMING None (fsm_of c') =
        Some ((fsm_of c)\<lparr>sock_out := sock_out (fsm_of c) @
          [(s_fdMonitor (fsm_of c), str ''STATE INCOMING''), (6, str ''RING'' @ [10, 0])]\<rparr>)"
proof -
  let ?w = "\<lparr>accepted = (\<lambda>_. -1), received = (\<lambda>_. Some [])\<rparr> :: world"
  let ?c = "upil_at [] (phone_at 2 [] 0)"
  obtain c1 e where c1: "watch_inv (c1 :: upil)" "readFds c1 = {6}" "Some RIL_COMMANDS \<in> set (watch_table c1)"
      "set (watch_table c1) \<subseteq> {Some RIL_COMMANDS, None}" "evs c1 RIL_COMMANDS = Some e" "ev_fd e = 6"
      "\<forall>a. a \<noteq> RIL_COMMANDS \<longrightarrow> evs c1 a = evs ?c a" "fsm_ref c1 = FSM (phone_at 2 [] 0)" "closed c1 = []"
    using connect_client[OF upil_at_watch, of RIL_COMMANDS "[]" "phone_at 2 [] 0" 6 CbRilCommands]
    by (simp add: linked_def fd_ok_def) blast
  have "evs c1 RIL_LISTEN = Some (listening 13 CbRilListen)" "s_fd_ril (fsm_of c1) = 6"
    using c1(7,8) by (simp_all add: phone_at_def)
  moreover have "Some RIL_LISTEN \<notin> set (watch_table c1)"
    using c1(4) by auto
  ultimately show ?thesis
    using closed_ril_descriptor_used[OF c1(1,3,5,6), of "listening 13 CbRilListen" ?w] c1(2,9)
    by (fastforce simp: fd_ok_def)
qed

end
