(* ===== verification/Ctrl.thy ===== *)
theory Ctrl
  imports System C_Strings
begin

text \<open>
  The control library \<open>upil_ctrl.c\<close>, with which client programs send commands to the
  control socket and read the monitor socket.  The library's state are three descriptors;
  \<open>ctl_sent\<close> and \<open>ctl_closed\<close> record its writes and the descriptors it closes.  What
  the system calls return is an argument of the operations.  A string is given without
  its NUL, an array with its length, and \<open>None\<close> is an access outside of an array.
\<close>

section \<open>State and requests\<close>

record ctrl =
  s_fd_sender :: int
  s_fd_monitor :: int
  s_fd_wakeup :: int
  ctl_sent :: "(int \<times> byte list) list"
  ctl_closed :: "int list"

text \<open>\<open>strcpy (dst, src)\<close> into an array.\<close>

definition strcpy :: "byte list \<Rightarrow> byte list \<Rightarrow> byte list option" where
  "strcpy dst src = blit dst 0 (src @ [0])"

text \<open>
  The system calls of a request: whether \<open>send\<close> succeeds, what \<open>select\<close> returns and
  whether the socket is readable, and what \<open>recv\<close> returns.
\<close>

record request_env =
  env_send :: bool
  env_select :: int
  env_ready :: bool
  env_recv :: "byte list option"

definition upil_ctrl_request ::
    "request_env \<Rightarrow> byte list \<Rightarrow> byte list \<Rightarrow> ctrl \<Rightarrow> (int \<times> byte list \<times> ctrl) option" where
  "upil_ctrl_request env cmd reply c = do {
     reply \<leftarrow> blit reply 0 [0];
     if \<not> env_send env then Some (-1, reply, c)
     else do {
       let c = c\<lparr>ctl_sent := ctl_sent c @ [(s_fd_sender c, cmd)]\<rparr>;
       if \<not> fd_ok (s_fd_sender c) then None
       else if env_select env < 0 then Some (-2, reply, c)
       else if \<not> env_ready env then Some (-2, reply, c)
       else case env_recv env of
         None \<Rightarrow> Some (-2, reply, c)
       | Some bs \<Rightarrow> do {
           let msg = c_string (take (UPIL_MAX_MSG_LEN - 1) bs);
           if strncmp_eq msg REPLY_SUCCESS (length REPLY_SUCCESS)
           then do { reply \<leftarrow> strcpy reply (drop (length REPLY_SUCCESS) msg); Some (0, reply, c) }
           else if strncmp_eq msg REPLY_FAILURE (length REPLY_FAILURE)
           then do { reply \<leftarrow> strcpy reply (drop (length REPLY_FAILURE) msg); Some (-3, reply, c) }
           else do { reply \<leftarrow> strcpy reply msg; Some (-3, reply, c) } } } }"

definition upil_ctrl_dial :: "request_env \<Rightarrow> byte list option \<Rightarrow> ctrl \<Rightarrow> (int \<times> ctrl) option" where
  "upil_ctrl_dial env number c = do {
     cmd \<leftarrow> strcpy (replicate 64 0) (UPIL_CTRL_DIAL @ (case number of None \<Rightarrow> [] | Some n \<Rightarrow> n));
     (r, _, c) \<leftarrow> upil_ctrl_request env (c_string cmd) (replicate 10 0) c;
     Some (if r < 0 then -1 else 0, c) }"

definition upil_ctrl_hangup :: "request_env \<Rightarrow> ctrl \<Rightarrow> (int \<times> ctrl) option" where
  "upil_ctrl_hangup env c = do {
     (r, _, c) \<leftarrow> upil_ctrl_request env UPIL_CTRL_HANGUP (replicate 128 0) c;
     Some (if r < 0 then -1 else 0, c) }"

definition upil_ctrl_get_version :: "request_env \<Rightarrow> byte list \<Rightarrow> ctrl \<Rightarrow> (int \<times> byte list \<times> ctrl) option" where
  "upil_ctrl_get_version env version c = do {
     (r, reply, c) \<leftarrow> upil_ctrl_request env UPIL_CTRL_GET_VER (replicate 128 0) c;
     if r < 0 then Some (-1, version, c)
     else do {
       b \<leftarrow> nth_opt reply 0;
       if b \<noteq> 0
       then do { version \<leftarrow> strcpy version (c_string reply); Some (0, version, c) }
       else Some (0, version, c) } }"

text \<open>\<open>state\<close> is what \<open>*p_state\<close> holds before.\<close>

definition upil_ctrl_get_state :: "request_env \<Rightarrow> int \<Rightarrow> ctrl \<Rightarrow> (int \<times> int \<times> ctrl) option" where
  "upil_ctrl_get_state env state c = do {
     (r, reply, c) \<leftarrow> upil_ctrl_request env UPIL_CTRL_GET_STATE (replicate 128 0) c;
     if r < 0 then Some (-1, state, c)
     else do {
       b \<leftarrow> nth_opt reply 0;
       if b \<noteq> 0
       then do { state \<leftarrow> atoi (c_string reply); Some (0, state, c) }
       else Some (0, state, c) } }"

section \<open>Connections\<close>

text \<open>What \<open>socket\<close> and \<open>connect\<close> return.\<close>

record connect_env =
  env_socket :: int
  env_connect :: int

definition upil_ctrl_connect :: "connect_env \<Rightarrow> ctrl \<Rightarrow> int \<times> ctrl" where
  "upil_ctrl_connect env c =
     (let c = c\<lparr>s_fd_sender := env_socket env\<rparr> in
      if s_fd_sender c \<le> 0 then (-1, c) else if env_connect env < 0 then (-1, c) else (0, c))"

definition upil_ctrl_disconnect :: "ctrl \<Rightarrow> int \<times> ctrl" where
  "upil_ctrl_disconnect c =
     (let c = (if s_fd_sender c \<ge> 0 then c\<lparr>ctl_closed := ctl_closed c @ [s_fd_sender c]\<rparr> else c)
      in (0, c\<lparr>s_fd_monitor := -1\<rparr>))"

definition upil_monitor_connect :: "connect_env \<Rightarrow> ctrl \<Rightarrow> int \<times> ctrl" where
  "upil_monitor_connect env c =
     (let c = c\<lparr>s_fd_monitor := env_socket env\<rparr> in
      if s_fd_monitor c \<le> 0 then (-1, c) else if env_connect env < 0 then (-1, c) else (0, c))"

definition upil_monitor_disconnect :: "ctrl \<Rightarrow> int \<times> ctrl" where
  "upil_monitor_disconnect c =
     (let c = (if s_fd_wakeup c \<ge> 0 then c\<lparr>ctl_sent := ctl_sent c @ [(s_fd_wakeup c, str ''.'')]\<rparr> else c);
          c = c\<lparr>s_fd_wakeup := -1\<rparr>;
          c = (if s_fd_monitor c \<ge> 0 then c\<lparr>ctl_closed := ctl_closed c @ [s_fd_monitor c]\<rparr> else c)
      in (0, c\<lparr>s_fd_monitor := -1\<rparr>))"

text \<open>
  What \<open>pipe\<close> returns, whether \<open>select\<close> finds the monitor socket readable, and what
  \<open>recv\<close> returns.
\<close>

record recv_env =
  env_pipe :: "(int \<times> int) option"
  env_readable :: bool
  env_data :: "byte list option"

text \<open>When \<open>recv\<close> fails or the stream is at its end, \<open>ret\<close> is -1 and \<open>buf[ret]\<close> is
  written, in front of the buffer.\<close>

definition upil_monitor_recv :: "recv_env \<Rightarrow> byte list \<Rightarrow> ctrl \<Rightarrow> (int \<times> byte list \<times> ctrl) option" where
  "upil_monitor_recv env buf c =
     (case env_pipe env of None \<Rightarrow> Some (-1, buf, c)
      | Some (pair0, pair1) \<Rightarrow>
          if \<not> fd_ok (s_fd_monitor c) \<or> \<not> fd_ok pair1 then None
          else do {
            (ret, buf) \<leftarrow>
              (if env_readable env
               then do {
                 bs \<leftarrow> env_data env;
                 let got = take (length buf - 1) bs;
                 if got = [] then None
                 else do { buf \<leftarrow> blit buf 0 (got @ [0]); Some (int (length got), buf) } }
               else Some (-1, buf));
            Some (ret, buf, c\<lparr>s_fd_wakeup := 0, ctl_closed := ctl_closed c @ [pair0, pair1]\<rparr>) })"

definition upil_connect :: "connect_env \<Rightarrow> connect_env \<Rightarrow> ctrl \<Rightarrow> int \<times> ctrl" where
  "upil_connect env1 env2 c =
     (let (ret, c) = upil_ctrl_connect env1 c in
      if ret < 0 then (-1, c)
      else let (ret, c) = upil_monitor_connect env2 c in
        if ret < 0 then (-2, snd (upil_ctrl_disconnect c)) else (0, c))"

definition upil_disconnect :: "ctrl \<Rightarrow> ctrl" where
  "upil_disconnect c = snd (upil_monitor_disconnect (snd (upil_ctrl_disconnect c)))"

text \<open>\<open>junk\<close> is what the uninitialised variable \<open>state\<close> holds.\<close>

definition upil_is_device_exist :: "request_env \<Rightarrow> int \<Rightarrow> ctrl \<Rightarrow> (int \<times> ctrl) option" where
  "upil_is_device_exist env junk c = do {
     (r, state, c) \<leftarrow> upil_ctrl_get_state env junk c;
     Some (if r < 0 \<or> state = UPIL_SM_OFFLINE then 0 else 1, c) }"

definition upil_is_device_ready :: "request_env \<Rightarrow> int \<Rightarrow> ctrl \<Rightarrow> (int \<times> ctrl) option" where
  "upil_is_device_ready env junk c = do {
     (r, state, c) \<leftarrow> upil_ctrl_get_state env junk c;
     Some (if r < 0 \<or> state < UPIL_SM_IDLE then 0 else 1, c) }"

definition upil_ril_write :: "request_env \<Rightarrow> byte list \<Rightarrow> ctrl \<Rightarrow> (int \<times> ctrl) option" where
  "upil_ril_write env buffer c =
     (if strncmp_eq buffer (str ''ATD'') 3
      then do { (_, c) \<leftarrow> upil_ctrl_dial env (Some (drop 3 buffer)) c; Some (0, c) }
      else Some (0, c))"

definition upil_ril_read :: "recv_env \<Rightarrow> recv_env \<Rightarrow> byte list \<Rightarrow> ctrl \<Rightarrow> (int \<times> byte list \<times> ctrl) option" where
  "upil_ril_read env1 env2 buffer c = do {
     (rb, buffer, c) \<leftarrow> upil_monitor_recv env1 buffer c;
     if rb \<le> 0 then Some (rb, buffer, c) else upil_monitor_recv env2 buffer c }"

section \<open>Properties\<close>

lemma strcpy_ok:
  "length s < length dst \<Longrightarrow> 0 \<notin> set s \<Longrightarrow> \<exists>d. strcpy dst s = Some d \<and> c_string d = s \<and> length d = length dst"
  by (auto simp: strcpy_def blit_def c_string_append_nul)

text \<open>A request that is answered with success and a text of digits.\<close>

lemma request_success:
  assumes "fd_ok (s_fd_sender c)" and "0 \<notin> set t" and "length t < length reply" and "length t \<le> 500"
  shows "\<exists>d. upil_ctrl_request \<lparr>env_send = True, env_select = 1, env_ready = True, env_recv = Some (REPLY_SUCCESS @ t)\<rparr> cmd reply c
      = Some (0, d, c\<lparr>ctl_sent := ctl_sent c @ [(s_fd_sender c, cmd)]\<rparr>) \<and> c_string d = t \<and> length d = length reply"
proof -
  let ?m = "REPLY_SUCCESS @ t"
  have "length ?m \<le> UPIL_MAX_MSG_LEN - 1" "0 \<notin> set ?m"
    using assms by (simp_all add: UPIL_MAX_MSG_LEN_def)
  then have m: "c_string (take (UPIL_MAX_MSG_LEN - 1) ?m) = ?m"
    by (simp only: take_all) (rule c_string_id)
  have cmp: "strncmp_eq ?m REPLY_SUCCESS (length REPLY_SUCCESS)" "drop (length REPLY_SUCCESS) ?m = t"
    by (simp_all add: strncmp_eq_def)
  have b: "blit reply 0 [0] = Some (0 # drop 1 reply)"
    using assms(3) by (cases reply) (simp_all add: blit_def)
  have "length t < length (0 # drop 1 reply)"
    using assms(3) by auto
  from strcpy_ok[OF this assms(2)] obtain d where d: "strcpy (0 # drop 1 reply) t = Some d" "c_string d = t"
      "length d = length reply"
    using assms(3) by auto
  have "upil_ctrl_request \<lparr>env_send = True, env_select = 1, env_ready = True, env_recv = Some ?m\<rparr> cmd reply c
      = Some (0, d, c\<lparr>ctl_sent := ctl_sent c @ [(s_fd_sender c, cmd)]\<rparr>)"
    using assms(1) by (simp only: upil_ctrl_request_def Let_def b m cmp d(1) if_True if_False Option.bind.bind_lunit
        request_env.simps option.case ctrl.simps simp_thms) simp
  then show ?thesis
    using d by blast
qed

text \<open>
  Property C30.  A client learns the state of the machine: what the control socket answers
  to the command that \<open>upil_ctrl_get_state\<close> sends makes the client's call succeed with
  the number of the machine's current state.
\<close>

theorem client_learns_state:
  assumes p: "phone_ok p" and c: "fd_ok (s_fd_sender c)"
  shows "\<exists>p' answer s. cmd_processCommandBuffer fd (command_buffer UPIL_MAX_MSG_LEN UPIL_CTRL_GET_STATE) p = Some p'
    \<and> sock_out p' = sock_out p @ [(fd, answer)] \<and> 0 \<le> s \<and> cur_state p = Some (nat s)
    \<and> upil_ctrl_get_state \<lparr>env_send = True, env_select = 1, env_ready = True, env_recv = Some answer\<rparr> junk c =
        Some (0, s, c\<lparr>ctl_sent := ctl_sent c @ [(s_fd_sender c, UPIL_CTRL_GET_STATE)]\<rparr>)"
proof -
  obtain s where s: "upil_sm_get_current_state p = Some s" "cur_state p = Some (nat s)" "0 \<le> s" "s < 7"
    using current_state_ok[OF p] by blast
  have line: "prefix (str ''GET_CURR_ST'') (command_line UPIL_MAX_MSG_LEN UPIL_CTRL_GET_STATE)"
    by (simp add: command_line_def UPIL_MAX_MSG_LEN_def c_string_def)
  let ?t = "dec_int s"
  have t: "length ?t = 1" "\<forall>d\<in>set ?t. is_digit d"
    using s(3,4) dec_nat_digits[of "nat s"] by (auto simp: dec_int_def dec_nat.simps)
  then have t0: "0 \<notin> set ?t"
    using digit_no_mark by auto
  have cmd: "cmd_processCommandBuffer fd (command_buffer UPIL_MAX_MSG_LEN UPIL_CTRL_GET_STATE) p =
      Some (p\<lparr>sock_out := sock_out p @ [(fd, REPLY_SUCCESS @ ?t)]\<rparr>)"
    using control_state[OF p line, of fd] s(1) t(1) by (auto simp: cmd_process_reply_def sock_send_def UPIL_MAX_MSG_LEN_def)
  obtain d where d: "upil_ctrl_request \<lparr>env_send = True, env_select = 1, env_ready = True, env_recv = Some (REPLY_SUCCESS @ ?t)\<rparr>
        UPIL_CTRL_GET_STATE (replicate 128 0) c =
      Some (0, d, c\<lparr>ctl_sent := ctl_sent c @ [(s_fd_sender c, UPIL_CTRL_GET_STATE)]\<rparr>)" "c_string d = ?t" "length d = 128"
    using request_success[OF c t0, of "replicate 128 0" UPIL_CTRL_GET_STATE] t(1) by auto
  have "d \<noteq> []" "?t \<noteq> []"
    using d(3) t(1) by auto
  then obtain b where b: "nth_opt d 0 = Some b" "b \<noteq> 0"
    using nth_c_string[of d] d(2) by metis
  have "atoi ?t = Some s"
    using s(3,4) by (intro atoi_dec_int) (simp add: in_int_range_def)
  then have "upil_ctrl_get_state \<lparr>env_send = True, env_select = 1, env_ready = True, env_recv = Some (REPLY_SUCCESS @ ?t)\<rparr> junk c =
      Some (0, s, c\<lparr>ctl_sent := ctl_sent c @ [(s_fd_sender c, UPIL_CTRL_GET_STATE)]\<rparr>)"
    using b(2) by (simp only: upil_ctrl_get_state_def d(1,2) b(1) Option.bind.bind_lunit case_prod_conv) simp
  then show ?thesis
    using cmd s by (intro exI[of _ "p\<lparr>sock_out := sock_out p @ [(fd, REPLY_SUCCESS @ ?t)]\<rparr>"] exI[of _ "REPLY_SUCCESS @ ?t"] exI[of _ s]) simp
qed

theorem client_learns_state_witness:
  "\<exists>p' answer s. cmd_processCommandBuffer 20 (command_buffer UPIL_MAX_MSG_LEN UPIL_CTRL_GET_STATE) (phone_at 5 [] 0) = Some p'
    \<and> sock_out p' = [(20, answer)]
    \<and> upil_ctrl_get_state \<lparr>env_send = True, env_select = 1, env_ready = True, env_recv = Some answer\<rparr> 0
         \<lparr>s_fd_sender = 8, s_fd_monitor = 9, s_fd_wakeup = -1, ctl_sent = [], ctl_closed = []\<rparr> =
        Some (0, 5, \<lparr>s_fd_sender = 8, s_fd_monitor = 9, s_fd_wakeup = -1, ctl_sent = [(8, UPIL_CTRL_GET_STATE)], ctl_closed = []\<rparr>)"
proof -
  have "phone_ok (phone_at 5 [] 0)"
    by (rule phone_at_ok) simp_all
  moreover have "fd_ok (s_fd_sender \<lparr>s_fd_sender = 8, s_fd_monitor = 9, s_fd_wakeup = -1, ctl_sent = [], ctl_closed = []\<rparr>)"
    by (simp add: fd_ok_def)
  moreover have "sock_out (phone_at 5 [] 0) = []"
    by (simp add: phone_at_def)
  ultimately show ?thesis
    using client_learns_state[of "phone_at 5 [] 0" "\<lparr>s_fd_sender = 8, s_fd_monitor = 9, s_fd_wakeup = -1, ctl_sent = [], ctl_closed = []\<rparr>" 20 0]
    by (auto simp: nat_eq_iff)
qed

text \<open>
  A client dials: \<open>upil_ctrl_dial\<close> with a number of up to 59 characters
  sends one command, which the control socket takes as a request to call exactly this
  number, and with its answer the client's call succeeds.  A number of 60 or more
  characters overflows the command buffer of the library.
\<close>

lemma client_dials:
  assumes p: "phone_ok p" "length (queued p) < 31" and c: "fd_ok (s_fd_sender c)"
    and n: "0 \<notin> set n" "n \<noteq> []" "dialable n"
  shows "(if length n < 60
     then \<exists>p' answer cmd. cmd_processCommandBuffer fd (command_buffer UPIL_MAX_MSG_LEN cmd) p = Some p'
       \<and> sock_out p' = sock_out p @ [(fd, answer)]
       \<and> queued p' = queued p @ [(UPIL_CTL_HANDFREE_ON, Some (n @ [0, 0]), due p 0)]
       \<and> upil_ctrl_dial \<lparr>env_send = True, env_select = 1, env_ready = True, env_recv = Some answer\<rparr> (Some n) c =
           Some (0, c\<lparr>ctl_sent := ctl_sent c @ [(s_fd_sender c, cmd)]\<rparr>)
     else upil_ctrl_dial env (Some n) c = None)"
proof (cases "length n < 60")
  case True
  let ?env = "\<lparr>env_send = True, env_select = 1, env_ready = True, env_recv = Some (REPLY_SUCCESS @ [])\<rparr>"
  have num: "number_ok n"
    using n(3) True by (simp add: number_ok_def)
  from control_dial_queued[OF p(1) n(1) num, of fd] obtain p' where p': "cmd_processCommandBuffer fd (command_buffer UPIL_MAX_MSG_LEN (UPIL_CTRL_DIAL @ n)) p = Some p'"
      "queued p' = queued p @ [(UPIL_CTL_HANDFREE_ON, Some (n @ [0, 0]), due p 0)]"
      "sock_out p' = sock_out p @ [(fd, REPLY_SUCCESS @ [])]"
    using p(2) n(2) by auto
  have "length (UPIL_CTRL_DIAL @ n) < length (replicate 64 (0::byte))" "0 \<notin> set (UPIL_CTRL_DIAL @ n)"
    using True n(1) by auto
  from strcpy_ok[OF this] obtain cmd where cmd: "strcpy (replicate 64 0) (UPIL_CTRL_DIAL @ n) = Some cmd" "c_string cmd = UPIL_CTRL_DIAL @ n"
    by blast
  obtain d where d: "upil_ctrl_request ?env (UPIL_CTRL_DIAL @ n) (replicate 10 0) c =
      Some (0, d, c\<lparr>ctl_sent := ctl_sent c @ [(s_fd_sender c, UPIL_CTRL_DIAL @ n)]\<rparr>)"
    using request_success[OF c, of "[]" "replicate 10 0" "UPIL_CTRL_DIAL @ n"] by auto
  have "upil_ctrl_dial ?env (Some n) c = Some (0, c\<lparr>ctl_sent := ctl_sent c @ [(s_fd_sender c, UPIL_CTRL_DIAL @ n)]\<rparr>)"
    by (simp only: upil_ctrl_dial_def option.case cmd d Option.bind.bind_lunit case_prod_conv) simp
  then show ?thesis
    using p' True by auto
next
  case False
  then show ?thesis
    by (simp add: upil_ctrl_dial_def strcpy_def blit_def)
qed

lemma client_dials_witness:
  "\<exists>p' answer cmd. cmd_processCommandBuffer 20 (command_buffer UPIL_MAX_MSG_LEN cmd) (phone_at 2 [] 0) = Some p'
    \<and> upil_ctrl_dial \<lparr>env_send = True, env_select = 1, env_ready = True, env_recv = Some answer\<rparr> (Some (str ''110''))
         \<lparr>s_fd_sender = 8, s_fd_monitor = 9, s_fd_wakeup = -1, ctl_sent = [], ctl_closed = []\<rparr> =
        Some (0, \<lparr>s_fd_sender = 8, s_fd_monitor = 9, s_fd_wakeup = -1, ctl_sent = [(8, cmd)], ctl_closed = []\<rparr>)"
proof -
  let ?c = "\<lparr>s_fd_sender = 8, s_fd_monitor = 9, s_fd_wakeup = -1, ctl_sent = [], ctl_closed = []\<rparr>"
  have "phone_ok (phone_at 2 [] 0)"
    by (rule phone_at_ok) simp_all
  moreover have "fd_ok (s_fd_sender ?c)" "dialable (str ''110'')"
    by (simp_all add: fd_ok_def dialable_def dial_code_def)
  ultimately show ?thesis
    using client_dials[of "phone_at 2 [] 0" ?c "str ''110''" 20] by auto
qed

text \<open>
  \<open>upil_disconnect\<close> after a successful \<open>upil_connect\<close> closes only the
  control connection: closing it resets the descriptor of the monitor connection instead
  of its own, so the monitor connection stays open, and the closed descriptor stays in
  use.
\<close>

lemma disconnect_leaks_monitor:
  assumes "env_socket e1 > 0" and "env_socket e2 > 0" and "env_connect e1 \<ge> 0" and "env_connect e2 \<ge> 0"
    and "env_socket e1 \<noteq> env_socket e2"
  shows "\<exists>c'. upil_connect e1 e2 c = (0, c') \<and> s_fd_sender c' = env_socket e1 \<and> s_fd_monitor c' = env_socket e2
    \<and> ctl_closed (upil_disconnect c') = ctl_closed c @ [env_socket e1]
    \<and> s_fd_sender (upil_disconnect c') = env_socket e1 \<and> s_fd_monitor (upil_disconnect c') = -1"
  using assms
  by (simp add: upil_connect_def upil_ctrl_connect_def upil_monitor_connect_def upil_disconnect_def
      upil_ctrl_disconnect_def upil_monitor_disconnect_def Let_def)

lemma disconnect_leaks_monitor_witness:
  "\<exists>c'. upil_connect \<lparr>env_socket = 8, env_connect = 0\<rparr> \<lparr>env_socket = 9, env_connect = 0\<rparr>
      \<lparr>s_fd_sender = -1, s_fd_monitor = -1, s_fd_wakeup = -1, ctl_sent = [], ctl_closed = []\<rparr> = (0, c')
    \<and> ctl_closed (upil_disconnect c') = [8]"
  using disconnect_leaks_monitor[of "\<lparr>env_socket = 8, env_connect = 0\<rparr>" "\<lparr>env_socket = 9, env_connect = 0\<rparr>"
      "\<lparr>s_fd_sender = -1, s_fd_monitor = -1, s_fd_wakeup = -1, ctl_sent = [], ctl_closed = []\<rparr>"]
  by auto

text \<open>
  \<open>upil_monitor_recv\<close> returns what the monitor sent, with a NUL behind
  it; at the end of the stream or when \<open>recv\<close> fails it writes in front of the buffer.
\<close>

lemma monitor_recv_result:
  assumes fd: "fd_ok (s_fd_monitor c)" "fd_ok p1" and env: "env_pipe env = Some (p0, p1)" "env_readable env"
    and buf: "1 < length buf"
  shows "(case env_data env of
      Some (b # bs) \<Rightarrow> length (b # bs) < length buf \<longrightarrow>
        (\<exists>buf' c'. upil_monitor_recv env buf c = Some (int (length (b # bs)), buf', c')
           \<and> take (length (b # bs)) buf' = b # bs \<and> buf' ! length (b # bs) = 0 \<and> length buf' = length buf)
    | _ \<Rightarrow> upil_monitor_recv env buf c = None)"
proof (cases "env_data env")
  case None
  then show ?thesis
    using fd env by (simp add: upil_monitor_recv_def)
next
  case (Some bs)
  show ?thesis
  proof (cases bs)
    case Nil
    then show ?thesis
      using Some fd env by (simp add: upil_monitor_recv_def)
  next
    case (Cons b r)
    let ?buf = "((b # r) @ [0]) @ drop (Suc (length (b # r))) buf"
    have "take (length buf - 1) (b # r) = b # r" if "length (b # r) < length buf"
      using that by simp
    then have "upil_monitor_recv env buf c = Some (int (length (b # r)), ?buf,
        c\<lparr>s_fd_wakeup := 0, ctl_closed := ctl_closed c @ [p0, p1]\<rparr>)" if "length (b # r) < length buf"
      using that Some Cons fd env by (simp add: upil_monitor_recv_def blit_def)
    then show ?thesis
      using Some Cons by (auto simp: nth_append)
  qed
qed

lemma monitor_recv_result_witness:
  "\<exists>buf' c'. upil_monitor_recv \<lparr>env_pipe = Some (5, 6), env_readable = True, env_data = Some [82, 73]\<rparr> (replicate 8 0)
      \<lparr>s_fd_sender = 8, s_fd_monitor = 9, s_fd_wakeup = -1, ctl_sent = [], ctl_closed = []\<rparr> = Some (2, buf', c')
    \<and> take 2 buf' = [82, 73]"
  using monitor_recv_result[of "\<lparr>s_fd_sender = 8, s_fd_monitor = 9, s_fd_wakeup = -1, ctl_sent = [], ctl_closed = []\<rparr>"
      6 "\<lparr>env_pipe = Some (5, 6), env_readable = True, env_data = Some [82, 73]\<rparr>" 5 "replicate 8 0"]
  by (auto simp: fd_ok_def eval_nat_numeral)

end
