(* ===== verification/At_Tok.thy ===== *)
theory At_Tok
  imports C_Strings
begin

text \<open>
  The tokenizer of AT response lines, \<open>ril-telephone/at_tok.c\<close>.  The position
  \<open>*p_cur\<close> in a line is the rest of the line before its NUL, and \<open>None\<close> is the null
  pointer.  The functions that return through pointers take the old value of the
  argument and give the result code, the new value and the new position.  The tokens lie
  in the line that \<open>strsep\<close> cuts into strings; they do not overlap, so each one is a
  string of its own.
\<close>

section \<open>Positions and tokens\<close>

definition at_tok_start :: "byte list option \<Rightarrow> int \<times> byte list option" where
  "at_tok_start cur =
     (case cur of None \<Rightarrow> (-1, None)
      | Some s \<Rightarrow> (case dropWhile (\<lambda>b. b \<noteq> 58) s of
          [] \<Rightarrow> (-1, None)
        | _ # r \<Rightarrow> (0, Some r)))"

definition skipWhiteSpace :: "byte list option \<Rightarrow> byte list option" where
  "skipWhiteSpace cur =
     (case cur of None \<Rightarrow> None | Some s \<Rightarrow> Some (dropWhile is_space s))"

definition skipNextComma :: "byte list option \<Rightarrow> byte list option" where
  "skipNextComma cur =
     (case cur of None \<Rightarrow> None
      | Some s \<Rightarrow> Some (case dropWhile (\<lambda>b. b \<noteq> 44) s of [] \<Rightarrow> [] | _ # r \<Rightarrow> r))"

text \<open>\<open>strsep\<close> of the C library with one delimiter.\<close>

definition strsep :: "byte \<Rightarrow> byte list option \<Rightarrow> byte list option \<times> byte list option" where
  "strsep d cur =
     (case cur of None \<Rightarrow> (None, None)
      | Some s \<Rightarrow> (Some (takeWhile (\<lambda>b. b \<noteq> d) s),
          case dropWhile (\<lambda>b. b \<noteq> d) s of [] \<Rightarrow> None | _ # r \<Rightarrow> Some r))"

definition nextTok :: "byte list option \<Rightarrow> byte list option \<times> byte list option" where
  "nextTok cur =
     (case skipWhiteSpace cur of None \<Rightarrow> (None, None)
      | Some [] \<Rightarrow> strsep 44 (Some [])
      | Some (c # r) \<Rightarrow>
          if c = 34
          then (let (ret, cur) = strsep 34 (Some r) in (ret, skipNextComma cur))
          else strsep 44 (Some (c # r)))"

section \<open>Values\<close>

definition int_of_long :: "int \<Rightarrow> int" where
  "int_of_long l = signed_take_bit 31 l"

definition at_tok_nextint_base ::
    "byte list option \<Rightarrow> int \<Rightarrow> int \<Rightarrow> bool \<Rightarrow> int \<times> int \<times> byte list option" where
  "at_tok_nextint_base cur out base uns =
     (if cur = None then (-1, out, cur)
      else (let (ret, cur) = nextTok cur in
        case ret of None \<Rightarrow> (-1, out, cur)
        | Some tok \<Rightarrow>
            (case (if uns then strtoul base tok else strtol base tok) of
               None \<Rightarrow> (-1, 0, cur)
             | Some l \<Rightarrow> (0, int_of_long l, cur))))"

definition at_tok_nextint :: "byte list option \<Rightarrow> int \<Rightarrow> int \<times> int \<times> byte list option" where
  "at_tok_nextint cur out = at_tok_nextint_base cur out 10 False"

definition at_tok_nexthexint :: "byte list option \<Rightarrow> int \<Rightarrow> int \<times> int \<times> byte list option" where
  "at_tok_nexthexint cur out = at_tok_nextint_base cur out 16 True"

text \<open>The result is written through \<open>p_out\<close> only when it is a boolean; \<open>result\<close> of the
  source has no initial value, but is read only after it was written.\<close>

definition at_tok_nextbool :: "byte list option \<Rightarrow> int \<Rightarrow> int \<times> int \<times> byte list option" where
  "at_tok_nextbool cur out =
     (let (ret, result, cur) = at_tok_nextint cur 0 in
      if ret < 0 then (-1, out, cur)
      else if \<not> (result = 0 \<or> result = 1) then (-1, out, cur)
      else (ret, result, cur))"

definition at_tok_nextstr ::
    "byte list option \<Rightarrow> byte list option \<Rightarrow> int \<times> byte list option \<times> byte list option" where
  "at_tok_nextstr cur out =
     (if cur = None then (-1, out, cur)
      else (let (tok, cur) = nextTok cur in (0, tok, cur)))"

definition at_tok_hasmore :: "byte list option \<Rightarrow> bool" where
  "at_tok_hasmore cur \<longleftrightarrow> \<not> (cur = None \<or> cur = Some [])"

section \<open>What the tokenizer reads back\<close>

text \<open>The end of a field: a comma and the rest of the line, or the end of the line.\<close>

definition field_end :: "byte list option \<Rightarrow> byte list" where
  "field_end rest = (case rest of None \<Rightarrow> [] | Some r \<Rightarrow> 44 # r)"

lemma strsep_field:
  assumes "d \<notin> set s"
  shows "strsep d (Some (s @ (case rest of None \<Rightarrow> [] | Some r \<Rightarrow> d # r))) = (Some s, rest)"
proof -
  have "takeWhile (\<lambda>b. b \<noteq> d) s = s" "dropWhile (\<lambda>b. b \<noteq> d) s = []"
    using assms by (auto simp: takeWhile_eq_all_conv dropWhile_eq_Nil_conv)
  moreover have "takeWhile (\<lambda>b. b \<noteq> d) (s @ d # r) = s" "dropWhile (\<lambda>b. b \<noteq> d) (s @ d # r) = d # r" for r
    using assms by (auto simp: takeWhile_append dropWhile_append)
  ultimately show ?thesis
    by (cases rest) (simp_all add: strsep_def del: takeWhile_eq_all_conv dropWhile_eq_Nil_conv)
qed

lemma dec_int_plain: "b \<in> set (dec_int i) \<Longrightarrow> is_digit b \<or> b = 45"
  using dec_nat_digits by (auto simp: dec_int_def split: if_splits)

lemma dec_int_no_comma: "44 \<notin> set (dec_int i)"
  using dec_int_plain[of 44 i] by (auto simp: is_digit_def)

lemma dec_int_head: "\<exists>b bs. dec_int i = b # bs \<and> \<not> is_space b \<and> b \<noteq> 34"
proof -
  obtain b bs where b: "dec_int i = b # bs"
    using dec_nat_head[of "nat i"] by (cases "i < 0") (auto simp: dec_int_def)
  then have "is_digit b \<or> b = 45"
    using dec_int_plain[of b i] by simp
  then show ?thesis
    using b digit_no_mark[of b] by (auto simp: is_digit_def is_space_def)
qed

lemma nextTok_dec: "nextTok (Some (dec_int i @ field_end rest)) = (Some (dec_int i), rest)"
proof -
  obtain b bs where b: "dec_int i = b # bs" "\<not> is_space b" "b \<noteq> 34"
    using dec_int_head by blast
  have "strsep 44 (Some (dec_int i @ field_end rest)) = (Some (dec_int i), rest)"
    unfolding field_end_def using dec_int_no_comma by (rule strsep_field)
  then show ?thesis
    using b by (simp add: nextTok_def skipWhiteSpace_def)
qed

lemma nextint_dec:
  assumes "in_int_range i"
  shows "at_tok_nextint (Some (dec_int i @ field_end rest)) out = (0, i, rest)"
proof -
  have "int_of_long i = i"
    using assms unfolding int_of_long_def in_int_range_def
    by (intro signed_take_bit_int_eq_self) auto
  then show ?thesis
    using assms by (simp add: at_tok_nextint_def at_tok_nextint_base_def nextTok_dec strtol_dec_int)
qed

lemma nextbool_dec:
  assumes "i = 0 \<or> i = 1"
  shows "at_tok_nextbool (Some (dec_int i @ field_end rest)) out = (0, i, rest)"
proof -
  have "in_int_range i"
    using assms by (auto simp: in_int_range_def)
  then show ?thesis
    using assms by (auto simp: at_tok_nextbool_def nextint_dec)
qed

lemma nextstr_quoted:
  assumes "34 \<notin> set s"
  shows "at_tok_nextstr (Some (34 # s @ 34 # field_end rest)) out =
    (0, Some s, Some (case rest of None \<Rightarrow> [] | Some r \<Rightarrow> r))"
proof -
  have "strsep 34 (Some (s @ 34 # field_end rest)) = (Some s, Some (field_end rest))"
    using strsep_field[OF assms, of "Some (field_end rest)"] by simp
  then show ?thesis
    by (cases rest)
      (simp_all add: at_tok_nextstr_def nextTok_def skipWhiteSpace_def is_space_def skipNextComma_def field_end_def)
qed

end
