(* ===== verification/At_Channel.thy ===== *)
theory At_Channel
  imports At_Tok
begin

text \<open>
  The AT channel of the RIL library, \<open>ril-telephone/atchannel.c\<close>: the reader thread that
  cuts the bytes of the socket into lines, the matching of the lines to the command that
  waits for an answer, and the commands themselves.

  The state is the file's static variables.  What the system does is in three lists of
  the state that the calls consume: the results of \<open>read\<close>, of \<open>write\<close>, and what
  happens while a command waits on \<open>s_commandcond\<close>.  \<open>at_out\<close> records the writes.  An
  operation gives \<open>Ret\<close> a result, \<open>Waits\<close> when a system call of it does not return
  any more, or \<open>Fault\<close> when it leaves defined behaviour.  The callbacks that the
  client installs are the functions of an \<open>at_hooks\<close>; the state says which of the three
  pointers are set.  Memory allocation is taken to succeed; \<open>s_readCount\<close>, which is
  never read, and the log are left out.
\<close>

section \<open>Data\<close>

definition MAX_AT_RESPONSE :: nat where
  "MAX_AT_RESPONSE = 8 * 1024"

definition HANDSHAKE_RETRY_COUNT :: nat where
  "HANDSHAKE_RETRY_COUNT = 8"

definition HANDSHAKE_TIMEOUT_MSEC :: int where
  "HANDSHAKE_TIMEOUT_MSEC = 250"

definition AT_ERROR_GENERIC :: int where "AT_ERROR_GENERIC = -1"
definition AT_ERROR_COMMAND_PENDING :: int where "AT_ERROR_COMMAND_PENDING = -2"
definition AT_ERROR_CHANNEL_CLOSED :: int where "AT_ERROR_CHANNEL_CLOSED = -3"
definition AT_ERROR_TIMEOUT :: int where "AT_ERROR_TIMEOUT = -4"
definition AT_ERROR_INVALID_THREAD :: int where "AT_ERROR_INVALID_THREAD = -5"
definition AT_ERROR_INVALID_RESPONSE :: int where "AT_ERROR_INVALID_RESPONSE = -6"

lemmas at_error_defs = AT_ERROR_GENERIC_def AT_ERROR_COMMAND_PENDING_def AT_ERROR_CHANNEL_CLOSED_def
  AT_ERROR_TIMEOUT_def AT_ERROR_INVALID_THREAD_def AT_ERROR_INVALID_RESPONSE_def

definition CME_ERROR_NON_CME :: int where "CME_ERROR_NON_CME = -1"
definition CME_SUCCESS :: int where "CME_SUCCESS = 0"

datatype ATCommandType = NO_RESULT | NUMERIC | SINGLELINE | MULTILINE

text \<open>The list of the \<open>ATLine\<close>s is the list of their strings.\<close>

record ATResponse =
  success :: int
  finalResponse :: "byte list option"
  p_intermediates :: "byte list list"

text \<open>The empty chunk is the end of the stream.  Bytes of a chunk for which the buffer has
  no room stay in the socket.\<close>

datatype read_result = Chunk "byte list" | ReadIntr | ReadError

datatype write_result = Wrote nat | WriteIntr | WriteError

text \<open>While a command waits, the reader thread can go through its loop, the wait can end,
  with or without a cause, or the time can run out.\<close>

datatype wait_event = ReaderTurn | Woken | TimedOut

record at_chan =
  s_fd :: int
  s_ATBuffer :: "byte list"
  s_ATBufferCur :: nat
  s_type :: ATCommandType
  s_responsePrefix :: "byte list option"
  s_smsPDU :: "byte list option"
  sp_response :: "ATResponse option"
  s_unsolHandler :: bool
  s_onTimeout :: bool
  s_onReaderClosed :: bool
  s_readerClosed :: int
  reader_alive :: bool
  env_reads :: "read_result list"
  env_writes :: "write_result list"
  env_waits :: "wait_event list"
  at_out :: "(int \<times> byte list) list"

record 's at_hooks =
  call_unsol :: "byte list \<Rightarrow> byte list option \<Rightarrow> 's \<Rightarrow> 's"
  call_onTimeout :: "'s \<Rightarrow> 's"
  call_onReaderClosed :: "'s \<Rightarrow> 's"

section \<open>Lines\<close>

definition s_finalResponsesError :: "byte list list" where
  "s_finalResponsesError =
     [str ''ERROR'', str ''+CMS ERROR:'', str ''+CME ERROR:'', str ''NO CARRIER'', str ''NO ANSWER'', str ''NO DIALTONE'']"

definition isFinalResponseError :: "byte list \<Rightarrow> bool" where
  "isFinalResponseError line = list_ex (strStartsWith line) s_finalResponsesError"

definition s_finalResponsesSuccess :: "byte list list" where
  "s_finalResponsesSuccess = [str ''OK'', str ''CONNECT'']"

definition isFinalResponseSuccess :: "byte list \<Rightarrow> bool" where
  "isFinalResponseSuccess line = list_ex (strStartsWith line) s_finalResponsesSuccess"

definition isFinalResponse :: "byte list \<Rightarrow> bool" where
  "isFinalResponse line \<longleftrightarrow> isFinalResponseSuccess line \<or> isFinalResponseError line"

definition s_smsUnsoliciteds :: "byte list list" where
  "s_smsUnsoliciteds = [str ''+CMT:'', str ''+CDS:'', str ''+CBM:'']"

definition isSMSUnsolicited :: "byte list \<Rightarrow> bool" where
  "isSMSUnsolicited line = list_ex (strStartsWith line) s_smsUnsoliciteds"

definition is_eol :: "byte \<Rightarrow> bool" where
  "is_eol b \<longleftrightarrow> b = 13 \<or> b = 10"

text \<open>
  The scans work on the array from the position \<open>cur\<close> on and give an offset to it;
  \<open>None\<close> outside says that they run over the end of the array, and inside that there is
  no complete line.
\<close>

definition findNextEOL :: "byte list \<Rightarrow> nat option option" where
  "findNextEOL s =
     (if length s \<ge> 3 \<and> s ! 0 = 62 \<and> s ! 1 = 32 \<and> s ! 2 = 0 then Some (Some 2)
      else (case dropWhile (\<lambda>b. b \<noteq> 0 \<and> \<not> is_eol b) s of
          [] \<Rightarrow> None
        | b # _ \<Rightarrow> Some (if b = 0 then None else Some (length (takeWhile (\<lambda>b. b \<noteq> 0 \<and> \<not> is_eol b) s)))))"

definition skip_newlines :: "byte list \<Rightarrow> nat option" where
  "skip_newlines s =
     (case dropWhile is_eol s of [] \<Rightarrow> None | _ \<Rightarrow> Some (length (takeWhile is_eol s)))"

section \<open>The reader\<close>

text \<open>The end of \<open>readline\<close>: the line, the array with a NUL in place of the line end, and the
  position behind it.\<close>

definition take_line :: "byte list \<Rightarrow> nat \<Rightarrow> nat \<Rightarrow> read_result list
    \<Rightarrow> (byte list option \<times> byte list \<times> nat \<times> read_result list) run" where
  "take_line buf cur e rs = Ret (Some (take e (drop cur buf)), buf[cur + e := 0], cur + e + 1, rs)"

text \<open>The \<open>while\<close> loop of \<open>readline\<close>; \<open>p\<close> is the offset of \<open>p_read\<close>.\<close>

function read_loop :: "read_result list \<Rightarrow> byte list \<Rightarrow> nat \<Rightarrow> nat
    \<Rightarrow> (byte list option \<times> byte list \<times> nat \<times> read_result list) run" where
  "read_loop rds buf cur p =
     (let (buf, cur, p) = (if p = MAX_AT_RESPONSE then (buf[0 := 0], 0, 0) else (buf, cur, p)) in
      case rds of
        [] \<Rightarrow> Waits
      | ReadIntr # rs \<Rightarrow> read_loop rs buf cur p
      | ReadError # rs \<Rightarrow> Ret (None, buf, cur, rs)
      | Chunk bs # rs \<Rightarrow>
          if bs = [] then Ret (None, buf, cur, rs)
          else (let count = (if p < MAX_AT_RESPONSE then min (length bs) (MAX_AT_RESPONSE - p) else length bs);
                    rs = (if count < length bs then Chunk (drop count bs) # rs else rs)
                in case blit buf p (take count bs @ [0]) of None \<Rightarrow> Fault
                | Some buf \<Rightarrow> (case skip_newlines (drop cur buf) of None \<Rightarrow> Fault
                  | Some k \<Rightarrow> (case findNextEOL (drop (cur + k) buf) of None \<Rightarrow> Fault
                    | Some (Some e) \<Rightarrow> take_line buf (cur + k) e rs
                    | Some None \<Rightarrow> read_loop rs buf (cur + k) (p + count)))))"
  by pat_completeness auto
termination
proof (relation "measure (\<lambda>(rds, buf, cur, p). \<Sum>r\<leftarrow>rds. case r of Chunk bs \<Rightarrow> Suc (length bs) | _ \<Rightarrow> 1)")
qed (auto split: if_splits)

declare read_loop.simps [simp del]

definition readline :: "'a at_chan_scheme \<Rightarrow> (byte list option \<times> 'a at_chan_scheme) run" where
  "readline c =
     (let buf = s_ATBuffer c; cur = s_ATBufferCur c in
      run_bind
        (case nth_opt buf cur of None \<Rightarrow> Fault
         | Some b \<Rightarrow>
             if b = 0 then read_loop (env_reads c) (buf[0 := 0]) 0 0
             else (case skip_newlines (drop cur buf) of None \<Rightarrow> Fault
               | Some k \<Rightarrow> (case findNextEOL (drop (cur + k) buf) of None \<Rightarrow> Fault
                 | Some (Some e) \<Rightarrow> take_line buf (cur + k) e (env_reads c)
                 | Some None \<Rightarrow>
                     (let line = c_string (drop (cur + k) buf) in
                      case blit buf 0 (line @ [0]) of None \<Rightarrow> Fault
                      | Some buf \<Rightarrow> read_loop (env_reads c) buf 0 (length line)))))
        (\<lambda>(line, buf, cur, rs). Ret (line, c\<lparr>s_ATBuffer := buf, s_ATBufferCur := cur, env_reads := rs\<rparr>)))"

section \<open>Writing\<close>

text \<open>The loop that writes the string, and the one that writes the byte behind it; the flag
  says whether no write failed.\<close>

fun write_string :: "int \<Rightarrow> byte list \<Rightarrow> write_result list \<Rightarrow> (int \<times> byte list) list
    \<Rightarrow> (bool \<times> write_result list \<times> (int \<times> byte list) list) run" where
  "write_string fd s ws out =
     (if s = [] then Ret (True, ws, out)
      else (case ws of
          [] \<Rightarrow> Waits
        | WriteIntr # ws \<Rightarrow> write_string fd s ws out
        | WriteError # ws \<Rightarrow> Ret (False, ws, out)
        | Wrote n # ws \<Rightarrow> write_string fd (drop n s) ws (if n = 0 then out else out @ [(fd, take n s)])))"

declare write_string.simps [simp del]

fun write_end :: "int \<Rightarrow> byte \<Rightarrow> write_result list \<Rightarrow> (int \<times> byte list) list
    \<Rightarrow> (bool \<times> write_result list \<times> (int \<times> byte list) list) run" where
  "write_end fd b [] out = Waits"
| "write_end fd b (WriteIntr # ws) out = write_end fd b ws out"
| "write_end fd b (WriteError # ws) out = Ret (False, ws, out)"
| "write_end fd b (Wrote n # ws) out =
     (if n = 0 then write_end fd b ws out else Ret (True, ws, out @ [(fd, [b])]))"

definition write_closed_by :: "byte \<Rightarrow> byte list \<Rightarrow> 'a at_chan_scheme \<Rightarrow> (int \<times> 'a at_chan_scheme) run" where
  "write_closed_by b s c =
     (if s_fd c < 0 \<or> s_readerClosed c > 0 then Ret (AT_ERROR_CHANNEL_CLOSED, c)
      else run_bind (write_string (s_fd c) s (env_writes c) (at_out c)) (\<lambda>(ok, ws, out).
        if \<not> ok then Ret (AT_ERROR_GENERIC, c\<lparr>env_writes := ws, at_out := out\<rparr>)
        else run_bind (write_end (s_fd c) b ws out) (\<lambda>(ok, ws, out).
          Ret (if ok then 0 else AT_ERROR_GENERIC, c\<lparr>env_writes := ws, at_out := out\<rparr>))))"

definition writeline :: "byte list \<Rightarrow> 'a at_chan_scheme \<Rightarrow> (int \<times> 'a at_chan_scheme) run" where
  "writeline s c = write_closed_by 13 s c"

definition writeCtrlZ :: "byte list \<Rightarrow> 'a at_chan_scheme \<Rightarrow> (int \<times> 'a at_chan_scheme) run" where
  "writeCtrlZ s c = write_closed_by 26 s c"

section \<open>Lines and the pending command\<close>

definition addIntermediate :: "byte list \<Rightarrow> ATResponse \<Rightarrow> 'a at_chan_scheme \<Rightarrow> 'a at_chan_scheme" where
  "addIntermediate line r c = c\<lparr>sp_response := Some (r\<lparr>p_intermediates := line # p_intermediates r\<rparr>)\<rparr>"

definition handleFinalResponse :: "byte list \<Rightarrow> ATResponse \<Rightarrow> 'a at_chan_scheme \<Rightarrow> 'a at_chan_scheme" where
  "handleFinalResponse line r c = c\<lparr>sp_response := Some (r\<lparr>finalResponse := Some line\<rparr>)\<rparr>"

definition handleUnsolicited ::
    "'a at_chan_scheme at_hooks \<Rightarrow> byte list \<Rightarrow> 'a at_chan_scheme \<Rightarrow> 'a at_chan_scheme" where
  "handleUnsolicited h line c = (if s_unsolHandler c then call_unsol h line None c else c)"

definition processLine ::
    "'a at_chan_scheme at_hooks \<Rightarrow> byte list \<Rightarrow> 'a at_chan_scheme \<Rightarrow> 'a at_chan_scheme run" where
  "processLine h line c =
     (case sp_response c of
        None \<Rightarrow> Ret (handleUnsolicited h line c)
      | Some r \<Rightarrow>
          if isFinalResponseSuccess line then Ret (handleFinalResponse line (r\<lparr>success := 1\<rparr>) c)
          else if isFinalResponseError line then Ret (handleFinalResponse line (r\<lparr>success := 0\<rparr>) c)
          else if s_smsPDU c \<noteq> None \<and> line = str ''> ''
          then run_bind (writeCtrlZ (the (s_smsPDU c)) c) (\<lambda>(_, c). Ret (c\<lparr>s_smsPDU := None\<rparr>))
          else (case s_type c of
              NO_RESULT \<Rightarrow> Ret (handleUnsolicited h line c)
            | NUMERIC \<Rightarrow>
                Ret (if p_intermediates r = [] \<and> line \<noteq> [] \<and> is_digit (hd line) then addIntermediate line r c
                     else handleUnsolicited h line c)
            | SINGLELINE \<Rightarrow>
                if p_intermediates r = []
                then (case s_responsePrefix c of None \<Rightarrow> Fault
                  | Some p \<Rightarrow> Ret (if strStartsWith line p then addIntermediate line r c
                                  else handleUnsolicited h line c))
                else Ret (handleUnsolicited h line c)
            | MULTILINE \<Rightarrow>
                (case s_responsePrefix c of None \<Rightarrow> Fault
                 | Some p \<Rightarrow> Ret (if strStartsWith line p then addIntermediate line r c
                                 else handleUnsolicited h line c))))"

definition onReaderClosed :: "'a at_chan_scheme at_hooks \<Rightarrow> 'a at_chan_scheme \<Rightarrow> 'a at_chan_scheme" where
  "onReaderClosed h c =
     (if s_onReaderClosed c \<and> s_readerClosed c = 0
      then call_onReaderClosed h (c\<lparr>s_readerClosed := 1\<rparr>) else c)"

text \<open>
  One turn of \<open>readerLoop\<close>.  A turn whose \<open>readline\<close> still waits for bytes has not
  happened yet: it leaves the state as it is, and the next turn reads the same bytes.
\<close>

definition readerLoop_turn ::
    "'a at_chan_scheme at_hooks \<Rightarrow> 'a at_chan_scheme \<Rightarrow> 'a at_chan_scheme run" where
  "readerLoop_turn h c =
     (if \<not> reader_alive c then Ret c
      else (case readline c of
          Waits \<Rightarrow> Ret c
        | Fault \<Rightarrow> Fault
        | Ret (None, c1) \<Rightarrow> Ret (onReaderClosed h (c1\<lparr>reader_alive := False\<rparr>))
        | Ret (Some line, c1) \<Rightarrow>
            if isSMSUnsolicited line
            then (case readline c1 of
                Waits \<Rightarrow> Ret c
              | Fault \<Rightarrow> Fault
              | Ret (None, c2) \<Rightarrow> Ret (onReaderClosed h (c2\<lparr>reader_alive := False\<rparr>))
              | Ret (Some line2, c2) \<Rightarrow> Ret (if s_unsolHandler c2 then call_unsol h line (Some line2) c2 else c2))
            else processLine h line c1))"

section \<open>Opening and closing\<close>

definition clearPendingCommand :: "'a at_chan_scheme \<Rightarrow> 'a at_chan_scheme" where
  "clearPendingCommand c = c\<lparr>sp_response := None, s_responsePrefix := None, s_smsPDU := None\<rparr>"

text \<open>\<open>created\<close> is the result of \<open>pthread_create\<close>, 0 or the number of an error.\<close>

definition at_open :: "int \<Rightarrow> int \<Rightarrow> 'a at_chan_scheme \<Rightarrow> int \<times> 'a at_chan_scheme" where
  "at_open created fd c =
     (let c = c\<lparr>s_fd := fd, s_unsolHandler := True, s_readerClosed := 0, s_responsePrefix := None,
                s_smsPDU := None, sp_response := None, reader_alive := (created = 0)\<rparr>
      in if created < 0 then (-1, c) else (0, c))"

definition at_close :: "'a at_chan_scheme \<Rightarrow> 'a at_chan_scheme" where
  "at_close c = c\<lparr>s_fd := -1, s_readerClosed := 1\<rparr>"

definition at_set_on_timeout :: "'a at_chan_scheme \<Rightarrow> 'a at_chan_scheme" where
  "at_set_on_timeout c = c\<lparr>s_onTimeout := True\<rparr>"

definition at_set_on_reader_closed :: "'a at_chan_scheme \<Rightarrow> 'a at_chan_scheme" where
  "at_set_on_reader_closed c = c\<lparr>s_onReaderClosed := True\<rparr>"

section \<open>Commands\<close>

definition at_response_new :: ATResponse where
  "at_response_new = \<lparr>success = 0, finalResponse = None, p_intermediates = []\<rparr>"

fun reverse_loop :: "byte list list \<Rightarrow> byte list list \<Rightarrow> byte list list" where
  "reverse_loop [] acc = acc"
| "reverse_loop (pcur # pnext) acc = reverse_loop pnext (pcur # acc)"

definition reverseIntermediates :: "ATResponse \<Rightarrow> ATResponse" where
  "reverseIntermediates r = r\<lparr>p_intermediates := reverse_loop (p_intermediates r) []\<rparr>"

text \<open>The test of the \<open>while\<close> loop: whether the command has its answer or the channel is
  closed; \<open>None\<close> is the null pointer read.\<close>

definition answered :: "'a at_chan_scheme \<Rightarrow> bool option" where
  "answered c =
     (case sp_response c of None \<Rightarrow> None
      | Some r \<Rightarrow> Some (\<not> (finalResponse r = None \<and> s_readerClosed c = 0)))"

text \<open>The wait, from a call of \<open>pthread_cond_wait\<close> on, or of its timed variant.\<close>

fun cond_wait :: "'a at_chan_scheme at_hooks \<Rightarrow> bool \<Rightarrow> wait_event list \<Rightarrow> 'a at_chan_scheme
    \<Rightarrow> (int \<times> 'a at_chan_scheme) run" where
  "cond_wait h timed [] c = Waits"
| "cond_wait h timed (ReaderTurn # es) c = run_bind (readerLoop_turn h c) (cond_wait h timed es)"
| "cond_wait h timed (Woken # es) c =
     (case answered c of None \<Rightarrow> Fault
      | Some True \<Rightarrow> Ret (0, c\<lparr>env_waits := es\<rparr>)
      | Some False \<Rightarrow> cond_wait h timed es c)"
| "cond_wait h timed (TimedOut # es) c =
     (if timed then Ret (AT_ERROR_TIMEOUT, c\<lparr>env_waits := es\<rparr>) else cond_wait h timed es c)"

definition wait_for_response ::
    "'a at_chan_scheme at_hooks \<Rightarrow> bool \<Rightarrow> 'a at_chan_scheme \<Rightarrow> (int \<times> 'a at_chan_scheme) run" where
  "wait_for_response h timed c =
     (case answered c of None \<Rightarrow> Fault
      | Some True \<Rightarrow> Ret (0, c)
      | Some False \<Rightarrow> cond_wait h timed (env_waits c) c)"

text \<open>\<open>want\<close> says whether \<open>pp_outResponse\<close> is not null; the result has the response that
  was stored through it.\<close>

definition at_send_command_full_nolock ::
    "'a at_chan_scheme at_hooks \<Rightarrow> byte list \<Rightarrow> ATCommandType \<Rightarrow> byte list option \<Rightarrow> byte list option \<Rightarrow> int \<Rightarrow> bool
     \<Rightarrow> 'a at_chan_scheme \<Rightarrow> (int \<times> ATResponse option \<times> 'a at_chan_scheme) run" where
  "at_send_command_full_nolock h command ctype responsePrefix smspdu timeoutMsec want c =
     (if sp_response c \<noteq> None then Ret (AT_ERROR_COMMAND_PENDING, None, clearPendingCommand c)
      else run_bind (writeline command c) (\<lambda>(err, c).
        if err < 0 then Ret (err, None, clearPendingCommand c)
        else run_bind (wait_for_response h (timeoutMsec \<noteq> 0)
            (c\<lparr>s_type := ctype, s_responsePrefix := responsePrefix, s_smsPDU := smspdu,
               sp_response := Some at_response_new\<rparr>)) (\<lambda>(err, c).
          if err = AT_ERROR_TIMEOUT then Ret (err, None, clearPendingCommand c)
          else (let out = (if want then map_option reverseIntermediates (sp_response c) else None)
                in Ret (if s_readerClosed c > 0 then AT_ERROR_CHANNEL_CLOSED else 0, out, clearPendingCommand c)))))"

text \<open>\<open>in_reader\<close> says whether the caller is the reader thread.\<close>

definition at_send_command_full ::
    "'a at_chan_scheme at_hooks \<Rightarrow> bool \<Rightarrow> byte list \<Rightarrow> ATCommandType \<Rightarrow> byte list option \<Rightarrow> byte list option \<Rightarrow> int \<Rightarrow> bool
     \<Rightarrow> 'a at_chan_scheme \<Rightarrow> (int \<times> ATResponse option \<times> 'a at_chan_scheme) run" where
  "at_send_command_full h in_reader command ctype responsePrefix smspdu timeoutMsec want c =
     (if in_reader then Ret (AT_ERROR_INVALID_THREAD, None, c)
      else run_bind (at_send_command_full_nolock h command ctype responsePrefix smspdu timeoutMsec want c)
        (\<lambda>(err, out, c).
          Ret (err, out, if err = AT_ERROR_TIMEOUT \<and> s_onTimeout c then call_onTimeout h c else c)))"

definition at_send_command ::
    "'a at_chan_scheme at_hooks \<Rightarrow> bool \<Rightarrow> byte list \<Rightarrow> bool \<Rightarrow> 'a at_chan_scheme
     \<Rightarrow> (int \<times> ATResponse option \<times> 'a at_chan_scheme) run" where
  "at_send_command h in_reader command want c =
     at_send_command_full h in_reader command NO_RESULT None None 0 want c"

text \<open>The test that three of the commands make: a successful command has an intermediate
  line.\<close>

definition needs_intermediate ::
    "int \<times> ATResponse option \<times> 'a at_chan_scheme \<Rightarrow> (int \<times> ATResponse option \<times> 'a at_chan_scheme) run" where
  "needs_intermediate res =
     (case res of (err, out, c) \<Rightarrow>
        (case out of
           Some r \<Rightarrow> if err = 0 \<and> success r > 0 \<and> p_intermediates r = []
                    then Ret (AT_ERROR_INVALID_RESPONSE, None, c) else Ret (err, out, c)
         | None \<Rightarrow> Ret (err, out, c)))"

definition at_send_command_singleline ::
    "'a at_chan_scheme at_hooks \<Rightarrow> bool \<Rightarrow> byte list \<Rightarrow> byte list \<Rightarrow> bool \<Rightarrow> 'a at_chan_scheme
     \<Rightarrow> (int \<times> ATResponse option \<times> 'a at_chan_scheme) run" where
  "at_send_command_singleline h in_reader command responsePrefix want c =
     run_bind (at_send_command_full h in_reader command SINGLELINE (Some responsePrefix) None 0 want c) needs_intermediate"

definition at_send_command_numeric ::
    "'a at_chan_scheme at_hooks \<Rightarrow> bool \<Rightarrow> byte list \<Rightarrow> bool \<Rightarrow> 'a at_chan_scheme
     \<Rightarrow> (int \<times> ATResponse option \<times> 'a at_chan_scheme) run" where
  "at_send_command_numeric h in_reader command want c =
     run_bind (at_send_command_full h in_reader command NUMERIC None None 0 want c) needs_intermediate"

definition at_send_command_sms ::
    "'a at_chan_scheme at_hooks \<Rightarrow> bool \<Rightarrow> byte list \<Rightarrow> byte list \<Rightarrow> byte list \<Rightarrow> bool \<Rightarrow> 'a at_chan_scheme
     \<Rightarrow> (int \<times> ATResponse option \<times> 'a at_chan_scheme) run" where
  "at_send_command_sms h in_reader command pdu responsePrefix want c =
     run_bind (at_send_command_full h in_reader command SINGLELINE (Some responsePrefix) (Some pdu) 0 want c) needs_intermediate"

definition at_send_command_multiline ::
    "'a at_chan_scheme at_hooks \<Rightarrow> bool \<Rightarrow> byte list \<Rightarrow> byte list \<Rightarrow> bool \<Rightarrow> 'a at_chan_scheme
     \<Rightarrow> (int \<times> ATResponse option \<times> 'a at_chan_scheme) run" where
  "at_send_command_multiline h in_reader command responsePrefix want c =
     at_send_command_full h in_reader command MULTILINE (Some responsePrefix) None 0 want c"

text \<open>The loop of \<open>at_handshake\<close> with \<open>n\<close> attempts left, after the result \<open>err\<close>.\<close>

fun handshake_loop :: "'a at_chan_scheme at_hooks \<Rightarrow> nat \<Rightarrow> int \<Rightarrow> 'a at_chan_scheme \<Rightarrow> (int \<times> 'a at_chan_scheme) run" where
  "handshake_loop h 0 err c = Ret (err, c)"
| "handshake_loop h (Suc n) err c =
     run_bind (at_send_command_full_nolock h (str ''ATE0Q0V1'') NO_RESULT None None HANDSHAKE_TIMEOUT_MSEC False c)
       (\<lambda>(err, _, c). if err = 0 then Ret (err, c) else handshake_loop h n err c)"

definition at_handshake :: "'a at_chan_scheme at_hooks \<Rightarrow> bool \<Rightarrow> 'a at_chan_scheme \<Rightarrow> (int \<times> 'a at_chan_scheme) run" where
  "at_handshake h in_reader c =
     (if in_reader then Ret (AT_ERROR_INVALID_THREAD, c)
      else handshake_loop h HANDSHAKE_RETRY_COUNT (-1) c)"

definition at_get_cme_error :: "ATResponse \<Rightarrow> int" where
  "at_get_cme_error r =
     (if success r > 0 then CME_SUCCESS
      else (case finalResponse r of None \<Rightarrow> CME_ERROR_NON_CME
        | Some line \<Rightarrow>
            if \<not> strStartsWith line (str ''+CME ERROR:'') then CME_ERROR_NON_CME
            else (let (err, cur) = at_tok_start (Some line) in
              if err < 0 then CME_ERROR_NON_CME
              else (let (err, ret, cur) = at_tok_nextint cur 0 in
                if err < 0 then CME_ERROR_NON_CME else ret))))"

end
