(* ===== verification/At_Lines.thy ===== *)
theory At_Lines
  imports At_Channel
begin

text \<open>
  The reader's buffer.  \<open>next_line\<close> says on the text of a stream what the next line is;
  \<open>readline\<close> returns it, however the socket cuts the text into reads.  The abstraction of
  the array and its position is the text that is still to be read, up to the NUL.
\<close>

section \<open>The lines of a text\<close>

definition next_line :: "byte list \<Rightarrow> (byte list \<times> byte list) option" where
  "next_line text =
     (let t = dropWhile is_eol text in
      case dropWhile (\<lambda>b. \<not> is_eol b) t of
        [] \<Rightarrow> None
      | _ # rest \<Rightarrow> Some (takeWhile (\<lambda>b. \<not> is_eol b) t, rest))"

lemma next_line_eols: "\<forall>b\<in>set nl. is_eol b \<Longrightarrow> next_line (nl @ text) = next_line text"
  by (simp add: next_line_def)

lemma next_line_complete:
  assumes "l \<noteq> []" "\<forall>b\<in>set l. \<not> is_eol b" "is_eol e"
  shows "next_line (l @ e # rest) = Some (l, rest)"
proof -
  have "dropWhile is_eol (l @ e # rest) = l @ e # rest"
    using assms by (cases l) auto
  moreover have "takeWhile (\<lambda>b. \<not> is_eol b) (l @ e # rest) = l" "dropWhile (\<lambda>b. \<not> is_eol b) (l @ e # rest) = e # rest"
    using assms by (auto simp: takeWhile_append dropWhile_append)
  ultimately show ?thesis
    by (simp add: next_line_def)
qed

lemma next_lineE:
  assumes "next_line text = Some (l, rest)"
  obtains nl e where "text = nl @ l @ e # rest" "\<forall>b\<in>set nl. is_eol b" "l \<noteq> []" "\<forall>b\<in>set l. \<not> is_eol b" "is_eol e"
proof -
  let ?t = "dropWhile is_eol text"
  obtain e where e: "dropWhile (\<lambda>b. \<not> is_eol b) ?t = e # rest" "l = takeWhile (\<lambda>b. \<not> is_eol b) ?t"
    using assms by (auto simp: next_line_def Let_def split: list.splits)
  have "is_eol e"
    using hd_dropWhile[of "\<lambda>b. \<not> is_eol b" ?t] e(1) by simp
  have t: "?t = l @ e # rest"
    using takeWhile_dropWhile_id[of "\<lambda>b. \<not> is_eol b" ?t] e by simp
  have "l \<noteq> []"
  proof
    assume "l = []"
    then have "is_eol (hd ?t)" "?t \<noteq> []"
      using t \<open>is_eol e\<close> by simp_all
    then show False
      using hd_dropWhile [of is_eol "text"] by simp
  qed
  moreover have "text = takeWhile is_eol text @ l @ e # rest"
    using takeWhile_dropWhile_id[of is_eol "text"] t by simp
  moreover have "\<forall>b\<in>set (takeWhile is_eol text). is_eol b" "\<forall>b\<in>set l. \<not> is_eol b"
    using e(2) by (auto dest: set_takeWhileD)
  ultimately show thesis
    using that \<open>is_eol e\<close> by blast
qed

lemma next_line_append:
  assumes "next_line v = Some (l, rest)"
  shows "next_line (v @ z) = Some (l, rest @ z)"
proof -
  obtain nl e where "v = nl @ l @ e # rest" "\<forall>b\<in>set nl. is_eol b" "l \<noteq> []" "\<forall>b\<in>set l. \<not> is_eol b" "is_eol e"
    using assms by (rule next_lineE)
  then show ?thesis
    by (simp add: next_line_eols next_line_complete)
qed

lemma next_line_length: "next_line text = Some (l, rest) \<Longrightarrow> length l + length rest < length text"
  by (erule next_lineE) simp

lemma next_line_set: "next_line text = Some (l, rest) \<Longrightarrow> set l \<subseteq> set text \<and> set rest \<subseteq> set text"
  by (erule next_lineE) auto

lemma next_line_drop: "next_line (drop (length (takeWhile is_eol text)) text) = next_line text"
proof -
  have "\<forall>b\<in>set (takeWhile is_eol text). is_eol b"
    by (auto dest: set_takeWhileD)
  from next_line_eols[OF this, of "dropWhile is_eol text"] show ?thesis
    by (simp add: dropWhile_eq_drop[symmetric])
qed

text \<open>The complete lines of a text, and the condition that each of them, with the line ends
  around it, has room in the buffer.\<close>

function lines_of :: "byte list \<Rightarrow> byte list list" where
  "lines_of text = (case next_line text of None \<Rightarrow> [] | Some (l, rest) \<Rightarrow> l # lines_of rest)"
  by pat_completeness auto
termination
  by (relation "measure length") (auto dest: next_line_length)

declare lines_of.simps [simp del]

function fits :: "byte list \<Rightarrow> bool" where
  "fits text =
     (case next_line text of None \<Rightarrow> length text < MAX_AT_RESPONSE
      | Some (l, rest) \<Rightarrow> length text \<le> MAX_AT_RESPONSE + length rest \<and> fits rest)"
  by pat_completeness auto
termination
  by (relation "measure length") (auto dest: next_line_length)

declare fits.simps [simp del]

section \<open>Scanning the array\<close>

definition at_buf_ok :: "byte list \<Rightarrow> nat \<Rightarrow> bool" where
  "at_buf_ok buf cur \<longleftrightarrow> length buf = MAX_AT_RESPONSE + 1 \<and> buf ! MAX_AT_RESPONSE = 0 \<and> cur \<le> MAX_AT_RESPONSE"

lemma c_string_split: "0 \<in> set s \<Longrightarrow> \<exists>y. s = c_string s @ 0 # y"
proof -
  assume "0 \<in> set s"
  then obtain b y where "dropWhile (\<lambda>b. b \<noteq> 0) s = b # y" "b = 0"
    by (cases "dropWhile (\<lambda>b. b \<noteq> 0) s") (auto simp: dropWhile_eq_Nil_conv dropWhile_eq_Cons_conv)
  then show ?thesis
    unfolding c_string_def using takeWhile_dropWhile_id[of "\<lambda>b. b \<noteq> 0" s] by metis
qed

lemma at_buf_split:
  assumes "at_buf_ok buf cur"
  obtains y where "drop cur buf = c_string (drop cur buf) @ 0 # y"
proof -
  have "drop cur buf ! (MAX_AT_RESPONSE - cur) = 0" "MAX_AT_RESPONSE - cur < length (drop cur buf)"
    using assms by (auto simp: at_buf_ok_def)
  then have "0 \<in> set (drop cur buf)"
    by (metis nth_mem)
  then show thesis
    using c_string_split that by blast
qed

lemma is_eol_0 [simp]: "\<not> is_eol 0"
  by (simp add: is_eol_def)

lemma skip_newlines_string: "skip_newlines (x @ 0 # y) = Some (length (takeWhile is_eol x))"
proof -
  have "takeWhile is_eol (x @ 0 # y) = takeWhile is_eol x \<and> dropWhile is_eol (x @ 0 # y) \<noteq> []"
    by (induction x) simp_all
  then show ?thesis
    by (simp add: skip_newlines_def split: list.splits)
qed

lemma findNextEOL_string:
  assumes "0 \<notin> set x" "62 \<notin> set x"
  shows "findNextEOL (x @ 0 # y) =
    Some (if \<exists>b\<in>set x. is_eol b then Some (length (takeWhile (\<lambda>b. \<not> is_eol b) x)) else None)"
proof -
  have np: "\<not> (length (x @ 0 # y) \<ge> 3 \<and> (x @ 0 # y) ! 0 = 62 \<and> (x @ 0 # y) ! 1 = 32 \<and> (x @ 0 # y) ! 2 = 0)"
    using assms(2) by (cases x) auto
  let ?P = "\<lambda>b. b \<noteq> 0 \<and> \<not> is_eol b"
  have tw: "takeWhile ?P x = takeWhile (\<lambda>b. \<not> is_eol b) x" "dropWhile ?P x = dropWhile (\<lambda>b. \<not> is_eol b) x"
    using assms(1) by (auto intro: takeWhile_cong dropWhile_cong)
  show ?thesis
  proof (cases "\<exists>b\<in>set x. is_eol b")
    case True
    then obtain b r where b: "dropWhile (\<lambda>b. \<not> is_eol b) x = b # r"
      by (cases "dropWhile (\<lambda>b. \<not> is_eol b) x") (auto simp: dropWhile_eq_Nil_conv)
    then have "b \<in> set x"
      using set_dropWhileD[of b "\<lambda>b. \<not> is_eol b" x] by simp
    then have "b \<noteq> 0"
      using assms(1) by auto
    moreover have "dropWhile ?P (x @ 0 # y) = b # r @ 0 # y" "takeWhile ?P (x @ 0 # y) = takeWhile (\<lambda>b. \<not> is_eol b) x"
      using True assms(1) b tw by (auto simp: dropWhile_append takeWhile_append)
    ultimately show ?thesis
      using True by (simp only: findNextEOL_def np if_False) simp
  next
    case False
    then have "dropWhile ?P (x @ 0 # y) = 0 # y"
      using assms(1) by (auto simp: dropWhile_append)
    then show ?thesis
      using False by (simp only: findNextEOL_def np if_False) simp
  qed
qed

text \<open>Both scans together: they find the next line of the text before the NUL.\<close>

lemma scan_string:
  assumes "0 \<notin> set x" "62 \<notin> set x" "k = length (takeWhile is_eol x)"
  shows "findNextEOL (drop k (x @ 0 # y)) = Some (map_option (\<lambda>(l, _). length l) (next_line x))"
proof -
  let ?t = "dropWhile is_eol x"
  have "drop k (x @ 0 # y) = ?t @ 0 # y"
    using assms(3) by (simp add: dropWhile_eq_drop length_takeWhile_le)
  moreover have "0 \<notin> set ?t" "62 \<notin> set ?t"
    using assms(1,2) by (auto dest: set_dropWhileD)
  moreover have "(\<exists>b\<in>set ?t. is_eol b) \<longleftrightarrow> dropWhile (\<lambda>b. \<not> is_eol b) ?t \<noteq> []"
    by (simp add: dropWhile_eq_Nil_conv)
  ultimately show ?thesis
    by (simp add: findNextEOL_string next_line_def Let_def del: dropWhile_eq_Nil_conv split: list.splits)
qed

text \<open>Taking the line off the array.\<close>

lemma take_line_ok:
  assumes ok: "at_buf_ok buf cur" and x: "drop cur buf = x @ 0 # y" "next_line x = Some (l, rest)" "0 \<notin> set x"
    and k: "k = length (takeWhile is_eol x)"
  shows "\<exists>buf' cur'. take_line buf (cur + k) (length l) rs = Ret (Some l, buf', cur', rs) \<and> at_buf_ok buf' cur'
    \<and> c_string (drop cur' buf') = rest"
proof -
  obtain nl e where nl: "x = nl @ l @ e # rest" "\<forall>b\<in>set nl. is_eol b" "l \<noteq> []" "\<forall>b\<in>set l. \<not> is_eol b" "is_eol e"
    using x(2) by (rule next_lineE)
  have "takeWhile is_eol x = nl"
    using nl by (cases l) (auto simp: takeWhile_append)
  then have k': "k = length nl"
    using k by simp
  let ?cur = "cur + k + length l + 1"
  let ?buf = "buf[cur + k + length l := 0]"
  have "drop (cur + k) buf = l @ e # rest @ 0 # y"
    using arg_cong[OF x(1), of "drop k"] nl(1) k' by (simp add: add.commute)
  then have "take (length l) (drop (cur + k) buf) = l"
    by simp
  moreover have "drop ?cur ?buf = drop ?cur buf"
    by simp
  moreover have "drop ?cur buf = rest @ 0 # y"
  proof -
    have "drop ?cur buf = drop (k + length l + 1) (drop cur buf)"
      by (simp add: add.commute add.left_commute)
    then show ?thesis
      using x(1) nl(1) k' by simp
  qed
  moreover have "?cur \<le> MAX_AT_RESPONSE"
  proof -
    have "length (drop cur buf) = length x + 1 + length y"
      using x(1) by simp
    then show ?thesis
      using ok nl(1) k' by (simp add: at_buf_ok_def)
  qed
  moreover have "?buf ! MAX_AT_RESPONSE = 0"
    using ok by (cases "cur + k + length l = MAX_AT_RESPONSE") (simp_all add: at_buf_ok_def)
  moreover have "c_string (rest @ 0 # y) = rest"
    using x(3) nl(1) by (intro c_string_append_nul) auto
  ultimately show ?thesis
    using ok by (auto simp: take_line_def at_buf_ok_def)
qed

section \<open>Reading on\<close>

text \<open>The bytes that the coming reads will give, and reads without an error or the end of
  the stream.\<close>

definition chunk_bytes :: "read_result \<Rightarrow> byte list" where
  "chunk_bytes r = (case r of Chunk bs \<Rightarrow> bs | _ \<Rightarrow> [])"

definition stream :: "read_result list \<Rightarrow> byte list" where
  "stream rs = concat (map chunk_bytes rs)"

definition good_reads :: "read_result list \<Rightarrow> bool" where
  "good_reads rs \<longleftrightarrow> (\<forall>r\<in>set rs. r = ReadIntr \<or> (\<exists>bs. r = Chunk bs \<and> bs \<noteq> []))"

lemma stream_simps [simp]:
  "stream [] = []" "stream (Chunk bs # rs) = bs @ stream rs" "stream (ReadIntr # rs) = stream rs"
  by (simp_all add: stream_def chunk_bytes_def)

lemma good_reads_simps [simp]:
  "good_reads []" "good_reads (Chunk bs # rs) \<longleftrightarrow> bs \<noteq> [] \<and> good_reads rs"
  "good_reads (ReadIntr # rs) \<longleftrightarrow> good_reads rs" "\<not> good_reads (ReadError # rs)"
  by (auto simp: good_reads_def)

text \<open>What is left to read after \<open>n\<close> bytes of a chunk.\<close>

definition rest_reads :: "nat \<Rightarrow> byte list \<Rightarrow> read_result list \<Rightarrow> read_result list" where
  "rest_reads n bs rs = (if n < length bs then Chunk (drop n bs) # rs else rs)"

lemma stream_rest_reads: "take n bs @ stream (rest_reads n bs rs) = bs @ stream rs"
  by (simp add: rest_reads_def)

lemma good_rest_reads: "good_reads rs \<Longrightarrow> good_reads (rest_reads n bs rs)"
  by (simp add: rest_reads_def)

definition read_size :: "read_result list \<Rightarrow> nat" where
  "read_size rs = (\<Sum>r\<leftarrow>rs. case r of Chunk bs \<Rightarrow> Suc (length bs) | _ \<Rightarrow> 1)"

lemma read_size_rest: "0 < n \<Longrightarrow> bs \<noteq> [] \<Longrightarrow> read_size (rest_reads n bs rs) < read_size (Chunk bs # rs)"
  unfolding read_size_def rest_reads_def by (cases "n < length bs") simp_all

text \<open>The array in the loop of \<open>readline\<close>: the bytes \<open>data\<close> in front, without a complete
  line, and the position behind the line ends they begin with.\<close>

definition loop_ok :: "byte list \<Rightarrow> nat \<Rightarrow> byte list \<Rightarrow> bool" where
  "loop_ok buf cur data \<longleftrightarrow> length buf = MAX_AT_RESPONSE + 1 \<and> buf ! MAX_AT_RESPONSE = 0
     \<and> length data \<le> MAX_AT_RESPONSE \<and> take (length data) buf = data \<and> 0 \<notin> set data
     \<and> cur = length (takeWhile is_eol data) \<and> next_line data = None"

lemma takeWhile_c_string:
  assumes "prefix data v"
  shows "length (takeWhile is_eol data) + length (takeWhile is_eol (drop (length (takeWhile is_eol data)) v))
    = length (takeWhile is_eol v)"
proof -
  have "prefix (takeWhile is_eol data) v"
    using assms takeWhile_is_prefix prefix_order.trans by blast
  then obtain z where "v = takeWhile is_eol data @ z"
    by (auto simp: prefix_def)
  moreover have "takeWhile is_eol (takeWhile is_eol data @ z) = takeWhile is_eol data @ takeWhile is_eol z"
    by (auto simp: takeWhile_append dest: set_takeWhileD)
  ultimately show ?thesis
    by (metis append_eq_conv_conj length_append)
qed

lemma c_string_append_notin: "0 \<notin> set a \<Longrightarrow> c_string (a @ b) = a @ c_string b"
  by (induction a) (simp_all add: c_string_def)

lemma read_loop_Chunk:
  assumes "p < MAX_AT_RESPONSE" "bs \<noteq> []" "n = min (length bs) (MAX_AT_RESPONSE - p)"
    "blit buf p (take n bs @ [0]) = Some buf'" "skip_newlines (drop cur buf') = Some k"
    "findNextEOL (drop (cur + k) buf') = Some found"
  shows "read_loop (Chunk bs # rs) buf cur p =
    (case found of Some e \<Rightarrow> take_line buf' (cur + k) e (rest_reads n bs rs)
     | None \<Rightarrow> read_loop (rest_reads n bs rs) buf' (cur + k) (p + n))"
proof -
  have n: "(if p < MAX_AT_RESPONSE then min (length bs) (MAX_AT_RESPONSE - p) else length bs) = n"
    using assms(1,3) by simp
  have p: "p \<noteq> MAX_AT_RESPONSE"
    using assms(1) by simp
  show ?thesis
    by (subst read_loop.simps)
      (simp only: p n if_False case_prod_conv Let_def list.case read_result.case assms(2,4-6) option.case rest_reads_def)
qed

text \<open>One read: it completes a line of what is visible, or the loop goes on with more data.\<close>

lemma read_chunk:
  fixes data bs
  defines "n \<equiv> min (length bs) (MAX_AT_RESPONSE - length data)"
  defines "data' \<equiv> data @ take n bs"
  defines "v \<equiv> c_string data'"
  assumes ok: "loop_ok buf cur data" and bs: "bs \<noteq> []" and room: "length data < MAX_AT_RESPONSE" and np: "62 \<notin> set v"
  shows "(case next_line v of
      Some (l, r) \<Rightarrow> \<exists>buf' cur'. read_loop (Chunk bs # rs) buf cur (length data) = Ret (Some l, buf', cur', rest_reads n bs rs)
        \<and> at_buf_ok buf' cur' \<and> c_string (drop cur' buf') = r
    | None \<Rightarrow> 0 \<notin> set data' \<longrightarrow> (\<exists>buf' cur'. loop_ok buf' cur' data'
        \<and> read_loop (Chunk bs # rs) buf cur (length data) = read_loop (rest_reads n bs rs) buf' cur' (length data')))"
proof -
  let ?p = "length data"
  let ?buf = "data' @ 0 # drop (?p + n + 1) buf"
  have len: "length buf = MAX_AT_RESPONSE + 1" "buf ! MAX_AT_RESPONSE = 0" "take ?p buf = data" "0 \<notin> set data"
    and cur: "cur = length (takeWhile is_eol data)"
    using ok by (auto simp: loop_ok_def)
  have n: "0 < n" "n \<le> length bs" "?p + n \<le> MAX_AT_RESPONSE"
    using bs room by (simp_all add: n_def)
  have blit: "blit buf ?p (take n bs @ [0]) = Some ?buf"
    using len n by (simp add: blit_def data'_def)
  have l': "length ?buf = MAX_AT_RESPONSE + 1" "length data' = ?p + n"
    using len(1) n by (simp_all add: data'_def)
  have z': "?buf ! MAX_AT_RESPONSE = 0"
  proof (cases "?p + n = MAX_AT_RESPONSE")
    case False
    then have "drop (?p + n + 1) buf ! (MAX_AT_RESPONSE - (?p + n + 1)) = buf ! MAX_AT_RESPONSE"
      using n(3) len(1) by (subst nth_drop) simp_all
    then show ?thesis
      using False n(3) l'(2) len(2) by (simp add: nth_append nth_Cons')
  next
    case True
    then show ?thesis
      using l'(2) by (simp add: nth_append)
  qed
  have dv: "prefix data v"
    using len(4) by (simp add: v_def data'_def c_string_append_notin)
  have cv: "c_string ?buf = v"
  proof (cases "0 \<in> set data'")
    case True
    then obtain y where y: "data' = v @ 0 # y"
      using c_string_split unfolding v_def by blast
    have "0 \<notin> set v"
      by (simp add: v_def)
    then have "c_string (v @ 0 # y @ 0 # drop (?p + n + 1) buf) = v"
      by (rule c_string_append_nul)
    then show ?thesis
      by (subst y) simp
  qed (simp add: c_string_append_nul c_string_id v_def)
  have curv: "cur \<le> length v"
    using dv cur length_takeWhile_le[of is_eol data] prefix_length_le[OF dv] by simp
  have x: "c_string (drop cur ?buf) = drop cur v"
    using drop_c_string[of cur ?buf] curv cv by simp
  have bok: "at_buf_ok ?buf cur"
    using l'(1) z' cur n(3) length_takeWhile_le[of is_eol data] by (simp add: at_buf_ok_def)
  obtain y where y: "drop cur ?buf = drop cur v @ 0 # y"
    using at_buf_split[OF bok] x by metis
  have nov: "0 \<notin> set (drop cur v)" "62 \<notin> set (drop cur v)"
    using np by (auto simp: v_def dest: in_set_dropD)
  define k where "k = length (takeWhile is_eol (drop cur v))"
  have ck: "cur + k = length (takeWhile is_eol v)"
    using takeWhile_c_string[OF dv] cur by (simp add: k_def)
  have nl: "next_line (drop cur v) = next_line v"
  proof -
    have "next_line (drop k (drop cur v)) = next_line (drop cur v)"
      unfolding k_def by (rule next_line_drop)
    then show ?thesis
      using next_line_drop[of v] ck by (simp add: add.commute)
  qed
  have skip: "skip_newlines (drop cur ?buf) = Some k"
    unfolding y k_def by (rule skip_newlines_string)
  have find: "findNextEOL (drop (cur + k) ?buf) = Some (map_option (\<lambda>(l, _). length l) (next_line v))"
  proof -
    have "drop (cur + k) ?buf = drop k (drop cur v @ 0 # y)"
      unfolding y[symmetric] by (simp only: drop_drop add.commute)
    then show ?thesis
      using scan_string[OF nov, of k y] nl by (simp add: k_def)
  qed
  have step: "read_loop (Chunk bs # rs) buf cur ?p =
      (case map_option (\<lambda>(l, _). length l) (next_line v) of
         Some e \<Rightarrow> take_line ?buf (cur + k) e (rest_reads n bs rs)
       | None \<Rightarrow> read_loop (rest_reads n bs rs) ?buf (cur + k) (?p + n))"
    by (rule read_loop_Chunk[OF room bs n_def[THEN meta_eq_to_obj_eq] blit skip find])
  show ?thesis
  proof (cases "next_line v")
    case None
    moreover have "loop_ok ?buf (cur + k) data'" if "0 \<notin> set data'"
    proof -
      have "v = data'"
        using that by (simp add: v_def c_string_id)
      then show ?thesis
        using that None l' z' n(3) ck by (simp add: loop_ok_def)
    qed
    ultimately show ?thesis
      using step l'(2) by auto
  next
    case (Some lr)
    obtain l r where lr: "lr = (l, r)"
      by (cases lr)
    have "next_line (drop cur v) = Some (l, r)"
      using Some lr nl by simp
    from take_line_ok[OF bok y this nov(1) k_def] show ?thesis
      using Some lr step by simp
  qed
qed

text \<open>
  The reader will see a text: it is in the array, or in the array and the coming reads,
  there perhaps in front of a NUL and other bytes, the \<open>tail\<close>.
\<close>

definition sees :: "byte list \<Rightarrow> byte list \<Rightarrow> byte list \<Rightarrow> byte list \<Rightarrow> bool" where
  "sees unread st text tail \<longleftrightarrow> (tail = [] \<or> hd tail = 0) \<and> (unread @ st = text @ tail \<or> tail \<noteq> [] \<and> unread = text)"

lemma visible_prefix:
  assumes "a @ b = text @ tail" "tail = [] \<or> hd tail = 0" "0 \<notin> set a"
  obtains z where "text = a @ z" "b = z @ tail"
proof -
  from assms(1) obtain us where "a = text @ us \<and> us @ b = tail \<or> a @ us = text \<and> b = us @ tail"
    by (auto simp: append_eq_append_conv2)
  then show thesis
  proof
    assume "a = text @ us \<and> us @ b = tail"
    then have "us = []"
      using assms(2,3) by (cases us) auto
    then show thesis
      using \<open>a = text @ us \<and> us @ b = tail\<close> that[of "[]"] by simp
  next
    assume "a @ us = text \<and> b = us @ tail"
    then show thesis
      using that[of us] by simp
  qed
qed

lemma visible_part:
  assumes "a @ b = text @ tail" "tail = [] \<or> hd tail = 0" "0 \<notin> set text"
  shows "0 \<in> set a \<and> c_string a = text \<or> 0 \<notin> set a \<and> (\<exists>z. text = a @ z \<and> b = z @ tail)"
proof (cases "0 \<in> set a")
  case False
  then show ?thesis
    using visible_prefix[OF assms(1,2) False] by metis
next
  case True
  from assms(1) obtain us where "a = text @ us \<and> us @ b = tail \<or> a @ us = text \<and> b = us @ tail"
    by (auto simp: append_eq_append_conv2)
  then have "a = text @ us" "us \<noteq> []" "us @ b = tail"
    using True assms(3) by auto
  moreover from this have "hd us = 0"
    using assms(2) by (metis Nil_is_append_conv hd_append2)
  ultimately have "a = text @ 0 # tl us"
    by (metis list.collapse)
  then show ?thesis
    using True assms(3) by (simp add: c_string_append_nul)
qed

lemma next_line_of_prefix:
  assumes "text = v @ z" "next_line v = Some (l', r)" "next_line text = Some (l, rest)"
  shows "l' = l \<and> rest = r @ z"
  using next_line_append[OF assms(2), of z] assms(1,3) by simp

lemma short_prefix_incomplete:
  assumes "next_line text = Some (l, rest)" "text = v @ z" "next_line v = None"
  shows "length v < length text - length rest"
proof (rule ccontr)
  assume len: "\<not> length v < length text - length rest"
  obtain nl e where nl: "text = nl @ l @ e # rest" "\<forall>b\<in>set nl. is_eol b" "l \<noteq> []" "\<forall>b\<in>set l. \<not> is_eol b" "is_eol e"
    using assms(1) by (rule next_lineE)
  have "v @ z = (nl @ l @ [e]) @ rest"
    using nl(1) assms(2) by simp
  moreover have "length (nl @ l @ [e]) \<le> length v"
    using len nl(1) by simp
  ultimately obtain w where "v = (nl @ l @ [e]) @ w"
    by (metis append_eq_append_conv_if append_take_drop_id)
  then have "next_line v = Some (l, w)"
    using nl by (simp add: next_line_eols next_line_complete)
  then show False
    using assms(3) by simp
qed

lemma read_loop_line:
  assumes "loop_ok buf cur data" "good_reads rs" "data @ stream rs = text @ tail" "tail = [] \<or> hd tail = 0"
    "0 \<notin> set text" "62 \<notin> set text" "next_line text = Some (l, rest)" "length text \<le> MAX_AT_RESPONSE + length rest"
  shows "\<exists>buf' cur' rs'. read_loop rs buf cur (length data) = Ret (Some l, buf', cur', rs') \<and> at_buf_ok buf' cur'
    \<and> good_reads rs' \<and> sees (c_string (drop cur' buf')) (stream rs') rest tail"
  using assms(1-3)
proof (induction "read_size rs" arbitrary: rs buf cur data rule: less_induct)
  case less
  have d: "0 \<notin> set data" "next_line data = None"
    using less.prems(1) by (simp_all add: loop_ok_def)
  obtain z where z: "text = data @ z" "stream rs = z @ tail"
    using visible_prefix[OF less.prems(3) assms(4) d(1)] by blast
  have room: "length data < MAX_AT_RESPONSE"
    using short_prefix_incomplete[OF assms(7) z(1) d(2)] assms(8) by simp
  show ?case
  proof (cases rs)
    case Nil
    then show ?thesis
      using z assms(7) d(2) by simp
  next
    case (Cons r rs0)
    show ?thesis
    proof (cases r)
      case ReadError
      then show ?thesis
        using less.prems(2) Cons by simp
    next
      case ReadIntr
      then have "read_loop rs buf cur (length data) = read_loop rs0 buf cur (length data)"
        using Cons room by (subst read_loop.simps) simp
      moreover have "read_size rs0 < read_size rs"
        using Cons ReadIntr by (simp add: read_size_def)
      ultimately show ?thesis
        using less.hyps[of rs0 buf cur data] less.prems Cons ReadIntr by simp
    next
      case (Chunk bs)
      let ?n = "min (length bs) (MAX_AT_RESPONSE - length data)"
      let ?data = "data @ take ?n bs"
      let ?rs = "rest_reads ?n bs rs0"
      have bs: "bs \<noteq> []" "good_reads rs0"
        using less.prems(2) Cons Chunk by simp_all
      have eq: "?data @ stream ?rs = text @ tail"
        using less.prems(3) Cons Chunk stream_rest_reads[of ?n bs rs0] by simp
      note vis = visible_part[OF eq assms(4,5)]
      obtain z' where z': "text = c_string ?data @ z'"
        using vis by (metis append_Nil2 c_string_id)
      have np: "62 \<notin> set (c_string ?data)"
        using z' assms(6) by simp
      note chunk = read_chunk[OF less.prems(1) bs(1) room np, of rs0]
      show ?thesis
      proof (cases "next_line (c_string ?data)")
        case None
        then have no0: "0 \<notin> set ?data"
          using vis assms(7) by auto
        then obtain buf' cur' where b: "loop_ok buf' cur' ?data"
            "read_loop rs buf cur (length data) = read_loop ?rs buf' cur' (length ?data)"
          using chunk None Cons Chunk by auto
        have "read_size ?rs < read_size rs"
          using read_size_rest[of ?n bs rs0] bs(1) room Cons Chunk by simp
        from less.hyps[OF this b(1) good_rest_reads[OF bs(2)] eq] show ?thesis
          using b(2) by simp
      next
        case (Some lr)
        obtain l' r where lr: "lr = (l', r)"
          by (cases lr)
        then obtain buf' cur' where b: "read_loop rs buf cur (length data) = Ret (Some l', buf', cur', ?rs)"
            "at_buf_ok buf' cur'" "c_string (drop cur' buf') = r"
          using chunk Some Cons Chunk by auto
        have l': "l' = l" "rest = r @ z'"
          using next_line_of_prefix[OF z' _ assms(7)] Some lr by simp_all
        have "sees r (stream ?rs) rest tail"
        proof (cases "0 \<in> set ?data")
          case True
          then have "z' = []"
            using vis z' by simp
          moreover have "tail \<noteq> []"
            using True eq assms(5) by auto
          ultimately show ?thesis
            using l' assms(4) by (simp add: sees_def)
        next
          case False
          then have "stream ?rs = z' @ tail"
            using eq z' by (simp add: c_string_id)
          then show ?thesis
            using l' assms(4) by (auto simp: sees_def)
        qed
        then show ?thesis
          using b l' good_rest_reads[OF bs(2)] by auto
      qed
    qed
  qed
qed

text \<open>A text without a complete line keeps the reader waiting.\<close>

lemma next_line_prefix_None: "next_line (v @ z) = None \<Longrightarrow> next_line v = None"
  using next_line_append[of v _ _ z] by (cases "next_line v") auto

lemma read_loop_waits:
  assumes "loop_ok buf cur data" "good_reads rs" "data @ stream rs = text"
    "0 \<notin> set text" "62 \<notin> set text" "next_line text = None" "length text < MAX_AT_RESPONSE"
  shows "read_loop rs buf cur (length data) = Waits"
  using assms(1-3)
proof (induction "read_size rs" arbitrary: rs buf cur data rule: less_induct)
  case less
  have room: "length data < MAX_AT_RESPONSE"
    using less.prems(3) assms(7) by auto
  show ?case
  proof (cases rs)
    case Nil
    then show ?thesis
      using room by (subst read_loop.simps) simp
  next
    case (Cons r rs0)
    show ?thesis
    proof (cases r)
      case ReadError
      then show ?thesis
        using less.prems(2) Cons by simp
    next
      case ReadIntr
      then have "read_loop rs buf cur (length data) = read_loop rs0 buf cur (length data)"
        using Cons room by (subst read_loop.simps) simp
      moreover have "read_size rs0 < read_size rs"
        using Cons ReadIntr by (simp add: read_size_def)
      ultimately show ?thesis
        using less.hyps[of rs0 buf cur data] less.prems Cons ReadIntr by simp
    next
      case (Chunk bs)
      let ?n = "min (length bs) (MAX_AT_RESPONSE - length data)"
      let ?data = "data @ take ?n bs"
      let ?rs = "rest_reads ?n bs rs0"
      have bs: "bs \<noteq> []" "good_reads rs0"
        using less.prems(2) Cons Chunk by simp_all
      have eq: "?data @ stream ?rs = text"
        using less.prems(3) Cons Chunk stream_rest_reads[of ?n bs rs0] by simp
      have no0: "0 \<notin> set ?data" "62 \<notin> set ?data" "next_line ?data = None"
        using assms(4-6) next_line_prefix_None[of ?data "stream ?rs"] unfolding eq[symmetric] by auto
      then have no: "0 \<notin> set ?data" "62 \<notin> set (c_string ?data)" "next_line (c_string ?data) = None"
        by (simp_all only: c_string_id simp_thms)
      obtain buf' cur' where b: "loop_ok buf' cur' ?data"
          "read_loop rs buf cur (length data) = read_loop ?rs buf' cur' (length ?data)"
        using read_chunk[OF less.prems(1) bs(1) room no(2), of rs0] no(1,3) Cons Chunk by auto
      have "read_size ?rs < read_size rs"
        using read_size_rest[of ?n bs rs0] bs(1) room Cons Chunk by simp
      from less.hyps[OF this b(1) good_rest_reads[OF bs(2)] eq] show ?thesis
        using b(2) by simp
    qed
  qed
qed

section \<open>The next line of the channel\<close>

definition unread :: "'a at_chan_scheme \<Rightarrow> byte list" where
  "unread c = c_string (drop (s_ATBufferCur c) (s_ATBuffer c))"

definition reader_ok :: "'a at_chan_scheme \<Rightarrow> bool" where
  "reader_ok c \<longleftrightarrow> at_buf_ok (s_ATBuffer c) (s_ATBufferCur c) \<and> good_reads (env_reads c)"

definition will_see :: "byte list \<Rightarrow> byte list \<Rightarrow> 'a at_chan_scheme \<Rightarrow> bool" where
  "will_see text tail c \<longleftrightarrow> reader_ok c \<and> sees (unread c) (stream (env_reads c)) text tail \<and> 0 \<notin> set text \<and> 62 \<notin> set text"

text \<open>The two ways into the loop: with an empty array, or with the partial line moved to its
  front.\<close>

lemma loop_ok_empty: "at_buf_ok buf cur \<Longrightarrow> loop_ok (buf[0 := 0]) 0 []"
  by (simp add: at_buf_ok_def loop_ok_def next_line_def MAX_AT_RESPONSE_def)

lemma loop_ok_moved:
  assumes "at_buf_ok buf cur" "drop cur buf = x @ 0 # y" "0 \<notin> set x" "next_line x = None"
  defines "d \<equiv> dropWhile is_eol x"
  shows "\<exists>buf'. blit buf 0 (d @ [0]) = Some buf' \<and> loop_ok buf' 0 d"
proof -
  have len: "length buf = MAX_AT_RESPONSE + 1" "buf ! MAX_AT_RESPONSE = 0"
    using assms(1) by (simp_all add: at_buf_ok_def)
  have "length (drop cur buf) = length x + 1 + length y"
    using assms(2) by simp
  then have ld: "length d \<le> MAX_AT_RESPONSE"
    using len(1) length_dropWhile_le[of is_eol x] by (simp add: d_def)
  let ?buf = "d @ 0 # drop (length d + 1) buf"
  have "?buf ! MAX_AT_RESPONSE = 0"
    using len ld by (cases "length d = MAX_AT_RESPONSE") (simp_all add: nth_append nth_Cons')
  moreover have "takeWhile is_eol d = []"
    unfolding d_def by (induction x) simp_all
  moreover have "next_line d = None"
    using next_line_drop[of x] assms(4) by (simp add: d_def dropWhile_eq_drop)
  moreover have "0 \<notin> set d"
    using assms(3) by (auto simp: d_def dest: set_dropWhileD)
  ultimately have "loop_ok ?buf 0 d"
    using ld len(1) by (simp add: loop_ok_def)
  moreover have "blit buf 0 (d @ [0]) = Some ?buf"
    using ld len(1) by (simp add: blit_def)
  ultimately show ?thesis
    by blast
qed

text \<open>\<open>readline\<close> on the text in the array.\<close>

lemma readline_cases:
  assumes ok: "at_buf_ok (s_ATBuffer c) (s_ATBufferCur c)" and np: "62 \<notin> set (unread c)"
  shows "(case next_line (unread c) of
      Some (l, r) \<Rightarrow> \<exists>buf' cur'. readline c = Ret (Some l, c\<lparr>s_ATBuffer := buf', s_ATBufferCur := cur'\<rparr>)
        \<and> at_buf_ok buf' cur' \<and> c_string (drop cur' buf') = r
    | None \<Rightarrow> \<exists>buf'. loop_ok buf' 0 (dropWhile is_eol (unread c)) \<and>
        readline c = run_bind (read_loop (env_reads c) buf' 0 (length (dropWhile is_eol (unread c))))
          (\<lambda>(line, buf, cur, rs). Ret (line, c\<lparr>s_ATBuffer := buf, s_ATBufferCur := cur, env_reads := rs\<rparr>)))"
proof -
  let ?buf = "s_ATBuffer c" and ?cur = "s_ATBufferCur c"
  define x where "x = unread c"
  obtain y where y: "drop ?cur ?buf = x @ 0 # y"
    using at_buf_split[OF ok] unfolding unread_def x_def .
  have x0: "0 \<notin> set x" "62 \<notin> set x"
    using np by (simp_all add: x_def unread_def)
  have cur: "?cur < length ?buf"
    using ok by (simp add: at_buf_ok_def)
  then have nth: "nth_opt ?buf ?cur = Some (?buf ! ?cur)"
    by simp
  have hd: "?buf ! ?cur = hd (x @ [0])"
    using y cur by (cases x) (auto simp: hd_drop_conv_nth[symmetric])
  define k where "k = length (takeWhile is_eol x)"
  have skip: "skip_newlines (drop ?cur ?buf) = Some k"
    unfolding y k_def by (rule skip_newlines_string)
  have dk: "drop (?cur + k) ?buf = drop k (x @ 0 # y)"
    unfolding y[symmetric] by (simp only: drop_drop add.commute)
  have find: "findNextEOL (drop (?cur + k) ?buf) = Some (map_option (\<lambda>(l, _). length l) (next_line x))"
    using scan_string[OF x0 k_def] dk by simp
  show ?thesis
  proof (cases "x = []")
    case True
    then show ?thesis
      using nth hd loop_ok_empty[OF ok]
      by (auto simp: readline_def Let_def x_def[symmetric] next_line_def intro!: exI[of _ "?buf[0 := 0]"])
  next
    case False
    then have nz: "?buf ! ?cur \<noteq> 0"
      using hd x0(1) by (cases x) auto
    show ?thesis
    proof (cases "next_line x")
      case None
      have "drop k (x @ 0 # y) = dropWhile is_eol x @ 0 # y"
        by (simp add: k_def dropWhile_eq_drop length_takeWhile_le)
      then have "c_string (drop (?cur + k) ?buf) = dropWhile is_eol x"
        using dk x0(1) by (auto intro!: c_string_append_nul dest: set_dropWhileD)
      moreover obtain buf' where "blit ?buf 0 (dropWhile is_eol x @ [0]) = Some buf'" "loop_ok buf' 0 (dropWhile is_eol x)"
        using loop_ok_moved[OF ok y x0(1) None] by blast
      ultimately show ?thesis
        using None nz nth skip find by (auto simp: readline_def Let_def x_def[symmetric])
    next
      case (Some lr)
      obtain l r where lr: "lr = (l, r)"
        by (cases lr)
      obtain buf' cur' where "take_line ?buf (?cur + k) (length l) (env_reads c) = Ret (Some l, buf', cur', env_reads c)"
          "at_buf_ok buf' cur'" "c_string (drop cur' buf') = r"
        using take_line_ok[OF ok y _ x0(1) k_def] Some lr by blast
      then show ?thesis
        using Some lr nz nth skip find by (auto simp: readline_def Let_def x_def[symmetric])
    qed
  qed
qed

lemma readline_line:
  assumes "will_see text tail c" "next_line text = Some (l, rest)" "length text \<le> MAX_AT_RESPONSE + length rest"
  shows "\<exists>buf cur rs. readline c = Ret (Some l, c\<lparr>s_ATBuffer := buf, s_ATBufferCur := cur, env_reads := rs\<rparr>)
    \<and> will_see rest tail (c\<lparr>s_ATBuffer := buf, s_ATBufferCur := cur, env_reads := rs\<rparr>)"
proof -
  have ok: "at_buf_ok (s_ATBuffer c) (s_ATBufferCur c)" "good_reads (env_reads c)"
    and t: "sees (unread c) (stream (env_reads c)) text tail" "0 \<notin> set text" "62 \<notin> set text"
    using assms(1) by (simp_all add: will_see_def reader_ok_def)
  have u0: "0 \<notin> set (unread c)"
    by (simp add: unread_def)
  have rest: "0 \<notin> set rest" "62 \<notin> set rest"
    using next_line_set[OF assms(2)] t(2,3) by auto
  have tail: "tail = [] \<or> hd tail = 0"
    using t(1) by (simp add: sees_def)
  obtain z where z: "text = unread c @ z" "stream (env_reads c) = z @ tail \<or> tail \<noteq> [] \<and> z = []"
  proof (cases "unread c @ stream (env_reads c) = text @ tail")
    case True
    show thesis
      using visible_prefix[OF True tail u0] that by blast
  next
    case False
    then show thesis
      using t(1) that[of "[]"] by (simp add: sees_def)
  qed
  have np: "62 \<notin> set (unread c)"
    using z(1) t(3) by simp
  show ?thesis
  proof (cases "next_line (unread c)")
    case (Some lr)
    obtain l' r where lr: "lr = (l', r)"
      by (cases lr)
    then obtain buf cur where b: "readline c = Ret (Some l', c\<lparr>s_ATBuffer := buf, s_ATBufferCur := cur\<rparr>)"
        "at_buf_ok buf cur" "c_string (drop cur buf) = r"
      using readline_cases[OF ok(1) np] Some by auto
    have l': "l' = l" "rest = r @ z"
      using next_line_of_prefix[OF z(1) _ assms(2)] Some lr by simp_all
    have "sees r (stream (env_reads c)) rest tail"
      using z(2) l'(2) tail by (auto simp: sees_def)
    then show ?thesis
      using b l' ok(2) rest
      by (intro exI[of _ buf] exI[of _ cur] exI[of _ "env_reads c"])
        (simp add: will_see_def reader_ok_def unread_def)
  next
    case None
    then have st: "stream (env_reads c) = z @ tail"
      using z assms(2) by auto
    let ?d = "dropWhile is_eol (unread c)"
    obtain buf' where b: "loop_ok buf' 0 ?d"
        "readline c = run_bind (read_loop (env_reads c) buf' 0 (length ?d))
          (\<lambda>(line, buf, cur, rs). Ret (line, c\<lparr>s_ATBuffer := buf, s_ATBufferCur := cur, env_reads := rs\<rparr>))"
      using readline_cases[OF ok(1) np] None by auto
    define nl where "nl = takeWhile is_eol (unread c)"
    have nl: "unread c = nl @ ?d" "\<forall>b\<in>set nl. is_eol b"
      by (auto simp: nl_def dest: set_takeWhileD)
    have tx: "text = nl @ ?d @ z"
      using z(1) nl(1) by (metis append_assoc)
    have "next_line (?d @ z) = Some (l, rest)"
      using assms(2) next_line_eols[OF nl(2)] unfolding tx by simp
    moreover have "0 \<notin> set (?d @ z)" "62 \<notin> set (?d @ z)" "length (?d @ z) \<le> MAX_AT_RESPONSE + length rest"
      using t(2,3) assms(3) unfolding tx by auto
    ultimately obtain buf cur rs where "read_loop (env_reads c) buf' 0 (length ?d) = Ret (Some l, buf, cur, rs)"
        "at_buf_ok buf cur" "good_reads rs" "sees (c_string (drop cur buf)) (stream rs) rest tail"
      using read_loop_line[OF b(1) ok(2), of "?d @ z" tail l rest] st tail by auto
    then show ?thesis
      using b(2) rest
      by (intro exI[of _ buf] exI[of _ cur] exI[of _ rs]) (simp add: will_see_def reader_ok_def unread_def)
  qed
qed

lemma readline_waits:
  assumes "reader_ok c" "unread c @ stream (env_reads c) = text" "0 \<notin> set text" "62 \<notin> set text"
    "next_line text = None" "length text < MAX_AT_RESPONSE"
  shows "readline c = Waits"
proof -
  have ok: "at_buf_ok (s_ATBuffer c) (s_ATBufferCur c)" "good_reads (env_reads c)"
    using assms(1) by (simp_all add: reader_ok_def)
  have np: "62 \<notin> set (unread c)" "next_line (unread c) = None"
    using assms(2,4,5) next_line_prefix_None by (auto simp: assms(2)[symmetric])
  let ?d = "dropWhile is_eol (unread c)"
  obtain buf' where b: "loop_ok buf' 0 ?d"
      "readline c = run_bind (read_loop (env_reads c) buf' 0 (length ?d))
        (\<lambda>(line, buf, cur, rs). Ret (line, c\<lparr>s_ATBuffer := buf, s_ATBufferCur := cur, env_reads := rs\<rparr>))"
    using readline_cases[OF ok(1) np(1)] np(2) by auto
  define nl where "nl = takeWhile is_eol (unread c)"
  have nl: "unread c = nl @ ?d" "\<forall>b\<in>set nl. is_eol b"
    by (auto simp: nl_def dest: set_takeWhileD)
  have tx: "text = nl @ ?d @ stream (env_reads c)"
    using assms(2) nl(1) by (metis append_assoc)
  have "next_line (?d @ stream (env_reads c)) = None"
    using assms(5) next_line_eols[OF nl(2)] unfolding tx by simp
  moreover have "0 \<notin> set (?d @ stream (env_reads c))" "62 \<notin> set (?d @ stream (env_reads c))"
      "length (?d @ stream (env_reads c)) < MAX_AT_RESPONSE"
    using assms(3,4,6) unfolding tx by auto
  ultimately have "read_loop (env_reads c) buf' 0 (length ?d) = Waits"
    using read_loop_waits[OF b(1) ok(2)] by blast
  then show ?thesis
    using b(2) by simp
qed

end
