(* ===== verification/At_Properties.thy ===== *)
theory At_Properties
  imports At_Lines
begin

text \<open>
  What the AT channel does for its client: the lines come as they were sent, a command
  gets the lines of its answer, and the errors of the channel.
\<close>

section \<open>The lines of the channel\<close>

text \<open>The lines that the first \<open>n\<close> calls of \<open>readline\<close> return.\<close>

fun read_lines :: "nat \<Rightarrow> 'a at_chan_scheme \<Rightarrow> byte list list" where
  "read_lines 0 c = []"
| "read_lines (Suc n) c = (case readline c of Ret (Some l, c') \<Rightarrow> l # read_lines n c' | _ \<Rightarrow> [])"

lemma will_see_all:
  assumes "will_see text [] c"
  shows "unread c @ stream (env_reads c) = text"
  using assms by (simp add: will_see_def sees_def)

text \<open>
  Property C10.  The lines do not depend on how the socket cuts the stream: whatever the
  sizes of the reads, and with interrupted reads between them, the calls of
  \<open>readline\<close> return the non-empty lines of the text in order, and then wait.  The text
  has no NUL and no SMS prompt, and its lines have room in the buffer.
\<close>

theorem lines_any_chunking:
  assumes "reader_ok c" and "unread c @ stream (env_reads c) = text" and "0 \<notin> set text" and "62 \<notin> set text" and "fits text"
  shows "read_lines n c = take n (lines_of text)"
proof -
  have "will_see text [] c"
    using assms by (simp add: will_see_def sees_def)
  then show ?thesis
    using assms(5)
  proof (induction n arbitrary: c "text")
    case (Suc n)
    show ?case
    proof (cases "next_line text")
      case None
      then have "readline c = Waits"
        using readline_waits[of c "text"] Suc.prems will_see_all[OF Suc.prems(1)]
        by (simp add: will_see_def fits.simps)
      then show ?thesis
        using None by (simp add: lines_of.simps)
    next
      case (Some lr)
      obtain l rest where lr: "lr = (l, rest)"
        by (cases lr)
      then have f: "length text \<le> MAX_AT_RESPONSE + length rest" "fits rest"
        using Suc.prems(2) Some by (simp_all add: fits.simps[of "text"])
      obtain buf cur rs where r: "readline c = Ret (Some l, c\<lparr>s_ATBuffer := buf, s_ATBufferCur := cur, env_reads := rs\<rparr>)"
          "will_see rest [] (c\<lparr>s_ATBuffer := buf, s_ATBufferCur := cur, env_reads := rs\<rparr>)"
        using readline_line[OF Suc.prems(1) _ f(1)] Some lr by blast
      then show ?thesis
        using Suc.IH[OF r(2) f(2)] Some lr by (simp add: lines_of.simps[of "text"])
    qed
  qed simp
qed

text \<open>The channel as the program starts, with the coming behaviour of the system.\<close>

definition at_start :: "read_result list \<Rightarrow> write_result list \<Rightarrow> wait_event list \<Rightarrow> at_chan" where
  "at_start rs ws es = \<lparr>s_fd = -1, s_ATBuffer = replicate (MAX_AT_RESPONSE + 1) 0, s_ATBufferCur = 0, s_type = NO_RESULT,
     s_responsePrefix = None, s_smsPDU = None, sp_response = None, s_unsolHandler = False, s_onTimeout = False,
     s_onReaderClosed = False, s_readerClosed = 0, reader_alive = False, env_reads = rs, env_writes = ws, env_waits = es,
     at_out = []\<rparr>"

lemma at_start_reader: "good_reads rs \<Longrightarrow> reader_ok (at_start rs ws es)" "unread (at_start rs ws es) = []"
proof -
  have "replicate (MAX_AT_RESPONSE + 1) (0 :: byte) ! MAX_AT_RESPONSE = 0"
    by (rule nth_replicate) simp
  then show "good_reads rs \<Longrightarrow> reader_ok (at_start rs ws es)"
    by (simp add: reader_ok_def at_start_def at_buf_ok_def del: replicate_Suc)
qed (simp add: at_start_def unread_def c_string_def)

lemma fits_Some: "next_line text = Some (l, rest) \<Longrightarrow> length text \<le> MAX_AT_RESPONSE + length rest \<Longrightarrow> fits rest \<Longrightarrow> fits text"
  by (simp add: fits.simps[of "text"])

lemma fits_short: "length text < MAX_AT_RESPONSE \<Longrightarrow> fits text"
proof (induction "text" rule: fits.induct)
  case (1 "text")
  show ?case
  proof (cases "next_line text")
    case None
    then show ?thesis
      using 1 by (simp add: fits.simps)
  next
    case (Some lr)
    obtain l rest where lr: "next_line text = Some (l, rest)"
      using Some by (cases lr) simp
    then have "fits rest"
      using 1 next_line_length[OF lr] by fastforce
    with lr show ?thesis
      using 1(2) by (intro fits_Some[OF lr]) simp_all
  qed
qed

theorem lines_any_chunking_witness:
  "read_lines 5 (at_start [Chunk (str ''RI''), ReadIntr, Chunk (str ''NG'' @ [13, 10] @ str ''O''), Chunk (str ''K'' @ [13, 10])] [] [])
   = [str ''RING'', str ''OK'']"
proof -
  let ?rs = "[Chunk (str ''RI''), ReadIntr, Chunk (str ''NG'' @ [13, 10] @ str ''O''), Chunk (str ''K'' @ [13, 10])]"
  let ?t = "str ''RING'' @ [13, 10] @ str ''OK'' @ [13, 10]"
  have "read_lines 5 (at_start ?rs [] []) = take 5 (lines_of ?t)"
  proof (rule lines_any_chunking)
    show "unread (at_start ?rs [] []) @ stream (env_reads (at_start ?rs [] [])) = ?t"
      unfolding at_start_reader(2) by (simp add: at_start_def)
    show "fits ?t"
      by (rule fits_short) (simp add: MAX_AT_RESPONSE_def)
  qed (simp_all add: at_start_reader)
  moreover have "lines_of ?t = [str ''RING'', str ''OK'']"
    by (simp add: lines_of.simps next_line_def is_eol_def)
  ultimately show ?thesis
    by simp
qed

section \<open>Commands and their answers\<close>

text \<open>What is written: the string and the byte behind it, in pieces as \<open>write\<close> takes them.\<close>

lemma write_string_out:
  "write_string fd s ws out = Ret (ok, ws', out') \<Longrightarrow>
     \<exists>new. out' = out @ new \<and> (\<forall>w\<in>set new. fst w = fd) \<and> (ok \<longrightarrow> concat (map snd new) = s)"
proof (induction ws arbitrary: s out)
  case Nil
  then show ?case
    by (subst (asm) write_string.simps) (auto split: if_splits)
next
  case (Cons w ws)
  show ?case
  proof (cases "s = []")
    case True
    then show ?thesis
      using Cons.prems by (subst (asm) write_string.simps) simp
  next
    case False
    show ?thesis
    proof (cases w)
      case (Wrote n)
      let ?out = "if n = 0 then out else out @ [(fd, take n s)]"
      have "write_string fd (drop n s) ws ?out = Ret (ok, ws', out')"
        using Cons.prems False Wrote by (subst (asm) write_string.simps) simp
      then obtain new where "out' = ?out @ new" "\<forall>w\<in>set new. fst w = fd" "ok \<longrightarrow> concat (map snd new) = drop n s"
        using Cons.IH by blast
      then show ?thesis
        by (intro exI[of _ "if n = 0 then new else (fd, take n s) # new"]) auto
    next
      case WriteIntr
      then show ?thesis
        using Cons.prems False Cons.IH[of s out] by (subst (asm) write_string.simps) simp
    next
      case WriteError
      then show ?thesis
        using Cons.prems False by (subst (asm) write_string.simps) simp
    qed
  qed
qed

lemma write_end_out:
  "write_end fd b ws out = Ret (ok, ws', out') \<Longrightarrow> out' = (if ok then out @ [(fd, [b])] else out)"
  by (induction fd b ws out rule: write_end.induct) (auto split: if_splits)

lemma writeline_out:
  assumes "writeline s c = Ret (err, c')"
  shows "\<exists>ws new. c' = c\<lparr>env_writes := ws, at_out := at_out c @ new\<rparr> \<and> (\<forall>w\<in>set new. fst w = s_fd c)
    \<and> (err = 0 \<longrightarrow> concat (map snd new) = s @ [13])"
proof (cases "s_fd c < 0 \<or> s_readerClosed c > 0")
  case True
  then show ?thesis
    using assms by (intro exI[of _ "env_writes c"] exI[of _ "[]"])
      (simp add: writeline_def write_closed_by_def AT_ERROR_CHANNEL_CLOSED_def)
next
  case False
  then obtain ok ws out where w: "write_string (s_fd c) s (env_writes c) (at_out c) = Ret (ok, ws, out)"
      "(if \<not> ok then Ret (AT_ERROR_GENERIC, c\<lparr>env_writes := ws, at_out := out\<rparr>)
        else run_bind (write_end (s_fd c) 13 ws out) (\<lambda>(ok, ws, out).
          Ret (if ok then 0 else AT_ERROR_GENERIC, c\<lparr>env_writes := ws, at_out := out\<rparr>))) = Ret (err, c')"
    using assms by (auto simp: writeline_def write_closed_by_def run_bind_Ret)
  obtain new where new: "out = at_out c @ new" "\<forall>w\<in>set new. fst w = s_fd c" "ok \<longrightarrow> concat (map snd new) = s"
    using write_string_out[OF w(1)] by blast
  show ?thesis
  proof (cases ok)
    case True
    then obtain ok2 ws2 out2 where w2: "write_end (s_fd c) 13 ws out = Ret (ok2, ws2, out2)"
        "err = (if ok2 then 0 else AT_ERROR_GENERIC)" "c' = c\<lparr>env_writes := ws2, at_out := out2\<rparr>"
      using w(2) by (auto simp: run_bind_Ret)
    then show ?thesis
      using write_end_out[OF w2(1)] new True
      by (intro exI[of _ ws2] exI[of _ "if ok2 then new @ [(s_fd c, [13])] else new"]) (auto simp: AT_ERROR_GENERIC_def)
  next
    case False
    then show ?thesis
      using w(2) new by (intro exI[of _ ws] exI[of _ new]) (auto simp: AT_ERROR_GENERIC_def)
  qed
qed

end
