(* ===== verification/At_Answers.thy ===== *)
theory At_Answers
  imports At_Properties
begin

text \<open>
  A command and its answer.  The client of the channel is a locale: a handler of
  unsolicited lines that leaves the channel's own data alone.  In it a command gets
  exactly the intermediate lines of its type and prefix, in the order they came, the
  final line and its verdict; every other line goes to the handler; and the channel is
  ready for the next command.
\<close>

section \<open>Intermediate and unsolicited lines\<close>

definition accepts :: "ATCommandType \<Rightarrow> byte list option \<Rightarrow> byte list list \<Rightarrow> byte list \<Rightarrow> bool" where
  "accepts t p ints l =
     (case t of NO_RESULT \<Rightarrow> False
      | NUMERIC \<Rightarrow> ints = [] \<and> l \<noteq> [] \<and> is_digit (hd l)
      | SINGLELINE \<Rightarrow> ints = [] \<and> prefix (the p) l
      | MULTILINE \<Rightarrow> prefix (the p) l)"

fun answer_lines :: "ATCommandType \<Rightarrow> byte list option \<Rightarrow> byte list list \<Rightarrow> byte list list
    \<Rightarrow> byte list list \<times> byte list list" where
  "answer_lines t p ints [] = (ints, [])"
| "answer_lines t p ints (l # ls) =
     (if accepts t p ints l then answer_lines t p (ints @ [l]) ls
      else (let (is, us) = answer_lines t p ints ls in (is, l # us)))"

lemma answer_lines_multiline:
  "answer_lines MULTILINE (Some p) ints ls = (ints @ filter (prefix p) ls, filter (\<lambda>l. \<not> prefix p l) ls)"
  by (induction ls arbitrary: ints) (simp_all add: accepts_def)

lemma answer_lines_no_result: "answer_lines NO_RESULT p ints ls = (ints, ls)"
  by (induction ls) (simp_all add: accepts_def)

definition prefix_given :: "ATCommandType \<Rightarrow> byte list option \<Rightarrow> bool" where
  "prefix_given t p \<longleftrightarrow> t \<in> {SINGLELINE, MULTILINE} \<longrightarrow> p \<noteq> None"

section \<open>The client\<close>

text \<open>A command that waits, without an SMS text to send.\<close>

definition waiting :: "ATResponse \<Rightarrow> 'a at_chan_scheme \<Rightarrow> bool" where
  "waiting r c \<longleftrightarrow> reader_alive c \<and> s_unsolHandler c \<and> s_smsPDU c = None \<and> s_readerClosed c = 0
     \<and> prefix_given (s_type c) (s_responsePrefix c) \<and> sp_response c = Some r"

text \<open>What a turn of the reader changes: the reader's data, the response and the client.\<close>

definition turned :: "'a at_chan_scheme \<Rightarrow> 'a at_chan_scheme \<Rightarrow> bool" where
  "turned c c' \<longleftrightarrow> s_fd c' = s_fd c \<and> s_type c' = s_type c \<and> s_responsePrefix c' = s_responsePrefix c \<and> s_smsPDU c' = s_smsPDU c
    \<and> s_unsolHandler c' = s_unsolHandler c \<and> s_onTimeout c' = s_onTimeout c \<and> s_onReaderClosed c' = s_onReaderClosed c
    \<and> s_readerClosed c' = s_readerClosed c \<and> reader_alive c' = reader_alive c \<and> env_writes c' = env_writes c
    \<and> env_waits c' = env_waits c \<and> at_out c' = at_out c"

lemma turned_trans: "turned a b \<Longrightarrow> turned b c \<Longrightarrow> turned a c"
  by (simp add: turned_def)

lemma will_see_cong:
  "s_ATBuffer c' = s_ATBuffer c \<Longrightarrow> s_ATBufferCur c' = s_ATBufferCur c \<Longrightarrow> env_reads c' = env_reads c
    \<Longrightarrow> will_see text tail c' = will_see text tail c"
  by (simp add: will_see_def reader_ok_def unread_def)

definition final_success :: "byte list \<Rightarrow> int" where
  "final_success f = (if isFinalResponseSuccess f then 1 else 0)"

text \<open>The channel between two commands.\<close>

definition channel_ready :: "'a at_chan_scheme \<Rightarrow> bool" where
  "channel_ready c \<longleftrightarrow> reader_alive c \<and> s_unsolHandler c \<and> sp_response c = None \<and> s_readerClosed c = 0"

lemma reverse_loop_rev: "reverse_loop xs acc = rev xs @ acc"
  by (induction xs acc rule: reverse_loop.induct) simp_all

lemma final_not_sms: "isFinalResponse f \<Longrightarrow> \<not> isSMSUnsolicited f"
  by (auto simp: isFinalResponse_def isFinalResponseSuccess_def isFinalResponseError_def isSMSUnsolicited_def
      s_finalResponsesSuccess_def s_finalResponsesError_def s_smsUnsoliciteds_def strStartsWith_prefix prefix_def)

lemma lines_of_Cons:
  assumes "lines_of text = l # ls" "fits text"
  obtains rest where "next_line text = Some (l, rest)" "lines_of rest = ls" "fits rest"
    "length text \<le> MAX_AT_RESPONSE + length rest"
proof (cases "next_line text")
  case None
  then show thesis
    using assms(1) by (simp add: lines_of.simps)
next
  case (Some lr)
  then show thesis
    using assms that by (cases lr) (simp add: lines_of.simps[of "text"] fits.simps[of "text"])
qed

text \<open>The lines of an answer: intermediate and unsolicited ones, and a final one.\<close>

definition answer :: "byte list list \<Rightarrow> byte list \<Rightarrow> bool" where
  "answer ls f \<longleftrightarrow> isFinalResponse f \<and> (\<forall>l\<in>set ls. \<not> isFinalResponse l \<and> \<not> isSMSUnsolicited l)"

text \<open>Enough turns of the reader for \<open>n\<close> lines, with wake-ups between and one at the end.\<close>

definition reader_runs :: "nat \<Rightarrow> wait_event list \<Rightarrow> bool" where
  "reader_runs n es \<longleftrightarrow> filter (\<lambda>e. e \<noteq> Woken) es = replicate n ReaderTurn \<and> es \<noteq> [] \<and> last es = Woken"

lemma reader_runs_turn: "reader_runs n (ReaderTurn # es) \<longleftrightarrow> (\<exists>m. n = Suc m \<and> reader_runs m es)"
  by (cases n; cases es) (auto simp: reader_runs_def)

lemma reader_runs_woken: "0 < n \<Longrightarrow> reader_runs n (Woken # es) \<longleftrightarrow> reader_runs n es"
  by (cases n; cases es) (auto simp: reader_runs_def)

lemma reader_runs_no: "\<not> reader_runs n []" "\<not> reader_runs n (TimedOut # es)"
  by (cases n; auto simp: reader_runs_def)+

lemma reader_runs_0: "reader_runs 0 es \<Longrightarrow> \<exists>es'. es = Woken # es'"
  by (cases es) (auto simp: reader_runs_def split: if_splits)

locale at_client =
  fixes h :: "'a at_chan_scheme at_hooks" and g :: "byte list \<Rightarrow> byte list option \<Rightarrow> 'a \<Rightarrow> 'a"
  assumes unsol_more: "call_unsol h s p c = at_chan.more_update (g s p) c"
begin

lemma turn_line:
  assumes see: "will_see text tail c" "next_line text = Some (l, rest)" "length text \<le> MAX_AT_RESPONSE + length rest"
    and w: "waiting r c" and l: "\<not> isFinalResponse l" "\<not> isSMSUnsolicited l"
  defines "acc \<equiv> accepts (s_type c) (s_responsePrefix c) (p_intermediates r) l"
  shows "\<exists>c'. readerLoop_turn h c = Ret c' \<and> turned c c' \<and> will_see rest tail c'
    \<and> sp_response c' = Some (if acc then r\<lparr>p_intermediates := l # p_intermediates r\<rparr> else r)
    \<and> at_chan.more c' = (if acc then at_chan.more c else g l None (at_chan.more c))"
proof -
  obtain buf cur rs where rd: "readline c = Ret (Some l, c\<lparr>s_ATBuffer := buf, s_ATBufferCur := cur, env_reads := rs\<rparr>)"
      "will_see rest tail (c\<lparr>s_ATBuffer := buf, s_ATBufferCur := cur, env_reads := rs\<rparr>)"
    using readline_line[OF see] by blast
  let ?c = "c\<lparr>s_ATBuffer := buf, s_ATBufferCur := cur, env_reads := rs\<rparr>"
  let ?c' = "if acc then addIntermediate l r ?c else at_chan.more_update (g l None) ?c"
  have "readerLoop_turn h c = processLine h l ?c"
    using rd(1) w l(2) by (simp add: readerLoop_turn_def waiting_def)
  moreover have "processLine h l ?c = Ret ?c'"
    using w l(1) unfolding acc_def
    by (cases "s_type c") (auto simp: processLine_def waiting_def isFinalResponse_def accepts_def prefix_given_def
        strStartsWith_prefix handleUnsolicited_def unsol_more)
  ultimately have "readerLoop_turn h c = Ret ?c'"
    by simp
  moreover have "turned c ?c'"
    by (simp add: turned_def addIntermediate_def)
  moreover have "will_see rest tail ?c'"
    using rd(2) will_see_cong[of ?c' ?c rest tail] by (simp add: addIntermediate_def)
  ultimately show ?thesis
    using w by (intro exI[of _ ?c']) (simp add: addIntermediate_def waiting_def)
qed

lemma turn_final:
  assumes see: "will_see text tail c" "next_line text = Some (f, rest)" "length text \<le> MAX_AT_RESPONSE + length rest"
    and w: "waiting r c" and f: "isFinalResponse f"
  shows "\<exists>c'. readerLoop_turn h c = Ret c' \<and> turned c c' \<and> will_see rest tail c'
    \<and> sp_response c' = Some (r\<lparr>success := final_success f, finalResponse := Some f\<rparr>) \<and> at_chan.more c' = at_chan.more c"
proof -
  obtain buf cur rs where rd: "readline c = Ret (Some f, c\<lparr>s_ATBuffer := buf, s_ATBufferCur := cur, env_reads := rs\<rparr>)"
      "will_see rest tail (c\<lparr>s_ATBuffer := buf, s_ATBufferCur := cur, env_reads := rs\<rparr>)"
    using readline_line[OF see] by blast
  let ?c = "c\<lparr>s_ATBuffer := buf, s_ATBufferCur := cur, env_reads := rs\<rparr>"
  let ?c' = "?c\<lparr>sp_response := Some (r\<lparr>success := final_success f, finalResponse := Some f\<rparr>)\<rparr>"
  have "readerLoop_turn h c = Ret ?c'"
    using rd(1) w f final_not_sms[OF f]
    by (auto simp: readerLoop_turn_def waiting_def processLine_def isFinalResponse_def handleFinalResponse_def final_success_def)
  moreover have "turned c ?c'"
    by (simp add: turned_def)
  moreover have "will_see rest tail ?c'"
    using rd(2) will_see_cong[of ?c' ?c rest tail] by simp
  ultimately show ?thesis
    by (intro exI[of _ ?c']) simp
qed

text \<open>The wait of a command ends with its answer.\<close>

lemma wait_answer:
  assumes "will_see text tail c" "fits text" "lines_of text = ls @ f # later" "answer ls f"
    "waiting r c" "finalResponse r = None" "reader_runs (Suc (length ls)) es"
    "answer_lines (s_type c) (s_responsePrefix c) (rev (p_intermediates r)) ls = (ints, us)"
  shows "\<exists>c' es' text'. cond_wait h timed es c = Ret (0, c'\<lparr>env_waits := es'\<rparr>) \<and> turned c c'
    \<and> will_see text' tail c' \<and> fits text' \<and> lines_of text' = later
    \<and> sp_response c' = Some \<lparr>success = final_success f, finalResponse = Some f, p_intermediates = rev ints\<rparr>
    \<and> at_chan.more c' = fold (\<lambda>l. g l None) us (at_chan.more c)"
  using assms
proof (induction es arbitrary: c "text" ls r us)
  case Nil
  then show ?case
    by (simp add: reader_runs_no)
next
  case (Cons e es)
  show ?case
  proof (cases e)
    case TimedOut
    then show ?thesis
      using Cons.prems by (simp add: reader_runs_no)
  next
    case Woken
    have "answered c = Some False"
      using Cons.prems(5,6) by (simp add: answered_def waiting_def)
    moreover have "reader_runs (Suc (length ls)) es"
      using Cons.prems(7) Woken by (simp add: reader_runs_woken)
    ultimately show ?thesis
      using Cons.IH[OF Cons.prems(1-6) _ Cons.prems(8)] Woken by simp
  next
    case ReaderTurn
    have es: "reader_runs (length ls) es"
      using Cons.prems(7) ReaderTurn by (simp add: reader_runs_turn)
    show ?thesis
    proof (cases ls)
      case Nil
      obtain rest where n: "next_line text = Some (f, rest)" "lines_of rest = later" "fits rest"
          "length text \<le> MAX_AT_RESPONSE + length rest"
        using lines_of_Cons[of "text" f later] Cons.prems(2,3) Nil by auto
      have "isFinalResponse f"
        using Cons.prems(4) by (simp add: answer_def)
      then obtain c' where c': "readerLoop_turn h c = Ret c'" "turned c c'" "will_see rest tail c'"
          "sp_response c' = Some (r\<lparr>success := final_success f, finalResponse := Some f\<rparr>)" "at_chan.more c' = at_chan.more c"
        using turn_final[OF Cons.prems(1) n(1,4) Cons.prems(5)] by blast
      obtain es' where "es = Woken # es'"
        using reader_runs_0 es Nil by auto
      moreover have "answered c' = Some True"
        using c'(4) by (simp add: answered_def)
      ultimately show ?thesis
        using c' n ReaderTurn Cons.prems(8) Nil
        by (intro exI[of _ c'] exI[of _ es'] exI[of _ rest]) (cases r; auto)
    next
      case (Cons l ls0)
      obtain rest where n: "next_line text = Some (l, rest)" "lines_of rest = ls0 @ f # later" "fits rest"
          "length text \<le> MAX_AT_RESPONSE + length rest"
        using lines_of_Cons[of "text" l] Cons.prems(2,3) Cons by auto
      have l: "\<not> isFinalResponse l" "\<not> isSMSUnsolicited l" "answer ls0 f"
        using Cons.prems(4) Cons by (auto simp: answer_def)
      let ?acc = "accepts (s_type c) (s_responsePrefix c) (p_intermediates r) l"
      let ?r = "if ?acc then r\<lparr>p_intermediates := l # p_intermediates r\<rparr> else r"
      obtain c1 where c1: "readerLoop_turn h c = Ret c1" "turned c c1" "will_see rest tail c1" "sp_response c1 = Some ?r"
          "at_chan.more c1 = (if ?acc then at_chan.more c else g l None (at_chan.more c))"
        using turn_line[OF Cons.prems(1) n(1,4) Cons.prems(5) l(1,2)] by blast
      have w: "waiting ?r c1" "finalResponse ?r = None"
        using Cons.prems(5,6) c1(2,4) by (simp_all add: waiting_def turned_def)
      have acc: "accepts (s_type c) (s_responsePrefix c) (rev (p_intermediates r)) l = ?acc"
        by (cases "s_type c") (simp_all add: accepts_def)
      obtain us' where us': "answer_lines (s_type c1) (s_responsePrefix c1) (rev (p_intermediates ?r)) ls0 = (ints, us')"
          "us = (if ?acc then us' else l # us')"
        using Cons.prems(8) Cons c1(2) acc by (auto simp: turned_def split: if_splits prod.splits)
      have "reader_runs (Suc (length ls0)) es"
        using es Cons by simp
      from Cons.IH[OF c1(3) n(3,2) l(3) w this us'(1)] obtain c' es' text' where
        "cond_wait h timed es c1 = Ret (0, c'\<lparr>env_waits := es'\<rparr>)" "turned c1 c'" "will_see text' tail c'" "fits text'"
        "lines_of text' = later"
        "sp_response c' = Some \<lparr>success = final_success f, finalResponse = Some f, p_intermediates = rev ints\<rparr>"
        "at_chan.more c' = fold (\<lambda>l. g l None) us' (at_chan.more c1)"
        by blast
      then show ?thesis
        using c1(1,5) us'(2) ReaderTurn turned_trans[OF c1(2)]
        by (intro exI[of _ c'] exI[of _ es'] exI[of _ text']) (auto split: if_splits)
    qed
  qed
qed

text \<open>A whole command.\<close>

lemma command_answer:
  assumes "channel_ready c" "prefix_given t p" "writeline cmd c = Ret (0, c1)"
    "will_see text tail c" "fits text" "lines_of text = ls @ f # later" "answer ls f"
    "reader_runs (Suc (length ls)) (env_waits c)" "answer_lines t p [] ls = (ints, us)"
  shows "\<exists>c' text'. at_send_command_full h False cmd t p None timeout True c =
      Ret (0, Some \<lparr>success = final_success f, finalResponse = Some f, p_intermediates = ints\<rparr>, c')
    \<and> channel_ready c' \<and> will_see text' tail c' \<and> fits text' \<and> lines_of text' = later
    \<and> s_fd c' = s_fd c \<and> at_out c' = at_out c1 \<and> at_chan.more c' = fold (\<lambda>l. g l None) us (at_chan.more c)"
proof -
  obtain ws new where c1: "c1 = c\<lparr>env_writes := ws, at_out := at_out c @ new\<rparr>"
    using writeline_out[OF assms(3)] by blast
  let ?c2 = "c1\<lparr>s_type := t, s_responsePrefix := p, s_smsPDU := None, sp_response := Some at_response_new\<rparr>"
  have c2: "will_see text tail ?c2" "waiting at_response_new ?c2" "env_waits ?c2 = env_waits c"
    using assms(1,2,4) c1 will_see_cong[of ?c2 c "text" tail] by (simp_all add: waiting_def channel_ready_def)
  obtain c3 es text' where c3: "cond_wait h (timeout \<noteq> 0) (env_waits c) ?c2 = Ret (0, c3\<lparr>env_waits := es\<rparr>)" "turned ?c2 c3"
      "will_see text' tail c3" "fits text'" "lines_of text' = later"
      "sp_response c3 = Some \<lparr>success = final_success f, finalResponse = Some f, p_intermediates = rev ints\<rparr>"
      "at_chan.more c3 = fold (\<lambda>l. g l None) us (at_chan.more ?c2)"
  proof -
    have "finalResponse at_response_new = None"
      "answer_lines (s_type ?c2) (s_responsePrefix ?c2) (rev (p_intermediates at_response_new)) ls = (ints, us)"
      using assms(9) by (simp_all add: at_response_new_def)
    from wait_answer[OF c2(1) assms(5-7) c2(2) this(1) assms(8) this(2), of "timeout \<noteq> 0"] show thesis
      using that by blast
  qed
  let ?c' = "clearPendingCommand (c3\<lparr>env_waits := es\<rparr>)"
  have "answered ?c2 = Some False"
    using assms(1) c1 by (simp add: answered_def at_response_new_def channel_ready_def)
  then have "wait_for_response h (timeout \<noteq> 0) ?c2 = Ret (0, c3\<lparr>env_waits := es\<rparr>)"
    using c3(1) c2(3) by (simp add: wait_for_response_def)
  moreover have "s_readerClosed c3 = 0"
    using c3(2) c2(2) by (simp add: turned_def waiting_def)
  ultimately have "at_send_command_full_nolock h cmd t p None timeout True c =
      Ret (0, Some \<lparr>success = final_success f, finalResponse = Some f, p_intermediates = ints\<rparr>, ?c')"
    using assms(1,3) c3(6)
    by (simp add: at_send_command_full_nolock_def channel_ready_def AT_ERROR_TIMEOUT_def reverseIntermediates_def reverse_loop_rev)
  then have "at_send_command_full h False cmd t p None timeout True c =
      Ret (0, Some \<lparr>success = final_success f, finalResponse = Some f, p_intermediates = ints\<rparr>, ?c')"
    by (simp add: at_send_command_full_def AT_ERROR_TIMEOUT_def)
  moreover have "channel_ready ?c'" "at_out ?c' = at_out c1" "s_fd ?c' = s_fd c"
    using c3(2) c2(2) c1 by (simp_all add: channel_ready_def clearPendingCommand_def turned_def waiting_def)
  moreover have "will_see text' tail ?c'"
    using c3(3) will_see_cong[of ?c' c3 text' tail] by (simp add: clearPendingCommand_def)
  moreover have "at_chan.more ?c' = fold (\<lambda>l. g l None) us (at_chan.more c)"
    using c3(7) c1 by (simp add: clearPendingCommand_def)
  ultimately show ?thesis
    using c3(4,5) by blast
qed

end

end
