(* ===== verification/Ril_Telephone.thy ===== *)
theory Ril_Telephone
  imports At_Answers
begin

text \<open>
  The RIL library \<open>ril-telephone/ril-telephone.c\<close>: the requests of Android's telephony
  that it turns into AT commands or answers itself, the state of the radio, and the calls
  it reads from the answers.  \<open>ril_calls\<close> records the calls of the library that loads
  it (\<open>RIL_onRequestComplete\<close>, \<open>RIL_onUnsolicitedResponse\<close> and
  \<open>RIL_requestTimedCallback\<close>).  The numbers are those of \<open>ril.h\<close>.  The model is that of
  a build without \<open>POLL_CALL_STATE\<close>.
\<close>

section \<open>Numbers of the interface\<close>

definition RIL_E_SUCCESS :: int where "RIL_E_SUCCESS = 0"
definition RIL_E_GENERIC_FAILURE :: int where "RIL_E_GENERIC_FAILURE = 2"
definition RIL_UNSOL_RESPONSE_CALL_STATE_CHANGED :: int where "RIL_UNSOL_RESPONSE_CALL_STATE_CHANGED = 1001"
definition RIL_REQUEST_DATA_REGISTRATION_STATE :: int where "RIL_REQUEST_DATA_REGISTRATION_STATE = 21"
definition RIL_E_REQUEST_NOT_SUPPORTED :: int where "RIL_E_REQUEST_NOT_SUPPORTED = 6"
definition RIL_REQUEST_GET_SIM_STATUS :: int where "RIL_REQUEST_GET_SIM_STATUS = 1"
definition RIL_E_RADIO_NOT_AVAILABLE :: int where "RIL_E_RADIO_NOT_AVAILABLE = 1"
definition RIL_REQUEST_RADIO_POWER :: int where "RIL_REQUEST_RADIO_POWER = 23"
definition RIL_REQUEST_GET_CURRENT_CALLS :: int where "RIL_REQUEST_GET_CURRENT_CALLS = 9"
definition RIL_REQUEST_DIAL :: int where "RIL_REQUEST_DIAL = 10"
definition RIL_REQUEST_HANGUP :: int where "RIL_REQUEST_HANGUP = 12"
definition RIL_REQUEST_HANGUP_WAITING_OR_BACKGROUND :: int where "RIL_REQUEST_HANGUP_WAITING_OR_BACKGROUND = 13"
definition RIL_REQUEST_HANGUP_FOREGROUND_RESUME_BACKGROUND :: int where "RIL_REQUEST_HANGUP_FOREGROUND_RESUME_BACKGROUND = 14"
definition RIL_REQUEST_ANSWER :: int where "RIL_REQUEST_ANSWER = 40"
definition RIL_REQUEST_UDUB :: int where "RIL_REQUEST_UDUB = 17"
definition RIL_REQUEST_SIGNAL_STRENGTH :: int where "RIL_REQUEST_SIGNAL_STRENGTH = 19"
definition RIL_REQUEST_VOICE_REGISTRATION_STATE :: int where "RIL_REQUEST_VOICE_REGISTRATION_STATE = 20"
definition RIL_REQUEST_OPERATOR :: int where "RIL_REQUEST_OPERATOR = 22"
definition RIL_REQUEST_DTMF :: int where "RIL_REQUEST_DTMF = 24"
definition RIL_REQUEST_SEND_SMS :: int where "RIL_REQUEST_SEND_SMS = 25"
definition RIL_REQUEST_SETUP_DATA_CALL :: int where "RIL_REQUEST_SETUP_DATA_CALL = 27"
definition RIL_REQUEST_GET_IMSI :: int where "RIL_REQUEST_GET_IMSI = 11"
definition RIL_REQUEST_GET_IMEI :: int where "RIL_REQUEST_GET_IMEI = 38"
definition RIL_REQUEST_SEND_USSD :: int where "RIL_REQUEST_SEND_USSD = 29"
definition RIL_REQUEST_CANCEL_USSD :: int where "RIL_REQUEST_CANCEL_USSD = 30"
definition RIL_REQUEST_SET_NETWORK_SELECTION_AUTOMATIC :: int where "RIL_REQUEST_SET_NETWORK_SELECTION_AUTOMATIC = 46"
definition RIL_REQUEST_DATA_CALL_LIST :: int where "RIL_REQUEST_DATA_CALL_LIST = 57"
definition RIL_REQUEST_QUERY_NETWORK_SELECTION_MODE :: int where "RIL_REQUEST_QUERY_NETWORK_SELECTION_MODE = 45"
definition RIL_REQUEST_OEM_HOOK_RAW :: int where "RIL_REQUEST_OEM_HOOK_RAW = 59"
definition RIL_REQUEST_WRITE_SMS_TO_SIM :: int where "RIL_REQUEST_WRITE_SMS_TO_SIM = 63"
definition RIL_REQUEST_DELETE_SMS_ON_SIM :: int where "RIL_REQUEST_DELETE_SMS_ON_SIM = 64"
definition RIL_REQUEST_ENTER_SIM_PIN :: int where "RIL_REQUEST_ENTER_SIM_PIN = 2"
definition RIL_REQUEST_ENTER_SIM_PUK :: int where "RIL_REQUEST_ENTER_SIM_PUK = 3"
definition RIL_REQUEST_ENTER_SIM_PIN2 :: int where "RIL_REQUEST_ENTER_SIM_PIN2 = 4"
definition RIL_REQUEST_ENTER_SIM_PUK2 :: int where "RIL_REQUEST_ENTER_SIM_PUK2 = 5"
definition RIL_REQUEST_CHANGE_SIM_PIN :: int where "RIL_REQUEST_CHANGE_SIM_PIN = 6"
definition RIL_REQUEST_CHANGE_SIM_PIN2 :: int where "RIL_REQUEST_CHANGE_SIM_PIN2 = 7"
definition RIL_UNSOL_RESPONSE_RADIO_STATE_CHANGED :: int where "RIL_UNSOL_RESPONSE_RADIO_STATE_CHANGED = 1000"
definition RIL_UNSOL_RESPONSE_VOICE_NETWORK_STATE_CHANGED :: int where "RIL_UNSOL_RESPONSE_VOICE_NETWORK_STATE_CHANGED = 1002"

lemmas ril_nums =
  RIL_E_SUCCESS_def
  RIL_E_GENERIC_FAILURE_def
  RIL_UNSOL_RESPONSE_CALL_STATE_CHANGED_def
  RIL_REQUEST_DATA_REGISTRATION_STATE_def
  RIL_E_REQUEST_NOT_SUPPORTED_def
  RIL_REQUEST_GET_SIM_STATUS_def
  RIL_E_RADIO_NOT_AVAILABLE_def
  RIL_REQUEST_RADIO_POWER_def
  RIL_REQUEST_GET_CURRENT_CALLS_def
  RIL_REQUEST_DIAL_def
  RIL_REQUEST_HANGUP_def
  RIL_REQUEST_HANGUP_WAITING_OR_BACKGROUND_def
  RIL_REQUEST_HANGUP_FOREGROUND_RESUME_BACKGROUND_def
  RIL_REQUEST_ANSWER_def
  RIL_REQUEST_UDUB_def
  RIL_REQUEST_SIGNAL_STRENGTH_def
  RIL_REQUEST_VOICE_REGISTRATION_STATE_def
  RIL_REQUEST_OPERATOR_def
  RIL_REQUEST_DTMF_def
  RIL_REQUEST_SEND_SMS_def
  RIL_REQUEST_SETUP_DATA_CALL_def
  RIL_REQUEST_GET_IMSI_def
  RIL_REQUEST_GET_IMEI_def
  RIL_REQUEST_SEND_USSD_def
  RIL_REQUEST_CANCEL_USSD_def
  RIL_REQUEST_SET_NETWORK_SELECTION_AUTOMATIC_def
  RIL_REQUEST_DATA_CALL_LIST_def
  RIL_REQUEST_QUERY_NETWORK_SELECTION_MODE_def
  RIL_REQUEST_OEM_HOOK_RAW_def
  RIL_REQUEST_WRITE_SMS_TO_SIM_def
  RIL_REQUEST_DELETE_SMS_ON_SIM_def
  RIL_REQUEST_ENTER_SIM_PIN_def
  RIL_REQUEST_ENTER_SIM_PUK_def
  RIL_REQUEST_ENTER_SIM_PIN2_def
  RIL_REQUEST_ENTER_SIM_PUK2_def
  RIL_REQUEST_CHANGE_SIM_PIN_def
  RIL_REQUEST_CHANGE_SIM_PIN2_def
  RIL_UNSOL_RESPONSE_RADIO_STATE_CHANGED_def
  RIL_UNSOL_RESPONSE_VOICE_NETWORK_STATE_CHANGED_def

section \<open>Data\<close>

datatype RIL_RadioState =
    RADIO_STATE_OFF | RADIO_STATE_UNAVAILABLE | RADIO_STATE_SIM_NOT_READY
  | RADIO_STATE_SIM_LOCKED_OR_ABSENT | RADIO_STATE_SIM_READY

datatype SIM_Status = SIM_ABSENT | SIM_NOT_READY | SIM_READY | SIM_PIN | SIM_PUK | SIM_NETWORK_PERSONALIZATION

datatype RIL_CallState =
    RIL_CALL_ACTIVE | RIL_CALL_HOLDING | RIL_CALL_DIALING | RIL_CALL_ALERTING | RIL_CALL_INCOMING | RIL_CALL_WAITING

text \<open>The fields of a call that the code writes; the others stay zero.\<close>

record RIL_Call =
  call_state :: RIL_CallState
  call_index :: int
  toa :: int
  isMpty :: int
  isMT :: int
  isVoice :: bool
  number :: "byte list option"

definition zero_call :: RIL_Call where
  "zero_call = \<lparr>call_state = RIL_CALL_ACTIVE, call_index = 0, toa = 0, isMpty = 0, isMT = 0, isVoice = False, number = None\<rparr>"

record RIL_AppStatus =
  app_type :: int
  app_state :: int
  perso_substate :: int
  pin1_replaced :: int
  pin1 :: int
  pin2 :: int

record RIL_CardStatus_v6 =
  card_state :: int
  universal_pin_state :: int
  gsm_umts_subscription_app_index :: int
  cdma_subscription_app_index :: int
  ims_subscription_app_index :: int
  num_applications :: int
  applications :: "RIL_AppStatus list"

text \<open>
  The argument \<open>data\<close> of a request, as the kind of request lays it out: the address of a
  \<open>RIL_Dial\<close>, an array of integers, or other bytes.  Reading it as another kind leaves
  the model.
\<close>

datatype ril_data = DialData "byte list option" | IntData "int list" | RawData "byte list"

text \<open>What a completion carries.\<close>

datatype ril_response =
    NoResponse
  | IntResponse "int list"
  | StringResponse "byte list list"
  | TextResponse "byte list"
  | DataResponse ril_data
  | CardResponse RIL_CardStatus_v6
  | CallResponse "RIL_Call list"

datatype timed_callback = PollSIMState | SendCallStateChanged | OnDataCallListChanged | InitializeCallback

text \<open>The calls of the library that loads this one, in order; times are in microseconds.\<close>

datatype ril_call =
    OnRequestComplete nat int ril_response
  | OnUnsolicitedResponse int
  | RequestTimedCallback timed_callback "int option"

record ril = at_chan +
  sState :: RIL_RadioState
  s_closed :: int
  ril_calls :: "ril_call list"

definition RIL_call :: "ril_call \<Rightarrow> ril \<Rightarrow> ril" where
  "RIL_call r c = c\<lparr>ril_calls := ril_calls c @ [r]\<rparr>"

abbreviation RIL_onRequestComplete :: "nat \<Rightarrow> int \<Rightarrow> ril_response \<Rightarrow> ril \<Rightarrow> ril" where
  "RIL_onRequestComplete t e resp c \<equiv> RIL_call (OnRequestComplete t e resp) c"

definition TIMEVAL_SIMPOLL :: int where "TIMEVAL_SIMPOLL = 1000000"
definition TIMEVAL_CALLSTATEPOLL :: int where "TIMEVAL_CALLSTATEPOLL = 500000"
definition TIMEVAL_0 :: int where "TIMEVAL_0 = 0"

section \<open>Calls\<close>

definition clccStateToRILState :: "int \<Rightarrow> RIL_CallState \<Rightarrow> int \<times> RIL_CallState" where
  "clccStateToRILState state old =
     (if state = 0 then (0, RIL_CALL_ACTIVE)
      else if state = 1 then (0, RIL_CALL_HOLDING)
      else if state = 2 then (0, RIL_CALL_DIALING)
      else if state = 3 then (0, RIL_CALL_ALERTING)
      else if state = 4 then (0, RIL_CALL_INCOMING)
      else if state = 5 then (0, RIL_CALL_WAITING)
      else (-1, old))"

definition number_chars :: "byte list" where
  "number_chars = str ''+0123456789''"

text \<open>The number and type of address at the end of the line.\<close>

definition clcc_number :: "byte list option \<Rightarrow> RIL_Call \<Rightarrow> int \<times> RIL_Call" where
  "clcc_number line call =
     (if at_tok_hasmore line
      then (let (err, num, line) = at_tok_nextstr line (number call); call = call\<lparr>number := num\<rparr> in
        if err < 0 then (0, call)
        else (let call = (case number call of
                    Some n \<Rightarrow> if takeWhile (\<lambda>b. b \<in> set number_chars) n = [] then call\<lparr>number := None\<rparr> else call
                  | None \<Rightarrow> call);
                  (err, v, line) = at_tok_nextint line (toa call);
                  call = call\<lparr>toa := v\<rparr>
              in if err < 0 then (-1, call) else (0, call)))
      else (0, call))"

text \<open>The fields that are read before an error stay written.\<close>

definition callFromCLCCLine :: "byte list \<Rightarrow> RIL_Call \<Rightarrow> int \<times> RIL_Call" where
  "callFromCLCCLine line call =
     (let (err, line) = at_tok_start (Some line) in
      if err < 0 then (-1, call)
      else let (err, v, line) = at_tok_nextint line (call_index call); call = call\<lparr>call_index := v\<rparr> in
      if err < 0 then (-1, call)
      else let (err, v, line) = at_tok_nextbool line (isMT call); call = call\<lparr>isMT := v\<rparr> in
      if err < 0 then (-1, call)
      else let (err, state, line) = at_tok_nextint line 0 in
      if err < 0 then (-1, call)
      else let (err, s) = clccStateToRILState state (call_state call); call = call\<lparr>call_state := s\<rparr> in
      if err < 0 then (-1, call)
      else let (err, mode, line) = at_tok_nextint line 0 in
      if err < 0 then (-1, call)
      else let call = call\<lparr>isVoice := (mode = 0)\<rparr>;
               (err, v, line) = at_tok_nextbool line (isMpty call);
               call = call\<lparr>isMpty := v\<rparr> in
      if err < 0 then (-1, call)
      else clcc_number line call)"

section \<open>The state of the radio\<close>

definition getSIMStatus :: SIM_Status where
  "getSIMStatus = SIM_READY"

definition onSIMReady :: "ril \<Rightarrow> ril" where
  "onSIMReady c = c"

function setRadioState :: "RIL_RadioState \<Rightarrow> ril \<Rightarrow> ril"
  and onRadioPowerOn :: "ril \<Rightarrow> ril"
  and pollSIMState :: "ril \<Rightarrow> ril" where
  "setRadioState newState c =
     (let oldState = sState c;
          newState = (if s_closed c > 0 then RADIO_STATE_UNAVAILABLE else newState);
          c = (if sState c \<noteq> newState \<or> s_closed c > 0 then c\<lparr>sState := newState\<rparr> else c)
      in if sState c \<noteq> oldState
         then (let c = RIL_call (OnUnsolicitedResponse RIL_UNSOL_RESPONSE_RADIO_STATE_CHANGED) c in
               if sState c = RADIO_STATE_SIM_READY then onSIMReady c
               else if sState c = RADIO_STATE_SIM_NOT_READY then onRadioPowerOn c
               else c)
         else c)"
| "onRadioPowerOn c = pollSIMState c"
| "pollSIMState c =
     (if sState c \<noteq> RADIO_STATE_SIM_NOT_READY then c
      else (case getSIMStatus of
          SIM_NOT_READY \<Rightarrow> RIL_call (RequestTimedCallback PollSIMState (Some TIMEVAL_SIMPOLL)) c
        | SIM_READY \<Rightarrow> setRadioState RADIO_STATE_SIM_READY c
        | _ \<Rightarrow> setRadioState RADIO_STATE_SIM_LOCKED_OR_ABSENT c))"
  by pat_completeness auto
termination
  by (relation "measure (\<lambda>x. case x of
        Inl (s, c) \<Rightarrow> if s = RADIO_STATE_SIM_NOT_READY then 3 else 0
      | Inr (Inl c) \<Rightarrow> 2
      | Inr (Inr c) \<Rightarrow> 1)") (auto simp: RIL_call_def split: if_splits)

declare setRadioState.simps [simp del] onRadioPowerOn.simps [simp del] pollSIMState.simps [simp del]

definition isRadioOn :: int where
  "isRadioOn = 1"

definition sendCallStateChanged :: "ril \<Rightarrow> ril" where
  "sendCallStateChanged c = RIL_call (OnUnsolicitedResponse RIL_UNSOL_RESPONSE_CALL_STATE_CHANGED) c"

text \<open>The token is a pointer that \<open>onDataCallListChanged\<close> passes as null.\<close>

definition requestOrSendDataCallList :: "nat option \<Rightarrow> ril \<Rightarrow> ril run" where
  "requestOrSendDataCallList t c =
     (case t of None \<Rightarrow> Fault | Some t \<Rightarrow> Ret (RIL_onRequestComplete t RIL_E_GENERIC_FAILURE NoResponse c))"

definition onDataCallListChanged :: "ril \<Rightarrow> ril run" where
  "onDataCallListChanged c = requestOrSendDataCallList None c"

section \<open>The callbacks of the AT channel\<close>

definition onUnsolicited :: "byte list \<Rightarrow> byte list option \<Rightarrow> ril \<Rightarrow> ril" where
  "onUnsolicited s sms_pdu c =
     (if sState c = RADIO_STATE_UNAVAILABLE then c
      else if strStartsWith s (str ''+CRING:'') \<or> strStartsWith s (str ''RING'')
              \<or> strStartsWith s (str ''NO CARRIER'') \<or> strStartsWith s (str ''+CCWA'')
      then RIL_call (OnUnsolicitedResponse RIL_UNSOL_RESPONSE_CALL_STATE_CHANGED) c
      else if strStartsWith s (str ''+CREG:'') \<or> strStartsWith s (str ''+CGREG:'')
      then RIL_call (OnUnsolicitedResponse RIL_UNSOL_RESPONSE_VOICE_NETWORK_STATE_CHANGED) c
      else if strStartsWith s (str ''+CGEV:'')
      then RIL_call (RequestTimedCallback OnDataCallListChanged None) c
      else c)"

definition onATReaderClosed :: "ril \<Rightarrow> ril" where
  "onATReaderClosed c = setRadioState RADIO_STATE_UNAVAILABLE ((at_close c)\<lparr>s_closed := 1\<rparr>)"

definition onATTimeout :: "ril \<Rightarrow> ril" where
  "onATTimeout c = setRadioState RADIO_STATE_UNAVAILABLE ((at_close c)\<lparr>s_closed := 1\<rparr>)"

definition ril_hooks :: "ril at_hooks" where
  "ril_hooks = \<lparr>call_unsol = onUnsolicited, call_onTimeout = onATTimeout, call_onReaderClosed = onATReaderClosed\<rparr>"

text \<open>A command of the request thread whose answer is not looked at.\<close>

definition send_ignoring :: "byte list \<Rightarrow> ril \<Rightarrow> ril run" where
  "send_ignoring cmd c = run_bind (at_send_command ril_hooks False cmd False c) (\<lambda>(_, _, c). Ret c)"

section \<open>Requests\<close>

definition requestRadioPower :: "ril_data \<Rightarrow> nat \<Rightarrow> ril \<Rightarrow> ril run" where
  "requestRadioPower data t c =
     (case data of
        IntData (onOff # _) \<Rightarrow>
          Ret (RIL_onRequestComplete t RIL_E_SUCCESS NoResponse
            (if onOff = 0 \<and> sState c \<noteq> RADIO_STATE_OFF then setRadioState RADIO_STATE_OFF c
             else if onOff > 0 \<and> sState c = RADIO_STATE_OFF then setRadioState RADIO_STATE_SIM_NOT_READY c
             else c))
      | _ \<Rightarrow> Fault)"

definition requestDataCallList :: "nat \<Rightarrow> ril \<Rightarrow> ril run" where
  "requestDataCallList t c = requestOrSendDataCallList (Some t) c"

definition requestQueryNetworkSelectionMode :: "nat \<Rightarrow> ril \<Rightarrow> ril" where
  "requestQueryNetworkSelectionMode t c = RIL_onRequestComplete t RIL_E_SUCCESS (IntResponse [0]) c"

text \<open>The loop over the lines: the calls so far, the next array element, which keeps what a
  rejected line left in it, and whether a call is neither active nor held.\<close>

fun calls_loop :: "byte list list \<Rightarrow> RIL_Call list \<Rightarrow> RIL_Call \<Rightarrow> bool \<Rightarrow> RIL_Call list \<times> bool" where
  "calls_loop [] valid elem needRepoll = (valid, needRepoll)"
| "calls_loop (line # ls) valid elem needRepoll =
     (let (err, call) = callFromCLCCLine line elem in
      if err \<noteq> 0 then calls_loop ls valid call needRepoll
      else calls_loop ls (valid @ [call]) zero_call
        (needRepoll \<or> call_state call \<noteq> RIL_CALL_ACTIVE \<and> call_state call \<noteq> RIL_CALL_HOLDING))"

definition requestGetCurrentCalls :: "nat \<Rightarrow> ril \<Rightarrow> ril run" where
  "requestGetCurrentCalls t c =
     run_bind (at_send_command_multiline ril_hooks False (str ''AT+CLCC'') (str ''+CLCC:'') True c) (\<lambda>(err, p_response, c).
       if err \<noteq> 0 then Ret (RIL_onRequestComplete t RIL_E_GENERIC_FAILURE NoResponse c)
       else (case p_response of None \<Rightarrow> Fault
         | Some r \<Rightarrow>
             if success r = 0 then Ret (RIL_onRequestComplete t RIL_E_GENERIC_FAILURE NoResponse c)
             else (let (calls, needRepoll) = calls_loop (p_intermediates r) [] zero_call False;
                       c = RIL_onRequestComplete t RIL_E_SUCCESS (CallResponse calls) c
                   in Ret (if needRepoll
                           then RIL_call (RequestTimedCallback SendCallStateChanged (Some TIMEVAL_CALLSTATEPOLL)) c
                           else c))))"

definition requestDial :: "ril_data \<Rightarrow> nat \<Rightarrow> ril \<Rightarrow> ril run" where
  "requestDial data t c =
     (case data of
        DialData (Some address) \<Rightarrow>
          run_bind (send_ignoring (str ''ATD'' @ address) c) (\<lambda>c. Ret (RIL_onRequestComplete t RIL_E_SUCCESS NoResponse c))
      | _ \<Rightarrow> Fault)"

definition requestWriteSmsToSim :: "nat \<Rightarrow> ril \<Rightarrow> ril" where
  "requestWriteSmsToSim t c = RIL_onRequestComplete t RIL_E_GENERIC_FAILURE NoResponse c"

definition requestHangup :: "ril_data \<Rightarrow> nat \<Rightarrow> ril \<Rightarrow> ril run" where
  "requestHangup data t c =
     (case data of
        IntData (p_line # _) \<Rightarrow>
          run_bind (send_ignoring (str ''AT+CHLD=1'' @ dec_int p_line) c)
            (\<lambda>c. Ret (RIL_onRequestComplete t RIL_E_SUCCESS NoResponse c))
      | _ \<Rightarrow> Fault)"

definition requestSignalStrength :: "nat \<Rightarrow> ril \<Rightarrow> ril" where
  "requestSignalStrength t c =
     RIL_onRequestComplete t RIL_E_SUCCESS (IntResponse [31, 99, -1, -1, -1, -1, -1, -1, -1, -1, -1, -1]) c"

definition requestRegistrationState :: "int \<Rightarrow> nat \<Rightarrow> ril \<Rightarrow> ril" where
  "requestRegistrationState request t c =
     (let response = [str ''1'', str ''-1'', str ''-1'', str ''0''];
          response = (if request = RIL_REQUEST_DATA_REGISTRATION_STATE then response[0 := str ''3''] else response)
      in RIL_onRequestComplete t RIL_E_SUCCESS (StringResponse response) c)"

definition requestOperator :: "nat \<Rightarrow> ril \<Rightarrow> ril" where
  "requestOperator t c =
     RIL_onRequestComplete t RIL_E_SUCCESS (StringResponse [str ''Telephone'', str ''Telephone'', str ''46003'']) c"

definition requestSendSMS :: "nat \<Rightarrow> ril \<Rightarrow> ril" where
  "requestSendSMS t c = RIL_onRequestComplete t RIL_E_GENERIC_FAILURE NoResponse c"

definition requestSetupDataCall :: "nat \<Rightarrow> ril \<Rightarrow> ril" where
  "requestSetupDataCall t c = RIL_onRequestComplete t RIL_E_GENERIC_FAILURE NoResponse c"

definition requestEnterSimPin :: "nat \<Rightarrow> ril \<Rightarrow> ril" where
  "requestEnterSimPin t c = RIL_onRequestComplete t RIL_E_SUCCESS NoResponse c"

definition requestSendUSSD :: "nat \<Rightarrow> ril \<Rightarrow> ril" where
  "requestSendUSSD t c = RIL_onRequestComplete t RIL_E_REQUEST_NOT_SUPPORTED NoResponse c"

section \<open>The card\<close>

definition RIL_CARD_MAX_APPS :: nat where
  "RIL_CARD_MAX_APPS = 8"

definition app_status :: "int \<Rightarrow> int \<Rightarrow> int \<Rightarrow> int \<Rightarrow> RIL_AppStatus" where
  "app_status ty st ps p1 = \<lparr>app_type = ty, app_state = st, perso_substate = ps, pin1_replaced = 0, pin1 = p1, pin2 = 0\<rparr>"

text \<open>The table, indexed by the status of the SIM; the columns are the type of the
  application (1 a SIM), its state, its personalization and its PIN.\<close>

fun app_status_array :: "SIM_Status \<Rightarrow> RIL_AppStatus" where
  "app_status_array SIM_ABSENT = app_status 0 0 0 0"
| "app_status_array SIM_NOT_READY = app_status 1 1 0 0"
| "app_status_array SIM_READY = app_status 1 5 2 0"
| "app_status_array SIM_PIN = app_status 1 2 0 1"
| "app_status_array SIM_PUK = app_status 1 3 0 4"
| "app_status_array SIM_NETWORK_PERSONALIZATION = app_status 1 4 3 1"

definition getCardStatus :: "int \<times> RIL_CardStatus_v6" where
  "getCardStatus =
     (let sim_status = getSIMStatus;
          num_apps = (if sim_status = SIM_ABSENT then 0 else 1);
          card = \<lparr>card_state = (if sim_status = SIM_ABSENT then 0 else 1), universal_pin_state = 0,
                  gsm_umts_subscription_app_index = int RIL_CARD_MAX_APPS,
                  cdma_subscription_app_index = int RIL_CARD_MAX_APPS,
                  ims_subscription_app_index = int RIL_CARD_MAX_APPS,
                  num_applications = num_apps,
                  applications = replicate RIL_CARD_MAX_APPS (app_status_array SIM_ABSENT)\<rparr>
      in (RIL_E_SUCCESS,
          if num_apps \<noteq> 0
          then card\<lparr>num_applications := 1, gsm_umts_subscription_app_index := 0,
                    applications := (applications card)[0 := app_status_array sim_status]\<rparr>
          else card))"

section \<open>Dispatch\<close>

text \<open>The requests of the \<open>switch\<close> that talk to the telephone, and the others.\<close>

definition onCallRequest :: "int \<Rightarrow> ril_data \<Rightarrow> nat \<Rightarrow> ril \<Rightarrow> ril run" where
  "onCallRequest request data t c =
     (if request = RIL_REQUEST_GET_CURRENT_CALLS then requestGetCurrentCalls t c
      else if request = RIL_REQUEST_DIAL then requestDial data t c
      else if request = RIL_REQUEST_HANGUP then requestHangup data t c
      else run_bind (send_ignoring
          (if request = RIL_REQUEST_HANGUP_WAITING_OR_BACKGROUND then str ''AT+CHLD=0''
           else if request = RIL_REQUEST_HANGUP_FOREGROUND_RESUME_BACKGROUND then str ''AT+CHLD=1''
           else if request = RIL_REQUEST_ANSWER then str ''ATA''
           else str ''ATH'') c)
        (\<lambda>c. Ret (RIL_onRequestComplete t RIL_E_SUCCESS NoResponse c)))"

definition call_requests :: "int set" where
  "call_requests = {RIL_REQUEST_GET_CURRENT_CALLS, RIL_REQUEST_DIAL, RIL_REQUEST_HANGUP,
     RIL_REQUEST_HANGUP_WAITING_OR_BACKGROUND, RIL_REQUEST_HANGUP_FOREGROUND_RESUME_BACKGROUND,
     RIL_REQUEST_ANSWER, RIL_REQUEST_UDUB}"

definition onOtherRequest :: "int \<Rightarrow> ril_data \<Rightarrow> nat \<Rightarrow> ril \<Rightarrow> ril run" where
  "onOtherRequest request data t c =
     (if request = RIL_REQUEST_GET_SIM_STATUS
      then (let (result, card) = getCardStatus in
            Ret (RIL_onRequestComplete t result (if result = RIL_E_SUCCESS then CardResponse card else NoResponse) c))
      else if request = RIL_REQUEST_SIGNAL_STRENGTH then Ret (requestSignalStrength t c)
      else if request = RIL_REQUEST_VOICE_REGISTRATION_STATE \<or> request = RIL_REQUEST_DATA_REGISTRATION_STATE
      then Ret (requestRegistrationState request t c)
      else if request = RIL_REQUEST_OPERATOR then Ret (requestOperator t c)
      else if request = RIL_REQUEST_RADIO_POWER then requestRadioPower data t c
      else if request = RIL_REQUEST_DTMF then Ret (RIL_onRequestComplete t RIL_E_SUCCESS NoResponse c)
      else if request = RIL_REQUEST_SEND_SMS then Ret (requestSendSMS t c)
      else if request = RIL_REQUEST_SETUP_DATA_CALL then Ret (requestSetupDataCall t c)
      else if request = RIL_REQUEST_GET_IMSI
      then Ret (RIL_onRequestComplete t RIL_E_SUCCESS (TextResponse (str ''460030123456789'')) c)
      else if request = RIL_REQUEST_GET_IMEI
      then Ret (RIL_onRequestComplete t RIL_E_SUCCESS (TextResponse (str ''123456789012345'')) c)
      else if request = RIL_REQUEST_SEND_USSD then Ret (requestSendUSSD t c)
      else if request = RIL_REQUEST_CANCEL_USSD then Ret (RIL_onRequestComplete t RIL_E_GENERIC_FAILURE NoResponse c)
      else if request = RIL_REQUEST_SET_NETWORK_SELECTION_AUTOMATIC then Ret c
      else if request = RIL_REQUEST_DATA_CALL_LIST then requestDataCallList t c
      else if request = RIL_REQUEST_QUERY_NETWORK_SELECTION_MODE then Ret (requestQueryNetworkSelectionMode t c)
      else if request = RIL_REQUEST_OEM_HOOK_RAW
      then Ret (RIL_onRequestComplete t RIL_E_SUCCESS (DataResponse data) c)
      else if request = RIL_REQUEST_WRITE_SMS_TO_SIM then Ret (requestWriteSmsToSim t c)
      else if request = RIL_REQUEST_DELETE_SMS_ON_SIM
      then Ret (RIL_onRequestComplete t RIL_E_GENERIC_FAILURE NoResponse c)
      else if request \<in> {RIL_REQUEST_ENTER_SIM_PIN, RIL_REQUEST_ENTER_SIM_PUK, RIL_REQUEST_ENTER_SIM_PIN2,
                         RIL_REQUEST_ENTER_SIM_PUK2, RIL_REQUEST_CHANGE_SIM_PIN, RIL_REQUEST_CHANGE_SIM_PIN2}
      then Ret (requestEnterSimPin t c)
      else Ret (RIL_onRequestComplete t RIL_E_REQUEST_NOT_SUPPORTED NoResponse c))"

definition onRequest :: "int \<Rightarrow> ril_data \<Rightarrow> nat \<Rightarrow> ril \<Rightarrow> ril run" where
  "onRequest request data t c =
     (if sState c = RADIO_STATE_UNAVAILABLE \<and> request \<noteq> RIL_REQUEST_GET_SIM_STATUS
      then Ret (RIL_onRequestComplete t RIL_E_RADIO_NOT_AVAILABLE NoResponse c)
      else if sState c = RADIO_STATE_OFF \<and> \<not> (request = RIL_REQUEST_RADIO_POWER \<or> request = RIL_REQUEST_GET_SIM_STATUS)
      then Ret (RIL_onRequestComplete t RIL_E_RADIO_NOT_AVAILABLE NoResponse c)
      else if request \<in> call_requests then onCallRequest request data t c
      else onOtherRequest request data t c)"

definition currentState :: "ril \<Rightarrow> RIL_RadioState" where
  "currentState c = sState c"

definition onSupports :: "int \<Rightarrow> int" where
  "onSupports requestCode = 1"

definition onCancel :: "nat \<Rightarrow> ril \<Rightarrow> ril" where
  "onCancel t c = c"

definition getVersion :: "byte list" where
  "getVersion = str ''ril for telephone 0.2''"

section \<open>Starting\<close>

definition initializeCallback :: "ril \<Rightarrow> ril run" where
  "initializeCallback c =
     run_bind (at_handshake ril_hooks False (setRadioState RADIO_STATE_OFF c)) (\<lambda>(_, c).
       run_bind (send_ignoring (str ''ATC'') c) (\<lambda>c.
         Ret (if isRadioOn > 0 then setRadioState RADIO_STATE_SIM_NOT_READY c else c)))"

text \<open>One turn of \<open>mainLoop\<close> up to its wait for the end of the connection; \<open>fd\<close> is the
  connection that the inner loop ends with, \<open>created\<close> the result of \<open>pthread_create\<close>.
  The flag says whether the loop goes on.\<close>

definition mainLoop_open :: "int \<Rightarrow> int \<Rightarrow> ril \<Rightarrow> bool \<times> ril" where
  "mainLoop_open created fd c =
     (let c = at_set_on_timeout (at_set_on_reader_closed c);
          (ret, c) = at_open created fd (c\<lparr>s_closed := 0\<rparr>)
      in if ret < 0 then (False, c)
         else (True, RIL_call (RequestTimedCallback InitializeCallback (Some TIMEVAL_0)) c))"

text \<open>\<open>waitForClose\<close> returns when the connection is closed.\<close>

definition waitForClose_ends :: "ril \<Rightarrow> bool" where
  "waitForClose_ends c \<longleftrightarrow> s_closed c \<noteq> 0"

text \<open>The options of \<open>RIL_Init\<close>, the port and device path they set, and whether the library
  is initialised.  \<open>atoi\<close> of a number outside of \<open>int\<close> leaves the model.\<close>

datatype init_option = OptPort "byte list" | OptDevice "byte list" | OptSocket "byte list" | OptUnknown

fun init_options :: "init_option list \<Rightarrow> int \<times> byte list option \<times> bool \<Rightarrow> (bool \<times> int \<times> byte list option \<times> bool) run" where
  "init_options [] st = Ret (True, st)"
| "init_options (OptPort a # opts) (port, path, sock) =
     (case atoi a of None \<Rightarrow> Fault
      | Some p \<Rightarrow> if p = 0 then Ret (False, p, path, sock) else init_options opts (p, path, sock))"
| "init_options (OptDevice a # opts) (port, path, sock) = init_options opts (port, Some a, sock)"
| "init_options (OptSocket a # opts) (port, path, sock) = init_options opts (port, Some a, True)"
| "init_options (OptUnknown # opts) st = Ret (False, st)"

definition RIL_Init :: "init_option list \<Rightarrow> int \<times> byte list option \<times> bool \<Rightarrow> (bool \<times> int \<times> byte list option \<times> bool) run" where
  "RIL_Init opts st = run_bind (init_options opts st) (\<lambda>(ok, port, path, sock).
     Ret (ok \<and> \<not> (port < 0 \<and> path = None), port, path, sock))"

end
