(* ===== verification/At_Frame.thy ===== *)
theory At_Frame
  imports At_Answers
begin

text \<open>
  What the operations of the AT channel do to the data of its client, for any client.
\<close>

section \<open>What commands do to the client\<close>

text \<open>
  The effect of the channel's operations on the client's own data is that of its
  callbacks: a reflexive and transitive relation that the callbacks keep is kept by every
  operation.
\<close>

lemma readline_more: "readline c = Ret (l, c') \<Longrightarrow> at_chan.more c' = at_chan.more c"
  by (auto simp: readline_def Let_def run_bind_Ret)

lemma write_closed_by_more: "write_closed_by b s c = Ret (err, c') \<Longrightarrow> at_chan.more c' = at_chan.more c"
proof (cases "s_fd c < 0 \<or> s_readerClosed c > 0")
  case True
  then show "write_closed_by b s c = Ret (err, c') \<Longrightarrow> ?thesis"
    by (simp add: write_closed_by_def)
next
  case False
  assume "write_closed_by b s c = Ret (err, c')"
  with False obtain ok ws out where "write_string (s_fd c) s (env_writes c) (at_out c) = Ret (ok, ws, out)"
      "(if \<not> ok then Ret (AT_ERROR_GENERIC, c\<lparr>env_writes := ws, at_out := out\<rparr>)
        else run_bind (write_end (s_fd c) b ws out) (\<lambda>(ok, ws, out).
          Ret (if ok then 0 else AT_ERROR_GENERIC, c\<lparr>env_writes := ws, at_out := out\<rparr>))) = Ret (err, c')"
    by (auto simp: write_closed_by_def run_bind_Ret)
  then show ?thesis
    by (cases ok) (auto simp: run_bind_Ret)
qed

locale at_frame =
  fixes h :: "'a at_chan_scheme at_hooks" and R :: "'a \<Rightarrow> 'a \<Rightarrow> bool"
  assumes refl: "R m m" and trans: "R m1 m2 \<Longrightarrow> R m2 m3 \<Longrightarrow> R m1 m3"
    and unsol: "R (at_chan.more c) (at_chan.more (call_unsol h s p c))"
    and timeout: "R (at_chan.more c) (at_chan.more (call_onTimeout h c))"
    and reader_closed: "R (at_chan.more c) (at_chan.more (call_onReaderClosed h c))"
begin

lemma handleUnsolicited_frame: "R (at_chan.more c) (at_chan.more (handleUnsolicited h l c))"
  by (simp add: handleUnsolicited_def refl unsol)

lemma onReaderClosed_frame: "R (at_chan.more c) (at_chan.more (onReaderClosed h c))"
  using reader_closed[of "c\<lparr>s_readerClosed := 1\<rparr>"] by (simp add: onReaderClosed_def refl)

lemma processLine_frame: "processLine h l c = Ret c' \<Longrightarrow> R (at_chan.more c) (at_chan.more c')"
  using handleUnsolicited_frame[of c l]
  by (cases "s_type c") (auto simp: processLine_def handleFinalResponse_def addIntermediate_def writeCtrlZ_def run_bind_Ret refl
      dest!: write_closed_by_more split: option.splits if_splits)

lemma turn_frame: "readerLoop_turn h c = Ret c' \<Longrightarrow> R (at_chan.more c) (at_chan.more c')"
proof -
  assume turn: "readerLoop_turn h c = Ret c'"
  have end_frame: "R (at_chan.more c1) (at_chan.more (onReaderClosed h (c1\<lparr>reader_alive := False\<rparr>)))" for c1
    using onReaderClosed_frame[of "c1\<lparr>reader_alive := False\<rparr>"] by simp
  show ?thesis
  proof (cases "readline c")
    case (Ret x)
    obtain l c1 where x: "x = (l, c1)"
      by (cases x)
    have m1: "at_chan.more c1 = at_chan.more c"
      using Ret x readline_more by blast
    show ?thesis
    proof (cases l)
      case None
      then show ?thesis
        using turn Ret x m1 end_frame[of c1] by (auto simp: readerLoop_turn_def refl split: if_splits)
    next
      case (Some line)
      show ?thesis
      proof (cases "readline c1")
        case (Ret y)
        obtain l2 c2 where y: "y = (l2, c2)"
          by (cases y)
        have "at_chan.more c2 = at_chan.more c"
          using Ret y readline_more m1 by metis
        then show ?thesis
          using turn \<open>readline c = Ret x\<close> x Some Ret y m1 end_frame[of c2] unsol[of c2] processLine_frame[of line c1 c']
          by (auto simp: readerLoop_turn_def refl split: if_splits option.splits)
      qed (use turn Ret x Some m1 processLine_frame[of line c1 c'] in \<open>auto simp: readerLoop_turn_def refl split: if_splits\<close>)
    qed
  qed (use turn in \<open>auto simp: readerLoop_turn_def refl split: if_splits\<close>)
qed

lemma cond_wait_frame: "cond_wait h timed es c = Ret (err, c') \<Longrightarrow> R (at_chan.more c) (at_chan.more c')"
proof (induction es arbitrary: c)
  case (Cons e es)
  show ?case
  proof (cases e)
    case ReaderTurn
    then obtain c1 where "readerLoop_turn h c = Ret c1" "cond_wait h timed es c1 = Ret (err, c')"
      using Cons.prems by (auto simp: run_bind_Ret)
    then show ?thesis
      using Cons.IH turn_frame trans by blast
  qed (use Cons in \<open>auto simp: refl split: option.splits bool.splits if_splits\<close>)
qed simp

lemma wait_frame: "wait_for_response h timed c = Ret (err, c') \<Longrightarrow> R (at_chan.more c) (at_chan.more c')"
  by (auto simp: wait_for_response_def refl dest: cond_wait_frame split: option.splits bool.splits)

lemma nolock_frame:
  assumes "at_send_command_full_nolock h cmd t p pdu tm want c = Ret (err, out, c')"
  shows "R (at_chan.more c) (at_chan.more c')"
proof (cases "sp_response c")
  case (Some r)
  then show ?thesis
    using assms by (auto simp: at_send_command_full_nolock_def clearPendingCommand_def refl)
next
  case None
  then obtain e1 c1 where w: "writeline cmd c = Ret (e1, c1)"
    using assms by (auto simp: at_send_command_full_nolock_def run_bind_Ret)
  then have m1: "at_chan.more c1 = at_chan.more c"
    unfolding writeline_def by (rule write_closed_by_more)
  show ?thesis
  proof (cases "e1 < 0")
    case True
    then show ?thesis
      using assms None w m1 by (auto simp: at_send_command_full_nolock_def clearPendingCommand_def refl)
  next
    case False
    let ?c2 = "c1\<lparr>s_type := t, s_responsePrefix := p, s_smsPDU := pdu, sp_response := Some at_response_new\<rparr>"
    obtain e2 c2 where w2: "wait_for_response h (tm \<noteq> 0) ?c2 = Ret (e2, c2)"
      using assms None w False by (auto simp: at_send_command_full_nolock_def run_bind_Ret)
    then have "at_chan.more c' = at_chan.more c2"
      using assms None w False by (auto simp: at_send_command_full_nolock_def clearPendingCommand_def Let_def split: if_splits)
    then show ?thesis
      using wait_frame[OF w2] m1 by simp
  qed
qed

lemma command_frame:
  assumes "at_send_command_full h in_reader cmd t p pdu tm want c = Ret (err, out, c')"
  shows "R (at_chan.more c) (at_chan.more c')"
proof (cases in_reader)
  case True
  then show ?thesis
    using assms by (simp add: at_send_command_full_def refl)
next
  case False
  then obtain c1 where c1: "at_send_command_full_nolock h cmd t p pdu tm want c = Ret (err, out, c1)"
      "c' = (if err = AT_ERROR_TIMEOUT \<and> s_onTimeout c1 then call_onTimeout h c1 else c1)"
    using assms by (auto simp: at_send_command_full_def run_bind_Ret)
  then show ?thesis
    using nolock_frame[OF c1(1)] timeout[of c1] trans by auto
qed

lemma handshake_loop_frame: "handshake_loop h n e c = Ret (err, c') \<Longrightarrow> R (at_chan.more c) (at_chan.more c')"
proof (induction n arbitrary: e c)
  case (Suc n)
  then obtain e1 out c1 where "at_send_command_full_nolock h (str ''ATE0Q0V1'') NO_RESULT None None HANDSHAKE_TIMEOUT_MSEC False c
      = Ret (e1, out, c1)" "(if e1 = 0 then Ret (e1, c1) else handshake_loop h n e1 c1) = Ret (err, c')"
    by (auto simp: run_bind_Ret)
  note step = this
  from nolock_frame[OF step(1)] show ?case
    using Suc.IH[of e1 c1] step(2) trans by (cases "e1 = 0") auto
qed (simp add: refl)

lemma handshake_frame: "at_handshake h in_reader c = Ret (err, c') \<Longrightarrow> R (at_chan.more c) (at_chan.more c')"
  by (auto simp: at_handshake_def refl dest: handshake_loop_frame split: if_splits)

end

end
