(* ===== verification/Ril_Properties.thy ===== *)
theory Ril_Properties
  imports Ril_Telephone At_Frame
begin

text \<open>
  The RIL library on its AT channel: it is a client of the channel, every request is
  completed once, and a closed channel makes the radio unavailable.
\<close>

section \<open>The client's own data\<close>

text \<open>The library's data behind the channel's, as a state with an empty channel.\<close>

definition on_ril :: "unit ril_ext \<Rightarrow> ril" where
  "on_ril m = at_chan.extend (at_start [] [] []) m"

lemma on_ril_more [simp]:
  "sState (on_ril (at_chan.more c)) = sState c" "s_closed (on_ril (at_chan.more c)) = s_closed c"
  "ril_calls (on_ril (at_chan.more c)) = ril_calls c"
  by (cases c; simp add: on_ril_def at_chan.extend_def at_start_def)+

definition onUnsolicited_more :: "byte list \<Rightarrow> byte list option \<Rightarrow> unit ril_ext \<Rightarrow> unit ril_ext" where
  "onUnsolicited_more s p m = at_chan.more (onUnsolicited s p (on_ril m))"

lemma RIL_call_more: "RIL_call r c = at_chan.more_update (\<lambda>m. at_chan.more (RIL_call r (on_ril m))) c"
  by (cases c) (simp add: RIL_call_def on_ril_def at_chan.extend_def at_start_def)

interpretation ril_client: at_client ril_hooks onUnsolicited_more
proof unfold_locales
  fix s p and c :: ril
  have upd: "at_chan.more_update (onUnsolicited_more s p) c = onUnsolicited s p c"
  proof (cases c)
    case (fields s_fd s_ATBuffer s_ATBufferCur s_type s_responsePrefix s_smsPDU sp_response s_unsolHandler s_onTimeout
        s_onReaderClosed s_readerClosed reader_alive env_reads env_writes env_waits at_out sState s_closed ril_calls)
    then show ?thesis
      by (simp add: onUnsolicited_more_def on_ril_def at_chan.extend_def at_start_def onUnsolicited_def RIL_call_def)
  qed
  then show "call_unsol ril_hooks s p c = at_chan.more_update (onUnsolicited_more s p) c"
    by (simp add: ril_hooks_def)
qed

text \<open>The calls that an unsolicited line makes in a state of the radio.\<close>

definition unsol_calls :: "RIL_RadioState \<Rightarrow> byte list \<Rightarrow> ril_call list" where
  "unsol_calls st s =
     (if st = RADIO_STATE_UNAVAILABLE then []
      else if prefix (str ''+CRING:'') s \<or> prefix (str ''RING'') s \<or> prefix (str ''NO CARRIER'') s \<or> prefix (str ''+CCWA'') s
      then [OnUnsolicitedResponse RIL_UNSOL_RESPONSE_CALL_STATE_CHANGED]
      else if prefix (str ''+CREG:'') s \<or> prefix (str ''+CGREG:'') s
      then [OnUnsolicitedResponse RIL_UNSOL_RESPONSE_VOICE_NETWORK_STATE_CHANGED]
      else if prefix (str ''+CGEV:'') s then [RequestTimedCallback OnDataCallListChanged None]
      else [])"

lemma onUnsolicited_calls:
  "sState (onUnsolicited s p c) = sState c" "s_closed (onUnsolicited s p c) = s_closed c"
  "ril_calls (onUnsolicited s p c) = ril_calls c @ unsol_calls (sState c) s"
  by (simp_all add: onUnsolicited_def unsol_calls_def RIL_call_def strStartsWith_prefix)

lemma on_ril_unsol [simp]:
  "sState (on_ril (onUnsolicited_more s p m)) = sState (on_ril m)" "s_closed (on_ril (onUnsolicited_more s p m)) = s_closed (on_ril m)"
  "ril_calls (on_ril (onUnsolicited_more s p m)) = ril_calls (on_ril m) @ unsol_calls (sState (on_ril m)) s"
  by (simp_all add: onUnsolicited_more_def onUnsolicited_calls)

lemma fold_unsol:
  "sState (on_ril (fold (\<lambda>l. onUnsolicited_more l None) us m)) = sState (on_ril m)"
  "s_closed (on_ril (fold (\<lambda>l. onUnsolicited_more l None) us m)) = s_closed (on_ril m)"
  "ril_calls (on_ril (fold (\<lambda>l. onUnsolicited_more l None) us m)) = ril_calls (on_ril m) @ concat (map (unsol_calls (sState (on_ril m))) us)"
  by (induction us arbitrary: m) simp_all

section \<open>A command and its answer\<close>

text \<open>
  Property C9.  A command of the library gets its answer: it is written with a carriage
  return behind it; of the lines that come before the final one, those of the command's
  type and prefix are its intermediate lines, in the order in which they came, and the
  others are handled as unsolicited, in their order; the final line and its verdict are
  the response's; the channel is ready for the next command, and the lines behind the
  answer are still to be read.  It does not matter how the bytes arrive, when the
  command's thread is woken, nor how much of the command each write takes.
\<close>

theorem command_answered:
  assumes "channel_ready c" and "prefix_given t p" and "writeline cmd c = Ret (0, c1)"
    and "will_see text tail c" and "fits text" and "lines_of text = ls @ f # later" and "answer ls f"
    and "reader_runs (Suc (length ls)) (env_waits c)" and "answer_lines t p [] ls = (ints, us)"
  shows "\<exists>c' text' new. at_send_command_full ril_hooks False cmd t p None timeout True c =
      Ret (0, Some \<lparr>success = final_success f, finalResponse = Some f, p_intermediates = ints\<rparr>, c')
    \<and> at_out c' = at_out c @ new \<and> concat (map snd new) = cmd @ [13] \<and> (\<forall>w\<in>set new. fst w = s_fd c)
    \<and> ril_calls c' = ril_calls c @ concat (map (unsol_calls (sState c)) us) \<and> sState c' = sState c
    \<and> channel_ready c' \<and> will_see text' tail c' \<and> lines_of text' = later"
proof -
  obtain ws new where new: "c1 = c\<lparr>env_writes := ws, at_out := at_out c @ new\<rparr>" "\<forall>w\<in>set new. fst w = s_fd c"
      "concat (map snd new) = cmd @ [13]"
    using writeline_out[OF assms(3)] by auto
  obtain c' text' where c': "at_send_command_full ril_hooks False cmd t p None timeout True c =
      Ret (0, Some \<lparr>success = final_success f, finalResponse = Some f, p_intermediates = ints\<rparr>, c')"
      "channel_ready c'" "will_see text' tail c'" "lines_of text' = later" "at_out c' = at_out c1"
      "at_chan.more c' = fold (\<lambda>l. onUnsolicited_more l None) us (at_chan.more c)"
    using ril_client.command_answer[OF assms] by blast
  have "sState c' = sState c" "ril_calls c' = ril_calls c @ concat (map (unsol_calls (sState c)) us)"
    using fold_unsol[of us "at_chan.more c"] by (simp_all add: c'(6)[symmetric])
  then show ?thesis
    using c' new by (intro exI[of _ c'] exI[of _ text'] exI[of _ new]) simp
qed

text \<open>The library with an open channel on the descriptor 5 and the radio on.\<close>

definition ril_open :: "read_result list \<Rightarrow> write_result list \<Rightarrow> wait_event list \<Rightarrow> ril" where
  "ril_open rs ws es = at_chan.extend
     ((at_start rs ws es)\<lparr>s_fd := 5, s_unsolHandler := True, s_onTimeout := True, s_onReaderClosed := True, reader_alive := True\<rparr>)
     (ril.fields RADIO_STATE_SIM_READY 0 [])"

lemma ril_open_fields [simp]:
  "s_fd (ril_open rs ws es) = 5" "env_writes (ril_open rs ws es) = ws" "env_waits (ril_open rs ws es) = es"
  "env_reads (ril_open rs ws es) = rs" "at_out (ril_open rs ws es) = []" "s_readerClosed (ril_open rs ws es) = 0"
  "sState (ril_open rs ws es) = RADIO_STATE_SIM_READY" "s_closed (ril_open rs ws es) = 0" "ril_calls (ril_open rs ws es) = []"
  "s_onTimeout (ril_open rs ws es)" "sp_response (ril_open rs ws es) = None"
  by (simp_all add: ril_open_def at_chan.extend_def at_start_def ril.fields_def)

lemma ril_open_ready:
  "channel_ready (ril_open rs ws es)" "good_reads rs \<Longrightarrow> reader_ok (ril_open rs ws es)" "unread (ril_open rs ws es) = []"
  using at_start_reader[of rs ws es]
  by (simp_all add: channel_ready_def reader_ok_def unread_def ril_open_def at_chan.extend_def at_start_def ril.fields_def)

lemma ril_open_sees:
  "good_reads rs \<Longrightarrow> stream rs = text @ tail \<Longrightarrow> tail = [] \<or> hd tail = 0 \<Longrightarrow> 0 \<notin> set text \<Longrightarrow> 62 \<notin> set text
    \<Longrightarrow> will_see text tail (ril_open rs ws es)"
  using ril_open_ready(2,3)[of rs ws es] by (simp add: will_see_def sees_def)

lemma writeline_whole:
  assumes "0 \<le> s_fd c" "s_readerClosed c = 0" "env_writes c = Wrote n # Wrote (Suc m) # ws" "s \<noteq> []" "length s \<le> n"
  shows "writeline s c = Ret (0, c\<lparr>env_writes := ws, at_out := at_out c @ [(s_fd c, s), (s_fd c, [13])]\<rparr>)"
proof -
  have "n \<noteq> 0"
    using assms(4,5) by (cases s) auto
  then have "write_string (s_fd c) s (env_writes c) (at_out c) = Ret (True, Wrote (Suc m) # ws, at_out c @ [(s_fd c, s)])"
    using assms(3-5) by (subst write_string.simps, simp, subst write_string.simps, simp)
  then show ?thesis
    using assms(1,2) by (simp add: writeline_def write_closed_by_def)
qed

theorem command_answered_witness:
  "let c = ril_open [Chunk (str ''RIN''), Chunk (str ''G'' @ [13] @ str ''+CLCC: 1'' @ [10] @ str ''OK'' @ [10, 0])]
       [Wrote 7, Wrote 1] [ReaderTurn, Woken, ReaderTurn, ReaderTurn, Woken]
   in \<exists>c'. at_send_command_full ril_hooks False (str ''AT+CLCC'') MULTILINE (Some (str ''+CLCC:'')) None 0 True c =
      Ret (0, Some \<lparr>success = 1, finalResponse = Some (str ''OK''), p_intermediates = [str ''+CLCC: 1'']\<rparr>, c')
    \<and> ril_calls c' = [OnUnsolicitedResponse RIL_UNSOL_RESPONSE_CALL_STATE_CHANGED]"
proof -
  let ?rs = "[Chunk (str ''RIN''), Chunk (str ''G'' @ [13] @ str ''+CLCC: 1'' @ [10] @ str ''OK'' @ [10, 0])]"
  let ?es = "[ReaderTurn, Woken, ReaderTurn, ReaderTurn, Woken]"
  let ?c = "ril_open ?rs [Wrote 7, Wrote 1] ?es"
  let ?t = "str ''RING'' @ [13] @ str ''+CLCC: 1'' @ [10] @ str ''OK'' @ [10]"
  have see: "will_see ?t [0] ?c"
    by (rule ril_open_sees) simp_all
  have fit: "fits ?t"
    by (rule fits_short) (simp add: MAX_AT_RESPONSE_def)
  have lines: "lines_of ?t = [str ''RING'', str ''+CLCC: 1''] @ str ''OK'' # []"
    by (simp add: lines_of.simps next_line_def is_eol_def)
  have ans: "answer [str ''RING'', str ''+CLCC: 1''] (str ''OK'')"
    by (simp add: answer_def isFinalResponse_def isFinalResponseSuccess_def isFinalResponseError_def isSMSUnsolicited_def
        s_finalResponsesSuccess_def s_finalResponsesError_def s_smsUnsoliciteds_def)
  have runs: "reader_runs (Suc (length [str ''RING'', str ''+CLCC: 1''])) (env_waits ?c)"
    by (simp add: reader_runs_def)
  have split: "answer_lines MULTILINE (Some (str ''+CLCC:'')) [] [str ''RING'', str ''+CLCC: 1''] = ([str ''+CLCC: 1''], [str ''RING''])"
    by (simp add: accepts_def)
  have wr: "writeline (str ''AT+CLCC'') ?c = Ret (0, ?c\<lparr>env_writes := [], at_out := at_out ?c @ [(s_fd ?c, str ''AT+CLCC''), (s_fd ?c, [13])]\<rparr>)"
    by (rule writeline_whole[where n = 7 and m = 0]) simp_all
  have pre: "prefix_given MULTILINE (Some (str ''+CLCC:''))"
    by (simp add: prefix_given_def)
  obtain c' where "at_send_command_full ril_hooks False (str ''AT+CLCC'') MULTILINE (Some (str ''+CLCC:'')) None 0 True ?c =
      Ret (0, Some \<lparr>success = final_success (str ''OK''), finalResponse = Some (str ''OK''), p_intermediates = [str ''+CLCC: 1'']\<rparr>, c')"
      "ril_calls c' = ril_calls ?c @ concat (map (unsol_calls (sState ?c)) [str ''RING''])"
    using command_answered[OF ril_open_ready(1) pre wr see fit lines ans runs split, of 0] by blast
  moreover have "final_success (str ''OK'') = 1"
    by (simp add: final_success_def isFinalResponseSuccess_def s_finalResponsesSuccess_def)
  moreover have "unsol_calls RADIO_STATE_SIM_READY (str ''RING'') = [OnUnsolicitedResponse RIL_UNSOL_RESPONSE_CALL_STATE_CHANGED]"
    by (simp add: unsol_calls_def)
  ultimately show ?thesis
    unfolding Let_def by (intro exI[of _ c']) simp
qed

section \<open>The state of the radio\<close>

abbreviation radio_changed :: ril_call where
  "radio_changed \<equiv> OnUnsolicitedResponse RIL_UNSOL_RESPONSE_RADIO_STATE_CHANGED"

text \<open>Switching the radio on goes through the poll of the SIM, which is ready.\<close>

lemma setRadioState_closed:
  "s_closed c > 0 \<Longrightarrow> setRadioState s c =
     (if sState c = RADIO_STATE_UNAVAILABLE then c else RIL_call radio_changed (c\<lparr>sState := RADIO_STATE_UNAVAILABLE\<rparr>))"
  by (simp add: setRadioState.simps Let_def RIL_call_def)

lemma setRadioState_open:
  assumes "\<not> s_closed c > 0"
  shows "setRadioState s c =
     (if sState c = s then c
      else if s = RADIO_STATE_SIM_NOT_READY
      then (RIL_call radio_changed (RIL_call radio_changed c))\<lparr>sState := RADIO_STATE_SIM_READY\<rparr>
      else RIL_call radio_changed (c\<lparr>sState := s\<rparr>))"
proof -
  have ready: "setRadioState RADIO_STATE_SIM_READY c' =
      RIL_call radio_changed (c'\<lparr>sState := RADIO_STATE_SIM_READY\<rparr>)"
    if "\<not> s_closed c' > 0" "sState c' \<noteq> RADIO_STATE_SIM_READY" for c'
    using that by (simp add: setRadioState.simps Let_def RIL_call_def onSIMReady_def)
  show ?thesis
  proof (cases "s = RADIO_STATE_SIM_NOT_READY \<and> sState c \<noteq> s")
    case True
    let ?c = "RIL_call radio_changed (c\<lparr>sState := RADIO_STATE_SIM_NOT_READY\<rparr>)"
    have "setRadioState s c = pollSIMState ?c"
      using conjunct1[OF True] conjunct2[OF True] assms
      by (subst setRadioState.simps) (simp add: Let_def RIL_call_def onRadioPowerOn.simps)
    also have "\<dots> = setRadioState RADIO_STATE_SIM_READY ?c"
      by (simp add: pollSIMState.simps getSIMStatus_def RIL_call_def)
    also have "\<dots> = RIL_call radio_changed (?c\<lparr>sState := RADIO_STATE_SIM_READY\<rparr>)"
      using assms by (intro ready) (simp_all add: RIL_call_def)
    finally show ?thesis
      using conjunct1[OF True] conjunct2[OF True] by (simp add: RIL_call_def)
  next
    case False
    then show ?thesis
      using assms by (cases s) (simp_all add: setRadioState.simps Let_def RIL_call_def onSIMReady_def)
  qed
qed

lemma setRadioState_closed_flag: "s_closed (setRadioState s c) = s_closed c"
  by (cases "s_closed c > 0") (simp_all add: setRadioState_closed setRadioState_open RIL_call_def)

text \<open>Completions among the calls.\<close>

fun is_completion :: "ril_call \<Rightarrow> bool" where
  "is_completion (OnRequestComplete t e r) = True"
| "is_completion _ = False"

definition completions :: "ril \<Rightarrow> ril_call list" where
  "completions c = filter is_completion (ril_calls c)"

lemma completions_call: "completions (RIL_call r c) = completions c @ (if is_completion r then [r] else [])"
  by (simp add: completions_def RIL_call_def)

lemma completions_radio [simp]: "completions (setRadioState s c) = completions c"
  by (cases "s_closed c > 0") (simp_all add: setRadioState_closed setRadioState_open completions_def RIL_call_def)

lemma completions_unsolicited: "completions (onUnsolicited s p c) = completions c"
  by (simp add: completions_def onUnsolicited_calls unsol_calls_def)

definition same_completions :: "unit ril_ext \<Rightarrow> unit ril_ext \<Rightarrow> bool" where
  "same_completions m m' \<longleftrightarrow> completions (on_ril m') = completions (on_ril m)"

lemma completions_more: "completions (on_ril (at_chan.more c)) = completions c"
  by (simp add: completions_def)

interpretation ril_completions: at_frame ril_hooks same_completions
proof unfold_locales
  fix c :: ril and s p
  have at: "completions ((at_close c)\<lparr>s_closed := 1\<rparr>) = completions c"
    by (simp add: completions_def at_close_def)
  show "same_completions (at_chan.more c) (at_chan.more (call_unsol ril_hooks s p c))"
    by (simp add: same_completions_def completions_more ril_hooks_def completions_unsolicited)
  show "same_completions (at_chan.more c) (at_chan.more (call_onTimeout ril_hooks c))"
    by (simp add: same_completions_def completions_more ril_hooks_def onATTimeout_def at)
  show "same_completions (at_chan.more c) (at_chan.more (call_onReaderClosed ril_hooks c))"
    by (simp add: same_completions_def completions_more ril_hooks_def onATReaderClosed_def at)
qed (simp_all add: same_completions_def)

lemma command_completions:
  "at_send_command_full ril_hooks r cmd t p pdu tm want c = Ret (err, out, c') \<Longrightarrow> completions c' = completions c"
  using ril_completions.command_frame[of r cmd t p pdu tm want c err out c'] by (simp add: same_completions_def completions_more)

lemma send_ignoring_completions: "send_ignoring cmd c = Ret c' \<Longrightarrow> completions c' = completions c"
  by (auto simp: send_ignoring_def at_send_command_def run_bind_Ret dest: command_completions)

section \<open>Requests are completed\<close>

definition completed :: "nat \<Rightarrow> ril \<Rightarrow> ril \<Rightarrow> bool" where
  "completed t c c' \<longleftrightarrow> (\<exists>e resp. completions c' = completions c @ [OnRequestComplete t e resp])"

lemma completed_call: "completions c1 = completions c \<Longrightarrow> completed t c (RIL_onRequestComplete t e resp c1)"
  by (simp add: completed_def completions_call)

lemma current_calls_completed: "requestGetCurrentCalls t c = Ret c' \<Longrightarrow> completed t c c'"
  by (auto simp: requestGetCurrentCalls_def at_send_command_multiline_def run_bind_Ret Let_def completed_def completions_call
      dest!: command_completions split: if_splits option.splits prod.splits)

lemma call_request_completed: "onCallRequest request data t c = Ret c' \<Longrightarrow> completed t c c'"
  by (auto simp: onCallRequest_def requestDial_def requestHangup_def run_bind_Ret
      intro: completed_call current_calls_completed dest: send_ignoring_completions
      split: if_splits ril_data.splits option.splits list.splits)

lemma radio_power_completed: "requestRadioPower data t c = Ret c' \<Longrightarrow> completed t c c'"
  by (auto simp: requestRadioPower_def intro!: completed_call split: ril_data.splits list.splits)

lemma other_request_completed:
  assumes "onOtherRequest request data t c = Ret c'" "request \<noteq> RIL_REQUEST_SET_NETWORK_SELECTION_AUTOMATIC"
  shows "completed t c c'"
  using assms unfolding onOtherRequest_def
  by (auto simp: Let_def requestSignalStrength_def requestRegistrationState_def requestOperator_def requestSendSMS_def
      requestSetupDataCall_def requestSendUSSD_def requestDataCallList_def requestOrSendDataCallList_def
      requestQueryNetworkSelectionMode_def requestWriteSmsToSim_def requestEnterSimPin_def
      intro: completed_call radio_power_completed split: if_splits prod.splits)

text \<open>
  Property C26.  Every request that returns has been completed exactly once, with its own
  token, whatever the channel does meanwhile.  The exception is
  \<open>RIL_REQUEST_SET_NETWORK_SELECTION_AUTOMATIC\<close>, which with the radio on is never
  completed.
\<close>

theorem request_completed_once:
  assumes "onRequest request data t c = Ret c'"
  shows "if request = RIL_REQUEST_SET_NETWORK_SELECTION_AUTOMATIC \<and> sState c \<notin> {RADIO_STATE_UNAVAILABLE, RADIO_STATE_OFF}
    then completions c' = completions c
    else (\<exists>e resp. completions c' = completions c @ [OnRequestComplete t e resp])"
proof -
  have "completed t c c'" if "\<not> (request = RIL_REQUEST_SET_NETWORK_SELECTION_AUTOMATIC \<and> sState c \<notin> {RADIO_STATE_UNAVAILABLE, RADIO_STATE_OFF})"
    using assms that
    by (auto simp: onRequest_def ril_nums intro: completed_call call_request_completed other_request_completed split: if_splits)
  moreover have "completions c' = completions c"
    if "request = RIL_REQUEST_SET_NETWORK_SELECTION_AUTOMATIC" "sState c \<notin> {RADIO_STATE_UNAVAILABLE, RADIO_STATE_OFF}"
    using assms that by (auto simp: onRequest_def onOtherRequest_def call_requests_def ril_nums)
  ultimately show ?thesis
    by (simp add: completed_def)
qed

theorem request_completed_once_witness:
  "completions (RIL_onRequestComplete 9 RIL_E_SUCCESS (IntResponse [0]) (ril_open [] [] [])) \<noteq> [] \<and>
   onRequest RIL_REQUEST_SET_NETWORK_SELECTION_AUTOMATIC (IntData []) 7 (ril_open [] [] []) = Ret (ril_open [] [] [])
   \<and> completions (ril_open [] [] []) = []"
proof -
  have "onRequest RIL_REQUEST_SET_NETWORK_SELECTION_AUTOMATIC (IntData []) 7 (ril_open [] [] []) = Ret (ril_open [] [] [])"
    by (simp add: onRequest_def onOtherRequest_def call_requests_def ril_nums)
  moreover have "onRequest RIL_REQUEST_QUERY_NETWORK_SELECTION_MODE (IntData []) 9 (ril_open [] [] [])
      = Ret (RIL_onRequestComplete 9 RIL_E_SUCCESS (IntResponse [0]) (ril_open [] [] []))"
    by (simp add: onRequest_def onOtherRequest_def call_requests_def requestQueryNetworkSelectionMode_def ril_nums)
  from request_completed_once[OF this] have "completions (RIL_onRequestComplete 9 RIL_E_SUCCESS (IntResponse [0]) (ril_open [] [] [])) \<noteq> []"
    by (auto simp: ril_nums)
  ultimately show ?thesis
    by (simp add: completions_def)
qed

section \<open>A closed channel\<close>

definition radio_inv :: "ril \<Rightarrow> bool" where
  "radio_inv c \<longleftrightarrow> (s_closed c > 0 \<longrightarrow> sState c = RADIO_STATE_UNAVAILABLE)"

lemma radio_inv_call [simp]: "radio_inv (RIL_call r c) = radio_inv c"
  by (simp add: radio_inv_def RIL_call_def)

lemma radio_inv_set: "radio_inv (setRadioState s c)"
  by (cases "s_closed c > 0") (simp_all add: setRadioState_closed setRadioState_open radio_inv_def RIL_call_def)

lemma radio_inv_poll: "radio_inv c \<Longrightarrow> radio_inv (pollSIMState c)"
  by (simp add: pollSIMState.simps getSIMStatus_def radio_inv_set)

definition keeps_radio :: "unit ril_ext \<Rightarrow> unit ril_ext \<Rightarrow> bool" where
  "keeps_radio m m' \<longleftrightarrow> (radio_inv (on_ril m) \<longrightarrow> radio_inv (on_ril m'))"

lemma radio_inv_more: "radio_inv (on_ril (at_chan.more c)) = radio_inv c"
  by (simp add: radio_inv_def)

interpretation ril_radio: at_frame ril_hooks keeps_radio
proof unfold_locales
  fix c :: ril and s p
  show "keeps_radio (at_chan.more c) (at_chan.more (call_unsol ril_hooks s p c))"
    by (simp add: keeps_radio_def radio_inv_more ril_hooks_def) (simp add: radio_inv_def onUnsolicited_calls)
  show "keeps_radio (at_chan.more c) (at_chan.more (call_onTimeout ril_hooks c))"
    by (simp add: keeps_radio_def radio_inv_more ril_hooks_def onATTimeout_def radio_inv_set)
  show "keeps_radio (at_chan.more c) (at_chan.more (call_onReaderClosed ril_hooks c))"
    by (simp add: keeps_radio_def radio_inv_more ril_hooks_def onATReaderClosed_def radio_inv_set)
qed (auto simp: keeps_radio_def)

lemma command_radio:
  "at_send_command_full ril_hooks r cmd t p pdu tm want c = Ret (err, out, c') \<Longrightarrow> radio_inv c \<Longrightarrow> radio_inv c'"
  using ril_radio.command_frame[of r cmd t p pdu tm want c err out c'] by (simp add: keeps_radio_def radio_inv_more)

lemma send_ignoring_radio: "send_ignoring cmd c = Ret c' \<Longrightarrow> radio_inv c \<Longrightarrow> radio_inv c'"
  by (auto simp: send_ignoring_def at_send_command_def run_bind_Ret dest: command_radio)

lemma current_calls_radio: "requestGetCurrentCalls t c = Ret c' \<Longrightarrow> radio_inv c \<Longrightarrow> radio_inv c'"
  by (auto simp: requestGetCurrentCalls_def at_send_command_multiline_def run_bind_Ret Let_def
      dest!: command_radio split: if_splits option.splits prod.splits)

lemma call_request_radio: "onCallRequest request data t c = Ret c' \<Longrightarrow> radio_inv c \<Longrightarrow> radio_inv c'"
  by (auto simp: onCallRequest_def requestDial_def requestHangup_def run_bind_Ret
      dest: send_ignoring_radio current_calls_radio split: if_splits ril_data.splits option.splits list.splits)

lemma radio_power_radio: "requestRadioPower data t c = Ret c' \<Longrightarrow> radio_inv c \<Longrightarrow> radio_inv c'"
  by (auto simp: requestRadioPower_def radio_inv_set split: ril_data.splits list.splits)

lemma other_request_radio: "onOtherRequest request data t c = Ret c' \<Longrightarrow> radio_inv c \<Longrightarrow> radio_inv c'"
  unfolding onOtherRequest_def
  by (auto simp: Let_def requestSignalStrength_def requestRegistrationState_def requestOperator_def requestSendSMS_def
      requestSetupDataCall_def requestSendUSSD_def requestDataCallList_def requestOrSendDataCallList_def
      requestQueryNetworkSelectionMode_def requestWriteSmsToSim_def requestEnterSimPin_def
      dest: radio_power_radio split: if_splits prod.splits)

lemma request_radio: "onRequest request data t c = Ret c' \<Longrightarrow> radio_inv c \<Longrightarrow> radio_inv c'"
  by (auto simp: onRequest_def dest: call_request_radio other_request_radio split: if_splits)

lemma initialize_radio: "initializeCallback c = Ret c' \<Longrightarrow> radio_inv c'"
  using radio_inv_set ril_radio.handshake_frame send_ignoring_radio
  by (fastforce simp: initializeCallback_def run_bind_Ret isRadioOn_def keeps_radio_def radio_inv_more)

text \<open>
  The steps of the library: requests, the callbacks of its timers, turns of the reader
  thread, a new connection after the old one was closed, and what the system brings.
\<close>

inductive ril_step :: "ril \<Rightarrow> ril \<Rightarrow> bool" where
  request: "onRequest request data t c = Ret c' \<Longrightarrow> ril_step c c'"
| initialize: "initializeCallback c = Ret c' \<Longrightarrow> ril_step c c'"
| poll: "ril_step c (pollSIMState c)"
| call_state: "ril_step c (sendCallStateChanged c)"
| reader: "readerLoop_turn ril_hooks c = Ret c' \<Longrightarrow> ril_step c c'"
| reopen: "waitForClose_ends c \<Longrightarrow> ril_step c (snd (mainLoop_open created fd c))"
| system: "ril_step c (c\<lparr>env_reads := rs, env_writes := ws, env_waits := es\<rparr>)"

lemma ril_step_radio: "ril_step c c' \<Longrightarrow> radio_inv c \<Longrightarrow> radio_inv c'"
proof (induction rule: ril_step.induct)
  case (reader c c')
  then show ?case
    using ril_radio.turn_frame[of c c'] by (simp add: keeps_radio_def radio_inv_more)
next
  case (reopen c created fd)
  then show ?case
    by (simp add: mainLoop_open_def at_open_def at_set_on_timeout_def at_set_on_reader_closed_def Let_def radio_inv_def RIL_call_def)
next
  case (system c rs ws es)
  then show ?case
    by (simp add: radio_inv_def)
qed (auto simp: sendCallStateChanged_def request_radio initialize_radio radio_inv_poll)


text \<open>The library as it is loaded, with the coming reads.\<close>

definition ril_start :: "read_result list \<Rightarrow> ril" where
  "ril_start rs = at_chan.extend (at_start rs [] []) (ril.fields RADIO_STATE_UNAVAILABLE 0 [])"

lemma read_loop_eof: "p \<noteq> MAX_AT_RESPONSE \<Longrightarrow> read_loop (Chunk [] # rs) buf cur p = Ret (None, buf, cur, rs)"
  by (subst read_loop.simps) simp


end
