(* ===== verification/Ril_System.thy ===== *)
theory Ril_System
  imports Ctrl Ril_Properties
begin

text \<open>
  The program and the RIL library together: what \<open>upil_ril.c\<close> writes to its socket is
  what \<open>atchannel.c\<close> reads, and what the library writes is what the program reads.  The
  current call of the telephone reaches Android, and two ways in which the two sides do
  not fit.
\<close>

section \<open>The line of a call\<close>

lemma nextTok_space: "nextTok (Some (32 # s)) = nextTok (Some s)"
  by (simp add: nextTok_def skipWhiteSpace_def is_space_def)

lemma nextint_space: "at_tok_nextint (Some (32 # s)) out = at_tok_nextint (Some s) out"
  by (simp add: at_tok_nextint_def at_tok_nextint_base_def nextTok_space)

text \<open>What the library reads from the line of a call.\<close>

lemma callFromCLCCLine_line:
  assumes dir: "dir = 0 \<or> dir = 1" and st: "clccStateToRILState state RIL_CALL_ACTIVE = (0, s)" "in_int_range state"
    and num: "34 \<notin> set num" "num \<noteq> []" "hd num \<in> set number_chars"
  shows "callFromCLCCLine (str ''+CLCC: 1,'' @ dec_int dir @ str '','' @ dec_int state @ str '',0,0,'' @ [34] @ num @ [34] @ str '',129'')
      zero_call =
    (0, \<lparr>call_state = s, call_index = 1, toa = 129, isMpty = 0, isMT = dir, isVoice = True, number = Some num\<rparr>)"
proof -
  let ?f5 = "34 # num @ 34 # field_end (Some (dec_int 129 @ field_end None))"
  let ?f4 = "dec_int 0 @ field_end (Some ?f5)"
  let ?f3 = "dec_int 0 @ field_end (Some ?f4)"
  let ?f2 = "dec_int state @ field_end (Some ?f3)"
  let ?f1 = "dec_int dir @ field_end (Some ?f2)"
  have d: "dec_int 0 = [48]" "dec_int 1 = [49]" "dec_int 129 = [49, 50, 57]"
    by (simp_all add: dec_int_def dec_nat.simps)
  have line: "str ''+CLCC: 1,'' @ dec_int dir @ str '','' @ dec_int state @ str '',0,0,'' @ [34] @ num @ [34] @ str '',129''
      = str ''+CLCC:'' @ 32 # dec_int 1 @ field_end (Some ?f1)"
    by (simp add: d field_end_def)
  have start: "at_tok_start (Some (str ''+CLCC:'' @ r)) = (0, Some r)" for r
    by (simp add: at_tok_start_def)
  have r: "in_int_range 0" "in_int_range 1" "in_int_range 129"
    by (simp_all add: in_int_range_def)
  have more: "at_tok_hasmore (Some ?f5)"
    by (simp add: at_tok_hasmore_def)
  have span: "takeWhile (\<lambda>b. b \<in> set number_chars) num \<noteq> []"
    using num(2,3) by (cases num) auto
  have number: "clcc_number (Some ?f5) c = (0, c\<lparr>number := Some num, toa := 129\<rparr>)" for c
    using span nextint_dec[OF r(3), of None] nextstr_quoted[OF num(1), of "Some (dec_int 129 @ field_end None)"]
    by (simp add: clcc_number_def more Let_def)
  show ?thesis
    unfolding line callFromCLCCLine_def zero_call_def
    by (simp only: start nextint_space nextint_dec[OF r(2)] nextbool_dec[OF dir] nextint_dec[OF st(2)] nextint_dec[OF r(1)]
        nextbool_dec[of 0, simplified] number st(1) case_prod_conv Let_def RIL_Call.simps simp_thms if_False less_irrefl)
qed

section \<open>The current call\<close>

text \<open>The call of the telephone in the state \<open>s\<close> of its machine, beyond the idle one.\<close>

definition shown_dir :: "phone \<Rightarrow> int \<Rightarrow> int" where
  "shown_dir p s = (if s = UPIL_SM_DIALING then 0 else if s = UPIL_SM_INCOMING then 1 else s_call_dir p)"

definition shown_number :: "phone \<Rightarrow> int \<Rightarrow> byte list" where
  "shown_number p s = c_string (if shown_dir p s \<noteq> 0 then last_incoming_num p else last_outgoing_num p)"

definition shown_state :: "int \<Rightarrow> RIL_CallState" where
  "shown_state s = (if s = UPIL_SM_DIALING then RIL_CALL_DIALING else if s = UPIL_SM_INCOMING then RIL_CALL_INCOMING else RIL_CALL_ACTIVE)"

definition shown_line :: "phone \<Rightarrow> int \<Rightarrow> byte list" where
  "shown_line p s = str ''+CLCC: 1,'' @ dec_int (shown_dir p s) @ str '',''
     @ dec_int (if s = UPIL_SM_DIALING then 2 else if s = UPIL_SM_INCOMING then 4 else 0)
     @ str '',0,0,'' @ [34] @ shown_number p s @ [34] @ str '',129''"

lemma clcc_answered:
  assumes p: "phone_ok p" and s: "upil_sm_get_current_state p = Some s" "UPIL_SM_IDLE < s"
  shows "\<exists>p'. ril_processCommandBuffer fd (command_buffer MAX_AT_COMMAND (str ''AT+CLCC'' @ [13])) p = Some p'
    \<and> sock_out p' = sock_out p @ [(fd, shown_line p s @ [10]), (fd, str ''OK'' @ [10, 0])]"
proof -
  have l: "c_string (command_buffer MAX_AT_COMMAND (str ''AT+CLCC'' @ [13])) = str ''AT+CLCC'' @ [13]"
    unfolding ril_buffer by (simp add: command_line_def MAX_AT_COMMAND_def c_string_def)
  have cmp: "str ''AT+CLCC'' @ [13] \<noteq> [13]" "\<not> strStartsWith (str ''AT+CLCC'' @ [13]) (str ''ATE0'')"
      "\<not> strStartsWith (str ''AT+CLCC'' @ [13]) (str ''ATD'')" "\<not> strStartsWith (str ''AT+CLCC'' @ [13]) (str ''AT+CHLD='')"
      "\<not> strStartsWith (str ''AT+CLCC'' @ [13]) (str ''ATA'')" "strStartsWith (str ''AT+CLCC'' @ [13]) (str ''AT+CLCC'')"
    by simp_all
  have closed: "0 \<in> set (last_incoming_num p)" "0 \<in> set (last_outgoing_num p)"
    using p by (auto simp: phone_ok_def num_ok_def)
  have "\<exists>p1. ril_current_calls p = Some (Some (shown_line p s @ [10]), p1) \<and> sock_out p1 = sock_out p"
    using s closed by (auto simp: ril_current_calls_def clcc_line_def shown_line_def shown_dir_def shown_number_def)
  then obtain p1 where p1: "ril_current_calls p = Some (Some (shown_line p s @ [10]), p1)" "sock_out p1 = sock_out p"
    by blast
  have "ril_processCommandBuffer fd (command_buffer MAX_AT_COMMAND (str ''AT+CLCC'' @ [13])) p
      = Some (ril_process_reply fd 0 (Some (shown_line p s @ [10])) p1)"
    by (simp only: ril_processCommandBuffer_def Let_def l cmp p1(1) if_True if_False Option.bind.bind_lunit case_prod_conv)
  then show ?thesis
    using p1(2) by (simp add: ril_process_reply_def sock_send_def)
qed

lemma number_chars_digit: "is_digit b \<Longrightarrow> b \<in> set number_chars"
proof -
  assume "is_digit b"
  then have b: "48 \<le> unat b" "unat b \<le> 57"
    by (simp_all add: is_digit_def word_le_nat_alt)
  have "b = of_nat (unat b)"
    by simp
  moreover have "unat b \<in> {48, 49, 50, 51, 52, 53, 54, 55, 56, 57}"
    using b by (simp, presburger)
  ultimately have "b \<in> of_nat ` {48, 49, 50, 51, 52, 53, 54, 55, 56, 57}"
    by (metis imageI)
  then show ?thesis
    by (auto simp: number_chars_def)
qed

text \<open>The bytes of a line with digits for its number.\<close>

lemma shown_line_plain:
  assumes "\<forall>b\<in>set (shown_number p s). is_digit b"
  shows "\<forall>b\<in>set (shown_line p s). b \<noteq> 0 \<and> b \<noteq> 62 \<and> \<not> is_eol b"
proof -
  have dig: "is_digit b \<or> b = 45 \<Longrightarrow> b \<noteq> 0 \<and> b \<noteq> 62 \<and> \<not> is_eol b" for b
    by (auto simp: is_digit_def is_eol_def)
  show ?thesis
    using assms dig dec_int_plain unfolding shown_line_def by (auto simp: is_eol_def)
qed

lemma clcc_length:
  "length a = 1 \<Longrightarrow> length b = 1 \<Longrightarrow> length n \<le> 128 \<Longrightarrow>
    length (str ''+CLCC: 1,'' @ a @ str '','' @ b @ str '',0,0,'' @ [34] @ n @ [34] @ str '',129'') < 200"
  by simp

lemma shown_line_length:
  assumes p: "phone_ok p" and d: "s_call_dir p \<in> {0, 1}"
  shows "length (shown_line p s) < 200"
proof -
  have "length (last_incoming_num p) = 128" "length (last_outgoing_num p) = 128"
    using p by (auto simp: phone_ok_def num_ok_def)
  then have "length (shown_number p s) \<le> 128"
    using length_c_string[of "last_incoming_num p"] length_c_string[of "last_outgoing_num p"] by (simp add: shown_number_def)
  moreover have "length (dec_int (shown_dir p s)) = 1"
  proof -
    have "shown_dir p s = 0 \<or> shown_dir p s = 1"
      using d by (auto simp: shown_dir_def)
    then show ?thesis
      by (elim disjE) (simp_all add: dec_int_def dec_nat.simps)
  qed
  moreover have "length (dec_int (if s = 3 then 2 else if s = 4 then 4 else 0)) = 1"
    by (cases "s = 3"; cases "s = 4") (simp_all add: dec_int_def dec_nat.simps)
  ultimately show ?thesis
    unfolding shown_line_def by (intro clcc_length)
qed

definition shown_call :: "phone \<Rightarrow> int \<Rightarrow> RIL_Call" where
  "shown_call p s = \<lparr>call_state = shown_state s, call_index = 1, toa = 129, isMpty = 0, isMT = shown_dir p s,
     isVoice = True, number = Some (shown_number p s)\<rparr>"

text \<open>
  Property C8.  The current call of the telephone reaches Android.  The program answers
  the library's \<open>AT+CLCC\<close> with a line and \<open>OK\<close>; however the bytes of the answer are
  cut on their way, the request for the current calls is completed with exactly the call
  that the machine has: its direction, state and number; and while the call is neither
  active nor held the library polls again.
\<close>

theorem current_call_reaches_ril:
  assumes p: "phone_ok p" "upil_sm_get_current_state p = Some s" "UPIL_SM_IDLE < s" "s_call_dir p \<in> {0, 1}"
    and num: "shown_number p s \<noteq> []" "\<forall>b\<in>set (shown_number p s). is_digit b"
    and c: "channel_ready c" "reader_ok c" "unread c = []" "writeline (str ''AT+CLCC'') c = Ret (0, c1)"
    and env: "reader_runs 2 (env_waits c)"
    and net: "stream (env_reads c) = shown_line p s @ [10] @ str ''OK'' @ [10, 0]"
  shows "\<exists>p' answer. ril_processCommandBuffer fd (command_buffer MAX_AT_COMMAND (str ''AT+CLCC'' @ [13])) p = Some p'
      \<and> sock_out p' = sock_out p @ answer \<and> concat (map snd answer) = stream (env_reads c)
    \<and> (\<exists>c'. requestGetCurrentCalls t c = Ret c'
      \<and> ril_calls c' = ril_calls c @ [OnRequestComplete t RIL_E_SUCCESS (CallResponse [shown_call p s])]
        @ (if shown_state s = RIL_CALL_ACTIVE then [] else [RequestTimedCallback SendCallStateChanged (Some TIMEVAL_CALLSTATEPOLL)]))"
proof -
  obtain p' where p': "ril_processCommandBuffer fd (command_buffer MAX_AT_COMMAND (str ''AT+CLCC'' @ [13])) p = Some p'"
      "sock_out p' = sock_out p @ [(fd, shown_line p s @ [10]), (fd, str ''OK'' @ [10, 0])]"
    using clcc_answered[OF p(1-3)] by blast
  let ?line = "shown_line p s"
  let ?text = "?line @ 10 # str ''OK'' @ [10]"
  note plain = shown_line_plain[OF num(2)]
  have see: "will_see ?text [0] c"
    using c(2,3) net plain by (auto simp: will_see_def sees_def)
  have fit: "fits ?text"
    using shown_line_length[OF p(1,4), of s] by (intro fits_short) (simp add: MAX_AT_RESPONSE_def)
  have ne: "?line \<noteq> []"
    by (simp add: shown_line_def)
  have n1: "next_line ?text = Some (?line, str ''OK'' @ [10])"
    using plain ne by (intro next_line_complete) (auto simp: is_eol_def)
  have lines: "lines_of ?text = [?line] @ str ''OK'' # []"
  proof -
    have "lines_of (str ''OK'' @ [10]) = [str ''OK'']"
      by (simp add: lines_of.simps next_line_def is_eol_def)
    then show ?thesis
      by (subst lines_of.simps) (simp only: n1 option.case case_prod_conv append_Cons append_Nil)
  qed
  have ans: "answer [?line] (str ''OK'')"
    by (simp add: answer_def isFinalResponse_def isFinalResponseSuccess_def isFinalResponseError_def isSMSUnsolicited_def
        s_finalResponsesSuccess_def s_finalResponsesError_def s_smsUnsoliciteds_def shown_line_def)
  have split: "answer_lines MULTILINE (Some (str ''+CLCC:'')) [] [?line] = ([?line], [])"
    by (simp add: accepts_def shown_line_def)
  have runs: "reader_runs (Suc (length [?line])) (env_waits c)"
    using env by (simp add: numeral_2_eq_2)
  have pre: "prefix_given MULTILINE (Some (str ''+CLCC:''))"
    by (simp add: prefix_given_def)
  obtain c2 where c2: "at_send_command_full ril_hooks False (str ''AT+CLCC'') MULTILINE (Some (str ''+CLCC:'')) None 0 True c =
      Ret (0, Some \<lparr>success = final_success (str ''OK''), finalResponse = Some (str ''OK''), p_intermediates = [?line]\<rparr>, c2)"
      "at_chan.more c2 = at_chan.more c"
    using ril_client.command_answer[OF c(1) pre c(4) see fit lines ans runs split, of 0] by auto
  have rc: "ril_calls c2 = ril_calls c"
    using on_ril_more(3)[of c2] on_ril_more(3)[of c] c2(2) by simp
  have ok: "final_success (str ''OK'') = 1"
    by (simp add: final_success_def isFinalResponseSuccess_def s_finalResponsesSuccess_def)
  have dir: "shown_dir p s = 0 \<or> shown_dir p s = 1"
    using p(4) by (auto simp: shown_dir_def)
  have call: "callFromCLCCLine ?line zero_call = (0, shown_call p s)"
  proof -
    have "clccStateToRILState (if s = 3 then 2 else if s = 4 then 4 else 0) RIL_CALL_ACTIVE = (0, shown_state s)"
      by (simp add: clccStateToRILState_def shown_state_def)
    moreover have "in_int_range (if s = 3 then 2 else if s = 4 then 4 else 0)"
      by (simp add: in_int_range_def)
    moreover have "34 \<notin> set (shown_number p s)" "hd (shown_number p s) \<in> set number_chars"
      using num number_chars_digit by (auto simp: is_digit_def)
    ultimately show ?thesis
      unfolding shown_line_def shown_call_def by (intro callFromCLCCLine_line dir num(1))
  qed
  have "requestGetCurrentCalls t c = Ret
      (let c3 = RIL_onRequestComplete t RIL_E_SUCCESS (CallResponse [shown_call p s]) c2 in
       if shown_state s = RIL_CALL_ACTIVE then c3
       else RIL_call (RequestTimedCallback SendCallStateChanged (Some TIMEVAL_CALLSTATEPOLL)) c3)"
    using c2(1) call ok
    by (auto simp: requestGetCurrentCalls_def at_send_command_multiline_def Let_def shown_call_def shown_state_def)
  then show ?thesis
    using p' net rc by (auto simp: RIL_call_def Let_def)
qed

text \<open>An incoming call from 13800.\<close>

definition ringing_phone :: phone where
  "ringing_phone = (phone_at 4 [] 0)\<lparr>last_incoming_num := str ''13800'' @ replicate 123 0\<rparr>"

lemma ringing_phone_ok: "phone_ok ringing_phone"
proof (rule runs_ok[of "phone_at 4 [] 0"], rule phone_ok_client)
  show "phone_ok (phone_at 4 [] 0)"
    by (rule phone_at_ok) simp_all
  show "same_handler (phone_at 4 [] 0) ringing_phone" "wake_ok ringing_phone = wake_ok (phone_at 4 [] 0)"
    "s_pdu_buf ringing_phone = s_pdu_buf (phone_at 4 [] 0)" "s_pdu_offset ringing_phone = s_pdu_offset (phone_at 4 [] 0)"
    by (simp_all add: ringing_phone_def same_handler_def wake_ok_def)
  show "\<exists>i<7. cur_state ringing_phone = Some i"
    by (simp add: ringing_phone_def)
  show "length (last_incoming_num ringing_phone) = 128" "0 \<in> set (last_incoming_num ringing_phone)"
    by (simp_all add: ringing_phone_def)
  have "last_outgoing_num ringing_phone = last_outgoing_num (phone_at 4 [] 0)"
    by (simp add: ringing_phone_def)
  then show "num_ok (last_outgoing_num ringing_phone)"
    using \<open>phone_ok (phone_at 4 [] 0)\<close> by (simp add: phone_ok_def)
qed

theorem current_call_reaches_ril_witness:
  "let bytes = shown_line ringing_phone 4 @ [10] @ str ''OK'' @ [10, 0];
       c = ril_open [Chunk (take 5 bytes), Chunk (drop 5 bytes)] [Wrote 7, Wrote 1] [ReaderTurn, ReaderTurn, Woken]
   in \<exists>c'. requestGetCurrentCalls 7 c = Ret c' \<and>
     ril_calls c' = [OnRequestComplete 7 RIL_E_SUCCESS (CallResponse [\<lparr>call_state = RIL_CALL_INCOMING, call_index = 1, toa = 129,
         isMpty = 0, isMT = 1, isVoice = True, number = Some (str ''13800'')\<rparr>]),
       RequestTimedCallback SendCallStateChanged (Some TIMEVAL_CALLSTATEPOLL)]"
proof -
  let ?bytes = "shown_line ringing_phone 4 @ [10] @ str ''OK'' @ [10, 0]"
  let ?rs = "[Chunk (take 5 ?bytes), Chunk (drop 5 ?bytes)]"
  let ?c = "ril_open ?rs [Wrote 7, Wrote 1] [ReaderTurn, ReaderTurn, Woken]"
  have num: "shown_number ringing_phone 4 = str ''13800''"
    by (simp add: shown_number_def shown_dir_def ringing_phone_def c_string_def)
  have st: "upil_sm_get_current_state ringing_phone = Some 4"
    using current_state_ok[OF ringing_phone_ok] by (auto simp: ringing_phone_def)
  have good: "good_reads ?rs"
    by (simp add: shown_line_def)
  have wr: "writeline (str ''AT+CLCC'') ?c = Ret (0, ?c\<lparr>env_writes := [], at_out := at_out ?c @ [(s_fd ?c, str ''AT+CLCC''), (s_fd ?c, [13])]\<rparr>)"
    by (rule writeline_whole[where n = 7 and m = 0]) simp_all
  have "\<exists>c'. requestGetCurrentCalls 7 ?c = Ret c'
      \<and> ril_calls c' = ril_calls ?c @ [OnRequestComplete 7 RIL_E_SUCCESS (CallResponse [shown_call ringing_phone 4])]
        @ (if shown_state 4 = RIL_CALL_ACTIVE then [] else [RequestTimedCallback SendCallStateChanged (Some TIMEVAL_CALLSTATEPOLL)])"
  proof -
    have dir: "s_call_dir ringing_phone \<in> {0, 1}"
      by (simp add: ringing_phone_def phone_at_def)
    have "(2 :: int) < 4" "shown_number ringing_phone 4 \<noteq> []" "\<forall>b\<in>set (shown_number ringing_phone 4). is_digit b"
      by (simp_all add: num is_digit_def)
    moreover have "reader_runs 2 (env_waits ?c)"
      by (simp add: reader_runs_def numeral_2_eq_2)
    moreover have "stream (env_reads ?c) = ?bytes"
      by (simp only: ril_open_fields stream_simps append_Nil2 append_take_drop_id)
    ultimately show ?thesis
      using current_call_reaches_ril[OF ringing_phone_ok st _ dir _ _ ril_open_ready(1) ril_open_ready(2)[OF good] ril_open_ready(3) wr, of 20 7]
      by blast
  qed
  then show ?thesis
    unfolding Let_def by (simp add: shown_call_def shown_state_def num shown_dir_def)
qed

section \<open>Two writes of a command\<close>

text \<open>
  Property C39.  The library writes a command and the carriage return behind it with two
  writes.  When the program reads the two of a dial command apart, it takes the last digit
  for the line end and dials the number without it; only when it reads them together it
  dials the number that Android asked for.
\<close>

theorem dial_writes_read_apart:
  assumes p: "phone_ok p" "length (queued p) < 31" and n: "0 \<notin> set (n @ [z])" "number_ok n" "number_ok (n @ [z])"
    and c: "0 \<le> s_fd c" "s_readerClosed c = 0" "env_writes c = Wrote k # Wrote (Suc m) # ws" "length n + 4 \<le> k"
  shows "\<exists>c' p1 p2. writeline (str ''ATD'' @ n @ [z]) c = Ret (0, c')
    \<and> at_out c' = at_out c @ [(s_fd c, str ''ATD'' @ n @ [z]), (s_fd c, [13])]
    \<and> ril_processCommandBuffer fd (command_buffer MAX_AT_COMMAND (str ''ATD'' @ n @ [z])) p = Some p1
    \<and> queued p1 = queued p @ [(UPIL_CTL_HANDFREE_ON, dial_data n, due p 0)]
    \<and> ril_processCommandBuffer fd (command_buffer MAX_AT_COMMAND [13]) p1 = Some p1
    \<and> ril_processCommandBuffer fd (command_buffer MAX_AT_COMMAND (str ''ATD'' @ n @ [z] @ [13])) p = Some p2
    \<and> queued p2 = queued p @ [(UPIL_CTL_HANDFREE_ON, dial_data (n @ [z]), due p 0)]"
proof -
  have z: "0 \<notin> set n" "z \<noteq> 0"
    using n(1) by auto
  obtain p1 where p1: "ril_processCommandBuffer fd (command_buffer MAX_AT_COMMAND (str ''ATD'' @ n @ [z])) p = Some p1"
      "queued p1 = queued p @ [(UPIL_CTL_HANDFREE_ON, dial_data n, due p 0)]"
    using ril_dial_queued[OF p(1) z(1) n(2) z(2) p(2), of fd] by blast
  obtain p2 where p2: "ril_processCommandBuffer fd (command_buffer MAX_AT_COMMAND (str ''ATD'' @ (n @ [z]) @ [13])) p = Some p2"
      "queued p2 = queued p @ [(UPIL_CTL_HANDFREE_ON, dial_data (n @ [z]), due p 0)]"
    using ril_dial_queued[OF p(1) n(1) n(3) _ p(2), of 13 fd] by auto
  have "c_string (command_buffer MAX_AT_COMMAND [13]) = [13]"
    unfolding ril_buffer by (simp add: command_line_def MAX_AT_COMMAND_def c_string_def)
  then have cr: "ril_processCommandBuffer fd (command_buffer MAX_AT_COMMAND [13]) p1 = Some p1"
    by (simp add: ril_processCommandBuffer_def)
  have "writeline (str ''ATD'' @ n @ [z]) c = Ret (0, c\<lparr>env_writes := ws,
      at_out := at_out c @ [(s_fd c, str ''ATD'' @ n @ [z]), (s_fd c, [13])]\<rparr>)"
    using c(4) by (intro writeline_whole[OF c(1-3)]) simp_all
  then show ?thesis
    using p1 p2 cr by (simp only: append_assoc) simp
qed

theorem dial_writes_read_apart_witness:
  "\<exists>p1. ril_processCommandBuffer 20 (command_buffer MAX_AT_COMMAND (str ''ATD110'')) (phone_at 2 [] 0) = Some p1
    \<and> queued p1 = [(UPIL_CTL_HANDFREE_ON, Some (str ''11'' @ [0, 0]), TV 0 0)]"
proof -
  have "phone_ok (phone_at 2 [] 0)"
    by (rule phone_at_ok) simp_all
  moreover have "number_ok (str ''11'')" "number_ok (str ''11'' @ [48])" "0 \<notin> set (str ''11'' @ [48])"
    by (simp_all add: number_ok_def dialable_def dial_codes_def dial_code_def)
  moreover have "due (phone_at 2 [] 0) 0 = TV 0 0" "queued (phone_at 2 [] 0) = []"
    by (simp_all add: phone_at_def due_def timeradd_def queued_def)
  ultimately show ?thesis
    using dial_writes_read_apart[of "phone_at 2 [] 0" "str ''11''" 48 "ril_open [] [Wrote 6, Wrote (Suc 0)] []" 6 0 "[]" 20]
    by (auto simp: dial_data_def)
qed

section \<open>Two replies in one read\<close>

lemma readline_chunk:
  assumes ok: "at_buf_ok (s_ATBuffer c) (s_ATBufferCur c)" "unread c = []" and rs: "env_reads c = Chunk bs # rs"
    and bs: "bs \<noteq> []" "length bs \<le> MAX_AT_RESPONSE" and l: "next_line (c_string bs) = Some (l, r)" "62 \<notin> set (c_string bs)"
  shows "\<exists>c'. readline c = Ret (Some l, c') \<and> at_buf_ok (s_ATBuffer c') (s_ATBufferCur c') \<and> unread c' = r \<and> env_reads c' = rs"
proof -
  obtain buf where b: "loop_ok buf 0 []" "readline c = run_bind (read_loop (env_reads c) buf 0 0)
      (\<lambda>(line, buf, cur, rs). Ret (line, c\<lparr>s_ATBuffer := buf, s_ATBufferCur := cur, env_reads := rs\<rparr>))"
    using readline_cases[OF ok(1)] ok(2) by (auto simp: next_line_def)
  have n: "min (length bs) (MAX_AT_RESPONSE - length []) = length bs" "length ([] :: byte list) < MAX_AT_RESPONSE"
    using bs(2) by (simp_all add: MAX_AT_RESPONSE_def)
  have "\<exists>buf' cur'. read_loop (Chunk bs # rs) buf 0 0 = Ret (Some l, buf', cur', rs) \<and> at_buf_ok buf' cur'
      \<and> c_string (drop cur' buf') = r"
    using read_chunk[OF b(1) bs(1) n(2), of rs] l n(1) by (simp add: rest_reads_def)
  then show ?thesis
    using b(2) rs by (auto simp: unread_def)
qed



end
