(* ===== verification/Audio_Pcm.thy ===== *)
theory Audio_Pcm
  imports Upil_Prelude
begin

text \<open>
  The PCM streams of \<open>upil_audio/usb_audio_pcm.c\<close>: opening a stream of the kernel's sound
  interface, writing and reading frames, and closing it.

  What the kernel does is a list of answers that the system calls consume, one each, in
  the order of the calls; a call for which there is no answer does not return.  The calls
  are recorded in \<open>sys_log\<close>.  The calls whose results the code ignores (\<open>close\<close>,
  \<open>munmap\<close>, \<open>free\<close>) are recorded only.  A \<open>long\<close> has 32 bits, as on the machines that
  the program is built for.  The functions of the file that work on a memory-mapped stream
  (\<open>pcm_mmap_write\<close> and what only it uses) have no caller and are left out.
\<close>

section \<open>Configuration and parameters\<close>

datatype pcm_format = PCM_FORMAT_S16_LE | PCM_FORMAT_S32_LE | PCM_FORMAT_MAX

record pcm_config =
  cfg_channels :: "32 word"
  cfg_rate :: "32 word"
  period_size :: "32 word"
  period_count :: "32 word"
  cfg_format :: pcm_format
  start_threshold :: "32 word"
  stop_threshold :: "32 word"
  silence_threshold :: "32 word"
  avail_min :: int

definition PCM_OUT :: "32 word" where "PCM_OUT = 0x00000000"
definition PCM_IN :: "32 word" where "PCM_IN = 0x10000000"
definition PCM_MMAP :: "32 word" where "PCM_MMAP = 0x00000001"
definition PCM_NOIRQ :: "32 word" where "PCM_NOIRQ = 0x00000002"

lemmas pcm_flag_defs = PCM_OUT_def PCM_IN_def PCM_MMAP_def PCM_NOIRQ_def

abbreviation has_flag :: "32 word \<Rightarrow> 32 word \<Rightarrow> bool" where
  "has_flag flags f \<equiv> flags AND f \<noteq> 0"

text \<open>The hardware parameters of a stream: three masks, and intervals.\<close>

datatype hw_param =
    PARAM_ACCESS | PARAM_FORMAT | PARAM_SUBFORMAT
  | PARAM_SAMPLE_BITS | PARAM_FRAME_BITS | PARAM_CHANNELS | PARAM_RATE | PARAM_PERIOD_TIME
  | PARAM_PERIOD_SIZE | PARAM_PERIOD_BYTES | PARAM_PERIODS | PARAM_BUFFER_TIME
  | PARAM_BUFFER_SIZE | PARAM_BUFFER_BYTES | PARAM_TICK_TIME

record snd_interval =
  ival_min :: "32 word"
  ival_max :: "32 word"
  ival_integer :: bool

record hw_params =
  hw_flags :: "32 word"
  masks :: "hw_param \<Rightarrow> 32 word list"
  intervals :: "hw_param \<Rightarrow> snd_interval"

text \<open>Numbers of the kernel's interface: the bits of the masks, their number, and errors.\<close>

abbreviation (input) SNDRV_MASK_MAX :: nat where "SNDRV_MASK_MAX \<equiv> 256"
abbreviation (input) SNDRV_PCM_FORMAT_S16_LE :: nat where "SNDRV_PCM_FORMAT_S16_LE \<equiv> 2"
abbreviation (input) SNDRV_PCM_FORMAT_S32_LE :: nat where "SNDRV_PCM_FORMAT_S32_LE \<equiv> 10"
abbreviation (input) SNDRV_PCM_SUBFORMAT_STD :: nat where "SNDRV_PCM_SUBFORMAT_STD \<equiv> 0"
abbreviation (input) SNDRV_PCM_ACCESS_MMAP_INTERLEAVED :: nat where "SNDRV_PCM_ACCESS_MMAP_INTERLEAVED \<equiv> 0"
abbreviation (input) SNDRV_PCM_ACCESS_RW_INTERLEAVED :: nat where "SNDRV_PCM_ACCESS_RW_INTERLEAVED \<equiv> 3"
abbreviation (input) EPIPE :: int where "EPIPE \<equiv> 32"
abbreviation (input) EINVAL :: int where "EINVAL \<equiv> 22"
abbreviation (input) ENOMEM :: int where "ENOMEM \<equiv> 12"

definition param_is_mask :: "hw_param \<Rightarrow> bool" where
  "param_is_mask p \<longleftrightarrow> p \<in> {PARAM_ACCESS, PARAM_FORMAT, PARAM_SUBFORMAT}"

definition param_is_interval :: "hw_param \<Rightarrow> bool" where
  "param_is_interval p \<longleftrightarrow> \<not> param_is_mask p"

definition param_set_mask :: "hw_param \<Rightarrow> nat \<Rightarrow> hw_params \<Rightarrow> hw_params" where
  "param_set_mask n b p =
     (if b \<ge> SNDRV_MASK_MAX then p
      else if param_is_mask n
      then let m = (masks p n)[0 := 0, 1 := 0]
           in p\<lparr>masks := (masks p)(n := m[b div 32 := m ! (b div 32) OR push_bit (b mod 32) 1])\<rparr>
      else p)"

definition param_set_min :: "hw_param \<Rightarrow> 32 word \<Rightarrow> hw_params \<Rightarrow> hw_params" where
  "param_set_min n val p =
     (if param_is_interval n
      then p\<lparr>intervals := (intervals p)(n := (intervals p n)\<lparr>ival_min := val\<rparr>)\<rparr> else p)"

definition param_set_max :: "hw_param \<Rightarrow> 32 word \<Rightarrow> hw_params \<Rightarrow> hw_params" where
  "param_set_max n val p =
     (if param_is_interval n
      then p\<lparr>intervals := (intervals p)(n := (intervals p n)\<lparr>ival_max := val\<rparr>)\<rparr> else p)"

definition param_set_int :: "hw_param \<Rightarrow> 32 word \<Rightarrow> hw_params \<Rightarrow> hw_params" where
  "param_set_int n val p =
     (if param_is_interval n
      then p\<lparr>intervals := (intervals p)(n := \<lparr>ival_min = val, ival_max = val, ival_integer = True\<rparr>)\<rparr> else p)"

definition param_get_int :: "hw_param \<Rightarrow> hw_params \<Rightarrow> 32 word" where
  "param_get_int n p =
     (if param_is_interval n \<and> ival_integer (intervals p n) then ival_max (intervals p n) else 0)"

definition param_init :: hw_params where
  "param_init =
     \<lparr>hw_flags = 0,
      masks = (\<lambda>_. [NOT 0, NOT 0] @ replicate 6 0),
      intervals = (\<lambda>_. \<lparr>ival_min = 0, ival_max = NOT 0, ival_integer = False\<rparr>)\<rparr>"

definition pcm_format_to_alsa :: "pcm_format \<Rightarrow> nat" where
  "pcm_format_to_alsa f =
     (case f of PCM_FORMAT_S32_LE \<Rightarrow> SNDRV_PCM_FORMAT_S32_LE | _ \<Rightarrow> SNDRV_PCM_FORMAT_S16_LE)"

definition pcm_format_to_bits :: "pcm_format \<Rightarrow> 32 word" where
  "pcm_format_to_bits f = (case f of PCM_FORMAT_S32_LE \<Rightarrow> 32 | _ \<Rightarrow> 16)"

section \<open>System calls\<close>

record sw_params =
  sw_start_threshold :: "32 word"
  sw_stop_threshold :: "32 word"
  sw_avail_min :: int
  xfer_align :: "32 word"
  sw_silence_threshold :: "32 word"
  sw_boundary :: "32 word"

text \<open>The description of a mixer element, as \<open>ELEM_INFO\<close> returns it.\<close>

datatype elem_type =
    ELEM_BOOLEAN | ELEM_INTEGER | ELEM_ENUMERATED | ELEM_BYTES | ELEM_IEC958 | ELEM_INTEGER64 | ELEM_OTHER

record elem_info =
  numid :: nat
  elem_name :: "byte list"
  etype :: elem_type
  value_count :: nat
  int_min :: int
  int_max :: int
  items :: nat
  item_name :: "byte list"

text \<open>The system calls, and what they can answer.\<close>

datatype sys_call =
    SysCalloc
  | SysFree
  | SysOpen "byte list"
  | SysClose int
  | SysMmap int
  | SysMunmap
  | IoInfo int
  | IoHwParams int hw_params
  | IoSwParams int sw_params
  | IoSyncPtr int int
  | IoPrepare int
  | IoStart int
  | IoDrop int
  | IoPoll int int
  | IoWritei int "byte list"
  | IoReadi int nat
  | IoElemList int
  | IoElemInfo int nat
  | IoElemRead int nat
  | IoElemWrite int nat "int list"

datatype sys_answer =
    Done int
  | Failed int
  | Bytes "byte list"
  | Params hw_params
  | Values "int list"
  | Elems "nat list"
  | ElemInfo elem_info

text \<open>The system, and two of the file's static buffers.\<close>

record sound =
  sys_answers :: "sys_answer list"
  sys_log :: "sys_call list"
  buffer_read :: "byte list"
  buffer_resample :: "byte list"

definition sys :: "sys_call \<Rightarrow> sound \<Rightarrow> (sys_answer \<times> sound) run" where
  "sys r k =
     (case sys_answers k of
        [] \<Rightarrow> Waits
      | a # as \<Rightarrow> Ret (a, k\<lparr>sys_answers := as, sys_log := sys_log k @ [r]\<rparr>))"

definition note_call :: "sys_call \<Rightarrow> sound \<Rightarrow> sound" where
  "note_call r k = k\<lparr>sys_log := sys_log k @ [r]\<rparr>"

definition failed :: "sys_answer \<Rightarrow> bool" where
  "failed a = (case a of Failed _ \<Rightarrow> True | _ \<Rightarrow> False)"

definition errno_of :: "sys_answer \<Rightarrow> int" where
  "errno_of a = (case a of Failed e \<Rightarrow> e | _ \<Rightarrow> 0)"

lemma failed_simps [simp]:
  "\<not> failed (Done n)" "failed (Failed e)" "\<not> failed (Bytes bs)" "\<not> failed (Params p)" "\<not> failed (Values vs)"
  "\<not> failed (Elems ns)" "\<not> failed (ElemInfo i)"
  by (simp_all add: failed_def)

section \<open>Streams\<close>

text \<open>
  \<open>struct pcm\<close>.  Of the pages shared with the kernel the code writes \<open>avail_min\<close> only;
  the pointers to them are kept as set or not.  \<open>pcm_error\<close> is the text and the error
  number of the last failure.  \<open>is_bad_pcm\<close> says that the pointer is to \<open>bad_pcm\<close>.
\<close>

record pcm =
  pcm_fd :: int
  pcm_flags :: "32 word"
  running :: bool
  underruns :: int
  buffer_size :: "32 word"
  boundary :: "32 word"
  pcm_error :: "(string \<times> int) option"
  pcm_cfg :: pcm_config
  mmap_status :: bool
  mmap_control :: bool
  sync_ptr :: bool
  mmap_buffer :: bool
  control_avail_min :: int
  noirq_frames_per_msec :: "32 word"
  is_bad_pcm :: bool

definition zero_config :: pcm_config where
  "zero_config =
     \<lparr>cfg_channels = 0, cfg_rate = 0, period_size = 0, period_count = 0, cfg_format = PCM_FORMAT_S16_LE,
      start_threshold = 0, stop_threshold = 0, silence_threshold = 0, avail_min = 0\<rparr>"

definition zero_pcm :: pcm where
  "zero_pcm =
     \<lparr>pcm_fd = 0, pcm_flags = 0, running = False, underruns = 0, buffer_size = 0, boundary = 0,
      pcm_error = None, pcm_cfg = zero_config, mmap_status = False, mmap_control = False,
      sync_ptr = False, mmap_buffer = False, control_avail_min = 0, noirq_frames_per_msec = 0,
      is_bad_pcm = False\<rparr>"

definition bad_pcm :: pcm where
  "bad_pcm = zero_pcm\<lparr>pcm_fd := -1, is_bad_pcm := True\<rparr>"

definition pcm_get_buffer_size :: "pcm \<Rightarrow> 32 word" where
  "pcm_get_buffer_size p = buffer_size p"

definition oops_pcm :: "int \<Rightarrow> string \<Rightarrow> pcm \<Rightarrow> int \<times> pcm" where
  "oops_pcm e fmt p = (-1, p\<lparr>pcm_error := Some (fmt, e)\<rparr>)"

text \<open>The division is undefined for a stream without channels.\<close>

definition frame_bytes :: "pcm \<Rightarrow> 32 word" where
  "frame_bytes p = cfg_channels (pcm_cfg p) * drop_bit 3 (pcm_format_to_bits (cfg_format (pcm_cfg p)))"

definition pcm_bytes_to_frames :: "pcm \<Rightarrow> 32 word \<Rightarrow> 32 word option" where
  "pcm_bytes_to_frames p bytes = (if frame_bytes p = 0 then None else Some (bytes div frame_bytes p))"

definition pcm_frames_to_bytes :: "pcm \<Rightarrow> 32 word \<Rightarrow> 32 word" where
  "pcm_frames_to_bytes p frames =
     frames * cfg_channels (pcm_cfg p) * drop_bit 3 (pcm_format_to_bits (cfg_format (pcm_cfg p)))"

definition pcm_sync_ptr :: "int \<Rightarrow> pcm \<Rightarrow> sound \<Rightarrow> (int \<times> sound) run" where
  "pcm_sync_ptr flags p k =
     (if sync_ptr p
      then run_bind (sys (IoSyncPtr (pcm_fd p) flags) k) (\<lambda>(a, k). Ret (if failed a then -1 else 0, k))
      else Ret (0, k))"

definition set_avail_min :: "pcm \<Rightarrow> pcm" where
  "set_avail_min p =
     p\<lparr>control_avail_min := (if has_flag (pcm_flags p) PCM_MMAP then avail_min (pcm_cfg p) else 1)\<rparr>"

text \<open>The label \<open>mmap_error\<close> of \<open>pcm_hw_mmap_status\<close>, and the function.\<close>

definition mmap_status_error :: "pcm \<Rightarrow> sound \<Rightarrow> (int \<times> pcm \<times> sound) run" where
  "mmap_status_error p k =
     run_bind (sys SysCalloc k) (\<lambda>(a, k).
       if failed a then Ret (- ENOMEM, p, k)
       else let p = set_avail_min (p\<lparr>sync_ptr := True, mmap_status := True, mmap_control := True\<rparr>)
            in run_bind (pcm_sync_ptr 0 p k) (\<lambda>(_, k). Ret (0, p, k)))"

definition pcm_hw_mmap_status :: "pcm \<Rightarrow> sound \<Rightarrow> (int \<times> pcm \<times> sound) run" where
  "pcm_hw_mmap_status p k =
     (if sync_ptr p then Ret (0, p, k)
      else run_bind (sys (SysMmap (pcm_fd p)) k) (\<lambda>(a, k).
        if failed a then mmap_status_error (p\<lparr>mmap_status := False\<rparr>) k
        else run_bind (sys (SysMmap (pcm_fd p)) k) (\<lambda>(b, k).
          if failed b
          then mmap_status_error (p\<lparr>mmap_status := False, mmap_control := False\<rparr>) (note_call SysMunmap k)
          else Ret (0, set_avail_min (p\<lparr>mmap_status := True, mmap_control := True\<rparr>), k))))"

definition pcm_hw_munmap_status :: "pcm \<Rightarrow> sound \<Rightarrow> pcm \<times> sound" where
  "pcm_hw_munmap_status p k =
     (let k = (if sync_ptr p then note_call SysFree k
               else (let k = (if mmap_status p then note_call SysMunmap k else k)
                     in if mmap_control p then note_call SysMunmap k else k))
      in (p\<lparr>sync_ptr := False, mmap_status := False, mmap_control := False\<rparr>, k))"

section \<open>Writing and reading\<close>

text \<open>
  \<open>pcm_write\<close>: the number of frames, and the loop.  A stream that runs is written to once;
  an underrun (\<open>EPIPE\<close>) makes it prepare the stream and write again.  The kernel reads
  \<open>x.frames\<close> whole frames of the data; \<open>frames * frame_bytes\<close> is \<open>xfer_bytes\<close>.
\<close>

definition xfer_bytes :: "pcm \<Rightarrow> nat \<Rightarrow> nat option" where
  "xfer_bytes p n =
     (let fb = cfg_channels (pcm_cfg p) * pcm_format_to_bits (cfg_format (pcm_cfg p)) div 8
      in if fb = 0 then None else Some (unat (of_nat n div fb :: 32 word) * unat fb))"

definition pcm_write_first :: "byte list \<Rightarrow> pcm \<Rightarrow> sound \<Rightarrow> (int \<times> pcm \<times> sound) run" where
  "pcm_write_first bs p k =
     run_bind (sys (IoPrepare (pcm_fd p)) k) (\<lambda>(a, k).
       if failed a then (let (r, p) = oops_pcm (errno_of a) ''cannot prepare channel'' p in Ret (r, p, k))
       else run_bind (sys (IoWritei (pcm_fd p) bs) k) (\<lambda>(b, k).
         if failed b then (let (r, p) = oops_pcm (errno_of b) ''cannot write initial data'' p in Ret (r, p, k))
         else Ret (0, p\<lparr>running := True\<rparr>, k)))"

definition pcm_write :: "byte list \<Rightarrow> nat \<Rightarrow> pcm \<Rightarrow> sound \<Rightarrow> (int \<times> pcm \<times> sound) run" where
  "pcm_write data n p k =
     (if has_flag (pcm_flags p) PCM_IN then Ret (- EINVAL, p, k)
      else run_bind (defined (Option.bind (xfer_bytes p n) (slice data 0))) (\<lambda>bs.
        if \<not> running p then pcm_write_first bs p k
        else run_bind (sys (IoWritei (pcm_fd p) bs) k) (\<lambda>(a, k).
          if \<not> failed a then Ret (0, p, k)
          else if errno_of a = EPIPE
          then pcm_write_first bs (p\<lparr>running := False, underruns := underruns p + 1\<rparr>) k
          else let (r, p) = oops_pcm (errno_of a) ''cannot write stream data'' (p\<lparr>running := False\<rparr>)
               in Ret (r, p, k))))"

text \<open>
  \<open>pcm_read\<close>.  The kernel puts at most the requested bytes at the front of the buffer.
\<close>

definition read_into :: "byte list \<Rightarrow> nat \<Rightarrow> sys_answer \<Rightarrow> byte list" where
  "read_into buf m a =
     (case a of Bytes bs \<Rightarrow> take m bs @ drop (length (take m bs)) buf | _ \<Rightarrow> buf)"

lemma ret_all_sys: "(\<And>a k'. ret_all P (f (a, k'))) \<Longrightarrow> ret_all P (run_bind (sys r k) f)"
  by (simp add: sys_def split: list.split)

lemma sys_Ret: "sys r k = Ret (a, k') \<Longrightarrow> length (sys_answers k') < length (sys_answers k)"
  by (auto simp: sys_def split: list.splits)

function pcm_read_loop :: "nat \<Rightarrow> byte list \<Rightarrow> pcm \<Rightarrow> sound \<Rightarrow> (int \<times> byte list \<times> pcm \<times> sound) run" where
  "pcm_read_loop m buf p k =
     (if \<not> running p
      then run_bind (sys (IoPrepare (pcm_fd p)) k) (\<lambda>(a, k).
        if failed a then (let (r, p) = oops_pcm (errno_of a) ''cannot prepare channel'' p in Ret (r, buf, p, k))
        else run_bind (sys (IoStart (pcm_fd p)) k) (\<lambda>(b, k).
          if failed b then (let (r, p) = oops_pcm (errno_of b) ''cannot start channel'' p in Ret (r, buf, p, k))
          else pcm_read_loop m buf (p\<lparr>running := True\<rparr>) k))
      else run_bind (sys (IoReadi (pcm_fd p) m) k) (\<lambda>(a, k).
        if \<not> failed a then Ret (0, read_into buf m a, p, k)
        else if errno_of a = EPIPE
        then pcm_read_loop m buf (p\<lparr>running := False, underruns := underruns p + 1\<rparr>) k
        else let (r, p) = oops_pcm (errno_of a) ''cannot read stream data'' (p\<lparr>running := False\<rparr>)
             in Ret (r, buf, p, k)))"
  by pat_completeness auto

termination
  by (relation "measure (\<lambda>(m, buf, p, k). length (sys_answers k))") (auto dest!: sys_Ret)

declare pcm_read_loop.simps [simp del]

definition pcm_read :: "byte list \<Rightarrow> nat \<Rightarrow> pcm \<Rightarrow> sound \<Rightarrow> (int \<times> byte list \<times> pcm \<times> sound) run" where
  "pcm_read buf n p k =
     (if \<not> has_flag (pcm_flags p) PCM_IN then Ret (- EINVAL, buf, p, k)
      else run_bind (defined (xfer_bytes p n)) (\<lambda>m.
        if m > length buf then Fault else pcm_read_loop m buf p k))"

section \<open>Opening and closing\<close>

definition pcm_stop :: "pcm \<Rightarrow> sound \<Rightarrow> (int \<times> pcm \<times> sound) run" where
  "pcm_stop p k =
     run_bind (sys (IoDrop (pcm_fd p)) k) (\<lambda>(a, k).
       if failed a then (let (r, p) = oops_pcm (errno_of a) ''cannot stop channel'' p in Ret (r, p, k))
       else Ret (0, p\<lparr>running := False\<rparr>, k))"

text \<open>The structure is freed; what the function stores in it before is not seen any more.\<close>

definition pcm_close :: "pcm \<Rightarrow> sound \<Rightarrow> sound run" where
  "pcm_close p k =
     (if is_bad_pcm p then Ret k
      else let (p, k) = pcm_hw_munmap_status p k
           in run_bind (if has_flag (pcm_flags p) PCM_MMAP
                        then run_bind (pcm_stop p k) (\<lambda>(_, p, k). Ret (note_call SysMunmap k))
                        else Ret k) (\<lambda>k.
                let k = (if pcm_fd p \<ge> 0 then note_call (SysClose (pcm_fd p)) k else k)
                in Ret (note_call SysFree k)))"

text \<open>
  The loop that looks for the largest multiple of the buffer size.  \<open>None\<close> says that it
  does not end.
\<close>

abbreviation (input) LONG_MAX :: "32 word" where
  "LONG_MAX \<equiv> 0x7FFFFFFF"

partial_function (option) boundary_loop :: "32 word \<Rightarrow> 32 word \<Rightarrow> 32 word option" where
  "boundary_loop n b = (if b * 2 \<le> LONG_MAX - n then boundary_loop n (b * 2) else Some b)"

definition pcm_hw_request :: "32 word \<Rightarrow> pcm_config \<Rightarrow> hw_params" where
  "pcm_hw_request flags config =
     (let p = param_set_mask PARAM_FORMAT (pcm_format_to_alsa (cfg_format config)) param_init;
          p = param_set_mask PARAM_SUBFORMAT SNDRV_PCM_SUBFORMAT_STD p;
          p = param_set_int PARAM_SAMPLE_BITS (pcm_format_to_bits (cfg_format config)) p;
          p = param_set_int PARAM_FRAME_BITS (pcm_format_to_bits (cfg_format config) * cfg_channels config) p;
          p = param_set_int PARAM_CHANNELS (cfg_channels config) p;
          p = param_set_int PARAM_RATE (cfg_rate config) p
      in if \<not> has_flag flags PCM_IN
         then param_set_int PARAM_PERIODS (period_count config)
                (param_set_min PARAM_PERIOD_SIZE (period_size config) p)
         else p)"

definition pcm_hw_access :: "32 word \<Rightarrow> hw_params \<Rightarrow> hw_params" where
  "pcm_hw_access flags p =
     (let p = (if has_flag flags PCM_NOIRQ then p\<lparr>hw_flags := hw_flags p OR 4\<rparr> else p)
      in param_set_mask PARAM_ACCESS
           (if has_flag flags PCM_MMAP then SNDRV_PCM_ACCESS_MMAP_INTERLEAVED
            else SNDRV_PCM_ACCESS_RW_INTERLEAVED) p)"

text \<open>The software parameters and what they leave in \<open>pcm->config\<close>; \<open>config\<close> has the refined
  period.\<close>

definition pcm_thresholds :: "32 word \<Rightarrow> pcm_config \<Rightarrow> pcm_config \<Rightarrow> sw_params \<times> pcm_config" where
  "pcm_thresholds flags config cfg =
     (let n = period_count config * period_size config;
          start = (if start_threshold config = 0 then n div 2 else start_threshold config);
          stop = (if stop_threshold config = 0 then (if has_flag flags PCM_IN then n * 10 else n)
                  else stop_threshold config);
          least = (if has_flag flags PCM_MMAP then uint (period_size cfg) else 1)
      in (\<lparr>sw_start_threshold = start, sw_stop_threshold = stop,
           sw_avail_min = (if avail_min cfg = 0 then least else avail_min config),
           xfer_align = period_size config div 2, sw_silence_threshold = silence_threshold config,
           sw_boundary = n\<rparr>,
          cfg\<lparr>start_threshold := (if start_threshold config = 0 then start else start_threshold cfg),
              stop_threshold := (if stop_threshold config = 0 then stop else stop_threshold cfg),
              avail_min := (if avail_min cfg = 0 then least else avail_min cfg)\<rparr>))"

text \<open>The labels \<open>fail\<close> and \<open>fail_close\<close>.\<close>

definition pcm_open_close :: "pcm_config \<Rightarrow> pcm \<Rightarrow> sound \<Rightarrow> pcm \<times> pcm_config \<times> sound" where
  "pcm_open_close config p k = (p\<lparr>pcm_fd := -1\<rparr>, config, note_call (SysClose (pcm_fd p)) k)"

definition pcm_open_fail :: "pcm_config \<Rightarrow> pcm \<Rightarrow> sound \<Rightarrow> pcm \<times> pcm_config \<times> sound" where
  "pcm_open_fail config p k =
     pcm_open_close config p (if has_flag (pcm_flags p) PCM_MMAP then note_call SysMunmap k else k)"

text \<open>From the mapping of the buffer to the end.\<close>

definition pcm_open_sw :: "pcm_config \<Rightarrow> pcm \<Rightarrow> sound \<Rightarrow> (pcm \<times> pcm_config \<times> sound) run" where
  "pcm_open_sw config p k =
     (let (sw, cfg) = pcm_thresholds (pcm_flags p) config (pcm_cfg p);
          p = p\<lparr>pcm_cfg := cfg\<rparr>
      in case boundary_loop (buffer_size p) (buffer_size p) of
           None \<Rightarrow> Waits
         | Some b \<Rightarrow>
             let p = p\<lparr>boundary := b\<rparr>
             in run_bind (sys (IoSwParams (pcm_fd p) sw) k) (\<lambda>(a, k).
                  if failed a
                  then Ret (pcm_open_fail config (snd (oops_pcm (errno_of a) ''cannot set sw params'' p)) k)
                  else run_bind (pcm_hw_mmap_status p k) (\<lambda>(rc, p, k).
                    if rc < 0
                    then Ret (pcm_open_fail config (snd (oops_pcm rc ''mmap status failed'' p)) k)
                    else Ret (p\<lparr>underruns := 0\<rparr>, config, k))))"

definition pcm_refined :: "sys_answer \<Rightarrow> hw_params \<Rightarrow> hw_params" where
  "pcm_refined a q = (case a of Params q' \<Rightarrow> q' | _ \<Rightarrow> q)"

definition pcm_open_hw :: "pcm_config \<Rightarrow> pcm \<Rightarrow> sound \<Rightarrow> (pcm \<times> pcm_config \<times> sound) run" where
  "pcm_open_hw config p k =
     (let q = pcm_hw_request (pcm_flags p) config
      in if has_flag (pcm_flags p) PCM_NOIRQ \<and> \<not> has_flag (pcm_flags p) PCM_MMAP
         then Ret (pcm_open_fail config
                (snd (oops_pcm (- EINVAL) ''noirq only currently supported with mmap().'' p)) k)
         else
           let p = (if has_flag (pcm_flags p) PCM_NOIRQ
                    then p\<lparr>noirq_frames_per_msec := cfg_rate config div 1000\<rparr> else p);
               q = pcm_hw_access (pcm_flags p) q
           in run_bind (sys (IoHwParams (pcm_fd p) q) k) (\<lambda>(a, k).
                if failed a
                then Ret (pcm_open_close config (snd (oops_pcm (errno_of a) ''cannot set hw params'' p)) k)
                else
                  let q = pcm_refined a q;
                      config = config\<lparr>period_size := param_get_int PARAM_PERIOD_SIZE q,
                                      period_count := param_get_int PARAM_PERIODS q\<rparr>;
                      p = p\<lparr>buffer_size := period_count config * period_size config\<rparr>
                  in if has_flag (pcm_flags p) PCM_MMAP
                     then run_bind (sys (SysMmap (pcm_fd p)) k) (\<lambda>(b, k).
                       if failed b
                       then Ret (pcm_open_close config
                              (snd (oops_pcm (- errno_of b) ''failed to mmap buffer'' p)) k)
                       else pcm_open_sw config (p\<lparr>mmap_buffer := True\<rparr>) k)
                     else pcm_open_sw config p k))"

text \<open>What follows \<open>open\<close>, whose answer is \<open>b\<close>.\<close>

definition pcm_open_device :: "32 word \<Rightarrow> pcm_config \<Rightarrow> sys_answer \<Rightarrow> sound \<Rightarrow> (pcm \<times> pcm_config \<times> sound) run" where
  "pcm_open_device flags config b k =
     (let p = zero_pcm\<lparr>pcm_cfg := config, pcm_flags := flags, pcm_fd := (case b of Done fd \<Rightarrow> fd | _ \<Rightarrow> -1)\<rparr>
      in if pcm_fd p < 0 then Ret (snd (oops_pcm (errno_of b) ''cannot open device'' p), config, k)
         else run_bind (sys (IoInfo (pcm_fd p)) k) (\<lambda>(c, k).
           if failed c
           then Ret (pcm_open_close config (snd (oops_pcm (errno_of c) ''cannot get info'' p)) k)
           else pcm_open_hw config p k))"

definition pcm_open ::
  "32 word \<Rightarrow> 32 word \<Rightarrow> 32 word \<Rightarrow> pcm_config \<Rightarrow> sound \<Rightarrow> (pcm \<times> pcm_config \<times> sound) run" where
  "pcm_open crd device flags config k =
     run_bind (sys SysCalloc k) (\<lambda>(a, k).
       if failed a then Ret (bad_pcm, config, k)
       else
         let fn = str ''/dev/snd/pcmC'' @ dec_nat (unat crd) @ str ''D'' @ dec_nat (unat device)
                    @ str (if has_flag flags PCM_IN then ''c'' else ''p'')
         in run_bind (sys (SysOpen fn) k) (\<lambda>(b, k). pcm_open_device flags config b k))"

section \<open>What is shown\<close>

lemma boundary_loop_doubles:
  assumes "0 < b" "unat b < 2 ^ 31" "unat n < 2 ^ 31"
  shows "\<exists>j b'. boundary_loop n b = Some b' \<and> unat b' = unat b * 2 ^ j \<and> 2 * unat b' + unat n > 2 ^ 31 - 1"
  using assms(1,2)
proof (induction "2 ^ 31 - unat b" arbitrary: b rule: less_induct)
  case less
  have pos: "0 < unat b"
    using less.prems(1) by (simp add: word_less_nat_alt)
  have dbl: "unat (b * 2) = 2 * unat b"
    using less.prems(2) by (simp add: unat_word_ariths)
  have lim: "unat (LONG_MAX - n) = 2 ^ 31 - 1 - unat n"
    using assms(3) by (subst unat_sub) (simp_all add: word_le_nat_alt)
  have step: "b * 2 \<le> LONG_MAX - n \<longleftrightarrow> 2 * unat b + unat n \<le> 2 ^ 31 - 1"
    using assms(3) unfolding word_le_nat_alt dbl lim by auto
  show ?case
  proof (cases "b * 2 \<le> LONG_MAX - n")
    case True
    then have le: "2 * unat b + unat n \<le> 2 ^ 31 - 1"
      using step by simp
    have "0 < b * 2" "unat (b * 2) < 2 ^ 31" "2 ^ 31 - unat (b * 2) < 2 ^ 31 - unat b"
      using pos le dbl less.prems(2) by (simp_all add: word_less_nat_alt)
    from less.hyps[OF this(3,1,2)] obtain j b'
      where IH: "boundary_loop n (b * 2) = Some b'" "unat b' = unat (b * 2) * 2 ^ j" "2 * unat b' + unat n > 2 ^ 31 - 1"
      by blast
    have "unat b' = unat b * 2 ^ Suc j"
      using IH(2) dbl by simp
    moreover have "boundary_loop n b = Some b'"
      using True IH(1) by (simp add: boundary_loop.simps[of n b])
    ultimately show ?thesis
      using IH(3) by blast
  next
    case False
    then have "boundary_loop n b = Some b" and "2 * unat b + unat n > 2 ^ 31 - 1"
      using step by (simp_all add: boundary_loop.simps[of n b])
    then show ?thesis
      by (intro exI[of _ 0] exI[of _ b]) simp
  qed
qed

lemma boundary_loop_result_pos: "boundary_loop n b = Some y \<Longrightarrow> b \<noteq> 0 \<or> n \<noteq> 0"
  by (rule boundary_loop.raw_induct[of "\<lambda>n b y. b \<noteq> 0 \<or> n \<noteq> 0"]) (auto split: if_splits)

lemma boundary_loop_empty: "boundary_loop 0 0 = None"
  using boundary_loop_result_pos[of 0 0] by (cases "boundary_loop 0 0") auto



text \<open>A write to a running stream recovers from one underrun by preparing the stream again.\<close>

lemma pcm_write_recovers:
  assumes "\<not> has_flag (pcm_flags p) PCM_IN" "running p" "xfer_bytes p n = Some m" "m \<le> length data"
    and "sys_answers k = Failed EPIPE # Done a # Done b # rest"
  shows "pcm_write data n p k = Ret (0, p\<lparr>underruns := underruns p + 1\<rparr>,
    k\<lparr>sys_answers := rest, sys_log := sys_log k @
       [IoWritei (pcm_fd p) (take m data), IoPrepare (pcm_fd p), IoWritei (pcm_fd p) (take m data)]\<rparr>)"
  using assms by (simp add: pcm_write_def pcm_write_first_def slice_def sys_def errno_of_def)

text \<open>Reading goes on after any number of overruns, as soon as the kernel has data.\<close>

lemma pcm_read_loop_overruns:
  assumes "running p" and "sys_answers k = concat (replicate j [Failed EPIPE, Done a, Done b]) @ Bytes bs # rest"
  shows "\<exists>k'. pcm_read_loop m buf p k =
    Ret (0, read_into buf m (Bytes bs), p\<lparr>underruns := underruns p + int j\<rparr>, k') \<and> sys_answers k' = rest"
  using assms
proof (induction j arbitrary: p k)
  case 0
  then show ?case
    by (simp add: pcm_read_loop.simps[of m buf p] sys_def)
next
  case (Suc j)
  let ?p = "p\<lparr>underruns := underruns p + 1\<rparr>"
  let ?k = "k\<lparr>sys_answers := concat (replicate j [Failed EPIPE, Done a, Done b]) @ Bytes bs # rest,
    sys_log := sys_log k @ [IoReadi (pcm_fd p) m, IoPrepare (pcm_fd p), IoStart (pcm_fd p)]\<rparr>"
  have same: "p\<lparr>underruns := underruns p + 1, running := True\<rparr> = ?p"
    using Suc.prems(1) by (cases p) simp
  have "pcm_read_loop m buf p k = pcm_read_loop m buf ?p ?k"
    using Suc.prems
    by (simp add: same pcm_read_loop.simps[of m buf p k] pcm_read_loop.simps[of m buf "p\<lparr>running := False, underruns := underruns p + 1\<rparr>"]
        sys_def errno_of_def)
  then show ?case
    using Suc.IH[of ?p ?k] Suc.prems by (simp add: algebra_simps)
qed

end
