(* ===== verification/Audio_Mmap.thy ===== *)
theory Audio_Mmap
  imports Audio_Pcm
begin

text \<open>
  The second half of the stream functions of \<open>upil_audio/usb_audio_pcm.c\<close>: playback through a
  buffer that is shared with the kernel.  No function of the program calls them yet.

  \<open>mapped\<close> has what the stream shares: the status page, which the kernel changes at any
  time (the \<open>n\<close>-th look at it sees \<open>hw_at n\<close>, \<open>state_at n\<close> and \<open>stamp_at n\<close>), the
  application pointer, and the bytes of the buffer.  Frame counters have 32 bits.
\<close>

section \<open>The shared pages\<close>

record mapped =
  hw_at :: "nat \<Rightarrow> 32 word"
  state_at :: "nat \<Rightarrow> int"
  stamp_at :: "nat \<Rightarrow> int \<times> int"
  looks :: nat
  appl_ptr :: "32 word"
  mmap_bytes :: "byte list"
  wait_for_avail_min :: bool

definition look :: "mapped \<Rightarrow> mapped" where
  "look m = m\<lparr>looks := looks m + 1\<rparr>"

abbreviation (input) SYNC_APPL :: int where "SYNC_APPL \<equiv> 2"
abbreviation (input) SYNC_HWSYNC :: int where "SYNC_HWSYNC \<equiv> 1"
abbreviation (input) PCM_STATE_RUNNING :: int where "PCM_STATE_RUNNING \<equiv> 3"
abbreviation (input) PCM_STATE_XRUN :: int where "PCM_STATE_XRUN \<equiv> 4"
abbreviation (input) PCM_STATE_DRAINING :: int where "PCM_STATE_DRAINING \<equiv> 5"
abbreviation (input) PCM_STATE_SUSPENDED :: int where "PCM_STATE_SUSPENDED \<equiv> 7"
abbreviation (input) PCM_STATE_DISCONNECTED :: int where "PCM_STATE_DISCONNECTED \<equiv> 8"
abbreviation (input) ESTRPIPE :: int where "ESTRPIPE \<equiv> 86"
abbreviation (input) EIO :: int where "EIO \<equiv> 5"

definition pcm_is_ready :: "pcm \<Rightarrow> bool" where
  "pcm_is_ready p \<longleftrightarrow> pcm_fd p \<ge> 0"

definition pcm_start :: "pcm \<Rightarrow> sound \<Rightarrow> (int \<times> pcm \<times> sound) run" where
  "pcm_start p k =
     run_bind (sys (IoPrepare (pcm_fd p)) k) (\<lambda>(a, k).
       if failed a then (let (r, p) = oops_pcm (errno_of a) ''cannot prepare channel'' p in Ret (r, p, k))
       else run_bind (if has_flag (pcm_flags p) PCM_MMAP then pcm_sync_ptr 0 p k else Ret (0, k)) (\<lambda>(_, k).
         run_bind (sys (IoStart (pcm_fd p)) k) (\<lambda>(b, k).
           if failed b then (let (r, p) = oops_pcm (errno_of b) ''cannot start channel'' p in Ret (r, p, k))
           else Ret (0, p\<lparr>running := True\<rparr>, k))))"

text \<open>The additions are of unsigned numbers; their result is read as an \<open>int\<close>.\<close>

definition pcm_mmap_playback_avail :: "pcm \<Rightarrow> mapped \<Rightarrow> 32 word" where
  "pcm_mmap_playback_avail p m =
     (let avail = hw_at m (looks m) + buffer_size p - appl_ptr m
      in if sint avail < 0 then avail + boundary p
         else if sint avail > sint (boundary p) then avail - boundary p
         else avail)"

definition pcm_mmap_capture_avail :: "pcm \<Rightarrow> mapped \<Rightarrow> 32 word" where
  "pcm_mmap_capture_avail p m =
     (let avail = hw_at m (looks m) - appl_ptr m
      in if sint avail < 0 then avail + boundary p else avail)"

definition pcm_mmap_avail :: "pcm \<Rightarrow> mapped \<Rightarrow> sound \<Rightarrow> (32 word \<times> mapped \<times> sound) run" where
  "pcm_mmap_avail p m k =
     run_bind (pcm_sync_ptr SYNC_HWSYNC p k) (\<lambda>(_, k).
       if \<not> mmap_status p \<or> \<not> mmap_control p then Fault
       else Ret (if has_flag (pcm_flags p) PCM_IN then pcm_mmap_capture_avail p m else pcm_mmap_playback_avail p m, look m, k))"

definition pcm_get_htimestamp :: "pcm \<Rightarrow> mapped \<Rightarrow> sound \<Rightarrow> (int \<times> (32 word \<times> (int \<times> int)) option \<times> mapped \<times> sound) run" where
  "pcm_get_htimestamp p m k =
     (if \<not> pcm_is_ready p then Ret (-1, None, m, k)
      else run_bind (pcm_sync_ptr (SYNC_APPL + SYNC_HWSYNC) p k) (\<lambda>(rc, k).
        if rc < 0 then Ret (-1, None, m, k)
        else if \<not> mmap_status p \<or> \<not> mmap_control p then Fault
        else
          let state = state_at m (looks m); tstamp = stamp_at m (looks m)
          in if state \<noteq> PCM_STATE_RUNNING \<and> state \<noteq> PCM_STATE_DRAINING then Ret (-1, None, look m, k)
             else if tstamp = (0, 0) then Ret (-1, None, look m, k)
             else
               let frames = (if has_flag (pcm_flags p) PCM_IN then hw_at m (looks m) - appl_ptr m
                             else hw_at m (looks m) + buffer_size p - appl_ptr m);
                   frames = (if sint frames < 0 then frames + boundary p
                             else if sint frames > sint (boundary p) then frames - boundary p else frames)
               in Ret (0, Some (frames, tstamp), look m, k)))"

definition pcm_mmap_appl_forward :: "pcm \<Rightarrow> 32 word \<Rightarrow> mapped \<Rightarrow> mapped" where
  "pcm_mmap_appl_forward p frames m =
     (let appl = appl_ptr m + frames
      in m\<lparr>appl_ptr := (if appl > boundary p then appl - boundary p else appl)\<rparr>)"

text \<open>The result is the offset and the number of frames.\<close>

definition pcm_mmap_begin :: "pcm \<Rightarrow> mapped \<Rightarrow> 32 word \<Rightarrow> sound \<Rightarrow> (32 word \<times> 32 word \<times> mapped \<times> sound) run" where
  "pcm_mmap_begin p m frames k =
     (if \<not> mmap_control p \<or> buffer_size p = 0 then Fault
      else
        let offset = appl_ptr m mod buffer_size p
        in run_bind (pcm_mmap_avail p m k) (\<lambda>(avail, m, k).
             let avail = (if avail > buffer_size p then buffer_size p else avail);
                 continuous = buffer_size p - offset;
                 copy_frames = (if frames > avail then avail else frames);
                 copy_frames = (if copy_frames > continuous then continuous else copy_frames)
             in Ret (offset, copy_frames, m, k)))"

definition pcm_mmap_commit :: "pcm \<Rightarrow> 32 word \<Rightarrow> mapped \<Rightarrow> sound \<Rightarrow> (int \<times> mapped \<times> sound) run" where
  "pcm_mmap_commit p frames m k =
     run_bind (pcm_sync_ptr 0 p k) (\<lambda>(_, k). Ret (sint frames, pcm_mmap_appl_forward p frames m, k))"

definition pcm_avail_update :: "pcm \<Rightarrow> mapped \<Rightarrow> sound \<Rightarrow> (32 word \<times> mapped \<times> sound) run" where
  "pcm_avail_update p m k = run_bind (pcm_sync_ptr 0 p k) (\<lambda>(_, k). pcm_mmap_avail p m k)"

definition pcm_state :: "pcm \<Rightarrow> mapped \<Rightarrow> sound \<Rightarrow> (int \<times> mapped \<times> sound) run" where
  "pcm_state p m k =
     run_bind (pcm_sync_ptr 0 p k) (\<lambda>(err, k).
       if err < 0 then Ret (err, m, k)
       else if \<not> mmap_status p then Fault
       else Ret (state_at m (looks m), look m, k))"

definition pcm_set_avail_min :: "int \<Rightarrow> pcm \<Rightarrow> int \<times> pcm" where
  "pcm_set_avail_min n p =
     (if (NOT (pcm_flags p)) AND (PCM_MMAP OR PCM_NOIRQ) \<noteq> 0 then (- 38, p)
      else (0, p\<lparr>pcm_cfg := (pcm_cfg p)\<lparr>avail_min := n\<rparr>\<rparr>))"

section \<open>Waiting\<close>

text \<open>\<open>Values [r]\<close> is a poll that returns with the events \<open>r\<close>, another answer a time-out.  The code's
  test for an interruption compares \<open>errno\<close> with a negative number and never holds.\<close>

definition poll_error :: "int \<Rightarrow> int" where
  "poll_error state =
     (if state = PCM_STATE_XRUN then - EPIPE
      else if state = PCM_STATE_SUSPENDED then - ESTRPIPE
      else if state = PCM_STATE_DISCONNECTED then - 19
      else - EIO)"

function pcm_wait :: "pcm \<Rightarrow> int \<Rightarrow> mapped \<Rightarrow> sound \<Rightarrow> (int \<times> mapped \<times> sound) run" where
  "pcm_wait p timeout m k =
     run_bind (sys (IoPoll (pcm_fd p) timeout) k) (\<lambda>(a, k).
       case a of
         Failed e \<Rightarrow> Ret (- e, m, k)
       | Values (r # _) \<Rightarrow>
           if r AND 40 \<noteq> 0 then run_bind (pcm_state p m k) (\<lambda>(state, m, k). Ret (poll_error state, m, k))
           else if r AND 5 \<noteq> 0 then Ret (1, m, k)
           else pcm_wait p timeout m k
       | _ \<Rightarrow> Ret (0, m, k))"
  by pat_completeness auto

termination
  by (relation "measure (\<lambda>(p, timeout, m, k). length (sys_answers k))") (auto dest!: sys_Ret)

declare pcm_wait.simps [simp del]

section \<open>Writing\<close>

text \<open>\<open>memcpy\<close> into the buffer; the byte counts are read as \<open>int\<close>.\<close>

definition pcm_areas_copy :: "pcm \<Rightarrow> 32 word \<Rightarrow> byte list \<Rightarrow> 32 word \<Rightarrow> 32 word \<Rightarrow> mapped \<Rightarrow> mapped option" where
  "pcm_areas_copy p pcm_offset src src_offset frames m =
     (let size_bytes = sint (pcm_frames_to_bytes p frames);
          pcm_offset_bytes = sint (pcm_frames_to_bytes p pcm_offset);
          src_offset_bytes = sint (pcm_frames_to_bytes p src_offset)
      in if \<not> mmap_buffer p \<or> size_bytes < 0 \<or> pcm_offset_bytes < 0 \<or> src_offset_bytes < 0 then None
         else do {
           bs \<leftarrow> slice src (nat src_offset_bytes) (nat size_bytes);
           buf \<leftarrow> blit (mmap_bytes m) (nat pcm_offset_bytes) bs;
           Some (m\<lparr>mmap_bytes := buf\<rparr>) })"

text \<open>The loop tries again as long as the buffer is full; \<open>None\<close> says that it never ends.\<close>

partial_function (option) pcm_mmap_write_areas ::
  "pcm \<Rightarrow> byte list \<Rightarrow> 32 word \<Rightarrow> 32 word \<Rightarrow> 32 word \<Rightarrow> mapped \<Rightarrow> sound \<Rightarrow> (int \<times> pcm \<times> mapped \<times> sound) run option" where
  "pcm_mmap_write_areas p src offset size_left count m k =
     (if size_left = 0 then Some (Ret (sint count, p, m, k))
      else case pcm_mmap_begin p m size_left k of
        Waits \<Rightarrow> Some Waits | Fault \<Rightarrow> Some Fault
      | Ret (pcm_offset, frames, m, k) \<Rightarrow>
          (case pcm_areas_copy p pcm_offset src offset frames m of
            None \<Rightarrow> Some Fault
          | Some m \<Rightarrow>
              (case pcm_mmap_commit p frames m k of
                Waits \<Rightarrow> Some Waits | Fault \<Rightarrow> Some Fault
              | Ret (commit, m, k) \<Rightarrow>
                  if commit < 0
                  then Some (Ret (commit, snd (oops_pcm commit ''failed to commit frames'' p), m, k))
                  else pcm_mmap_write_areas p src (offset + of_int commit) (size_left - of_int commit) (count + of_int commit) m k)))"

text \<open>The wait for \<open>avail_min\<close> frames; without an interrupt the time is the one in which they are
  played.\<close>

definition pcm_wait_avail :: "pcm \<Rightarrow> 32 word \<Rightarrow> mapped \<Rightarrow> sound \<Rightarrow> (int \<times> mapped \<times> sound) run" where
  "pcm_wait_avail p avail m k =
     (if has_flag (pcm_flags p) PCM_NOIRQ
      then if noirq_frames_per_msec p = 0 then Fault
           else pcm_wait p (sint (of_int (avail_min (pcm_cfg p) - sint avail) div noirq_frames_per_msec p)) m k
      else pcm_wait p (-1) m k)"

text \<open>One turn of the loop of \<open>pcm_mmap_write\<close> up to the copy: it returns, goes round again, or has
  frames to copy.\<close>

datatype write_turn = WriteReturn int | WriteAgain | WriteFrames "32 word"

definition pcm_start_if_full :: "pcm \<Rightarrow> 32 word \<Rightarrow> mapped \<Rightarrow> sound \<Rightarrow> (int option \<times> pcm \<times> mapped \<times> sound) run" where
  "pcm_start_if_full p avail m k =
     (if \<not> running p \<and> buffer_size p - avail \<ge> start_threshold (pcm_cfg p)
      then run_bind (pcm_start p k) (\<lambda>(r, p, k).
        if r < 0 then Ret (Some (- (case pcm_error p of None \<Rightarrow> 0 | Some (_, e) \<Rightarrow> e)), p, m, k)
        else Ret (None, p, m\<lparr>wait_for_avail_min := False\<rparr>, k))
      else Ret (None, p, m, k))"

definition pcm_mmap_write_turn :: "pcm \<Rightarrow> 32 word \<Rightarrow> mapped \<Rightarrow> sound \<Rightarrow> (write_turn \<times> pcm \<times> mapped \<times> sound) run" where
  "pcm_mmap_write_turn p count m k =
     run_bind (pcm_avail_update p m k) (\<lambda>(avail, m, k).
       if sint avail < 0 then Ret (WriteReturn 0, p, m, k)
       else run_bind (pcm_start_if_full p avail m k) (\<lambda>(r, p, m, k).
         case r of
           Some e \<Rightarrow> Ret (WriteReturn e, p, m, k)
         | None \<Rightarrow>
             let m = (if running p \<and> \<not> wait_for_avail_min m \<and> count > avail then m\<lparr>wait_for_avail_min := True\<rparr> else m)
             in if running p \<and> wait_for_avail_min m \<and> sint avail < avail_min (pcm_cfg p)
                then run_bind (pcm_wait_avail p avail (m\<lparr>wait_for_avail_min := False\<rparr>) k) (\<lambda>(err, m, k).
                  if err < 0
                  then Ret (WriteReturn err, snd (oops_pcm err ''wait error'' (p\<lparr>running := False\<rparr>)), m\<lparr>appl_ptr := 0\<rparr>, k)
                  else Ret (WriteAgain, p, m, k))
                else
                  let frames = (if sint count > sint avail then avail else count)
                  in if frames = 0 then Ret (WriteReturn 0, p, m, k) else Ret (WriteFrames frames, p, m, k)))"

partial_function (option) pcm_mmap_write_loop ::
  "pcm \<Rightarrow> byte list \<Rightarrow> 32 word \<Rightarrow> 32 word \<Rightarrow> mapped \<Rightarrow> sound \<Rightarrow> (int \<times> pcm \<times> mapped \<times> sound) run option" where
  "pcm_mmap_write_loop p buf offset count m k =
     (if count = 0 then Some (Ret (0, p, m, k))
      else case pcm_mmap_write_turn p count m k of
        Waits \<Rightarrow> Some Waits | Fault \<Rightarrow> Some Fault
      | Ret (t, p, m, k) \<Rightarrow>
          (case t of
            WriteReturn r \<Rightarrow> Some (Ret (r, p, m, k))
          | WriteAgain \<Rightarrow> pcm_mmap_write_loop p buf offset count m k
          | WriteFrames frames \<Rightarrow>
              Option.bind (pcm_mmap_write_areas p buf offset frames 0 m k) (\<lambda>r.
                case r of
                  Waits \<Rightarrow> Some Waits | Fault \<Rightarrow> Some Fault
                | Ret (n, p, m, k) \<Rightarrow>
                    if n < 0 then Some (Ret (n, p, m, k))
                    else pcm_mmap_write_loop p buf (offset + of_int n) (count - of_int n) m k)))"

definition pcm_mmap_write :: "pcm \<Rightarrow> byte list \<Rightarrow> 32 word \<Rightarrow> mapped \<Rightarrow> sound \<Rightarrow> (int \<times> pcm \<times> mapped \<times> sound) run option" where
  "pcm_mmap_write p buf bytes m k =
     (if bytes = 0 then Some (Ret (0, p, m, k))
      else case pcm_bytes_to_frames p bytes of
        None \<Rightarrow> Some Fault
      | Some count \<Rightarrow> pcm_mmap_write_loop p buf 0 count m k)"

section \<open>Room in the buffer\<close>

text \<open>
  The number of frames that are written and not yet played, for pointers that run up to the
  boundary and begin again behind it.
\<close>

definition filled :: "pcm \<Rightarrow> mapped \<Rightarrow> nat" where
  "filled p m =
     (if hw_at m (looks m) \<le> appl_ptr m then unat (appl_ptr m) - unat (hw_at m (looks m))
      else unat (appl_ptr m) + unat (boundary p) - unat (hw_at m (looks m)))"

text \<open>
  The room that \<open>pcm_mmap_playback_avail\<close> finds is what the unplayed frames leave of the buffer,
  with one exception: when the buffer is full and the application pointer has passed
  the boundary before the kernel's, the test for a number greater than the boundary misses
  the number that is equal to it, and the full buffer seems to have room.
\<close>

lemma mmap_playback_room:
  assumes b: "unat (boundary p) + unat (buffer_size p) < 2 ^ 31" "0 < boundary p" "buffer_size p \<le> boundary p"
    and ptrs: "appl_ptr m \<le> boundary p" "hw_at m (looks m) \<le> boundary p" and full: "filled p m \<le> unat (buffer_size p)"
  shows "unat (pcm_mmap_playback_avail p m) =
    (if filled p m = unat (buffer_size p) \<and> appl_ptr m < hw_at m (looks m) then unat (boundary p)
     else unat (buffer_size p) - filled p m)"
proof -
  define h a n B where d: "h = unat (hw_at m (looks m))" "a = unat (appl_ptr m)" "n = unat (buffer_size p)" "B = unat (boundary p)"
  let ?w = "hw_at m (looks m) + buffer_size p - appl_ptr m"
  have le: "h \<le> B" "a \<le> B" "0 < B" "B + n < 2 ^ 31" "n \<le> B"
    using b ptrs by (simp_all add: d word_le_nat_alt word_less_nat_alt)
  have room: "a \<le> h + n"
    using full le by (auto simp: filled_def d word_le_nat_alt split: if_splits)
  have sum: "unat (hw_at m (looks m) + buffer_size p) = h + n"
    using le by (simp add: d unat_word_ariths)
  then have w: "unat ?w = h + n - a"
    using room by (subst unat_sub) (simp_all add: word_le_nat_alt d)
  have small: "h + n - a < 2 ^ 31" "B < 2 ^ 31"
    using le by auto
  have sw: "sint ?w = int (h + n - a)" "sint (boundary p) = int B"
    using small w sint_small[of ?w] sint_small[of "boundary p"] by (simp_all add: d)
  have minus: "unat (?w - boundary p) = h + n - a - B" if "B < h + n - a"
    using that w by (subst unat_sub) (simp_all add: word_le_nat_alt d)
  have lt: "appl_ptr m < hw_at m (looks m) \<longleftrightarrow> a < h" "hw_at m (looks m) \<le> appl_ptr m \<longleftrightarrow> h \<le> a"
    by (simp_all add: d word_less_nat_alt word_le_nat_alt)
  show ?thesis
    using full le room w minus unfolding pcm_mmap_playback_avail_def Let_def sw filled_def lt d(2)[symmetric] d(1)[symmetric] d(3)[symmetric] d(4)[symmetric]
    by auto
qed

text \<open>The pieces that \<open>pcm_mmap_begin\<close> hands out lie inside the buffer, whatever the kernel's pointer.\<close>

lemma clip_min: "(if x > y then y else x) = min x y" for x y :: "32 word"
  by (auto simp: min_def not_less)

lemma mmap_begin_inside:
  assumes "pcm_mmap_begin p m frames k = Ret (offset, n, m', k')"
  shows "unat offset + unat n \<le> unat (buffer_size p)" "n \<le> frames" "mmap_bytes m' = mmap_bytes m" "appl_ptr m' = appl_ptr m"
proof -
  have size: "buffer_size p \<noteq> 0" and ctl: "mmap_control p"
    using assms by (simp_all add: pcm_mmap_begin_def split: if_split_asm)
  from assms obtain avail where av: "pcm_mmap_avail p m k = Ret (avail, m', k')" and off: "offset = appl_ptr m mod buffer_size p"
    and "n = min (min frames (min avail (buffer_size p))) (buffer_size p - offset)"
    unfolding pcm_mmap_begin_def Let_def clip_min by (auto simp: size ctl run_bind_Ret)
  then have n: "n \<le> buffer_size p - offset" "n \<le> frames"
    by (simp_all add: min.coboundedI1)
  have m: "mmap_bytes m' = mmap_bytes m" "appl_ptr m' = appl_ptr m"
    using av unfolding pcm_mmap_avail_def by (auto simp: run_bind_Ret look_def split: if_split_asm)
  have pos: "0 < buffer_size p"
    using size by (simp add: word_neq_0_conv)
  have "offset \<le> buffer_size p"
    using pos unfolding off by (simp add: word_le_nat_alt unat_mod word_less_nat_alt less_imp_le)
  then show "unat offset + unat n \<le> unat (buffer_size p)"
    using n(1) by (simp add: word_le_nat_alt unat_sub)
  show "n \<le> frames" "mmap_bytes m' = mmap_bytes m" "appl_ptr m' = appl_ptr m"
    by fact+
qed

section \<open>The buffer is a ring\<close>

text \<open>
  A stream with a mapped buffer for playback, on pages that are shared without calls of the
  kernel.  The boundary is a multiple of the buffer size, as \<open>pcm_open\<close> finds it.
\<close>

definition mapped_stream :: "pcm \<Rightarrow> bool" where
  "mapped_stream p \<longleftrightarrow> mmap_status p \<and> mmap_control p \<and> mmap_buffer p \<and> \<not> sync_ptr p \<and> \<not> has_flag (pcm_flags p) PCM_IN \<and>
     0 < unat (buffer_size p) \<and> unat (buffer_size p) < unat (boundary p) \<and> unat (buffer_size p) dvd unat (boundary p) \<and>
     unat (boundary p) + unat (buffer_size p) < 2 ^ 31 \<and>
     0 < unat (frame_bytes p) \<and> unat (buffer_size p) * unat (frame_bytes p) < 2 ^ 31"

definition mapped_ok :: "pcm \<Rightarrow> mapped \<Rightarrow> bool" where
  "mapped_ok p m \<longleftrightarrow> appl_ptr m \<le> boundary p \<and> hw_at m (looks m) \<le> boundary p \<and> (\<forall>n. hw_at m n = hw_at m (looks m)) \<and>
     length (mmap_bytes m) = unat (buffer_size p) * unat (frame_bytes p) \<and> filled p m \<le> unat (buffer_size p)"

text \<open>The place in the buffer at which the application goes on, and the buffer from there on.\<close>

definition place :: "pcm \<Rightarrow> mapped \<Rightarrow> nat" where
  "place p m = unat (appl_ptr m) mod unat (buffer_size p)"

definition from_place :: "pcm \<Rightarrow> mapped \<Rightarrow> byte list" where
  "from_place p m = rotate (place p m * unat (frame_bytes p)) (mmap_bytes m)"

lemma frames_bytes:
  assumes "unat f * unat (frame_bytes p) < 2 ^ 31"
  shows "sint (pcm_frames_to_bytes p f) = int (unat f * unat (frame_bytes p))"
proof -
  have "pcm_frames_to_bytes p f = f * frame_bytes p"
    by (simp add: pcm_frames_to_bytes_def frame_bytes_def mult.assoc)
  moreover have "unat (f * frame_bytes p) = unat f * unat (frame_bytes p)"
    using assms by (simp add: unat_word_ariths)
  ultimately show ?thesis
    using assms sint_small[of "pcm_frames_to_bytes p f"] by simp
qed

lemma forward_filled:
  assumes p: "mapped_stream p" and m: "mapped_ok p m" and c: "filled p m + unat c \<le> unat (buffer_size p)"
  shows "mapped_ok p (pcm_mmap_appl_forward p c (look m))" "filled p (pcm_mmap_appl_forward p c (look m)) = filled p m + unat c"
    "place p (pcm_mmap_appl_forward p c (look m)) = (place p m + unat c) mod unat (buffer_size p)"
    "mmap_bytes (pcm_mmap_appl_forward p c (look m)) = mmap_bytes m"
proof -
  define h a n B where d: "h = unat (hw_at m (looks m))" "a = unat (appl_ptr m)" "n = unat (buffer_size p)" "B = unat (boundary p)"
  let ?m = "pcm_mmap_appl_forward p c (look m)"
  have pb: "0 < n" "n < B" "n dvd B" "B + n < 2 ^ 31"
    using p by (simp_all add: mapped_stream_def d)
  have le: "a \<le> B" "h \<le> B" and hw: "hw_at m k = hw_at m (looks m)" for k
    using m by (auto simp: mapped_ok_def d word_le_nat_alt)
  have lt: "(hw_at m (looks m) \<le> appl_ptr m) = (h \<le> a)"
    by (simp add: d word_le_nat_alt)
  have fl: "filled p m = (if h \<le> a then a - h else a + B - h)"
    unfolding filled_def lt d ..
  have cn: "unat c \<le> n"
    using c by (simp add: d)
  have sum: "unat (appl_ptr m + c) = a + unat c"
    using le cn pb by (simp add: d unat_word_ariths)
  have gt: "(appl_ptr m + c > boundary p) = (B < a + unat c)"
    unfolding word_less_nat_alt sum by (simp add: d)
  have minus: "unat (appl_ptr m + c - boundary p) = a + unat c - B" if "B < a + unat c"
    using that sum by (subst unat_sub) (simp_all add: word_le_nat_alt d)
  have a': "unat (appl_ptr ?m) = (if B < a + unat c then a + unat c - B else a + unat c)"
    unfolding pcm_mmap_appl_forward_def Let_def look_def gt[unfolded look_def] using sum minus by (simp add: gt)
  have h': "hw_at ?m (looks ?m) = hw_at m (looks m)"
    unfolding pcm_mmap_appl_forward_def Let_def look_def using hw by simp
  have hw': "hw_at ?m j = hw_at ?m (looks ?m)" for j
    unfolding pcm_mmap_appl_forward_def Let_def look_def by simp (metis hw)
  have lt': "(hw_at m (looks m) \<le> appl_ptr ?m) = (h \<le> unat (appl_ptr ?m))"
    by (simp add: d word_le_nat_alt)
  have "filled p ?m = (if h \<le> unat (appl_ptr ?m) then unat (appl_ptr ?m) - h else unat (appl_ptr ?m) + B - h)"
    unfolding filled_def h' lt' d ..
  then show fl': "filled p ?m = filled p m + unat c"
    using c le pb unfolding fl a' d(3)[symmetric] by (auto split: if_splits)
  show bytes: "mmap_bytes ?m = mmap_bytes m"
    by (simp add: pcm_mmap_appl_forward_def Let_def look_def)
  have "appl_ptr ?m \<le> boundary p"
    unfolding word_le_nat_alt a' using le pb cn by (auto simp: d)
  then show "mapped_ok p ?m"
    using m fl' c bytes h' hw' unfolding mapped_ok_def by auto
  have "(a + unat c - B) mod n = (a + unat c) mod n" if "B < a + unat c"
    using that pb(3) by (metis less_imp_le_nat mod_less_eq_dividend le_mod_geq mod_mult_self2 dvdE le_add_diff_inverse2)
  then show "place p ?m = (place p m + unat c) mod unat (buffer_size p)"
    unfolding place_def a' d(2)[symmetric] d(3)[symmetric] by (simp add: mod_add_left_eq)
qed

text \<open>One turn of the copying loop takes what fits up to the end of the buffer.\<close>

lemma rotate_blit:
  assumes "length xs = n * f" "k + c \<le> n" "length ys = c * f"
  shows "rotate (((k + c) mod n) * f) (take (k * f) xs @ ys @ drop (k * f + c * f) xs) = drop (c * f) (rotate (k * f) xs) @ ys"
proof -
  have le: "k * f + c * f \<le> n * f"
    using mult_le_mono1[OF assms(2), of f] by (simp add: add_mult_distrib)
  let ?l = "take (k * f) xs @ ys @ drop (k * f + c * f) xs"
  have len: "length ?l = n * f" "length (take (k * f) xs @ ys) = (k + c) * f" "length (take (k * f) xs) = k * f"
    using assms le by (simp_all add: add_mult_distrib)
  have rot: "rotate (k * f) xs = drop (k * f) xs @ take (k * f) xs"
    using rotate_append[of "take (k * f) xs" "drop (k * f) xs"] unfolding len(3) by simp
  have "rotate (((k + c) mod n) * f) ?l = rotate ((k + c) * f) ?l"
    by (metis len(1) mult_mod_left rotate_conv_mod)
  also have "\<dots> = drop (k * f + c * f) xs @ take (k * f) xs @ ys"
    using rotate_append[of "take (k * f) xs @ ys" "drop (k * f + c * f) xs"] unfolding len(2) by simp
  also have "\<dots> = drop (c * f) (rotate (k * f) xs) @ ys"
    unfolding rot using assms(1) le by (simp add: add.commute)
  finally show ?thesis .
qed

lemma mapped_stream_sync:
  assumes "mapped_stream p"
  shows "pcm_sync_ptr flags p k = Ret (0, k)" "pcm_mmap_avail p m k = Ret (pcm_mmap_playback_avail p m, look m, k)"
    "pcm_mmap_commit p c m k = Ret (sint c, pcm_mmap_appl_forward p c m, k)"
  using assms by (simp_all add: mapped_stream_def pcm_sync_ptr_def pcm_mmap_avail_def pcm_mmap_commit_def)

lemma mapped_room:
  assumes p: "mapped_stream p" and m: "mapped_ok p m" and s: "filled p m < unat (buffer_size p)"
  shows "unat (pcm_mmap_playback_avail p m) = unat (buffer_size p) - filled p m"
  using mmap_playback_room[of p m] assms by (simp add: mapped_stream_def mapped_ok_def word_less_nat_alt word_le_nat_alt)

lemma mapped_begin:
  assumes p: "mapped_stream p" and m: "mapped_ok p m" and s: "filled p m + unat s \<le> unat (buffer_size p)" "s \<noteq> 0"
  obtains c where "pcm_mmap_begin p m s k = Ret (appl_ptr m mod buffer_size p, c, look m, k)"
    "c \<noteq> 0" "c \<le> s" "place p m + unat c \<le> unat (buffer_size p)"
proof -
  define N where "N = buffer_size p"
  define q where "q = appl_ptr m mod N"
  define c where "c = min s (N - q)"
  have pos: "0 < N"
    using p by (simp add: mapped_stream_def N_def word_less_nat_alt)
  have s0: "0 < unat s"
    using s(2) by (simp add: unat_gt_0)
  have q: "unat q = place p m" "q < N"
    using pos by (simp_all add: q_def place_def N_def unat_mod word_less_nat_alt)
  have "unat (pcm_mmap_playback_avail p m) = unat N - filled p m"
    using mapped_room[OF p m] s s0 by (simp add: N_def)
  then have "s \<le> pcm_mmap_playback_avail p m" "pcm_mmap_playback_avail p m \<le> N"
    using s(1) by (simp_all add: word_le_nat_alt N_def)
  then have c: "min (min s (min (pcm_mmap_playback_avail p m) N)) (N - q) = c"
    by (simp add: c_def min_def)
  have "pcm_mmap_begin p m s k = Ret (q, c, look m, k)"
    using p pos unfolding pcm_mmap_begin_def Let_def mapped_stream_sync[OF p] run_bind.simps clip_min N_def[symmetric] q_def[symmetric]
    by (simp add: mapped_stream_def clip_min c)
  moreover have "c \<noteq> 0"
    using s(2) q(2) unfolding c_def by (auto simp: min_def)
  moreover have "place p m + unat c \<le> unat N"
  proof -
    have "unat c \<le> unat (N - q)"
      unfolding c_def word_le_nat_alt[symmetric] by simp
    then show ?thesis
      using q by (simp add: unat_sub less_imp_le word_less_nat_alt)
  qed
  ultimately show thesis
    using that[of c] by (simp add: c_def N_def q_def)
qed

lemma frames_below: "a \<le> b \<Longrightarrow> b * f < 2 ^ 31 \<Longrightarrow> a * f < (2 :: nat) ^ 31"
  by (rule le_less_trans[OF mult_le_mono1])

lemma mapped_copy:
  assumes p: "mapped_stream p" and m: "mapped_ok p m" and c: "place p m + unat c \<le> unat (buffer_size p)"
    and src: "(unat off + unat c) * unat (frame_bytes p) \<le> length src" "length src < 2 ^ 31"
  shows "pcm_areas_copy p (appl_ptr m mod buffer_size p) src off c (look m) =
    Some (look m\<lparr>mmap_bytes := take (place p m * unat (frame_bytes p)) (mmap_bytes m)
        @ take (unat c * unat (frame_bytes p)) (drop (unat off * unat (frame_bytes p)) src)
        @ drop (place p m * unat (frame_bytes p) + unat c * unat (frame_bytes p)) (mmap_bytes m)\<rparr>)"
proof -
  define f where "f = unat (frame_bytes p)"
  have q: "unat (appl_ptr m mod buffer_size p) = place p m"
    by (simp add: place_def unat_mod)
  have N: "unat (buffer_size p) * f < 2 ^ 31" "mmap_buffer p"
    using p by (simp_all add: mapped_stream_def f_def)
  have src': "(unat off + unat c) * f < 2 ^ 31"
    using src by (simp add: f_def)
  have lens: "unat c * f < 2 ^ 31" "unat off * f < 2 ^ 31" "place p m * f < 2 ^ 31"
    using frames_below[OF _ N(1), of "place p m"] frames_below[OF _ src', of "unat c"] frames_below[OF _ src', of "unat off"] c by auto
  have "(place p m + unat c) * f \<le> length (mmap_bytes m)"
    using m mult_le_mono1[OF c, of f] by (simp add: mapped_ok_def f_def)
  then show ?thesis
    using N(2) lens src frames_bytes[of c p] frames_bytes[of off p] frames_bytes[of "appl_ptr m mod buffer_size p" p]
    unfolding pcm_areas_copy_def Let_def q f_def[symmetric]
    by (simp add: slice_def blit_def look_def add_mult_distrib nat_mult_distrib not_less)
qed

lemma mapped_write_areas_turn:
  assumes p: "mapped_stream p" and m: "mapped_ok p m" and s: "filled p m + unat s \<le> unat (buffer_size p)" "s \<noteq> 0"
    and src: "(unat off + unat s) * unat (frame_bytes p) \<le> length src" "length src < 2 ^ 31"
  obtains c m' where "c \<noteq> 0" "c \<le> s"
    "pcm_mmap_write_areas p src off s n m k = pcm_mmap_write_areas p src (off + c) (s - c) (n + c) m' k"
    "mapped_ok p m'" "filled p m' = filled p m + unat c" "wait_for_avail_min m' = wait_for_avail_min m"
    "from_place p m' = drop (unat c * unat (frame_bytes p)) (from_place p m)
      @ take (unat c * unat (frame_bytes p)) (drop (unat off * unat (frame_bytes p)) src)"
proof -
  define f where "f = unat (frame_bytes p)"
  from mapped_begin[OF p m s] obtain c where b: "pcm_mmap_begin p m s k = Ret (appl_ptr m mod buffer_size p, c, look m, k)"
    and c: "c \<noteq> 0" "c \<le> s" "place p m + unat c \<le> unat (buffer_size p)"
    by blast
  have uc: "unat c \<le> unat s"
    using c(2) by (simp add: word_le_nat_alt)
  define new where "new = take (unat c * f) (drop (unat off * f) src)"
  define m1 where "m1 = m\<lparr>mmap_bytes := take (place p m * f) (mmap_bytes m) @ new @ drop (place p m * f + unat c * f) (mmap_bytes m)\<rparr>"
  have src': "(unat off + unat c) * f \<le> length src"
    using src(1) uc unfolding f_def by (meson add_left_mono mult_le_mono1 order_trans)
  have lm: "length (mmap_bytes m) = unat (buffer_size p) * f"
    using m by (simp add: mapped_ok_def f_def)
  have ln: "length new = unat c * f"
    using src' by (simp add: new_def add_mult_distrib)
  have copy: "pcm_areas_copy p (appl_ptr m mod buffer_size p) src off c (look m) = Some (look m1)"
    using mapped_copy[OF p m c(3) src'[unfolded f_def] src(2)] by (simp add: m1_def new_def f_def look_def)
  have "place p m * f + unat c * f \<le> unat (buffer_size p) * f"
    using mult_le_mono1[OF c(3), of f] by (simp add: add_mult_distrib)
  then have "length (mmap_bytes m1) = length (mmap_bytes m)"
    by (simp add: m1_def lm ln)
  moreover have fl: "filled p m1 = filled p m" "place p m1 = place p m"
    by (simp_all add: filled_def m1_def place_def)
  ultimately have ok: "mapped_ok p m1"
    using m by (simp add: mapped_ok_def) (simp add: m1_def)
  let ?m = "pcm_mmap_appl_forward p c (look m1)"
  have "filled p m1 + unat c \<le> unat (buffer_size p)"
    using s(1) uc by (simp add: fl)
  note fwd = forward_filled[OF p ok this]
  have "unat c < 2 ^ 31"
    using c(3) p by (simp add: mapped_stream_def)
  then have ci: "of_int (sint c) = c" "\<not> sint c < 0"
    using sint_small[of c] by simp_all
  have "pcm_mmap_write_areas p src off s n m k = pcm_mmap_write_areas p src (off + c) (s - c) (n + c) ?m k"
    using s(2) ci by (subst pcm_mmap_write_areas.simps) (simp add: b copy mapped_stream_sync(3)[OF p])
  moreover have "from_place p ?m = drop (unat c * f) (from_place p m) @ new"
    unfolding from_place_def fwd fl f_def[symmetric] using rotate_blit[OF lm c(3) ln] by (simp add: m1_def)
  moreover have "wait_for_avail_min ?m = wait_for_avail_min m"
    by (simp add: pcm_mmap_appl_forward_def Let_def look_def m1_def)
  ultimately show thesis
    using that[OF c(1,2)] fwd(1,2) fl by (simp add: f_def new_def)
qed

text \<open>The copying loop ends when the frames fit.\<close>

lemma shift_twice:
  assumes "a + b \<le> length xs"
  shows "drop b (drop a xs @ take a ys) @ take b (drop a ys) = drop (a + b) xs @ take (a + b) ys"
  using assms by (simp add: take_add add.commute)

lemma mapped_write_areas:
  assumes "mapped_stream p" "mapped_ok p m" "filled p m + unat s \<le> unat (buffer_size p)"
    "(unat off + unat s) * unat (frame_bytes p) \<le> length src" "length src < 2 ^ 31"
  shows "\<exists>m'. pcm_mmap_write_areas p src off s n m k = Some (Ret (sint (n + s), p, m', k)) \<and> mapped_ok p m' \<and>
    filled p m' = filled p m + unat s \<and> wait_for_avail_min m' = wait_for_avail_min m \<and>
    from_place p m' = drop (unat s * unat (frame_bytes p)) (from_place p m)
      @ take (unat s * unat (frame_bytes p)) (drop (unat off * unat (frame_bytes p)) src)"
  using assms
proof (induction "unat s" arbitrary: s off n m rule: less_induct)
  case less
  show ?case
  proof (cases "s = 0")
    case True
    then show ?thesis
      using less.prems by (subst pcm_mmap_write_areas.simps) simp
  next
    case False
    define f where "f = unat (frame_bytes p)"
    obtain c m' where c: "c \<noteq> 0" "c \<le> s" and turn:
      "pcm_mmap_write_areas p src off s n m k = pcm_mmap_write_areas p src (off + c) (s - c) (n + c) m' k"
      and m': "mapped_ok p m'" "filled p m' = filled p m + unat c" "wait_for_avail_min m' = wait_for_avail_min m"
      "from_place p m' = drop (unat c * f) (from_place p m) @ take (unat c * f) (drop (unat off * f) src)"
      using mapped_write_areas_turn[OF less.prems(1,2,3) False less.prems(4,5), of n k] unfolding f_def by blast
    have rest: "unat (s - c) = unat s - unat c" "unat c \<le> unat s" "0 < unat c"
      using c by (simp_all add: unat_sub word_le_nat_alt unat_gt_0)
    have "0 < f"
      using less.prems(1) by (simp add: mapped_stream_def f_def)
    then have "unat off + unat s < 2 ^ 31"
      using frames_less[of "unat off + unat s" f] less.prems(4,5) by (simp add: f_def)
    then have off: "unat (off + c) = unat off + unat c"
      using rest by (simp add: unat_word_ariths)
    have "(unat (off + c) + unat (s - c)) * f \<le> length src" "filled p m' + unat (s - c) \<le> unat (buffer_size p)"
      using less.prems(3,4) rest by (simp_all add: off m' f_def)
    from less.hyps[OF _ less.prems(1) m'(1) this(2,1)[unfolded f_def] less.prems(5), of "n + c"] rest obtain m'' where m'':
      "pcm_mmap_write_areas p src (off + c) (s - c) (n + c) m' k = Some (Ret (sint (n + s), p, m'', k))" "mapped_ok p m''"
      "filled p m'' = filled p m' + unat (s - c)" "wait_for_avail_min m'' = wait_for_avail_min m'"
      "from_place p m'' = drop (unat (s - c) * f) (from_place p m') @ take (unat (s - c) * f) (drop (unat (off + c) * f) src)"
      unfolding f_def by auto
    have "unat s * f \<le> length (from_place p m)"
      using less.prems(2,3) by (simp add: from_place_def mapped_ok_def f_def)
    moreover have tot: "unat c * f + unat (s - c) * f = unat s * f"
      using rest by (simp add: add_mult_distrib[symmetric])
    ultimately have len: "unat c * f + unat (s - c) * f \<le> length (from_place p m)"
      by simp
    have eq: "drop (unat (off + c) * f) src = drop (unat c * f) (drop (unat off * f) src)"
      unfolding off by (simp add: add_mult_distrib add.commute)
    have "from_place p m'' = drop (unat s * f) (from_place p m) @ take (unat s * f) (drop (unat off * f) src)"
      unfolding m''(5) m'(4) eq tot[symmetric] by (rule shift_twice[OF len])
    then show ?thesis
      using turn m'' m' rest by (auto simp: f_def)
  qed
qed

lemma look_mapped:
  assumes "mapped_ok p m"
  shows "mapped_ok p (look m)" "filled p (look m) = filled p m" "from_place p (look m) = from_place p m"
    "wait_for_avail_min (look m) = wait_for_avail_min m"
proof -
  have hw: "hw_at m k = hw_at m (looks m)" for k
    using assms by (simp add: mapped_ok_def)
  then have h: "hw_at (look m) j = hw_at m (looks m)" for j
    by (simp add: look_def)
  show f: "filled p (look m) = filled p m"
    unfolding filled_def h by (simp add: look_def)
  show "mapped_ok p (look m)"
    using assms unfolding mapped_ok_def f h by (simp add: look_def)
  show "from_place p (look m) = from_place p m" "wait_for_avail_min (look m) = wait_for_avail_min m"
    by (simp_all add: from_place_def place_def look_def)
qed

text \<open>With room for all frames a running stream neither waits nor starts.\<close>

lemma mapped_write_turn:
  assumes p: "mapped_stream p" "running p" and m: "mapped_ok p m" "\<not> wait_for_avail_min m"
    and c: "filled p m + unat c \<le> unat (buffer_size p)" "c \<noteq> 0"
  shows "pcm_mmap_write_turn p c m k = Ret (WriteFrames c, p, look m, k)"
proof -
  have "0 < unat c"
    using c(2) by (simp add: unat_gt_0)
  then have av: "unat (pcm_mmap_playback_avail p m) = unat (buffer_size p) - filled p m"
    using mapped_room[OF p(1) m(1)] c(1) by simp
  then have le: "c \<le> pcm_mmap_playback_avail p m"
    using c(1) by (simp add: word_le_nat_alt)
  have "unat (buffer_size p) < 2 ^ 31"
    using p(1) by (simp add: mapped_stream_def)
  then have "sint (pcm_mmap_playback_avail p m) = int (unat (buffer_size p) - filled p m)" "sint c = int (unat c)"
    using c(1) av sint_small[of c] sint_small[of "pcm_mmap_playback_avail p m"] by simp_all
  then have "\<not> sint (pcm_mmap_playback_avail p m) < 0" "\<not> sint c > sint (pcm_mmap_playback_avail p m)"
    using c(1) by linarith+
  then show ?thesis
    using p m c(2) le unfolding pcm_mmap_write_turn_def pcm_avail_update_def mapped_stream_sync[OF p(1)] pcm_start_if_full_def
    by (simp add: look_mapped(4)[OF m(1)] Let_def leD)
qed

lemma mapped_bytes_to_frames:
  assumes "mapped_stream p" "unat c * unat (frame_bytes p) < 2 ^ 31"
  shows "pcm_bytes_to_frames p (pcm_frames_to_bytes p c) = Some c" "pcm_frames_to_bytes p c = 0 \<longleftrightarrow> c = 0"
proof -
  have b: "pcm_frames_to_bytes p c = c * frame_bytes p"
    by (simp add: pcm_frames_to_bytes_def frame_bytes_def mult.assoc)
  have u: "unat (c * frame_bytes p) = unat c * unat (frame_bytes p)"
    using assms(2) by (simp add: unat_word_ariths)
  have f: "0 < unat (frame_bytes p)"
    using assms(1) by (simp add: mapped_stream_def)
  then have nz: "frame_bytes p \<noteq> 0"
    by (simp add: unat_gt_0)
  have "unat (c * frame_bytes p div frame_bytes p) = unat c"
    unfolding unat_div u using f by simp
  then have "c * frame_bytes p div frame_bytes p = c"
    by (simp only: word_unat_eq_iff)
  then show "pcm_bytes_to_frames p (pcm_frames_to_bytes p c) = Some c"
    by (simp add: pcm_bytes_to_frames_def b nz)
  show "pcm_frames_to_bytes p c = 0 \<longleftrightarrow> c = 0"
    using f unfolding b word_unat_eq_iff u by simp
qed


text \<open>A buffer of four frames of two bytes whose application pointer is one frame before its end: three
  frames are cut in two.\<close>

definition ring_pcm :: pcm where
  "ring_pcm = zero_pcm\<lparr>running := True, buffer_size := 4, boundary := 8, mmap_status := True, mmap_control := True,
     mmap_buffer := True, pcm_cfg := zero_config\<lparr>cfg_channels := 1\<rparr>\<rparr>"

definition ring_mapped :: mapped where
  "ring_mapped = \<lparr>hw_at = \<lambda>_. 7, state_at = \<lambda>_. 3, stamp_at = \<lambda>_. (0, 0), looks = 0, appl_ptr = 7,
     mmap_bytes = [0, 0, 0, 0, 0, 0, 0, 0], wait_for_avail_min = False\<rparr>"

lemma ring_example:
  "mapped_stream ring_pcm" "running ring_pcm" "mapped_ok ring_pcm ring_mapped" "\<not> wait_for_avail_min ring_mapped"
  "filled ring_pcm ring_mapped = 0" "frame_bytes ring_pcm = 2" "buffer_size ring_pcm = 4" "from_place ring_pcm ring_mapped = [0, 0, 0, 0, 0, 0, 0, 0]"
proof -
  have f: "frame_bytes ring_pcm = 2"
    by (simp add: frame_bytes_def ring_pcm_def zero_config_def pcm_format_to_bits_def drop_bit_eq_div)
  then show "mapped_stream ring_pcm" "frame_bytes ring_pcm = 2"
    by (simp_all add: mapped_stream_def) (simp_all add: ring_pcm_def zero_pcm_def pcm_flag_defs)
  show fl: "filled ring_pcm ring_mapped = 0"
    by (simp add: filled_def ring_mapped_def)
  show "mapped_ok ring_pcm ring_mapped"
    unfolding mapped_ok_def fl f by (simp add: ring_pcm_def ring_mapped_def)
  show "from_place ring_pcm ring_mapped = [0, 0, 0, 0, 0, 0, 0, 0]"
    unfolding from_place_def f by (simp add: place_def ring_mapped_def ring_pcm_def rotate_drop_take)
  show "running ring_pcm" "\<not> wait_for_avail_min ring_mapped" "buffer_size ring_pcm = 4"
    by (simp_all add: ring_pcm_def ring_mapped_def)
qed


end
