(* ===== verification/Audio_Mixer.thy ===== *)
theory Audio_Mixer
  imports Audio_Pcm C_Strings "HOL-Library.Signed_Division"
begin

text \<open>
  The mixer of a sound card, \<open>upil_audio/mixer.c\<close>: the list of its controls, and reading
  and writing their values.  A control is handed out as its record, with the descriptor of
  its mixer; a null control is \<open>None\<close>.
\<close>

section \<open>Opening and closing\<close>

record mixer_ctl =
  ctl_fd :: int
  ctl_info :: elem_info
  ename :: "byte list list option"

text \<open>\<open>ctl\<close> has the controls that were filled in; \<open>allocated\<close> says which of the mixer's two
  arrays exist.\<close>

record mixer =
  mixer_fd :: int
  mixer_count :: nat
  ctl :: "mixer_ctl list"
  ctl_array :: bool
  info_array :: bool

definition note_calls :: "nat \<Rightarrow> sys_call \<Rightarrow> sound \<Rightarrow> sound" where
  "note_calls n r k = k\<lparr>sys_log := sys_log k @ replicate n r\<rparr>"

definition free_ctl :: "mixer_ctl \<Rightarrow> sound \<Rightarrow> sound" where
  "free_ctl c k = (case ename c of None \<Rightarrow> k | Some _ \<Rightarrow> note_calls (items (ctl_info c) + 1) SysFree k)"

definition mixer_close :: "mixer option \<Rightarrow> sound \<Rightarrow> sound" where
  "mixer_close mx k =
     (case mx of
        None \<Rightarrow> k
      | Some m \<Rightarrow>
          let k = (if mixer_fd m \<ge> 0 then note_call (SysClose (mixer_fd m)) k else k);
              k = (if ctl_array m then note_call SysFree (fold free_ctl (ctl m) k) else k);
              k = (if info_array m then note_call SysFree k else k)
          in note_call SysFree k)"

text \<open>The names of the items of an enumeration, from the item \<open>m\<close> on; the flag says whether
  all of them were read.\<close>

fun read_enames :: "int \<Rightarrow> nat \<Rightarrow> nat \<Rightarrow> byte list list \<Rightarrow> sound \<Rightarrow> (bool \<times> byte list list \<times> sound) run" where
  "read_enames fd i 0 ns k = Ret (True, ns, k)"
| "read_enames fd i (Suc m) ns k =
     run_bind (sys (IoElemInfo fd i) k) (\<lambda>(a, k).
       if failed a then Ret (False, ns, k)
       else run_bind (sys SysCalloc k) (\<lambda>(b, k).
         if failed b then Ret (False, ns, k)
         else read_enames fd i m (ns @ [case a of ElemInfo e \<Rightarrow> c_string (item_name e) | _ \<Rightarrow> []]) k))"

definition info_answer :: "nat \<Rightarrow> sys_answer \<Rightarrow> elem_info" where
  "info_answer i a =
     (case a of ElemInfo e \<Rightarrow> e\<lparr>numid := i\<rparr>
      | _ \<Rightarrow> \<lparr>numid = i, elem_name = [], etype = ELEM_OTHER, value_count = 0, int_min = 0, int_max = 0,
              items = 0, item_name = []\<rparr>)"

fun read_ctls :: "int \<Rightarrow> nat list \<Rightarrow> mixer_ctl list \<Rightarrow> sound \<Rightarrow> (bool \<times> mixer_ctl list \<times> sound) run" where
  "read_ctls fd [] cs k = Ret (True, cs, k)"
| "read_ctls fd (i # is) cs k =
     run_bind (sys (IoElemInfo fd i) k) (\<lambda>(a, k).
       if failed a then Ret (False, cs, k)
       else
         let ei = info_answer i a
         in if etype ei = ELEM_ENUMERATED
            then run_bind (sys SysCalloc k) (\<lambda>(b, k).
              if failed b then Ret (False, cs @ [\<lparr>ctl_fd = fd, ctl_info = ei, ename = None\<rparr>], k)
              else run_bind (read_enames fd i (items ei) [] k) (\<lambda>(ok, ns, k).
                let cs = cs @ [\<lparr>ctl_fd = fd, ctl_info = ei, ename = Some ns\<rparr>]
                in if ok then read_ctls fd is cs k else Ret (False, cs, k)))
            else read_ctls fd is (cs @ [\<lparr>ctl_fd = fd, ctl_info = ei, ename = None\<rparr>]) k)"

text \<open>The label \<open>fail\<close>: \<open>eid\<close> says whether the list of identifiers was allocated.\<close>

definition mixer_fail :: "bool \<Rightarrow> mixer option \<Rightarrow> int \<Rightarrow> sound \<Rightarrow> sound" where
  "mixer_fail eid mx fd k =
     (let k = (if eid then note_call SysFree k else k)
      in if mx \<noteq> None then mixer_close mx k
         else if fd \<ge> 0 then note_call (SysClose fd) k else k)"

definition elem_ids :: "sys_answer \<Rightarrow> nat list" where
  "elem_ids a = (case a of Elems is \<Rightarrow> is | _ \<Rightarrow> [])"

text \<open>The part of \<open>mixer_open\<close> behind the allocation of the mixer; \<open>n\<close> is \<open>elist.count\<close>.\<close>

definition mixer_fill :: "int \<Rightarrow> nat \<Rightarrow> sound \<Rightarrow> (mixer option \<times> sound) run" where
  "mixer_fill fd n k =
     run_bind (sys SysCalloc k) (\<lambda>(a, k). run_bind (sys SysCalloc k) (\<lambda>(b, k).
       let m = \<lparr>mixer_fd = 0, mixer_count = 0, ctl = [], ctl_array = \<not> failed a, info_array = \<not> failed b\<rparr>
       in if failed a \<or> failed b then Ret (None, mixer_fail False (Some m) fd k)
          else run_bind (sys SysCalloc k) (\<lambda>(c, k).
            if failed c then Ret (None, mixer_fail False (Some m) fd k)
            else
              let m = m\<lparr>mixer_count := n, mixer_fd := fd\<rparr>
              in run_bind (sys (IoElemList fd) k) (\<lambda>(d, k).
                   if failed d then Ret (None, mixer_fail True (Some m) fd k)
                   else run_bind (read_ctls fd (take n (elem_ids d @ replicate n 0)) [] k) (\<lambda>(ok, cs, k).
                     let m = m\<lparr>ctl := cs\<rparr>
                     in if ok then Ret (Some m, note_call SysFree k)
                        else Ret (None, mixer_fail True (Some m) fd k))))))"

definition mixer_open :: "32 word \<Rightarrow> sound \<Rightarrow> (mixer option \<times> sound) run" where
  "mixer_open crd k =
     run_bind (sys (SysOpen (str ''/dev/snd/controlC'' @ dec_nat (unat crd))) k) (\<lambda>(a, k).
       case a of
         Done fd \<Rightarrow>
           if fd < 0 then Ret (None, k)
           else run_bind (sys (IoElemList fd) k) (\<lambda>(b, k).
             if failed b then Ret (None, mixer_fail False None fd k)
             else run_bind (sys SysCalloc k) (\<lambda>(c, k).
               if failed c then Ret (None, mixer_fail False None fd k)
               else mixer_fill fd (length (elem_ids b)) k))
       | _ \<Rightarrow> Ret (None, k))"

section \<open>Controls\<close>

definition mixer_get_num_ctls :: "mixer option \<Rightarrow> nat" where
  "mixer_get_num_ctls mx = (case mx of None \<Rightarrow> 0 | Some m \<Rightarrow> mixer_count m)"

definition mixer_get_ctl :: "mixer option \<Rightarrow> nat \<Rightarrow> mixer_ctl option" where
  "mixer_get_ctl mx i =
     (case mx of None \<Rightarrow> None | Some m \<Rightarrow> if i < mixer_count m then nth_opt (ctl m) i else None)"

definition mixer_get_ctl_by_name :: "mixer option \<Rightarrow> byte list \<Rightarrow> mixer_ctl option" where
  "mixer_get_ctl_by_name mx name =
     (case mx of None \<Rightarrow> None
      | Some m \<Rightarrow> find (\<lambda>c. c_string name = c_string (elem_name (ctl_info c))) (ctl m))"

definition mixer_ctl_get_name :: "mixer_ctl option \<Rightarrow> nat \<Rightarrow> int \<times> byte list" where
  "mixer_ctl_get_name c n =
     (case c of None \<Rightarrow> (- EINVAL, [])
      | Some c \<Rightarrow> if n = 0 then (- EINVAL, [])
          else (0, take n (c_string (elem_name (ctl_info c)) @ replicate n 0)))"

datatype mixer_ctl_type =
    MIXER_CTL_TYPE_BOOL | MIXER_CTL_TYPE_INT | MIXER_CTL_TYPE_ENUM | MIXER_CTL_TYPE_BYTE
  | MIXER_CTL_TYPE_IEC958 | MIXER_CTL_TYPE_INT64 | MIXER_CTL_TYPE_UNKNOWN | MIXER_CTL_TYPE_MAX

definition mixer_ctl_get_type :: "mixer_ctl option \<Rightarrow> mixer_ctl_type" where
  "mixer_ctl_get_type c =
     (case c of None \<Rightarrow> MIXER_CTL_TYPE_UNKNOWN
      | Some c \<Rightarrow> case etype (ctl_info c) of
          ELEM_BOOLEAN \<Rightarrow> MIXER_CTL_TYPE_BOOL
        | ELEM_INTEGER \<Rightarrow> MIXER_CTL_TYPE_INT
        | ELEM_ENUMERATED \<Rightarrow> MIXER_CTL_TYPE_ENUM
        | ELEM_BYTES \<Rightarrow> MIXER_CTL_TYPE_BYTE
        | ELEM_IEC958 \<Rightarrow> MIXER_CTL_TYPE_IEC958
        | ELEM_INTEGER64 \<Rightarrow> MIXER_CTL_TYPE_INT64
        | ELEM_OTHER \<Rightarrow> MIXER_CTL_TYPE_UNKNOWN)"

definition mixer_ctl_get_type_string :: "mixer_ctl option \<Rightarrow> string" where
  "mixer_ctl_get_type_string c =
     (case c of None \<Rightarrow> ''''
      | Some c \<Rightarrow> case etype (ctl_info c) of
          ELEM_BOOLEAN \<Rightarrow> ''BOOL''
        | ELEM_INTEGER \<Rightarrow> ''INT''
        | ELEM_ENUMERATED \<Rightarrow> ''ENUM''
        | ELEM_BYTES \<Rightarrow> ''BYTE''
        | ELEM_IEC958 \<Rightarrow> ''IEC958''
        | ELEM_INTEGER64 \<Rightarrow> ''INT64''
        | ELEM_OTHER \<Rightarrow> ''Unknown'')"

definition mixer_ctl_get_num_values :: "mixer_ctl option \<Rightarrow> nat" where
  "mixer_ctl_get_num_values c = (case c of None \<Rightarrow> 0 | Some c \<Rightarrow> value_count (ctl_info c))"

definition mixer_ctl_get_num_enums :: "mixer_ctl option \<Rightarrow> nat" where
  "mixer_ctl_get_num_enums c = (case c of None \<Rightarrow> 0 | Some c \<Rightarrow> items (ctl_info c))"

section \<open>Values\<close>

text \<open>\<open>ev\<close> is cleared before it is read, so that a value the kernel leaves out is 0.\<close>

definition elem_values :: "sys_answer \<Rightarrow> nat \<Rightarrow> int list" where
  "elem_values a n = (case a of Values vs \<Rightarrow> take n (vs @ replicate n 0) | _ \<Rightarrow> replicate n 0)"

lemma length_elem_values [simp]: "length (elem_values a n) = n"
  by (auto simp: elem_values_def split: sys_answer.split)

definition mixer_ctl_get_value :: "mixer_ctl option \<Rightarrow> nat \<Rightarrow> sound \<Rightarrow> (int \<times> sound) run" where
  "mixer_ctl_get_value c i k =
     (case c of None \<Rightarrow> Ret (- EINVAL, k)
      | Some c \<Rightarrow>
          if i \<ge> value_count (ctl_info c) then Ret (- EINVAL, k)
          else run_bind (sys (IoElemRead (ctl_fd c) (numid (ctl_info c))) k) (\<lambda>(a, k).
            if failed a then Ret (-1, k)
            else let v = elem_values a (value_count (ctl_info c)) ! i
                 in Ret (case etype (ctl_info c) of
                           ELEM_BOOLEAN \<Rightarrow> (if v \<noteq> 0 then 1 else 0)
                         | ELEM_INTEGER \<Rightarrow> v
                         | ELEM_ENUMERATED \<Rightarrow> v
                         | ELEM_BYTES \<Rightarrow> v
                         | _ \<Rightarrow> - EINVAL, k)))"

definition mixer_ctl_set_value :: "mixer_ctl option \<Rightarrow> nat \<Rightarrow> int \<Rightarrow> sound \<Rightarrow> (int \<times> sound) run" where
  "mixer_ctl_set_value c i value k =
     (case c of None \<Rightarrow> Ret (- EINVAL, k)
      | Some c \<Rightarrow>
          if i \<ge> value_count (ctl_info c) then Ret (- EINVAL, k)
          else run_bind (sys (IoElemRead (ctl_fd c) (numid (ctl_info c))) k) (\<lambda>(a, k).
            if failed a then Ret (-1, k)
            else if etype (ctl_info c) \<in> {ELEM_BOOLEAN, ELEM_INTEGER, ELEM_ENUMERATED}
            then let v = (if etype (ctl_info c) = ELEM_BOOLEAN then (if value \<noteq> 0 then 1 else 0) else value);
                     vs = (elem_values a (value_count (ctl_info c)))[i := v]
                 in run_bind (sys (IoElemWrite (ctl_fd c) (numid (ctl_info c)) vs) k) (\<lambda>(b, k).
                      Ret (if failed b then -1 else 0, k))
            else Ret (- EINVAL, k)))"

text \<open>The products are computed as \<open>int\<close>; they are undefined when they overflow.\<close>

definition int_range_of :: "int \<Rightarrow> int option" where
  "int_range_of i = (if in_int_range i then Some i else None)"

definition percent_to_int :: "elem_info \<Rightarrow> int \<Rightarrow> int option" where
  "percent_to_int ei percent =
     (let percent = (if percent > 100 then 100 else if percent < 0 then 0 else percent)
      in do { range \<leftarrow> int_range_of (int_max ei - int_min ei);
              scaled \<leftarrow> int_range_of (range * percent);
              int_range_of (int_min ei + scaled sdiv 100) })"

definition int_to_percent :: "elem_info \<Rightarrow> int \<Rightarrow> int option" where
  "int_to_percent ei value =
     do { range \<leftarrow> int_range_of (int_max ei - int_min ei);
          if range = 0 then Some 0
          else do { above \<leftarrow> int_range_of (value - int_min ei);
                    int_range_of ((above sdiv range) * 100) } }"

definition mixer_ctl_get_percent :: "mixer_ctl option \<Rightarrow> nat \<Rightarrow> sound \<Rightarrow> (int \<times> sound) run" where
  "mixer_ctl_get_percent c i k =
     (case c of None \<Rightarrow> Ret (- EINVAL, k)
      | Some x \<Rightarrow>
          if etype (ctl_info x) \<noteq> ELEM_INTEGER then Ret (- EINVAL, k)
          else run_bind (mixer_ctl_get_value c i k) (\<lambda>(v, k).
            run_bind (defined (int_to_percent (ctl_info x) v)) (\<lambda>r. Ret (r, k))))"

definition mixer_ctl_set_percent :: "mixer_ctl option \<Rightarrow> nat \<Rightarrow> int \<Rightarrow> sound \<Rightarrow> (int \<times> sound) run" where
  "mixer_ctl_set_percent c i percent k =
     (case c of None \<Rightarrow> Ret (- EINVAL, k)
      | Some x \<Rightarrow>
          if etype (ctl_info x) \<noteq> ELEM_INTEGER then Ret (- EINVAL, k)
          else run_bind (defined (percent_to_int (ctl_info x) percent)) (\<lambda>v. mixer_ctl_set_value c i v k))"

text \<open>The bounds of an integer control; the value that is read is not used.\<close>

definition ctl_bound :: "(elem_info \<Rightarrow> int) \<Rightarrow> mixer_ctl option \<Rightarrow> sound \<Rightarrow> (int \<times> sound) run" where
  "ctl_bound bound c k =
     (case c of None \<Rightarrow> Ret (- EINVAL, k)
      | Some x \<Rightarrow>
          if etype (ctl_info x) \<noteq> ELEM_INTEGER then Ret (- EINVAL, k)
          else run_bind (sys (IoElemRead (ctl_fd x) (numid (ctl_info x))) k) (\<lambda>(a, k).
            Ret (if failed a then -1 else bound (ctl_info x), k)))"

definition mixer_ctl_get_range_min :: "mixer_ctl option \<Rightarrow> sound \<Rightarrow> (int \<times> sound) run" where
  "mixer_ctl_get_range_min = ctl_bound int_min"

definition mixer_ctl_get_range_max :: "mixer_ctl option \<Rightarrow> sound \<Rightarrow> (int \<times> sound) run" where
  "mixer_ctl_get_range_max = ctl_bound int_max"

definition mixer_ctl_get_enum_string :: "mixer_ctl option \<Rightarrow> nat \<Rightarrow> nat \<Rightarrow> sound \<Rightarrow> (int \<times> byte list \<times> sound) run" where
  "mixer_ctl_get_enum_string c enum_id n k =
     (case c of None \<Rightarrow> Ret (- EINVAL, [], k)
      | Some x \<Rightarrow>
          if etype (ctl_info x) \<noteq> ELEM_ENUMERATED \<or> enum_id \<ge> items (ctl_info x) then Ret (- EINVAL, [], k)
          else run_bind (sys (IoElemRead (ctl_fd x) (numid (ctl_info x))) k) (\<lambda>(a, k).
            if failed a then Ret (-1, [], k)
            else run_bind (defined (Option.bind (ename x) (\<lambda>ns. nth_opt ns enum_id))) (\<lambda>s.
              Ret (0, take n (s @ replicate n 0), k))))"

fun enum_by_string :: "mixer_ctl \<Rightarrow> byte list \<Rightarrow> nat \<Rightarrow> byte list list \<Rightarrow> sound \<Rightarrow> (int \<times> sound) run" where
  "enum_by_string x s i [] k = Ret (- EINVAL, k)"
| "enum_by_string x s i (n # ns) k =
     (if s = n
      then run_bind (sys (IoElemWrite (ctl_fd x) (numid (ctl_info x)) [int i]) k) (\<lambda>(a, k).
        Ret (if failed a then -1 else 0, k))
      else enum_by_string x s (Suc i) ns k)"

definition mixer_ctl_set_enum_by_string :: "mixer_ctl option \<Rightarrow> byte list \<Rightarrow> sound \<Rightarrow> (int \<times> sound) run" where
  "mixer_ctl_set_enum_by_string c s k =
     (case c of None \<Rightarrow> Ret (- EINVAL, k)
      | Some x \<Rightarrow>
          if etype (ctl_info x) \<noteq> ELEM_ENUMERATED then Ret (- EINVAL, k)
          else run_bind (defined (ename x)) (\<lambda>ns. enum_by_string x s 0 (take (items (ctl_info x)) ns) k))"

section \<open>What is shown\<close>

text \<open>A control is well-formed when an enumeration has all of its names; a mixer when it has all
  of its controls, on its own descriptor.\<close>

definition ctl_ok :: "int \<Rightarrow> mixer_ctl \<Rightarrow> bool" where
  "ctl_ok fd c \<longleftrightarrow> ctl_fd c = fd \<and>
     (case ename c of None \<Rightarrow> etype (ctl_info c) \<noteq> ELEM_ENUMERATED
      | Some ns \<Rightarrow> etype (ctl_info c) = ELEM_ENUMERATED \<and> length ns = items (ctl_info c))"

definition mixer_ok :: "mixer \<Rightarrow> bool" where
  "mixer_ok m \<longleftrightarrow> 0 \<le> mixer_fd m \<and> length (ctl m) = mixer_count m \<and> (\<forall>c \<in> set (ctl m). ctl_ok (mixer_fd m) c)"

lemma sys_not_Fault [simp]: "sys r k \<noteq> Fault"
  by (simp add: sys_def split: list.splits)

lemma read_enames_length:
  "read_enames fd i m ns k = Ret (True, ns', k') \<Longrightarrow> length ns' = length ns + m"
  by (induction fd i m ns k rule: read_enames.induct) (auto simp: run_bind_Ret split: if_splits)

lemma read_ctls_ok:
  assumes "read_ctls fd is cs k = Ret (True, cs', k')" and "\<forall>c \<in> set cs. ctl_ok fd c"
  shows "length cs' = length cs + length is \<and> (\<forall>c \<in> set cs'. ctl_ok fd c)"
  using assms
proof (induction fd "is" cs k rule: read_ctls.induct)
  case (2 fd i "is" cs k)
  from "2.prems"(1) obtain a k1 where a: "sys (IoElemInfo fd i) k = Ret (a, k1)" "\<not> failed a"
    by (auto simp: run_bind_Ret split: if_splits)
  show ?case
  proof (cases "etype (info_answer i a) = ELEM_ENUMERATED")
    case True
    with "2.prems"(1) a obtain b k2 ns k3 where b: "sys SysCalloc k1 = Ret (b, k2)" "\<not> failed b"
        "read_enames fd i (items (info_answer i a)) [] k2 = Ret (True, ns, k3)"
        "read_ctls fd is (cs @ [\<lparr>ctl_fd = fd, ctl_info = info_answer i a, ename = Some ns\<rparr>]) k3 = Ret (True, cs', k')"
      by (auto simp: run_bind_Ret Let_def split: if_splits)
    have "\<forall>c \<in> set (cs @ [\<lparr>ctl_fd = fd, ctl_info = info_answer i a, ename = Some ns\<rparr>]). ctl_ok fd c"
      using "2.prems"(2) True read_enames_length[OF b(3)] by (simp add: ctl_ok_def)
    from "2.IH"(1)[OF a(1) refl a(2) refl True b(1) refl b(2) b(3) refl refl refl TrueI b(4) this] show ?thesis
      by simp
  next
    case False
    with "2.prems"(1) a have rest: "read_ctls fd is (cs @ [\<lparr>ctl_fd = fd, ctl_info = info_answer i a, ename = None\<rparr>]) k1 = Ret (True, cs', k')"
      by (simp add: Let_def)
    have "\<forall>c \<in> set (cs @ [\<lparr>ctl_fd = fd, ctl_info = info_answer i a, ename = None\<rparr>]). ctl_ok fd c"
      using "2.prems"(2) False by (simp add: ctl_ok_def)
    from "2.IH"(2)[OF a(1) refl a(2) refl False rest this] show ?thesis
      by simp
  qed
qed simp

lemma mixer_open_ok:
  assumes "mixer_open crd k = Ret (Some m, k')"
  shows "mixer_ok m"
proof -
  from assms obtain a k0 where a: "sys (SysOpen (str ''/dev/snd/controlC'' @ dec_nat (unat crd))) k = Ret (a, k0)"
    by (auto simp: mixer_open_def run_bind_Ret)
  obtain fd n k1 where fd: "0 \<le> fd" and fill: "mixer_fill fd n k1 = Ret (Some m, k')"
    using assms a by (cases a) (auto simp: mixer_open_def run_bind_Ret not_less split: if_splits)
  from fill obtain d k2 cs k3 where
    "read_ctls fd (take n (elem_ids d @ replicate n 0)) [] k2 = Ret (True, cs, k3)"
    and m: "mixer_fd m = fd" "mixer_count m = n" "ctl m = cs"
    by (auto simp: mixer_fill_def run_bind_Ret Let_def split: if_splits)
  from read_ctls_ok[OF this(1)] show ?thesis
    using fd m by (auto simp: mixer_ok_def)
qed

lemma mixer_get_ctl_ok:
  assumes "mixer_ok m" and "mixer_get_ctl (Some m) i = Some c"
  shows "ctl_ok (mixer_fd m) c"
  using assms by (auto simp: mixer_ok_def mixer_get_ctl_def nth_opt_Some split: if_splits)

lemma mixer_get_ctl_by_name_ok:
  assumes "mixer_ok m" and "mixer_get_ctl_by_name (Some m) s = Some c"
  shows "ctl_ok (mixer_fd m) c"
  using assms by (auto simp: mixer_ok_def mixer_get_ctl_by_name_def find_Some_iff)

lemma enum_by_string_not_Fault: "enum_by_string x s i ns k \<noteq> Fault"
  by (induction x s i ns k rule: enum_by_string.induct) (auto simp: run_bind_Fault)



text \<open>The percentage of a value below the maximum is 0: the division comes before the product.\<close>

lemma int_to_percent_coarse:
  assumes "int_min ei \<le> v" "v < int_max ei" "in_int_range (int_max ei - int_min ei)"
  shows "int_to_percent ei v = Some 0"
proof -
  have "in_int_range (v - int_min ei)"
    using assms by (auto simp: in_int_range_def)
  then show ?thesis
    using assms by (simp add: int_to_percent_def int_range_of_def signed_divide_int_def in_int_range_def)
qed

text \<open>A mixer whose arrays cannot be allocated closes descriptor 0, not its own.\<close>

lemma mixer_fill_no_memory:
  assumes "sys_answers k = Failed a # Failed b # rest"
  shows "\<exists>k'. mixer_fill fd n k = Ret (None, k') \<and> SysClose 0 \<in> set (sys_log k') \<and>
    (SysClose fd \<notin> set (sys_log k) \<longrightarrow> fd \<noteq> 0 \<longrightarrow> SysClose fd \<notin> set (sys_log k'))"
  using assms by (simp add: mixer_fill_def sys_def mixer_fail_def mixer_close_def note_call_def Let_def)

end
