(* ===== verification/Usb_Audio.thy ===== *)
theory Usb_Audio
  imports Audio_Mixer
begin

text \<open>
  The streams of the USB sound card, the second half of \<open>upil_audio/usb_audio_pcm.c\<close>, and the
  resampler of \<open>upil_audio/audio_utils/resampler.c\<close>: conversion of the number of channels,
  resampling, volume.

  The Speex resampler is not part of the repository; its functions are the fields of a
  \<open>speex\<close> record, an argument of the definitions.  \<open>spx_process\<close> gets the samples of whole
  frames and the number of frames that there is room for, and gives the number of frames
  it used, the samples it produced and its new state.  The resampling of frames that a
  provider hands out is in the theory \<open>Resampler_Provider\<close>.
\<close>

section \<open>Samples\<close>

fun samples :: "byte list \<Rightarrow> 16 word list" where
  "samples (a # b # bs) = (ucast a OR push_bit 8 (ucast b)) # samples bs"
| "samples bs = []"

fun sample_bytes :: "16 word list \<Rightarrow> byte list" where
  "sample_bytes (w # ws) = ucast w # ucast (drop_bit 8 w) # sample_bytes ws"
| "sample_bytes [] = []"

lemma length_sample_bytes [simp]: "length (sample_bytes ws) = 2 * length ws"
  by (induction ws) simp_all

lemma length_samples [simp]: "length (samples bs) = length bs div 2"
  by (induction bs rule: samples.induct) simp_all

lemma sample_join: "(ucast (ucast w :: byte) OR push_bit 8 (ucast (ucast (drop_bit 8 w) :: byte)) :: 16 word) = w"
  by (rule bit_word_eqI) (auto simp: bit_simps)

lemma sample_split:
  "ucast (ucast a OR push_bit 8 (ucast b) :: 16 word) = (a :: byte)"
  "ucast (drop_bit 8 (ucast a OR push_bit 8 (ucast b) :: 16 word)) = (b :: byte)"
  by (rule bit_word_eqI; auto simp: bit_simps dest: bit_imp_le_length)+

lemma samples_of_bytes [simp]: "samples (sample_bytes ws) = ws"
  by (induction ws) (simp_all add: sample_join)

lemma bytes_of_samples: "even (length bs) \<Longrightarrow> sample_bytes (samples bs) = bs"
proof (induction bs rule: samples.induct)
  case (1 a b bs)
  then show ?case
    by (simp only: samples.simps sample_bytes.simps sample_split) simp
qed simp_all

fun stereo_to_mono :: "16 word list \<Rightarrow> 16 word list" where
  "stereo_to_mono (l # r # ws) = l # stereo_to_mono ws"
| "stereo_to_mono ws = ws"

fun mono_to_stereo :: "16 word list \<Rightarrow> 16 word list" where
  "mono_to_stereo (w # ws) = w # w # mono_to_stereo ws"
| "mono_to_stereo [] = []"

lemma length_mono_to_stereo [simp]: "length (mono_to_stereo ws) = 2 * length ws"
  by (induction ws) simp_all

lemma length_stereo_to_mono [simp]: "length (stereo_to_mono ws) = (length ws + 1) div 2"
  by (induction ws rule: stereo_to_mono.induct) simp_all

lemma mono_to_stereo_inverse: "stereo_to_mono (mono_to_stereo ws) = ws"
  by (induction ws) simp_all

section \<open>The resampler\<close>

record 'x speex =
  spx_init :: "32 word \<Rightarrow> 32 word \<Rightarrow> 32 word \<Rightarrow> 32 word \<Rightarrow> 'x option"
  spx_process :: "'x \<Rightarrow> 16 word list \<Rightarrow> nat \<Rightarrow> nat \<times> 16 word list \<times> 'x"
  spx_reset_mem :: "'x \<Rightarrow> 'x"
  spx_input_latency :: "'x \<Rightarrow> int"
  spx_output_latency :: "'x \<Rightarrow> int"

record 'x resampler =
  speex_resampler :: 'x
  has_provider :: bool
  in_sample_rate :: "32 word"
  out_sample_rate :: "32 word"
  channel_count :: "32 word"
  in_buf :: "16 word list"
  in_buf_size :: "32 word"
  frames_in :: "32 word"
  frames_rq :: "32 word"
  frames_needed :: "32 word"
  speex_delay_ns :: int

abbreviation (input) ENODEV :: int where "ENODEV \<equiv> 19"
abbreviation (input) ENOSYS :: int where "ENOSYS \<equiv> 38"
abbreviation (input) RESAMPLER_QUALITY_MIN :: "32 word" where "RESAMPLER_QUALITY_MIN \<equiv> 0"
abbreviation (input) RESAMPLER_QUALITY_MAX :: "32 word" where "RESAMPLER_QUALITY_MAX \<equiv> 10"

definition resampler_reset :: "'x speex \<Rightarrow> 'x resampler \<Rightarrow> 'x resampler" where
  "resampler_reset S r =
     r\<lparr>frames_in := 0, frames_rq := 0, speex_resampler := spx_reset_mem S (speex_resampler r)\<rparr>"

text \<open>A number of frames as nanoseconds, cut to \<open>int32_t\<close>; undefined for the rate 0.\<close>

definition frames_ns :: "int \<Rightarrow> 32 word \<Rightarrow> int option" where
  "frames_ns frames rate =
     (if rate = 0 then None
      else Some (signed_take_bit 31 ((1000000000 * frames) sdiv uint rate)))"

definition resampler_delay_ns :: "'x resampler \<Rightarrow> int option" where
  "resampler_delay_ns r =
     map_option (\<lambda>d. signed_take_bit 31 (d + speex_delay_ns r)) (frames_ns (uint (frames_in r)) (in_sample_rate r))"

definition resampler_resample_from_input ::
  "'x speex \<Rightarrow> 'x resampler option \<Rightarrow> 16 word list \<Rightarrow> nat \<Rightarrow> nat \<Rightarrow> (int \<times> nat \<times> 16 word list \<times> 'x resampler) option" where
  "resampler_resample_from_input S rsmp inp inFrameCount outFrameCount =
     (case rsmp of None \<Rightarrow> None
      | Some r \<Rightarrow>
          if has_provider r then Some (- ENOSYS, inFrameCount, [], r)
          else if inFrameCount * unat (channel_count r) > length inp then None
          else
            let (used, out, x) = spx_process S (speex_resampler r) (take (inFrameCount * unat (channel_count r)) inp) outFrameCount
            in Some (0, used, out, r\<lparr>speex_resampler := x\<rparr>))"

definition create_resampler ::
  "'x speex \<Rightarrow> 32 word \<Rightarrow> 32 word \<Rightarrow> 32 word \<Rightarrow> 32 word \<Rightarrow> bool \<Rightarrow> (int \<times> 'x resampler option) option" where
  "create_resampler S inSampleRate outSampleRate channelCount quality provider =
     (if quality \<le> RESAMPLER_QUALITY_MIN \<or> quality \<ge> RESAMPLER_QUALITY_MAX then Some (- EINVAL, None)
      else case spx_init S channelCount inSampleRate outSampleRate quality of
        None \<Rightarrow> Some (- ENODEV, None)
      | Some x \<Rightarrow> do {
          let r = resampler_reset S \<lparr>speex_resampler = x, has_provider = provider, in_sample_rate = inSampleRate,
             out_sample_rate = outSampleRate, channel_count = channelCount, in_buf = [], in_buf_size = 0,
             frames_in = 0, frames_rq = 0, frames_needed = 0, speex_delay_ns = 0\<rparr>;
          d \<leftarrow> frames_ns (spx_input_latency S (speex_resampler r)) (in_sample_rate r);
          e \<leftarrow> frames_ns (spx_output_latency S (speex_resampler r)) (out_sample_rate r);
          Some (0, Some (r\<lparr>speex_delay_ns := d + e\<rparr>)) })"

text \<open>The resampler, its buffer and the Speex state.\<close>

definition release_resampler :: "'x resampler option \<Rightarrow> sound \<Rightarrow> sound" where
  "release_resampler r k = (case r of None \<Rightarrow> k | Some _ \<Rightarrow> note_calls 3 SysFree k)"

section \<open>Streams of the card\<close>

record 'x usb_audio_pcm =
  ua_pcm :: pcm
  ua_mixer :: mixer
  ua_resampler :: "'x resampler option"
  need_resample :: bool
  ua_flags :: "32 word"
  source_channels :: "32 word"
  target_channels :: "32 word"

definition MAX_BUF_SIZE :: nat where
  "MAX_BUF_SIZE = 128 * 1024"

definition usb_audio_open ::
  "32 word \<Rightarrow> 32 word \<Rightarrow> 32 word \<Rightarrow> pcm_config \<Rightarrow> sound \<Rightarrow> ('x usb_audio_pcm option \<times> pcm_config \<times> sound) run" where
  "usb_audio_open crd device flags config k =
     run_bind (pcm_open crd device flags config k) (\<lambda>(p, config, k).
     run_bind (mixer_open crd k) (\<lambda>(mx, k).
       case mx of
         None \<Rightarrow> Ret (None, config, k)
       | Some m \<Rightarrow>
           run_bind (sys SysCalloc k) (\<lambda>(a, k).
             if failed a
             then run_bind (pcm_close p k) (\<lambda>k. Ret (None, config, mixer_close (Some m) k))
             else Ret (Some \<lparr>ua_pcm = p, ua_mixer = m, ua_resampler = None, need_resample = False, ua_flags = flags,
                    source_channels = cfg_channels config, target_channels = cfg_channels config\<rparr>, config, k))))"

definition usb_audio_close :: "'x usb_audio_pcm \<Rightarrow> sound \<Rightarrow> sound run" where
  "usb_audio_close u k =
     run_bind (pcm_close (ua_pcm u) (release_resampler (ua_resampler u) k)) (\<lambda>k.
       Ret (note_call SysFree (mixer_close (Some (ua_mixer u)) k)))"

text \<open>The two conversions that reading and writing share, on the bytes of a buffer.\<close>

definition convert_channels :: "'x usb_audio_pcm \<Rightarrow> byte list \<Rightarrow> byte list option" where
  "convert_channels u bs =
     (if target_channels u \<noteq> source_channels u
      then let ws = (if target_channels u = 1 then stereo_to_mono (samples bs) else mono_to_stereo (samples bs))
           in if 2 * length ws > MAX_BUF_SIZE then None else Some (sample_bytes ws)
      else Some bs)"

definition resample_bytes :: "'x speex \<Rightarrow> 'x usb_audio_pcm \<Rightarrow> byte list \<Rightarrow> sound \<Rightarrow>
    (byte list \<times> 'x usb_audio_pcm \<times> sound) option" where
  "resample_bytes S u bs k =
     (if need_resample u
      then do {
        in_frames \<leftarrow> pcm_bytes_to_frames (ua_pcm u) (of_nat (length bs));
        out_frames \<leftarrow> pcm_bytes_to_frames (ua_pcm u) (of_nat MAX_BUF_SIZE);
        (_, _, out, r) \<leftarrow> resampler_resample_from_input S (ua_resampler u) (samples bs) (unat in_frames) (unat out_frames);
        buf \<leftarrow> blit (buffer_resample k) 0 (sample_bytes out);
        let n = unat (pcm_frames_to_bytes (ua_pcm u) (of_nat (length out) div channel_count r));
        out_bytes \<leftarrow> slice buf 0 n;
        Some (out_bytes, u\<lparr>ua_resampler := Some r\<rparr>, k\<lparr>buffer_resample := buf\<rparr>) }
      else Some (bs, u, k))"

text \<open>\<open>data\<close> is the caller's buffer, \<open>n\<close> the \<open>count\<close>.\<close>

definition usb_audio_read :: "'x speex \<Rightarrow> 'x usb_audio_pcm \<Rightarrow> byte list \<Rightarrow> nat \<Rightarrow> nat \<Rightarrow> sound \<Rightarrow>
    (int \<times> byte list \<times> 'x usb_audio_pcm \<times> sound) run" where
  "usb_audio_read S u data data_size n k =
     (if need_resample u \<or> target_channels u \<noteq> source_channels u
      then run_bind (pcm_read (buffer_read k) n (ua_pcm u) k) (\<lambda>(r, buf, p, k).
        let u = u\<lparr>ua_pcm := p\<rparr>; k = k\<lparr>buffer_read := buf\<rparr>
        in if r \<noteq> 0 then Ret (-1, data, u, k)
           else run_bind (defined (do {
             bs \<leftarrow> slice buf 0 n;
             (bs, u, k) \<leftarrow> resample_bytes S u bs k;
             bs \<leftarrow> convert_channels u bs;
             data \<leftarrow> blit data 0 (take data_size bs);
             Some (int (min (length bs) data_size), data, u, k) })) Ret)
      else run_bind (pcm_read data n (ua_pcm u) k) (\<lambda>(r, data, p, k).
        Ret (if r \<noteq> 0 then -1 else int (min n data_size), data, u\<lparr>ua_pcm := p\<rparr>, k)))"

definition usb_audio_write :: "'x speex \<Rightarrow> 'x usb_audio_pcm \<Rightarrow> byte list \<Rightarrow> nat \<Rightarrow> sound \<Rightarrow>
    (int \<times> 'x usb_audio_pcm \<times> sound) run" where
  "usb_audio_write S u data n k =
     run_bind (defined (do {
       bs \<leftarrow> slice data 0 n;
       bs \<leftarrow> convert_channels u bs;
       resample_bytes S u bs k })) (\<lambda>(bs, u, k).
     run_bind (pcm_write bs (length bs) (ua_pcm u) k) (\<lambda>(r, p, k).
       Ret (if r \<noteq> 0 then -1 else int (length bs), u\<lparr>ua_pcm := p\<rparr>, k)))"

definition usb_audio_set_resample :: "'x speex \<Rightarrow> 32 word \<Rightarrow> 32 word \<Rightarrow> 32 word \<Rightarrow> 'x usb_audio_pcm \<Rightarrow>
    (int \<times> 'x usb_audio_pcm) option" where
  "usb_audio_set_resample S rate channels quality u =
     (let config = pcm_cfg (ua_pcm u);
          set = (\<lambda>u. if has_flag (ua_flags u) PCM_IN
                     then u\<lparr>source_channels := cfg_channels config, target_channels := channels\<rparr>
                     else u\<lparr>source_channels := channels, target_channels := cfg_channels config\<rparr>)
      in if ua_resampler u = None \<and> rate \<noteq> cfg_rate config
         then do {
           (ret, r) \<leftarrow> (if has_flag (ua_flags u) PCM_IN
              then create_resampler S (cfg_rate config) rate (cfg_channels config) quality False
              else create_resampler S rate (cfg_rate config) (cfg_channels config) quality False);
           let u = u\<lparr>ua_resampler := r\<rparr>;
           if ret \<noteq> 0 then Some (-1, u) else Some (0, set (u\<lparr>need_resample := True\<rparr>)) }
         else Some (0, set u))"

definition usb_audio_get_buffer_size :: "'x usb_audio_pcm \<Rightarrow> 32 word" where
  "usb_audio_get_buffer_size u = pcm_get_buffer_size (ua_pcm u)"

text \<open>The loop over the values of a control, from the value \<open>i\<close> on.\<close>

fun set_values_loop :: "mixer_ctl option \<Rightarrow> int \<Rightarrow> nat \<Rightarrow> nat \<Rightarrow> sound \<Rightarrow> sound run" where
  "set_values_loop c value i 0 k = Ret k"
| "set_values_loop c value i (Suc n) k =
     run_bind (mixer_ctl_set_value c i value k) (\<lambda>(r, k).
       if r \<noteq> 0 then Ret k else set_values_loop c value (Suc i) n k)"

definition usb_audio_mixer_set_value :: "mixer \<Rightarrow> nat \<Rightarrow> int \<Rightarrow> sound \<Rightarrow> sound run" where
  "usb_audio_mixer_set_value m i value k =
     (let c = mixer_get_ctl (Some m) i in set_values_loop c value 0 (mixer_ctl_get_num_values c) k)"

definition usb_audio_set_volume :: "int \<Rightarrow> 'x usb_audio_pcm \<Rightarrow> sound \<Rightarrow> (int \<times> sound) run" where
  "usb_audio_set_volume volume u k =
     (if volume < 0 \<or> volume > 44 then Ret (-1, k)
      else run_bind (usb_audio_mixer_set_value (ua_mixer u) 1 volume k) (\<lambda>k. Ret (0, k)))"

section \<open>What is shown\<close>

text \<open>Sizes of a stream of 16-bit samples.\<close>

lemma unat_half: "n \<le> MAX_BUF_SIZE \<Longrightarrow> unat (of_nat n div 2 :: 32 word) = n div 2"
  by (simp add: unat_div MAX_BUF_SIZE_def unat_of_nat)

lemma drop_bit_16: "drop_bit 3 (16 :: 32 word) = 2"
  by (simp add: drop_bit_eq_div)

definition mono_16 :: "pcm \<Rightarrow> bool" where
  "mono_16 p \<longleftrightarrow> cfg_channels (pcm_cfg p) = 1 \<and> cfg_format (pcm_cfg p) = PCM_FORMAT_S16_LE"

lemma mono_16_frames:
  assumes "mono_16 p" "n \<le> MAX_BUF_SIZE"
  shows "pcm_bytes_to_frames p (of_nat n) = Some (of_nat n div 2)" and "frame_bytes p = 2"
  using assms by (simp_all add: mono_16_def pcm_bytes_to_frames_def frame_bytes_def pcm_format_to_bits_def drop_bit_16)

lemma mono_16_bytes:
  assumes "mono_16 p" "2 * n \<le> MAX_BUF_SIZE"
  shows "unat (pcm_frames_to_bytes p (of_nat n)) = 2 * n"
proof -
  have "(of_nat n * 2 :: 32 word) = of_nat (2 * n)"
    by simp
  then show ?thesis
    using assms unfolding mono_16_def pcm_frames_to_bytes_def
    by (simp only: pcm_format_to_bits_def pcm_format.case drop_bit_16 mult_1_right unat_of_nat)
      (simp add: MAX_BUF_SIZE_def)
qed

lemma mono_16_xfer:
  assumes "mono_16 p" "n \<le> MAX_BUF_SIZE" "even n"
  shows "xfer_bytes p n = Some n"
proof -
  have "unat (16 div 8 :: 32 word) = 2" "(16 div 8 :: 32 word) = 2"
    by (simp_all add: unat_div)
  then show ?thesis
    using assms unat_half[OF assms(2)]
    by (simp add: mono_16_def xfer_bytes_def pcm_format_to_bits_def Let_def)
qed

text \<open>The stream that records from the telephone: one channel of 16 bits, read as two channels at
  another rate.\<close>

definition capture_stream :: "'x usb_audio_pcm \<Rightarrow> 'x resampler \<Rightarrow> bool" where
  "capture_stream u r \<longleftrightarrow>
     mono_16 (ua_pcm u) \<and> has_flag (pcm_flags (ua_pcm u)) PCM_IN \<and> need_resample u \<and>
     source_channels u = 1 \<and> target_channels u = 2 \<and> ua_resampler u = Some r \<and>
     channel_count r = 1 \<and> \<not> has_provider r"

text \<open>What the kernel answers before the data: nothing more for a stream that runs, else to the
  calls that prepare and start it.\<close>

definition start_answers :: "pcm \<Rightarrow> sys_answer list \<Rightarrow> bool" where
  "start_answers p as \<longleftrightarrow> (if running p then as = [] else length as = 2 \<and> (\<forall>a \<in> set as. \<not> failed a))"

lemma pcm_read_running:
  assumes "running p" "sys_answers k = Bytes bs # rest" "length bs = n"
  shows "pcm_read_loop n buf p k =
    Ret (0, bs @ drop n buf, p, k\<lparr>sys_answers := rest, sys_log := sys_log k @ [IoReadi (pcm_fd p) n]\<rparr>)"
  using assms by (simp add: pcm_read_loop.simps[of n buf p k] sys_def read_into_def)

lemma pcm_read_data:
  assumes "mono_16 p" "n \<le> MAX_BUF_SIZE" "even n" "has_flag (pcm_flags p) PCM_IN"
    and "sys_answers k = as @ Bytes bs # rest" "start_answers p as" "length bs = n" "n \<le> length buf"
  shows "\<exists>log. pcm_read buf n p k = Ret (0, bs @ drop n buf, p\<lparr>running := True\<rparr>, k\<lparr>sys_answers := rest, sys_log := log\<rparr>)"
proof (cases "running p")
  case True
  then have "p\<lparr>running := True\<rparr> = p"
    by simp
  then show ?thesis
    using True assms by (intro exI[of _ "sys_log k @ [IoReadi (pcm_fd p) n]"])
      (simp add: pcm_read_def mono_16_xfer pcm_read_running start_answers_def)
next
  case False
  then obtain a b where ab: "as = [a, b]" "\<not> failed a" "\<not> failed b"
    using assms(6) by (auto simp: start_answers_def length_Suc_conv numeral_2_eq_2)
  let ?k = "k\<lparr>sys_answers := Bytes bs # rest, sys_log := sys_log k @ [IoPrepare (pcm_fd p), IoStart (pcm_fd p)]\<rparr>"
  have "pcm_read_loop n buf p k = pcm_read_loop n buf (p\<lparr>running := True\<rparr>) ?k"
    using False ab assms(5) by (simp add: pcm_read_loop.simps[of n buf p k] sys_def)
  then show ?thesis
    using assms pcm_read_running[of "p\<lparr>running := True\<rparr>" ?k bs rest n buf]
    by (intro exI[of _ "sys_log ?k @ [IoReadi (pcm_fd p) n]"]) (simp add: pcm_read_def mono_16_xfer)
qed

lemma resample_mono:
  assumes "capture_stream u r" "length bs = n" "n \<le> MAX_BUF_SIZE"
    and "spx_process S (speex_resampler r) (samples bs) 65536 = (used, out, x)" "2 * length out \<le> MAX_BUF_SIZE"
    and "length (buffer_resample k) = MAX_BUF_SIZE"
  shows "resample_bytes S u bs k =
    Some (sample_bytes out, u\<lparr>ua_resampler := Some (r\<lparr>speex_resampler := x\<rparr>)\<rparr>,
          k\<lparr>buffer_resample := sample_bytes out @ drop (2 * length out) (buffer_resample k)\<rparr>)"
proof -
  have m: "mono_16 (ua_pcm u)" and r: "ua_resampler u = Some r" "channel_count r = 1" "\<not> has_provider r" "need_resample u"
    using assms(1) by (simp_all add: capture_stream_def)
  have cap: "unat (of_nat MAX_BUF_SIZE div 2 :: 32 word) = 65536"
    using unat_half[of MAX_BUF_SIZE] by (simp add: MAX_BUF_SIZE_def)
  have rs: "resampler_resample_from_input S (ua_resampler u) (samples bs) (unat (of_nat n div 2 :: 32 word))
      (unat (of_nat MAX_BUF_SIZE div 2 :: 32 word)) = Some (0, used, out, r\<lparr>speex_resampler := x\<rparr>)"
    using assms(2,3,4) r unfolding cap unat_half[OF assms(3)] by (simp add: resampler_resample_from_input_def)
  show ?thesis
    using assms(2,3,5,6) r rs mono_16_frames(1)[OF m] mono_16_bytes[OF m assms(5)]
    by (simp add: resample_bytes_def blit_def slice_def)
qed

lemma convert_stereo:
  assumes "source_channels u = 1" "target_channels u = 2"
  shows "convert_channels u (sample_bytes out) =
    (if 4 * length out \<le> MAX_BUF_SIZE then Some (sample_bytes (mono_to_stereo out)) else None)"
  using assms by (simp add: convert_channels_def Let_def)

text \<open>
  Reading \<open>n\<close> bytes of the telephone's sound from a capture stream: the samples that the
  kernel delivers go through the resampler, each resampled sample is put twice into the
  caller's buffer, cut at \<open>data_size\<close>, the rest of the buffer stays, and the result is the
  number of bytes put there.  More than 32768 resampled samples overflow the buffer of the
  conversion.
\<close>

definition card_buffers :: "sound \<Rightarrow> bool" where
  "card_buffers k \<longleftrightarrow> length (buffer_read k) = MAX_BUF_SIZE \<and> length (buffer_resample k) = MAX_BUF_SIZE"

lemma usb_capture_read:
  assumes u: "capture_stream u r" and n: "even n" "n \<le> MAX_BUF_SIZE" and bufs: "card_buffers k"
    and k: "sys_answers k = as @ Bytes bs # rest" "start_answers (ua_pcm u) as" "length bs = n"
    and spx: "spx_process S (speex_resampler r) (samples bs) 65536 = (used, out, x)" "length out \<le> 65536"
    and data: "data_size \<le> length data"
  shows "length out \<le> 32768 \<Longrightarrow>
      \<exists>u' k'. usb_audio_read S u data data_size n k =
        Ret (int (min (4 * length out) data_size),
             take data_size (sample_bytes (mono_to_stereo out)) @ drop (min (4 * length out) data_size) data, u', k') \<and>
        capture_stream u' (r\<lparr>speex_resampler := x\<rparr>) \<and> running (ua_pcm u') \<and> pcm_flags (ua_pcm u') = pcm_flags (ua_pcm u) \<and>
        sys_answers k' = rest \<and> card_buffers k'"
    and "length out > 32768 \<Longrightarrow> usb_audio_read S u data data_size n k = Fault"
proof -
  let ?u = "u\<lparr>ua_pcm := (ua_pcm u)\<lparr>running := True\<rparr>\<rparr>"
  have m: "mono_16 (ua_pcm u)" "has_flag (pcm_flags (ua_pcm u)) PCM_IN" "need_resample u"
      "source_channels u = 1" "target_channels u = 2"
    using u by (simp_all add: capture_stream_def)
  have lens: "length (buffer_read k) = MAX_BUF_SIZE" "length (buffer_resample k) = MAX_BUF_SIZE"
    using bufs by (simp_all add: card_buffers_def)
  obtain log where rd: "pcm_read (buffer_read k) n (ua_pcm u) k =
      Ret (0, bs @ drop n (buffer_read k), (ua_pcm u)\<lparr>running := True\<rparr>, k\<lparr>sys_answers := rest, sys_log := log\<rparr>)"
    using pcm_read_data[OF m(1) n(2,1) m(2) k, of "buffer_read k"] lens(1) n(2) by auto
  let ?k = "k\<lparr>sys_answers := rest, sys_log := log, buffer_read := bs @ drop n (buffer_read k)\<rparr>"
  have u': "capture_stream ?u r"
    using u by (simp add: capture_stream_def mono_16_def)
  have rs: "resample_bytes S ?u bs ?k =
    Some (sample_bytes out, ?u\<lparr>ua_resampler := Some (r\<lparr>speex_resampler := x\<rparr>)\<rparr>,
          ?k\<lparr>buffer_resample := sample_bytes out @ drop (2 * length out) (buffer_resample k)\<rparr>)"
    using resample_mono[OF u' k(3) n(2) spx(1), of ?k] spx(2) lens(2) by (simp add: MAX_BUF_SIZE_def)
  have sl: "slice (bs @ drop n (buffer_read k)) 0 n = Some bs"
    using k(3) lens(1) n(2) by (simp add: slice_def)
  note read = usb_audio_read_def rd m rs sl Let_def convert_stereo blit_def
  show "\<exists>u' k'. usb_audio_read S u data data_size n k =
        Ret (int (min (4 * length out) data_size),
             take data_size (sample_bytes (mono_to_stereo out)) @ drop (min (4 * length out) data_size) data, u', k') \<and>
        capture_stream u' (r\<lparr>speex_resampler := x\<rparr>) \<and> running (ua_pcm u') \<and> pcm_flags (ua_pcm u') = pcm_flags (ua_pcm u) \<and>
        sys_answers k' = rest \<and> card_buffers k'" if "length out \<le> 32768"
    using that u data k(3) lens n(2)
    by (simp add: read MAX_BUF_SIZE_def capture_stream_def mono_16_def card_buffers_def min.absorb1 min.commute)
  show "usb_audio_read S u data data_size n k = Fault" if "length out > 32768"
    using that by (simp add: read MAX_BUF_SIZE_def)
qed

end
