(* ===== verification/Resampler_Provider.thy ===== *)
theory Resampler_Provider
  imports Usb_Audio
begin

text \<open>
  The second half of \<open>upil_audio/audio_utils/resampler.c\<close>: resampling of frames that a buffer
  provider hands out (\<open>resampler_resample_from_provider\<close>), with the interface of the
  provider as a locale.

  A provider is the two functions of \<open>struct resampler_buffer_provider\<close> on a state \<open>'b\<close> of the
  client.  \<open>get_next_buffer\<close> gets the number of frames that are asked for and gives the memory
  behind the pointer it sets (\<open>None\<close> for \<open>NULL\<close>), the number of frames and the new state.
  The memory of the output belongs to the client as well, since it may be the memory that
  the frames come from: \<open>put_frames\<close> writes samples behind \<open>out\<close>, at a distance in
  samples; \<open>None\<close> says that they do not fit.
\<close>

section \<open>Frames from a provider\<close>

record 'b buffer_provider =
  get_next_buffer :: "'b \<Rightarrow> 32 word \<Rightarrow> 16 word list option \<times> 32 word \<times> 'b"
  release_buffer :: "'b \<Rightarrow> 32 word \<Rightarrow> 'b"
  put_frames :: "'b \<Rightarrow> nat \<Rightarrow> 16 word list \<Rightarrow> 'b option"

text \<open>\<open>realloc\<close> of a buffer of samples to a number of bytes, which succeeds.  What it adds is not
  initialised; the code writes a sample before it reads it, and the model has zeros there.\<close>

definition realloc_samples :: "16 word list \<Rightarrow> 32 word \<Rightarrow> 16 word list" where
  "realloc_samples ws bytes = (let n = unat bytes div 2 in take n ws @ replicate (n - length ws) 0)"

text \<open>A buffer that has no room for the frames that are needed is enlarged.\<close>

definition grow_in_buf :: "'x resampler \<Rightarrow> 'x resampler" where
  "grow_in_buf r =
     (if in_buf_size r < frames_needed r
      then r\<lparr>in_buf_size := frames_needed r, in_buf := realloc_samples (in_buf r) (frames_needed r * channel_count r * 2)\<rparr>
      else r)"

text \<open>The first half of a turn of the loop gets frames when too few are there; it gives \<open>None\<close> for the
  \<open>break\<close>.\<close>

definition fill_in_buf :: "'b buffer_provider \<Rightarrow> 'x resampler \<Rightarrow> 'b \<Rightarrow> (bool \<times> 'x resampler \<times> 'b) run" where
  "fill_in_buf P r b =
     (if frames_in r < frames_needed r
      then
        let r = grow_in_buf r; (raw, n, b) = get_next_buffer P b (frames_needed r - frames_in r)
        in case raw of
             None \<Rightarrow> Ret (False, r, b)
           | Some ws \<Rightarrow> run_bind (defined (do {
                 new \<leftarrow> slice ws 0 (unat n * unat (channel_count r));
                 blit (in_buf r) (unat (frames_in r) * unat (channel_count r)) new })) (\<lambda>buf.
               Ret (True, r\<lparr>in_buf := buf, frames_in := frames_in r + n\<rparr>, release_buffer P b n))
      else Ret (True, r, b))"

text \<open>The second half gives the frames to Speex.  The result is the number of frames used and written.\<close>

definition process_in_buf ::
  "'x speex \<Rightarrow> 'b buffer_provider \<Rightarrow> 'x resampler \<Rightarrow> 'b \<Rightarrow> 32 word \<Rightarrow> 32 word \<Rightarrow> (32 word \<times> 32 word \<times> 'x resampler \<times> 'b) run" where
  "process_in_buf S P r b framesRq framesWr =
     run_bind (defined (slice (in_buf r) 0 (unat (frames_in r) * unat (channel_count r)))) (\<lambda>inp.
       let (used, out, x) = spx_process S (speex_resampler r) inp (unat (framesRq - framesWr))
       in run_bind (defined (put_frames P b (unat framesWr * unat (channel_count r)) out)) (\<lambda>b.
            Ret (of_nat used, framesWr + of_nat (length out div unat (channel_count r)),
                 r\<lparr>speex_resampler := x, frames_in := frames_in r - of_nat used\<rparr>, b)))"

text \<open>The frames that are left are moved to the front, by the number that the last turn used.\<close>

definition move_in_buf :: "32 word \<Rightarrow> 'x resampler \<Rightarrow> 'x resampler run" where
  "move_in_buf inFrames r =
     (if frames_in r = 0 then Ret r
      else run_bind (defined (do {
        left \<leftarrow> slice (in_buf r) (unat inFrames * unat (channel_count r)) (unat (frames_in r) * unat (channel_count r));
        blit (in_buf r) 0 left })) (\<lambda>buf. Ret (r\<lparr>in_buf := buf\<rparr>)))"

text \<open>The result is \<open>framesWr\<close>; \<open>None\<close> says that the loop never ends.\<close>

partial_function (option) resample_loop ::
  "'x speex \<Rightarrow> 'b buffer_provider \<Rightarrow> 32 word \<Rightarrow> 'x resampler \<Rightarrow> 'b \<Rightarrow> 32 word \<Rightarrow> 32 word \<Rightarrow> (32 word \<times> 'x resampler \<times> 'b) run option" where
  "resample_loop S P framesRq r b framesWr inFrames =
     (if framesWr < framesRq
      then case fill_in_buf P r b of
          Waits \<Rightarrow> Some Waits | Fault \<Rightarrow> Some Fault
        | Ret (go, r, b) \<Rightarrow>
            if \<not> go then Some (run_bind (move_in_buf inFrames r) (\<lambda>r. Ret (framesWr, r, b)))
            else (case process_in_buf S P r b framesRq framesWr of
                Waits \<Rightarrow> Some Waits | Fault \<Rightarrow> Some Fault
              | Ret (inFrames, framesWr, r, b) \<Rightarrow> resample_loop S P framesRq r b framesWr inFrames)
      else Some (run_bind (move_in_buf inFrames r) (\<lambda>r. Ret (framesWr, r, b))))"

definition cache_needed :: "32 word \<Rightarrow> 'x resampler \<Rightarrow> 'x resampler option" where
  "cache_needed framesRq r =
     (if framesRq \<noteq> frames_rq r
      then if in_sample_rate r = 0 then None
           else Some (r\<lparr>frames_needed := framesRq * out_sample_rate r div in_sample_rate r + 1, frames_rq := framesRq\<rparr>)
      else Some r)"

definition resampler_resample_from_provider ::
  "'x speex \<Rightarrow> 'b buffer_provider \<Rightarrow> 'x resampler \<Rightarrow> 'b \<Rightarrow> 32 word \<Rightarrow> (int \<times> 32 word \<times> 'x resampler \<times> 'b) run option" where
  "resampler_resample_from_provider S P r b outFrameCount =
     (if \<not> has_provider r then Some (Ret (- ENOSYS, 0, r, b))
      else case cache_needed outFrameCount r of
        None \<Rightarrow> Some Fault
      | Some r \<Rightarrow> map_option (\<lambda>x. run_bind x (\<lambda>(framesWr, r, b). Ret (0, framesWr, r, b)))
                    (resample_loop S P outFrameCount r b 0 0))"

section \<open>The contract of a provider\<close>

text \<open>
  \<open>rest\<close> is what the provider has still to give, in samples of \<open>ch\<close> channels, \<open>room\<close> the room for
  the output, and \<open>good\<close> an invariant of its state.
\<close>

locale frame_provider =
  fixes P :: "'b buffer_provider" and ch :: nat and good :: "'b \<Rightarrow> bool"
    and rest :: "'b \<Rightarrow> 16 word list" and room :: "'b \<Rightarrow> nat"
  assumes get_none: "good b \<Longrightarrow> 0 < n \<Longrightarrow> get_next_buffer P b n = (None, m, b') \<Longrightarrow> b' = b \<and> rest b = []"
    and get_some: "good b \<Longrightarrow> 0 < n \<Longrightarrow> get_next_buffer P b n = (Some ws, m, b') \<Longrightarrow>
      b' = b \<and> 0 < m \<and> m \<le> n \<and> unat m * ch \<le> length (rest b) \<and> unat m * ch \<le> length ws \<and>
      take (unat m * ch) ws = take (unat m * ch) (rest b)"
    and release: "good b \<Longrightarrow> unat m * ch \<le> length (rest b) \<Longrightarrow>
      good (release_buffer P b m) \<and> rest (release_buffer P b m) = drop (unat m * ch) (rest b) \<and> room (release_buffer P b m) = room b"
    and put: "good b \<Longrightarrow> i + length ws \<le> room b \<Longrightarrow> \<exists>b'. put_frames P b i ws = Some b' \<and> good b' \<and> rest b' = rest b \<and> room b' = room b"

text \<open>What the Speex library promises: it stops when the input is used up or the output is full.\<close>

definition speex_ok :: "'x speex \<Rightarrow> nat \<Rightarrow> bool" where
  "speex_ok S ch \<longleftrightarrow> (\<forall>x ws n. ch dvd length ws \<longrightarrow> (case spx_process S x ws n of (used, out, _) \<Rightarrow>
     used * ch \<le> length ws \<and> length out \<le> n * ch \<and> ch dvd length out \<and> (used * ch = length ws \<or> length out = n * ch)))"

text \<open>A Speex that remembers the samples it has used.\<close>

definition recorded :: "nat \<Rightarrow> 'x speex \<Rightarrow> ('x \<times> 16 word list) speex" where
  "recorded ch S =
     \<lparr>spx_init = \<lambda>c i ot q. map_option (\<lambda>x. (x, [])) (spx_init S c i ot q),
      spx_process = \<lambda>(x, l) ws n. (case spx_process S x ws n of (used, out, x) \<Rightarrow> (used, out, (x, l @ take (used * ch) ws))),
      spx_reset_mem = \<lambda>(x, l). (spx_reset_mem S x, []),
      spx_input_latency = \<lambda>(x, l). spx_input_latency S x, spx_output_latency = \<lambda>(x, l). spx_output_latency S x\<rparr>"

definition used_up :: "('x \<times> 16 word list) resampler \<Rightarrow> 16 word list" where
  "used_up r = snd (speex_resampler r)"

definition pending :: "32 word \<Rightarrow> 'x resampler \<Rightarrow> 16 word list" where
  "pending at r = take (unat (frames_in r) * unat (channel_count r)) (drop (unat at * unat (channel_count r)) (in_buf r))"

text \<open>The input buffer has the size it says and holds its frames.\<close>

definition in_buf_ok :: "nat \<Rightarrow> 'x resampler \<Rightarrow> bool" where
  "in_buf_ok ch r \<longleftrightarrow> 0 < ch \<and> unat (channel_count r) = ch \<and> length (in_buf r) = unat (in_buf_size r) * ch \<and> frames_in r \<le> in_buf_size r \<and>
     0 < frames_needed r \<and> unat (frames_needed r) * ch < 2 ^ 31"

lemma grow_in_buf_ok:
  assumes "in_buf_ok ch r" "frames_in r < frames_needed r"
  shows "in_buf_ok ch (grow_in_buf r)" "pending 0 (grow_in_buf r) = pending 0 r" "frames_in (grow_in_buf r) = frames_in r"
    "frames_needed (grow_in_buf r) = frames_needed r" "channel_count (grow_in_buf r) = channel_count r"
    "speex_resampler (grow_in_buf r) = speex_resampler r" "frames_needed r \<le> in_buf_size (grow_in_buf r)"
proof -
  have r: "unat (channel_count r) = ch" "length (in_buf r) = unat (in_buf_size r) * ch" "unat (frames_needed r) * ch < 2 ^ 31"
    "unat (frames_in r) \<le> unat (in_buf_size r)"
    using assms by (auto simp: in_buf_ok_def word_le_nat_alt)
  have bytes: "unat (frames_needed r * channel_count r * 2) div 2 = unat (frames_needed r) * ch"
  proof -
    have "n * 2 mod 2 ^ 32 div 2 = n" if "n < 2 ^ 31" for n :: nat
      using that by simp
    from this[OF r(3)] show ?thesis
      using r(3) by (simp add: unat_word_ariths r(1))
  qed
  have le: "unat (in_buf_size r) * ch \<le> unat (frames_needed r) * ch" if "in_buf_size r < frames_needed r"
    using that by (simp add: word_less_nat_alt)
  have fits: "unat (frames_in r) * ch \<le> unat (in_buf_size r) * ch"
    using r(4) by simp
  show "frames_in (grow_in_buf r) = frames_in r" "frames_needed (grow_in_buf r) = frames_needed r"
    "channel_count (grow_in_buf r) = channel_count r" "speex_resampler (grow_in_buf r) = speex_resampler r"
    "frames_needed r \<le> in_buf_size (grow_in_buf r)"
    by (simp_all add: grow_in_buf_def not_less)
  show "in_buf_ok ch (grow_in_buf r)"
    using assms le unfolding in_buf_ok_def grow_in_buf_def realloc_samples_def Let_def bytes by auto
  show "pending 0 (grow_in_buf r) = pending 0 r"
    using le fits unfolding grow_in_buf_def realloc_samples_def Let_def bytes by (auto simp: pending_def r)
qed

lemma in_buf_pending:
  assumes "in_buf_ok ch r"
  shows "length (pending 0 r) = unat (frames_in r) * ch"
  using assms by (simp add: in_buf_ok_def pending_def word_le_nat_alt)

context frame_provider
begin

lemma fill_step:
  assumes r: "in_buf_ok ch r" and b: "good b"
  obtains go r' b' where "fill_in_buf P r b = Ret (go, r', b')" "go \<Longrightarrow> frames_in r' \<noteq> 0" "\<not> go \<Longrightarrow> rest b' = [] \<and> frames_in r' = frames_in r"
    "in_buf_ok ch r'" "good b'" "room b' = room b" "pending 0 r' @ rest b' = pending 0 r @ rest b" "speex_resampler r' = speex_resampler r"
proof (cases "frames_in r < frames_needed r")
  case False
  then have "frames_in r \<noteq> 0"
    using r by (auto simp: in_buf_ok_def)
  then show thesis
    using False r b that[of True r b] by (simp add: fill_in_buf_def)
next
  case True
  define g where "g = grow_in_buf r"
  note g = grow_in_buf_ok[OF r True, folded g_def]
  obtain raw m b1 where get: "get_next_buffer P b (frames_needed r - frames_in r) = (raw, m, b1)"
    by (metis prod_cases3)
  have pos: "0 < frames_needed r - frames_in r"
    using True by (simp add: word_greater_zero_iff)
  show thesis
  proof (cases raw)
    case None
    then have "b1 = b" "rest b = []"
      using get_none[OF b pos] get by auto
    then show thesis
      using True r b g None get that[of False g b] by (simp add: fill_in_buf_def Let_def g_def[symmetric])
  next
    case (Some ws)
    define new where "new = take (unat m * ch) (rest b)"
    have m: "b1 = b" "0 < m" "m \<le> frames_needed r - frames_in r" "unat m * ch \<le> length (rest b)" "slice ws 0 (unat m * ch) = Some new"
      using get_some[OF b pos] get Some by (auto simp: slice_def new_def)
    have ch: "unat (channel_count g) = ch" "length (in_buf g) = unat (in_buf_size g) * ch" "0 < ch" "unat (channel_count r) = ch"
      using g(1) r by (simp_all add: in_buf_ok_def)
    have sum: "unat (frames_in r) + unat m \<le> unat (frames_needed r)"
      using m(3) True by (simp add: word_le_nat_alt unat_sub less_imp_le word_less_nat_alt)
    then have in_new: "unat (frames_in r + m) = unat (frames_in r) + unat m"
      using unsigned_less[of "frames_needed r", where ?'a = nat] by (simp add: unat_word_ariths)
    have "unat (frames_in r) + unat m \<le> unat (in_buf_size g)"
      using sum g(7) by (simp add: word_le_nat_alt)
    then have fits: "(unat (frames_in r) + unat m) * ch \<le> unat (in_buf_size g) * ch"
      by simp
    have len: "length new = unat m * ch"
      using m(4) by (simp add: new_def)
    let ?buf = "take (unat (frames_in r) * ch) (in_buf g) @ new @ drop (unat (frames_in r) * ch + unat m * ch) (in_buf g)"
    let ?r = "g\<lparr>in_buf := ?buf, frames_in := frames_in r + m\<rparr>"
    have blit: "blit (in_buf g) (unat (frames_in r) * ch) new = Some ?buf"
      using fits by (simp add: blit_def len ch add_mult_distrib)
    have ok: "in_buf_ok ch ?r"
      using g(1) fits \<open>unat (frames_in r) + unat m \<le> unat (in_buf_size g)\<close>
      by (simp add: in_buf_ok_def len ch add_mult_distrib word_le_nat_alt in_new)
    have "min (unat (in_buf_size g) * ch) (unat (frames_in r) * ch) = unat (frames_in r) * ch"
      using fits unfolding add_mult_distrib by linarith
    then have "pending 0 ?r = pending 0 g @ new"
      by (simp add: pending_def ch g(3) in_new len add_mult_distrib)
    moreover have "frames_in r + m \<noteq> 0" "rest b \<noteq> []"
      using m(2,4) ch(3) in_new by (auto simp: word_unat_eq_iff word_less_nat_alt)
    ultimately show thesis
      using True that[of True ?r "release_buffer P b m"] release[OF b m(4)] ok blit g m(5) get Some m(1)
      by (simp add: fill_in_buf_def Let_def g_def[symmetric] ch new_def)
  qed
qed

lemma process_step:
  assumes r: "in_buf_ok ch r" and b: "good b" "unat framesRq * ch \<le> room b" and S: "speex_ok S ch" and wr: "framesWr < framesRq"
  obtains used wr' r' b' where "process_in_buf (recorded ch S) P r b framesRq framesWr = Ret (used, wr', r', b')"
    "in_buf_ok ch r'" "good b'" "room b' = room b" "rest b' = rest b" "framesWr \<le> wr'" "wr' \<le> framesRq"
    "in_buf_size r' = in_buf_size r" "frames_in r = used + frames_in r'" "used \<le> frames_in r" "frames_in r' = 0 \<or> wr' = framesRq"
    "used_up r' @ pending used r' = used_up r @ pending 0 r"
proof -
  let ?n = "unat (framesRq - framesWr)"
  obtain x l where xl: "speex_resampler r = (x, l)"
    by fastforce
  have c: "0 < ch" "unat (channel_count r) = ch" "length (in_buf r) = unat (in_buf_size r) * ch" "unat (frames_in r) \<le> unat (in_buf_size r)"
    using r by (simp_all add: in_buf_ok_def word_le_nat_alt)
  have le: "unat (frames_in r) * ch \<le> length (in_buf r)"
    using c by simp
  define inp where "inp = take (unat (frames_in r) * ch) (in_buf r)"
  have inp: "slice (in_buf r) 0 (unat (frames_in r) * ch) = Some inp" "length inp = unat (frames_in r) * ch"
    using le by (simp_all add: slice_def inp_def)
  obtain u out x' where spx: "spx_process S x inp ?n = (u, out, x')"
    by (metis prod_cases3)
  have "ch dvd length inp"
    by (simp add: inp)
  then have u: "u * ch \<le> length inp" "length out \<le> ?n * ch" "ch dvd length out" "u * ch = length inp \<or> length out = ?n * ch"
    using S spx unfolding speex_ok_def by (metis (mono_tags, lifting) case_prod_conv)+
  define o_frames where "o_frames = length out div ch"
  have of: "length out = o_frames * ch" "o_frames \<le> ?n"
    using u(2,3) c(1) by (auto simp: o_frames_def)
  have n: "?n = unat framesRq - unat framesWr" "unat framesWr < unat framesRq"
    using wr by (simp_all add: unat_sub word_less_nat_alt less_imp_le)
  have uf: "u \<le> unat (frames_in r)"
    using u(1) c(1) by (simp add: inp)
  then have uw: "unat (of_nat u :: 32 word) = u"
    using unsigned_less[of "frames_in r", where ?'a = nat] by (simp add: unat_of_nat)
  have ow: "unat (of_nat o_frames :: 32 word) = o_frames" "unat (framesWr + of_nat o_frames) = unat framesWr + o_frames"
    using of(2) n unsigned_less[of framesRq, where ?'a = nat] by (simp_all add: unat_of_nat unat_word_ariths)
  let ?r = "r\<lparr>speex_resampler := (x', l @ take (u * ch) inp), frames_in := frames_in r - of_nat u\<rparr>"
  have "unat framesWr * ch + length out \<le> unat framesRq * ch"
    using of n unfolding of(1) add_mult_distrib[symmetric] by (intro mult_le_mono1) linarith
  then obtain b' where b': "put_frames P b (unat framesWr * ch) out = Some b'" "good b'" "rest b' = rest b" "room b' = room b"
    using put[OF b(1), of "unat framesWr * ch" out] b(2) by auto
  have "process_in_buf (recorded ch S) P r b framesRq framesWr = Ret (of_nat u, framesWr + of_nat o_frames, ?r, b')"
    by (simp add: process_in_buf_def c(2) inp recorded_def xl spx b' o_frames_def)
  moreover have fr: "unat (frames_in r - of_nat u) = unat (frames_in r) - u"
    using uf uw by (simp add: unat_sub word_le_nat_alt)
  then have "in_buf_ok ch ?r"
    using r by (auto simp: in_buf_ok_def word_le_nat_alt)
  moreover have "frames_in ?r = 0 \<or> framesWr + of_nat o_frames = framesRq"
  proof -
    have "u = unat (frames_in r) \<or> o_frames = ?n"
      using u(4) of(1) inp(2) c(1) by auto
    then show ?thesis
      using fr ow n by (auto simp: word_unat_eq_iff)
  qed
  moreover have "used_up ?r @ pending (of_nat u) ?r = used_up r @ pending 0 r"
  proof -
    have "take (u * ch) inp @ take ((unat (frames_in r) - u) * ch) (drop (u * ch) (in_buf r)) = inp"
      using uf append_take_drop_id[of "u * ch" inp] by (simp add: inp_def drop_take diff_mult_distrib)
    then show ?thesis
      by (simp add: used_up_def pending_def xl c(2) fr uw inp_def[symmetric])
  qed
  ultimately show thesis
    using that[of "of_nat u" "framesWr + of_nat o_frames" ?r b'] b' uf uw ow of n
    by (simp add: word_le_nat_alt)
qed

lemma move_step:
  assumes "in_buf_ok ch r" "frames_in r = 0 \<or> unat at + unat (frames_in r) \<le> unat (in_buf_size r)"
  obtains r' where "move_in_buf at r = Ret r'" "in_buf_ok ch r'" "pending 0 r' = pending at r" "speex_resampler r' = speex_resampler r"
proof (cases "frames_in r = 0")
  case True
  then show thesis
    using assms that[of r] by (simp add: move_in_buf_def pending_def)
next
  case False
  have c: "unat (channel_count r) = ch" "length (in_buf r) = unat (in_buf_size r) * ch"
    using assms(1) by (simp_all add: in_buf_ok_def)
  have "(unat at + unat (frames_in r)) * ch \<le> unat (in_buf_size r) * ch"
    using assms(2) False by simp
  then have fits: "unat at * ch + unat (frames_in r) * ch \<le> length (in_buf r)"
    by (simp add: add_mult_distrib c)
  let ?p = "pending at r"
  have len: "length ?p = unat (frames_in r) * ch"
    using fits by (simp add: pending_def c)
  let ?r = "r\<lparr>in_buf := ?p @ drop (length ?p) (in_buf r)\<rparr>"
  have "move_in_buf at r = Ret ?r"
    using False fits len assms(2) by (simp add: move_in_buf_def slice_def blit_def c pending_def)
  moreover have "in_buf_ok ch ?r"
    using assms(1) fits len by (simp add: in_buf_ok_def)
  moreover have "pending 0 ?r = ?p"
    using len by (simp add: pending_def c)
  ultimately show thesis
    using that[of ?r] by simp
qed

lemma loop_conserves:
  assumes "in_buf_ok ch r" "good b" "unat rq * ch \<le> room b" "speex_ok S ch" "wr \<le> rq" "wr < rq \<Longrightarrow> at = 0 \<or> frames_in r = 0"
    "frames_in r = 0 \<or> unat at + unat (frames_in r) \<le> unat (in_buf_size r)"
  shows "\<exists>wr' r' b'. resample_loop (recorded ch S) P rq r b wr at = Some (Ret (wr', r', b')) \<and> in_buf_ok ch r' \<and> good b' \<and>
    wr' \<le> rq \<and> (wr' = rq \<or> rest b' = []) \<and> used_up r' @ pending 0 r' @ rest b' = used_up r @ pending at r @ rest b"
  using assms
proof (induction "unat (frames_in r) * ch + length (rest b) + unat (rq - wr)" arbitrary: r b wr at rule: less_induct)
  case less
  show ?case
  proof (cases "wr < rq")
    case False
    obtain r' where "move_in_buf at r = Ret r'" "in_buf_ok ch r'" "pending 0 r' = pending at r" "speex_resampler r' = speex_resampler r"
      using move_step[OF less.prems(1,7)] by blast
    then show ?thesis
      using False less.prems(2,5) by (subst resample_loop.simps) (simp add: used_up_def)
  next
    case True
    have pend: "pending at r = pending 0 r"
      using less.prems(6)[OF True] by (auto simp: pending_def)
    obtain go r1 b1 where fill: "fill_in_buf P r b = Ret (go, r1, b1)" "go \<Longrightarrow> frames_in r1 \<noteq> 0" "\<not> go \<Longrightarrow> rest b1 = [] \<and> frames_in r1 = frames_in r"
      "in_buf_ok ch r1" "good b1" "room b1 = room b" "pending 0 r1 @ rest b1 = pending 0 r @ rest b" "speex_resampler r1 = speex_resampler r"
      using fill_step[OF less.prems(1,2)] by blast
    show ?thesis
    proof (cases go)
      case False
      have "frames_in r1 = 0 \<or> at = 0"
        using fill(3) False less.prems(6)[OF True] by auto
      then have "frames_in r1 = 0 \<or> unat at + unat (frames_in r1) \<le> unat (in_buf_size r1)" and p1: "pending at r1 = pending 0 r1"
        using fill(4) by (auto simp: in_buf_ok_def word_le_nat_alt pending_def)
      then obtain r' where "move_in_buf at r1 = Ret r'" "in_buf_ok ch r'" "pending 0 r' = pending at r1" "speex_resampler r' = speex_resampler r1"
        using move_step[OF fill(4)] by blast
      then show ?thesis
        using True False fill less.prems(5) pend p1 by (subst resample_loop.simps) (simp add: used_up_def)
    next
      case go: True
      have room: "unat rq * ch \<le> room b1"
        using less.prems(3) fill(6) by simp
      obtain used wr2 r2 b2 where step: "process_in_buf (recorded ch S) P r1 b1 rq wr = Ret (used, wr2, r2, b2)"
        and 2: "in_buf_ok ch r2" "good b2" "room b2 = room b1" "rest b2 = rest b1" "wr \<le> wr2" "wr2 \<le> rq" and size: "in_buf_size r2 = in_buf_size r1"
        and 3: "frames_in r1 = used + frames_in r2" "used \<le> frames_in r1" "frames_in r2 = 0 \<or> wr2 = rq"
          "used_up r2 @ pending used r2 = used_up r1 @ pending 0 r1"
        using process_step[OF fill(4,5) room less.prems(4) True] by blast
      have sum: "unat (frames_in r1) = unat used + unat (frames_in r2)"
        using 3(1,2) by (metis add_diff_cancel_left' le_add_diff_inverse unat_sub word_le_nat_alt)
      have "unat (frames_in r1) * ch + length (rest b1) = unat (frames_in r) * ch + length (rest b)"
        using arg_cong[OF fill(7), of length] in_buf_pending[OF less.prems(1)] in_buf_pending[OF fill(4)] by simp
      moreover have "unat (frames_in r2) * ch \<le> unat (frames_in r1) * ch" "unat (rq - wr2) \<le> unat (rq - wr)"
        using sum 2(5,6) True by (simp_all add: unat_sub word_le_nat_alt word_less_nat_alt)
      moreover have "unat (frames_in r2) * ch < unat (frames_in r1) * ch \<or> unat (rq - wr2) < unat (rq - wr)"
      proof -
        have "0 < unat (frames_in r1) * ch" "0 < unat (rq - wr)"
          using fill(2)[OF go] fill(4) True by (auto simp: in_buf_ok_def unat_gt_0)
        then show ?thesis
          using 3(3) by auto
      qed
      ultimately have "unat (frames_in r2) * ch + length (rest b2) + unat (rq - wr2) < unat (frames_in r) * ch + length (rest b) + unat (rq - wr)"
        unfolding 2(4) by linarith
      note IH = less.hyps[OF this 2(1,2) _ less.prems(4) 2(6), of used]
      have "unat used + unat (frames_in r2) \<le> unat (in_buf_size r2)"
        using fill(4) sum size by (simp add: in_buf_ok_def word_le_nat_alt)
      then obtain wr' r' b' where "resample_loop (recorded ch S) P rq r2 b2 wr2 used = Some (Ret (wr', r', b'))" "in_buf_ok ch r'" "good b'"
        "wr' \<le> rq" "wr' = rq \<or> rest b' = []" "used_up r' @ pending 0 r' @ rest b' = used_up r2 @ pending used r2 @ rest b2"
        using IH 2(3) 3(3) room by auto
      moreover have "used_up r2 @ pending used r2 @ rest b2 = used_up r @ pending at r @ rest b"
        using 2(4) 3(4) fill(7,8) pend by (metis append_assoc used_up_def)
      ultimately show ?thesis
        using True go fill(1) step by (subst resample_loop.simps) simp
    qed
  qed
qed

text \<open>A call ends, and no frame is lost or used twice between the provider, the buffer and Speex.\<close>

lemma from_provider_conserves:
  assumes "has_provider r" "cache_needed n r = Some r0" "in_buf_ok ch r0" "good b" "unat n * ch \<le> room b" "speex_ok S ch"
  shows "\<exists>wr r' b'. resampler_resample_from_provider (recorded ch S) P r b n = Some (Ret (0, wr, r', b')) \<and> in_buf_ok ch r' \<and> good b' \<and>
    wr \<le> n \<and> (wr = n \<or> rest b' = []) \<and> used_up r' @ pending 0 r' @ rest b' = used_up r @ pending 0 r @ rest b"
proof -
  have "unat (0 :: 32 word) + unat (frames_in r0) \<le> unat (in_buf_size r0)"
    using assms(3) by (simp add: in_buf_ok_def word_le_nat_alt)
  then obtain wr r' b' where "resample_loop (recorded ch S) P n r0 b 0 0 = Some (Ret (wr, r', b'))" "in_buf_ok ch r'" "good b'"
    "wr \<le> n" "wr = n \<or> rest b' = []" "used_up r' @ pending 0 r' @ rest b' = used_up r0 @ pending 0 r0 @ rest b"
    using loop_conserves[OF assms(3-6), of 0 0] by auto
  moreover have "used_up r0 = used_up r" "pending 0 r0 = pending 0 r"
    using assms(2) by (auto simp: cache_needed_def used_up_def pending_def split: if_splits)
  ultimately show ?thesis
    using assms(1,2) by (simp add: resampler_resample_from_provider_def)
qed

end

end
