(* ===== verification/Echo_Reference.thy ===== *)
theory Echo_Reference
  imports Resampler_Provider
begin

text \<open>
  The echo reference of \<open>upil_audio/audio_utils/echo_reference.c\<close>: a buffer between the thread that
  plays sound (\<open>write\<close>) and the echo canceller (\<open>read\<close>), which mixes stereo to mono, resamples
  and aligns the frames in time.  The library \<open>libaudioutils\<close> contains it beside the resampler.

  Memory is a list of bytes; sizes have 32 bits, times are pairs of seconds and nanoseconds.  The code holds
  one lock in every operation, so an operation is one step; only the wait for more frames
  gives the lock away, and the argument \<open>wait\<close> of the model says what the other threads make of the state
  in that time.  Undefined behaviour (a copy outside a buffer, a \<open>memcpy\<close> onto itself, an overflow
  of a signed number, a division by 0) is \<open>Fault\<close>.
\<close>

section \<open>The state\<close>

definition ECHOREF_IDLE :: "32 word" where "ECHOREF_IDLE = 0"
definition ECHOREF_READING :: "32 word" where "ECHOREF_READING = 1"
definition ECHOREF_WRITING :: "32 word" where "ECHOREF_WRITING = 2"

lemmas echoref_defs = ECHOREF_IDLE_def ECHOREF_READING_def ECHOREF_WRITING_def

abbreviation (input) RESAMPLER_QUALITY_VOIP :: "32 word" where "RESAMPLER_QUALITY_VOIP \<equiv> 3"
abbreviation (input) MIN_DELAY_UPDATE_NS :: int where "MIN_DELAY_UPDATE_NS \<equiv> 62500"

text \<open>What \<open>wr_src_buf\<close> points to: nothing, the own buffer, or the caller's with its bytes.\<close>

datatype src_buf = NoSrc | WrBuf | CallerBuf "byte list"

record 'x echo_reference =
  er_state :: "32 word"
  rd_format :: int
  rd_channel_count :: "32 word"
  rd_sampling_rate :: "32 word"
  rd_frame_size :: "32 word"
  wr_format :: int
  wr_channel_count :: "32 word"
  wr_sampling_rate :: "32 word"
  wr_frame_size :: "32 word"
  er_buffer :: "byte list"
  buf_size :: "32 word"
  er_frames_in :: "32 word"
  wr_buf :: "byte list"
  wr_buf_size :: "32 word"
  wr_frames_in :: "32 word"
  wr_src_buf :: src_buf
  wr_render_time :: "int \<times> int"
  playback_delay :: int
  down_sampler :: "'x resampler option"

record echo_reference_buffer =
  raw_frames :: "byte list"
  frame_count :: "32 word"
  delay_ns :: int
  time_stamp :: "int \<times> int"

text \<open>\<open>realloc\<close> to a number of bytes, as for samples.\<close>

definition realloc_bytes :: "byte list \<Rightarrow> 32 word \<Rightarrow> byte list" where
  "realloc_bytes bs n = take (unat n) bs @ replicate (unat n - length bs) 0"

section \<open>The provider of frames for the resampler\<close>

definition src_mem :: "'x echo_reference \<Rightarrow> byte list" where
  "src_mem er = (case wr_src_buf er of NoSrc \<Rightarrow> [] | WrBuf \<Rightarrow> wr_buf er | CallerBuf bs \<Rightarrow> bs)"

definition echo_reference_get_next_buffer ::
  "'x echo_reference \<Rightarrow> 32 word \<Rightarrow> 16 word list option \<times> 32 word \<times> 'x echo_reference" where
  "echo_reference_get_next_buffer er n =
     (if wr_src_buf er = NoSrc \<or> wr_frames_in er = 0 then (None, 0, er)
      else
        let n = (if n > wr_frames_in er then wr_frames_in er else n);
            offset = (wr_buf_size er - wr_frames_in er) * rd_channel_count er
        in (Some (drop (unat offset) (samples (src_mem er))), n, er))"

definition echo_reference_release_buffer :: "'x echo_reference \<Rightarrow> 32 word \<Rightarrow> 'x echo_reference" where
  "echo_reference_release_buffer er n = er\<lparr>wr_frames_in := wr_frames_in er - n\<rparr>"

text \<open>The resampler writes to \<open>wr_buf\<close>.\<close>

definition put_wr_buf :: "'x echo_reference \<Rightarrow> nat \<Rightarrow> 16 word list \<Rightarrow> 'x echo_reference option" where
  "put_wr_buf er i ws = map_option (\<lambda>b. er\<lparr>wr_buf := b\<rparr>) (blit (wr_buf er) (2 * i) (sample_bytes ws))"

definition echo_provider :: "'x echo_reference buffer_provider" where
  "echo_provider =
     \<lparr>get_next_buffer = echo_reference_get_next_buffer, release_buffer = echo_reference_release_buffer, put_frames = put_wr_buf\<rparr>"

section \<open>Writing\<close>

definition echo_reference_reset_l :: "'x echo_reference \<Rightarrow> 'x echo_reference" where
  "echo_reference_reset_l er =
     er\<lparr>er_buffer := [], buf_size := 0, er_frames_in := 0, wr_buf := [], wr_buf_size := 0, wr_render_time := (0, 0)\<rparr>"

definition start_write :: "'x speex \<Rightarrow> 'x echo_reference \<Rightarrow> 'x echo_reference" where
  "start_write S er =
     (if er_state er AND ECHOREF_WRITING = 0
      then er\<lparr>down_sampler := map_option (resampler_reset S) (down_sampler er), er_state := er_state er OR ECHOREF_WRITING\<rparr>
      else er)"

definition grow_wr_buf :: "32 word \<Rightarrow> 'x echo_reference \<Rightarrow> 'x echo_reference" where
  "grow_wr_buf n er =
     (if wr_buf_size er < n then er\<lparr>wr_buf_size := n, wr_buf := realloc_bytes (wr_buf er) (n * rd_frame_size er)\<rparr> else er)"

text \<open>The mean of the two channels of \<open>n\<close> frames.\<close>

fun mix_stereo :: "16 word list \<Rightarrow> 16 word list" where
  "mix_stereo (l # r # ws) = of_int ((sint l + sint r) div 2) # mix_stereo ws"
| "mix_stereo _ = []"

definition mix_to_wr_buf :: "echo_reference_buffer \<Rightarrow> 'x echo_reference \<Rightarrow> 'x echo_reference option" where
  "mix_to_wr_buf b er =
     (if rd_channel_count er \<noteq> wr_channel_count er
      then do {
        src \<leftarrow> slice (raw_frames b) 0 (4 * unat (frame_count b));
        buf \<leftarrow> blit (wr_buf er) 0 (sample_bytes (mix_stereo (samples src)));
        Some (er\<lparr>wr_buf := buf\<rparr>) }
      else Some er)"

text \<open>The resampler is made when it is needed first; the result is the code of an error, or 0.\<close>

definition make_down_sampler :: "'x speex \<Rightarrow> 'x echo_reference \<Rightarrow> (int \<times> 'x echo_reference) option" where
  "make_down_sampler S er =
     (case down_sampler er of
       Some _ \<Rightarrow> Some (0, er)
     | None \<Rightarrow> do {
         (rc, r) \<leftarrow> create_resampler S (wr_sampling_rate er) (rd_sampling_rate er) (rd_channel_count er) RESAMPLER_QUALITY_VOIP True;
         if rc \<noteq> 0 then Some (- ENODEV, er) else Some (0, er\<lparr>down_sampler := r\<rparr>) })"

text \<open>The result of the conversion: a status, the number of frames and the state; the frames are
  in \<open>wr_buf\<close>.\<close>

definition resample_wr_buf ::
  "'x speex \<Rightarrow> echo_reference_buffer \<Rightarrow> 'x echo_reference \<Rightarrow> (int \<times> 32 word \<times> 'x echo_reference) run option" where
  "resample_wr_buf S b er =
     (if wr_sampling_rate er = rd_sampling_rate er then Some (Ret (0, frame_count b, er))
      else case make_down_sampler S er of
        None \<Rightarrow> Some Fault
      | Some (status, er) \<Rightarrow>
          if status \<noteq> 0 then Some (Ret (status, frame_count b, er))
          else (case down_sampler er of
              None \<Rightarrow> Some Fault
            | Some r \<Rightarrow>
                let er = er\<lparr>wr_src_buf := (if rd_channel_count er \<noteq> wr_channel_count er then WrBuf else CallerBuf (raw_frames b)),
                            wr_frames_in := frame_count b\<rparr>
                in map_option (\<lambda>x. run_bind x (\<lambda>(_, n, r, er). Ret (0, n, er\<lparr>down_sampler := Some r\<rparr>)))
                     (resampler_resample_from_provider S echo_provider r er (frame_count b))))"

definition convert_frames ::
  "'x speex \<Rightarrow> echo_reference_buffer \<Rightarrow> 'x echo_reference \<Rightarrow> (int \<times> 32 word \<times> byte list \<times> 'x echo_reference) run option" where
  "convert_frames S b er =
     (if rd_channel_count er \<noteq> wr_channel_count er \<or> rd_sampling_rate er \<noteq> wr_sampling_rate er
      then case mix_to_wr_buf b (grow_wr_buf (frame_count b) er) of
          None \<Rightarrow> Some Fault
        | Some er \<Rightarrow> map_option (\<lambda>x. run_bind x (\<lambda>(status, n, er). Ret (status, n, wr_buf er, er))) (resample_wr_buf S b er)
      else Some (Ret (0, frame_count b, raw_frames b, er)))"

definition append_frames :: "32 word \<Rightarrow> byte list \<Rightarrow> 'x echo_reference \<Rightarrow> 'x echo_reference option" where
  "append_frames n src er =
     (let er = (if er_frames_in er + n > buf_size er
                then er\<lparr>buf_size := er_frames_in er + n, er_buffer := realloc_bytes (er_buffer er) ((er_frames_in er + n) * rd_frame_size er)\<rparr>
                else er)
      in do {
        new \<leftarrow> slice src 0 (unat (n * rd_frame_size er));
        buf \<leftarrow> blit (er_buffer er) (unat (er_frames_in er * rd_frame_size er)) new;
        Some (er\<lparr>er_buffer := buf, er_frames_in := er_frames_in er + n\<rparr>) })"

definition echo_reference_write ::
  "'x speex \<Rightarrow> 'x echo_reference option \<Rightarrow> echo_reference_buffer option \<Rightarrow> (int \<times> 'x echo_reference option) run option" where
  "echo_reference_write S p buffer =
     (case p of None \<Rightarrow> Some (Ret (- EINVAL, None))
      | Some er \<Rightarrow>
     case buffer of
       None \<Rightarrow> Some (Ret (0, Some (echo_reference_reset_l (er\<lparr>er_state := er_state er AND NOT ECHOREF_WRITING\<rparr>))))
     | Some b \<Rightarrow>
         if time_stamp b = (0, 0) \<and> wr_render_time er = (0, 0) then Some (Ret (0, Some er))
         else
           let er = start_write S er
           in if er_state er AND ECHOREF_READING = 0 then Some (Ret (0, Some er))
              else map_option (\<lambda>x. run_bind x (\<lambda>(status, n, src, er).
                  if status \<noteq> 0 then Ret (status, Some er)
                  else run_bind (defined (append_frames n src er)) (\<lambda>er. Ret (0, Some er))))
                (convert_frames S b (er\<lparr>wr_render_time := time_stamp b, playback_delay := delay_ns b\<rparr>)))"

section \<open>Reading\<close>

text \<open>The wait for frames, with its time limit as the code computes it.\<close>

definition wait_frames ::
  "(int \<times> int \<Rightarrow> 'x echo_reference \<Rightarrow> 'x echo_reference) \<Rightarrow> echo_reference_buffer \<Rightarrow> 'x echo_reference \<Rightarrow>
     (echo_reference_buffer \<times> 'x echo_reference) option" where
  "wait_frames wait b er =
     (if er_frames_in er < frame_count b
      then if rd_sampling_rate er = 0 then None
           else
             let timeoutMs = 1000 * frame_count b div rd_sampling_rate er div 2;
                 er = wait (uint timeoutMs div 1000, uint timeoutMs mod 1000) er
             in Some (if er_frames_in er < frame_count b then b\<lparr>frame_count := er_frames_in er\<rparr> else b, er)
      else Some (b, er))"

text \<open>The difference of two times; \<open>abs\<close> takes an \<open>int\<close>, which cuts the 64-bit number.\<close>

definition time_diff :: "int \<times> int \<Rightarrow> int \<times> int \<Rightarrow> int" where
  "time_diff a b =
     (if snd a < snd b then (fst a - fst b - 1) * 1000000000 + (1000000000 + snd a - snd b)
      else (fst a - fst b) * 1000000000 + (snd a - snd b))"

definition abs_int :: "int \<Rightarrow> int option" where
  "abs_int x = (let y = signed_take_bit 31 x in if y = - (2 ^ 31) then None else Some \<bar>y\<bar>)"

definition expected_frames :: "int \<Rightarrow> 32 word \<Rightarrow> int option" where
  "expected_frames expected rate = (if expected * uint rate \<ge> 2 ^ 63 then None else Some (expected * uint rate div 1000000000))"

definition zero_fill :: "nat \<Rightarrow> nat \<Rightarrow> 'x echo_reference \<Rightarrow> 'x echo_reference option" where
  "zero_fill off n er = map_option (\<lambda>b. er\<lparr>er_buffer := b\<rparr>) (blit (er_buffer er) off (replicate n 0))"

text \<open>\<open>memcpy\<close> of \<open>n\<close> bytes from a place of the buffer to its beginning: undefined when the two overlap.\<close>

definition copy_down :: "nat \<Rightarrow> nat \<Rightarrow> 'x echo_reference \<Rightarrow> 'x echo_reference option" where
  "copy_down from n er =
     (if from < n then None
      else do {
        bs \<leftarrow> slice (er_buffer er) from n;
        buf \<leftarrow> blit (er_buffer er) 0 bs;
        Some (er\<lparr>er_buffer := buf\<rparr>) })"

definition stretch :: "int \<Rightarrow> 'x echo_reference \<Rightarrow> 'x echo_reference option" where
  "stretch expected er = do {
     f \<leftarrow> expected_frames expected (rd_sampling_rate er);
     let previous = er_frames_in er;
     let new = of_int f;
     let offset = sint (new - previous);
     let er = er\<lparr>er_frames_in := new\<rparr>;
     let er = (if new > buf_size er
               then er\<lparr>buf_size := new, er_buffer := realloc_bytes (er_buffer er) (new * rd_frame_size er)\<rparr> else er);
     if offset > 0 then zero_fill (unat (previous * rd_frame_size er)) (unat (of_int offset * rd_frame_size er)) er else Some er }"

definition shrink :: "int \<Rightarrow> 32 word \<Rightarrow> 'x echo_reference \<Rightarrow> 'x echo_reference option" where
  "shrink expected count er = do {
     f \<leftarrow> expected_frames expected (rd_sampling_rate er);
     let framesInInt = signed_take_bit 31 f;
     let offset = sint (er_frames_in er - of_int framesInInt);
     if framesInInt < sint count
     then do {
       er \<leftarrow> (if framesInInt > 0
              then zero_fill (unat (of_int framesInInt * rd_frame_size er)) (unat ((count - of_int framesInInt) * rd_frame_size er)) er
              else Some er);
       Some (er\<lparr>er_frames_in := count\<rparr>) }
     else do {
       er \<leftarrow> (if offset > 0
              then copy_down (unat (of_int offset * rd_frame_size er)) (unat (of_int framesInInt * rd_frame_size er)) er else Some er);
       Some (er\<lparr>er_frames_in := of_int framesInInt\<rparr>) } }"

definition expected_delay :: "echo_reference_buffer \<Rightarrow> 'x echo_reference \<Rightarrow> int" where
  "expected_delay b er = playback_delay er + delay_ns b - time_diff (time_stamp b) (wr_render_time er)"

definition align_frames :: "echo_reference_buffer \<Rightarrow> 'x echo_reference \<Rightarrow> 'x echo_reference option" where
  "align_frames b er =
     (if wr_render_time er = (0, 0) \<or> time_stamp b = (0, 0) then Some er
      else if \<bar>playback_delay er + delay_ns b\<bar> \<ge> 2 ^ 31 then None
      else
        let expected = expected_delay b er
        in if expected > 0
           then if rd_sampling_rate er = 0 then None
                else do {
                  let delayNs = uint (er_frames_in er) * 1000000000 div uint (rd_sampling_rate er) - expected;
                  d \<leftarrow> abs_int delayNs;
                  if d \<ge> MIN_DELAY_UPDATE_NS
                  then if delayNs < 0 then stretch expected er else shrink expected (frame_count b) er
                  else Some er }
           else Some er)"

definition take_frames :: "echo_reference_buffer \<Rightarrow> 'x echo_reference \<Rightarrow> (echo_reference_buffer \<times> 'x echo_reference) option" where
  "take_frames b er = do {
     let n = unat (frame_count b * rd_frame_size er);
     bs \<leftarrow> slice (er_buffer er) 0 n;
     out \<leftarrow> blit (raw_frames b) 0 bs;
     let left = er_frames_in er - frame_count b;
     er \<leftarrow> copy_down n (unat (left * rd_frame_size er)) er;
     Some (b\<lparr>raw_frames := out, delay_ns := 0\<rparr>, er\<lparr>er_frames_in := left\<rparr>) }"

definition echo_reference_read ::
  "(int \<times> int \<Rightarrow> 'x echo_reference \<Rightarrow> 'x echo_reference) \<Rightarrow> 'x echo_reference option \<Rightarrow> echo_reference_buffer option \<Rightarrow>
     (int \<times> echo_reference_buffer option \<times> 'x echo_reference option) option" where
  "echo_reference_read wait p buffer =
     (case p of None \<Rightarrow> Some (- EINVAL, buffer, None)
      | Some er \<Rightarrow>
     case buffer of
       None \<Rightarrow> Some (0, None, Some (er\<lparr>er_state := er_state er AND NOT ECHOREF_READING\<rparr>))
     | Some b \<Rightarrow>
         let er = (if er_state er AND ECHOREF_READING = 0
                   then (echo_reference_reset_l er)\<lparr>er_state := er_state er OR ECHOREF_READING\<rparr> else er)
         in if er_state er AND ECHOREF_WRITING = 0
            then do {
              out \<leftarrow> blit (raw_frames b) 0 (replicate (unat (rd_frame_size er * frame_count b)) 0);
              Some (0, Some (b\<lparr>raw_frames := out, delay_ns := 0\<rparr>), Some er) }
            else do {
              (b, er) \<leftarrow> wait_frames wait b er;
              er \<leftarrow> align_frames b er;
              (b, er) \<leftarrow> take_frames b er;
              Some (0, Some b, Some er) })"

section \<open>Creation and release\<close>

text \<open>\<open>fmt16\<close> is \<open>AUDIO_FORMAT_PCM_16_BIT\<close> and \<open>sample_size\<close> is \<open>audio_bytes_per_sample\<close> of the platform's headers.\<close>

definition create_echo_reference ::
  "int \<Rightarrow> (int \<Rightarrow> 32 word) \<Rightarrow> int \<Rightarrow> 32 word \<Rightarrow> 32 word \<Rightarrow> int \<Rightarrow> 32 word \<Rightarrow> 32 word \<Rightarrow> int \<times> 'x echo_reference option" where
  "create_echo_reference fmt16 sample_size rdFormat rdChannelCount rdSamplingRate wrFormat wrChannelCount wrSamplingRate =
     (if rdFormat \<noteq> fmt16 \<or> rdFormat \<noteq> wrFormat then (- EINVAL, None)
      else if (rdChannelCount \<noteq> 1 \<and> rdChannelCount \<noteq> 2) \<or> wrChannelCount \<noteq> 2 then (- EINVAL, None)
      else if wrSamplingRate < rdSamplingRate then (- EINVAL, None)
      else (0, Some \<lparr>er_state = ECHOREF_IDLE, rd_format = rdFormat, rd_channel_count = rdChannelCount, rd_sampling_rate = rdSamplingRate,
          rd_frame_size = sample_size rdFormat * rdChannelCount, wr_format = wrFormat, wr_channel_count = wrChannelCount,
          wr_sampling_rate = wrSamplingRate, wr_frame_size = sample_size wrFormat * wrChannelCount, er_buffer = [], buf_size = 0,
          er_frames_in = 0, wr_buf = [], wr_buf_size = 0, wr_frames_in = 0, wr_src_buf = NoSrc, wr_render_time = (0, 0),
          playback_delay = 0, down_sampler = None\<rparr>))"

text \<open>The two buffers, the resampler and the reference itself are freed.\<close>

definition release_echo_reference :: "'x echo_reference option \<Rightarrow> sound \<Rightarrow> sound" where
  "release_echo_reference p k =
     (case p of None \<Rightarrow> k
      | Some er \<Rightarrow> note_call SysFree (release_resampler (down_sampler er) (note_calls 2 SysFree k)))"

section \<open>A queue of frames\<close>

text \<open>
  The specification: a queue of bytes.  A write appends whole frames, a read of \<open>n\<close> frames takes
  what is there, up to \<open>n\<close> frames, from the front.  The queue has less than two gigabytes, and a read leaves at most
  as much as it takes: otherwise the code copies the rest of its buffer onto itself with
  \<open>memcpy\<close>.
\<close>

datatype echo_op = EchoWrite "byte list" | EchoRead nat

fun queue_step :: "nat \<Rightarrow> echo_op \<Rightarrow> byte list \<Rightarrow> (byte list \<times> byte list) option" where
  "queue_step fs (EchoWrite bs) q = (if fs dvd length bs \<and> length q + length bs < 2 ^ 31 then Some ([], q @ bs) else None)"
| "queue_step fs (EchoRead n) q =
     (let k = min (n * fs) (length q) in if length q - k \<le> k \<and> n * fs < 2 ^ 31 then Some (take k q, drop k q) else None)"

fun queue_run :: "nat \<Rightarrow> echo_op list \<Rightarrow> byte list \<Rightarrow> (byte list list \<times> byte list) option" where
  "queue_run fs [] q = Some ([], q)"
| "queue_run fs (a # as) q = do { (out, q) \<leftarrow> queue_step fs a q; (outs, q) \<leftarrow> queue_run fs as q; Some (out # outs, q) }"

text \<open>The same operations of the code.  The reader has no time stamp, and no other thread writes while it waits.\<close>

definition echo_step :: "'x speex \<Rightarrow> echo_op \<Rightarrow> 'x echo_reference \<Rightarrow> (byte list \<times> 'x echo_reference) option" where
  "echo_step S a er =
     (case a of
       EchoWrite bs \<Rightarrow>
         (case echo_reference_write S (Some er)
             (Some \<lparr>raw_frames = bs, frame_count = of_nat (length bs) div rd_frame_size er, delay_ns = 0, time_stamp = (1, 0)\<rparr>) of
           Some (Ret (rc, Some er)) \<Rightarrow> if rc = 0 then Some ([], er) else None | _ \<Rightarrow> None)
     | EchoRead n \<Rightarrow>
         (case echo_reference_read (\<lambda>_ er. er) (Some er)
             (Some \<lparr>raw_frames = replicate (n * unat (rd_frame_size er)) 0, frame_count = of_nat n, delay_ns = 0, time_stamp = (0, 0)\<rparr>) of
           Some (rc, Some b, Some er) \<Rightarrow> if rc = 0 then Some (take (unat (frame_count b * rd_frame_size er)) (raw_frames b), er) else None | _ \<Rightarrow> None))"

fun echo_run :: "'x speex \<Rightarrow> echo_op list \<Rightarrow> 'x echo_reference \<Rightarrow> (byte list list \<times> 'x echo_reference) option" where
  "echo_run S [] er = Some ([], er)"
| "echo_run S (a # as) er = do { (out, er) \<leftarrow> echo_step S a er; (outs, er) \<leftarrow> echo_run S as er; Some (out # outs, er) }"

text \<open>The buffer has the size it says and holds its frames of \<open>fs\<close> bytes.\<close>

definition echo_ok :: "nat \<Rightarrow> 'x echo_reference \<Rightarrow> bool" where
  "echo_ok fs er \<longleftrightarrow> 0 < fs \<and> unat (rd_frame_size er) = fs \<and> er_frames_in er \<le> buf_size er \<and>
     length (er_buffer er) = unat (buf_size er) * fs \<and> unat (buf_size er) * fs < 2 ^ 31"

definition echo_active :: "'x echo_reference \<Rightarrow> bool" where
  "echo_active er \<longleftrightarrow> er_state er AND ECHOREF_READING \<noteq> 0 \<and> er_state er AND ECHOREF_WRITING \<noteq> 0"

text \<open>A reference between two threads of the same format, both active.\<close>

definition echo_plain :: "nat \<Rightarrow> 'x echo_reference \<Rightarrow> bool" where
  "echo_plain fs er \<longleftrightarrow> echo_ok fs er \<and> echo_active er \<and> rd_channel_count er = wr_channel_count er \<and>
     wr_sampling_rate er = rd_sampling_rate er \<and> rd_sampling_rate er \<noteq> 0"

definition echo_queue :: "'x echo_reference \<Rightarrow> byte list" where
  "echo_queue er = take (unat (er_frames_in er) * unat (rd_frame_size er)) (er_buffer er)"

lemma unat_frames:
  fixes n fs :: "32 word"
  assumes "unat n * unat fs < 2 ^ 31"
  shows "unat (n * fs) = unat n * unat fs"
  using assms by (simp add: unat_word_ariths)

lemma length_echo_queue:
  assumes "echo_ok fs er"
  shows "length (echo_queue er) = unat (er_frames_in er) * fs"
  using assms by (simp add: echo_ok_def echo_queue_def word_le_nat_alt)

lemma append_frames_queue:
  assumes er: "echo_ok fs er" and n: "(unat (er_frames_in er) + unat n) * fs < 2 ^ 31" and src: "unat n * fs \<le> length src"
  shows "\<exists>buf size f. append_frames n src er = Some (er\<lparr>er_buffer := buf, buf_size := size, er_frames_in := f\<rparr>) \<and>
    echo_ok fs (er\<lparr>er_buffer := buf, buf_size := size, er_frames_in := f\<rparr>) \<and>
    echo_queue (er\<lparr>er_buffer := buf, buf_size := size, er_frames_in := f\<rparr>) = echo_queue er @ take (unat n * fs) src"
proof -
  have e: "0 < fs" "unat (rd_frame_size er) = fs" "unat (er_frames_in er) \<le> unat (buf_size er)"
    "length (er_buffer er) = unat (buf_size er) * fs"
    using er by (simp_all add: echo_ok_def word_le_nat_alt)
  have sum: "unat (er_frames_in er + n) = unat (er_frames_in er) + unat n"
    using unat_add_frames[OF n e(1)] .
  define g where "g = (if er_frames_in er + n > buf_size er
      then er\<lparr>buf_size := er_frames_in er + n, er_buffer := realloc_bytes (er_buffer er) ((er_frames_in er + n) * rd_frame_size er)\<rparr> else er)"
  have "unat ((er_frames_in er + n) * rd_frame_size er) = (unat (er_frames_in er) + unat n) * fs"
    using unat_frames[of "er_frames_in er + n" "rd_frame_size er"] n by (simp add: sum e(2))
  then have g: "echo_ok fs g" "echo_queue g = echo_queue er" "er_frames_in g = er_frames_in er" "rd_frame_size g = rd_frame_size er"
    "unat (er_frames_in er) + unat n \<le> unat (buf_size g)"
  proof -
    assume bytes: "unat ((er_frames_in er + n) * rd_frame_size er) = (unat (er_frames_in er) + unat n) * fs"
    have le: "unat (buf_size er) * fs \<le> (unat (er_frames_in er) + unat n) * fs" if "buf_size er < er_frames_in er + n"
      using that sum by (simp add: word_less_nat_alt)
    have fits: "unat (er_frames_in er) * fs \<le> unat (buf_size er) * fs"
      using e(3) by simp
    show "echo_ok fs g"
      using er n le bytes e(4) unfolding g_def echo_ok_def realloc_bytes_def by (auto simp: sum word_le_nat_alt)
    show "echo_queue g = echo_queue er"
      using fits le bytes e(4) unfolding g_def echo_queue_def realloc_bytes_def by (auto simp: e(2))
    show "er_frames_in g = er_frames_in er" "rd_frame_size g = rd_frame_size er" "unat (er_frames_in er) + unat n \<le> unat (buf_size g)"
      unfolding g_def by (auto simp: sum not_less word_le_nat_alt)
  qed
  define new where "new = take (unat n * fs) src"
  let ?buf = "take (unat (er_frames_in er) * fs) (er_buffer g) @ new @ drop (unat (er_frames_in er) * fs + unat n * fs) (er_buffer g)"
  let ?er = "g\<lparr>er_buffer := ?buf, er_frames_in := er_frames_in er + n\<rparr>"
  have b: "unat (n * rd_frame_size er) = unat n * fs" "unat (er_frames_in er * rd_frame_size er) = unat (er_frames_in er) * fs"
    using unat_frames[of n "rd_frame_size er"] unat_frames[of "er_frames_in er" "rd_frame_size er"] n by (simp_all add: e(2) add_mult_distrib)
  have gb: "length (er_buffer g) = unat (buf_size g) * fs"
    using g(1) by (simp add: echo_ok_def)
  have "(unat (er_frames_in er) + unat n) * fs \<le> unat (buf_size g) * fs"
    using g(5) by simp
  then have fits: "unat (er_frames_in er) * fs + unat n * fs \<le> length (er_buffer g)"
    by (simp add: add_mult_distrib gb)
  have new: "slice src 0 (unat n * fs) = Some new" "length new = unat n * fs"
    using src by (simp_all add: slice_def new_def)
  have "append_frames n src er = Some ?er"
    using fits new unfolding append_frames_def g_def[symmetric] Let_def by (simp add: g b blit_def)
  moreover have "echo_ok fs ?er"
    using g(1,5) fits gb new(2) by (auto simp: echo_ok_def sum word_le_nat_alt)
  moreover have "echo_queue ?er = echo_queue er @ new"
    using fits new(2) unfolding g(2)[symmetric] by (simp add: echo_queue_def g(3,4) e(2) sum add_mult_distrib)
  moreover have "?er = er\<lparr>er_buffer := ?buf, buf_size := buf_size g, er_frames_in := er_frames_in er + n\<rparr>"
    by (simp add: g_def)
  ultimately show ?thesis
    unfolding new_def[symmetric] by metis
qed

lemma echo_write_step:
  assumes er: "echo_plain fs er" and q: "queue_step fs (EchoWrite bs) (echo_queue er) = Some (out, q')"
  shows "\<exists>er'. echo_step S (EchoWrite bs) er = Some (out, er') \<and> echo_plain fs er' \<and> echo_queue er' = q'"
proof -
  let ?n = "of_nat (length bs) div rd_frame_size er"
  let ?e = "er\<lparr>wr_render_time := (1, 0), playback_delay := 0\<rparr>"
  have e: "echo_ok fs er" "0 < fs" "unat (rd_frame_size er) = fs"
    using er by (simp_all add: echo_plain_def echo_ok_def)
  have b: "fs dvd length bs" "length (echo_queue er) + length bs < 2 ^ 31" "out = []" "q' = echo_queue er @ bs"
    using q by (simp_all split: if_splits)
  have n: "unat ?n * fs = length bs"
    using b(1,2) e(3) by (simp add: unat_div unat_of_nat)
  have "echo_ok fs ?e" "echo_queue ?e = echo_queue er"
    using e(1) by (simp_all add: echo_ok_def echo_queue_def)
  moreover have "(unat (er_frames_in ?e) + unat ?n) * fs < 2 ^ 31"
    using b(2) n by (simp add: add_mult_distrib length_echo_queue[OF e(1)])
  ultimately obtain buf size f where er': "append_frames ?n bs ?e = Some (?e\<lparr>er_buffer := buf, buf_size := size, er_frames_in := f\<rparr>)"
    "echo_ok fs (?e\<lparr>er_buffer := buf, buf_size := size, er_frames_in := f\<rparr>)"
    "echo_queue (?e\<lparr>er_buffer := buf, buf_size := size, er_frames_in := f\<rparr>) = echo_queue er @ bs"
    using append_frames_queue[of fs ?e ?n bs] n by (metis order_refl take_all)
  have p: "start_write S er = er" "er_state er AND ECHOREF_READING \<noteq> 0" "rd_channel_count er = wr_channel_count er"
    "wr_sampling_rate er = rd_sampling_rate er"
    using er by (simp_all add: start_write_def echo_plain_def echo_active_def)
  then have "echo_reference_write S (Some er) (Some \<lparr>raw_frames = bs, frame_count = ?n, delay_ns = 0, time_stamp = (1, 0)\<rparr>) =
      Some (Ret (0, Some (?e\<lparr>er_buffer := buf, buf_size := size, er_frames_in := f\<rparr>)))"
    using er'(1) by (simp add: echo_reference_write_def Let_def convert_frames_def)
  then show ?thesis
    using er er'(2,3) b(3,4) p by (simp add: echo_step_def echo_plain_def echo_active_def)
qed

lemma take_frames_queue:
  assumes er: "echo_plain fs er" and n: "frame_count b \<le> er_frames_in er" "unat (er_frames_in er) - unat (frame_count b) \<le> unat (frame_count b)"
    and raw: "unat (frame_count b) * fs \<le> length (raw_frames b)"
  shows "\<exists>er' b'. take_frames b er = Some (b', er') \<and> echo_plain fs er' \<and> rd_frame_size er' = rd_frame_size er \<and>
    frame_count b' = frame_count b \<and> take (unat (frame_count b) * fs) (raw_frames b') = take (unat (frame_count b) * fs) (echo_queue er) \<and>
    echo_queue er' = drop (unat (frame_count b) * fs) (echo_queue er)"
proof -
  define k l where "k = unat (frame_count b)" and "l = unat (er_frames_in er) - k"
  have e: "0 < fs" "unat (rd_frame_size er) = fs" "unat (er_frames_in er) = k + l" "k + l \<le> unat (buf_size er)"
    "length (er_buffer er) = unat (buf_size er) * fs" "unat (buf_size er) * fs < 2 ^ 31"
    using er n by (simp_all add: echo_plain_def echo_ok_def word_le_nat_alt k_def l_def)
  have "(k + l) * fs \<le> unat (buf_size er) * fs"
    using e(4) by simp
  then have fits: "k * fs + l * fs \<le> length (er_buffer er)" "k * fs + l * fs < 2 ^ 31"
    using e(5,6) by (simp_all add: add_mult_distrib)
  have left: "unat (er_frames_in er - frame_count b) = l"
    using n(1) by (simp add: unat_sub l_def k_def)
  have bytes: "unat (frame_count b * rd_frame_size er) = k * fs" "unat ((er_frames_in er - frame_count b) * rd_frame_size er) = l * fs"
    using unat_frames[of "frame_count b" "rd_frame_size er"] unat_frames[of "er_frames_in er - frame_count b" "rd_frame_size er"] fits(2)
    by (simp_all add: e(2) left k_def[symmetric])
  have lk: "\<not> k < l"
    using n(2) by (simp add: l_def k_def)
  let ?out = "take (k * fs) (er_buffer er) @ drop (k * fs) (raw_frames b)"
  let ?rest = "take (l * fs) (drop (k * fs) (er_buffer er))"
  let ?er = "er\<lparr>er_buffer := ?rest @ drop (l * fs) (er_buffer er), er_frames_in := er_frames_in er - frame_count b\<rparr>"
  have "take_frames b er = Some (b\<lparr>raw_frames := ?out, delay_ns := 0\<rparr>, ?er)"
    using fits lk raw by (simp add: take_frames_def bytes slice_def blit_def copy_down_def Let_def k_def[symmetric])
  moreover have "echo_plain fs ?er"
    using er fits e(4,5) by (auto simp: echo_plain_def echo_ok_def echo_active_def word_le_nat_alt left)
  moreover have "echo_queue ?er = drop (k * fs) (echo_queue er)"
    using fits by (simp add: echo_queue_def left e(2,3) add_mult_distrib drop_take)
  moreover have "take (k * fs) ?out = take (k * fs) (echo_queue er)"
    using fits by (simp add: echo_queue_def e(2,3) add_mult_distrib)
  ultimately show ?thesis
    by (simp add: k_def)
qed

lemma echo_read_step:
  assumes er: "echo_plain fs er" and q: "queue_step fs (EchoRead n) (echo_queue er) = Some (out, q')"
  shows "\<exists>er'. echo_step S (EchoRead n) er = Some (out, er') \<and> echo_plain fs er' \<and> echo_queue er' = q'"
proof -
  define f where "f = unat (er_frames_in er)"
  have e: "0 < fs" "unat (rd_frame_size er) = fs" "rd_sampling_rate er \<noteq> 0" "er_state er AND ECHOREF_READING \<noteq> 0"
    "er_state er AND ECHOREF_WRITING \<noteq> 0" and len: "length (echo_queue er) = f * fs"
    using er length_echo_queue[of fs er] by (simp_all add: echo_plain_def echo_ok_def echo_active_def f_def)
  have k: "min (n * fs) (f * fs) = min n f * fs"
    by (simp add: min_def)
  have q': "f * fs - min n f * fs \<le> min n f * fs" "n * fs < 2 ^ 31" "out = take (min n f * fs) (echo_queue er)" "q' = drop (min n f * fs) (echo_queue er)"
    using q unfolding queue_step.simps Let_def len k by (simp_all split: if_splits)
  have n: "unat (of_nat n :: 32 word) = n"
    using frames_less[OF q'(2) e(1)] by (simp add: unat_of_nat)
  define c where "c = (if er_frames_in er < of_nat n then er_frames_in er else of_nat n)"
  have c: "unat c = min n f" "c \<le> er_frames_in er"
    by (auto simp: c_def f_def word_less_nat_alt word_le_nat_alt n min_def)
  let ?b = "\<lparr>raw_frames = replicate (n * fs) 0, frame_count = of_nat n, delay_ns = 0, time_stamp = (0, 0)\<rparr> :: echo_reference_buffer"
  let ?c = "?b\<lparr>frame_count := c\<rparr>"
  have w: "wait_frames (\<lambda>_ er. er) ?b er = Some (?c, er)"
    using e(3) by (simp add: wait_frames_def Let_def c_def)
  have "(f - min n f) * fs \<le> min n f * fs"
    using q'(1) by (simp add: diff_mult_distrib)
  then have "unat (er_frames_in er) - unat c \<le> unat c"
    using e(1) c(1) by (simp add: f_def)
  moreover have "unat c * fs \<le> length (raw_frames ?c)"
    using c(1) by simp
  ultimately obtain er' b' where t: "take_frames ?c er = Some (b', er')" "echo_plain fs er'" "rd_frame_size er' = rd_frame_size er"
    "frame_count b' = c" "take (unat c * fs) (raw_frames b') = take (unat c * fs) (echo_queue er)" "echo_queue er' = drop (unat c * fs) (echo_queue er)"
    using take_frames_queue[OF er, of ?c] c(2) by auto
  have "unat c * fs < 2 ^ 31"
    using q'(2) unfolding c(1) by (rule le_less_trans[rotated]) simp
  then have "unat (c * rd_frame_size er) = unat c * fs"
    using unat_frames[of c "rd_frame_size er"] by (simp add: e(2))
  moreover have "echo_reference_read (\<lambda>_ er. er) (Some er) (Some ?b) = Some (0, Some b', Some er')"
    using e(4,5) w t(1) by (simp add: echo_reference_read_def align_frames_def)
  ultimately show ?thesis
    using t e(2) q'(3,4) c(1) by (simp add: echo_step_def)
qed


text \<open>Two frames of four bytes are written and read one after the other.\<close>

definition echo_example :: "unit echo_reference" where
  "echo_example = the (snd (create_echo_reference 1 (\<lambda>_. 2) 1 2 8000 1 2 8000))\<lparr>er_state := ECHOREF_READING OR ECHOREF_WRITING\<rparr>"

lemma echo_example_plain: "echo_plain 4 echo_example" "echo_queue echo_example = []"
  by (simp_all add: echo_example_def create_echo_reference_def echo_plain_def echo_ok_def echo_active_def echo_queue_def echoref_defs)


section \<open>Frames for the resampler\<close>

text \<open>
  The provider keeps the contract for stereo frames of the caller's buffer, as long as that buffer is as long as
  \<open>wr_buf\<close>: \<open>get_next_buffer\<close> computes its place from \<open>wr_buf_size\<close>.  The operations
  change \<open>wr_buf\<close> and \<open>wr_frames_in\<close> of the state \<open>e\<close> at the beginning.
\<close>

definition echo_good :: "'x echo_reference \<Rightarrow> 'x echo_reference \<Rightarrow> bool" where
  "echo_good e er \<longleftrightarrow> er\<lparr>wr_buf := wr_buf e, wr_frames_in := wr_frames_in e\<rparr> = e \<and> length (wr_buf er) = length (wr_buf e) \<and>
     (\<exists>bs. wr_src_buf er = CallerBuf bs \<and> length bs = 4 * unat (wr_buf_size er)) \<and> rd_channel_count er = 2 \<and>
     wr_frames_in er \<le> wr_buf_size er \<and> unat (wr_buf_size er) < 2 ^ 29"

definition echo_rest :: "'x echo_reference \<Rightarrow> 16 word list" where
  "echo_rest er = drop (2 * (unat (wr_buf_size er) - unat (wr_frames_in er))) (samples (src_mem er))"

definition echo_room :: "'x echo_reference \<Rightarrow> nat" where
  "echo_room er = length (wr_buf er) div 2"

lemma echo_good_frame: "echo_good e er \<Longrightarrow> er = e\<lparr>wr_buf := wr_buf er, wr_frames_in := wr_frames_in er\<rparr>"
  unfolding echo_good_def by (cases er; cases e) simp

lemma length_echo_rest:
  assumes "echo_good e er"
  shows "length (echo_rest er) = 2 * unat (wr_frames_in er)"
  using assms by (auto simp: echo_good_def echo_rest_def src_mem_def word_le_nat_alt)

lemma echo_get:
  assumes er: "echo_good e er"
  shows "echo_reference_get_next_buffer er n =
    (if wr_frames_in er = 0 then (None, 0, er) else (Some (echo_rest er), min n (wr_frames_in er), er))"
proof -
  have le: "wr_frames_in er \<le> wr_buf_size er" "unat (wr_buf_size er) < 2 ^ 29" "rd_channel_count er = 2" "wr_src_buf er \<noteq> NoSrc"
    using er by (auto simp: echo_good_def)
  have "unat ((wr_buf_size er - wr_frames_in er) * 2) = 2 * (unat (wr_buf_size er) - unat (wr_frames_in er))"
    using le(1,2) by (simp add: unat_word_ariths unat_sub word_le_nat_alt)
  then show ?thesis
    using le by (auto simp: echo_reference_get_next_buffer_def Let_def echo_rest_def min_def dest: leD)
qed

interpretation echo: frame_provider echo_provider 2 "echo_good e" echo_rest echo_room for e
proof unfold_locales
  fix e er er' :: "'a echo_reference" and n m :: "32 word" and ws :: "16 word list"
  assume er: "echo_good e er" and n: "0 < n"
  {
    assume "get_next_buffer echo_provider er n = (None, m, er')"
    then show "er' = er \<and> echo_rest er = []"
      using length_echo_rest[OF er] by (simp add: echo_provider_def echo_get[OF er] split: if_splits)
  next
    assume "get_next_buffer echo_provider er n = (Some ws, m, er')"
    then show "er' = er \<and> 0 < m \<and> m \<le> n \<and> unat m * 2 \<le> length (echo_rest er) \<and> unat m * 2 \<le> length ws \<and>
        take (unat m * 2) ws = take (unat m * 2) (echo_rest er)"
      using length_echo_rest[OF er] n by (auto simp: echo_provider_def echo_get[OF er] min_def word_le_nat_alt word_neq_0_conv split: if_splits)
  }
next
  fix e er :: "'a echo_reference" and m :: "32 word"
  assume er: "echo_good e er" and m: "unat m * 2 \<le> length (echo_rest er)"
  then have le: "m \<le> wr_frames_in er" "unat (wr_frames_in er) \<le> unat (wr_buf_size er)"
    using length_echo_rest[OF er] by (auto simp: word_le_nat_alt echo_good_def)
  then have "unat (wr_frames_in er - m) = unat (wr_frames_in er) - unat m"
    "2 * (unat (wr_buf_size er) + unat m - unat (wr_frames_in er)) = unat m * 2 + 2 * (unat (wr_buf_size er) - unat (wr_frames_in er))"
    by (simp_all add: unat_sub word_le_nat_alt)
  then show "echo_good e (release_buffer echo_provider er m) \<and> echo_rest (release_buffer echo_provider er m) = drop (unat m * 2) (echo_rest er) \<and>
      echo_room (release_buffer echo_provider er m) = echo_room er"
    using er le by (auto simp: echo_provider_def echo_reference_release_buffer_def echo_good_def echo_rest_def echo_room_def src_mem_def word_le_nat_alt)
next
  fix e er :: "'a echo_reference" and i :: nat and ws :: "16 word list"
  assume er: "echo_good e er" and i: "i + length ws \<le> echo_room er"
  then have "2 * i + 2 * length ws \<le> length (wr_buf er)"
    by (simp add: echo_room_def)
  then show "\<exists>er'. put_frames echo_provider er i ws = Some er' \<and> echo_good e er' \<and> echo_rest er' = echo_rest er \<and> echo_room er' = echo_room er"
    using er by (auto simp: echo_provider_def put_wr_buf_def blit_def echo_good_def echo_rest_def echo_room_def src_mem_def)
qed

text \<open>The conversion of stereo frames by the resampler, in a reference whose \<open>wr_buf\<close> is as long as the caller's buffer.\<close>

lemma resample_wr_buf_conserves:
  fixes e :: "('x \<times> 16 word list) echo_reference"
  assumes e: "rd_channel_count e = 2" "wr_channel_count e = 2" "wr_sampling_rate e \<noteq> rd_sampling_rate e" "wr_buf_size e = frame_count b"
      "length (wr_buf e) = 4 * unat (frame_count b)"
    and r: "down_sampler e = Some r" "has_provider r" "cache_needed (frame_count b) r = Some r0" "in_buf_ok 2 r0"
    and b: "length (raw_frames b) = 4 * unat (frame_count b)" "unat (frame_count b) < 2 ^ 29" and S: "speex_ok S 2"
  obtains wr r' w f q where "resample_wr_buf (recorded 2 S) b e = Some (Ret (0, wr, q))" "length (wr_buf q) = 4 * unat (frame_count b)"
    "q = e\<lparr>wr_src_buf := CallerBuf (raw_frames b), wr_buf := w, wr_frames_in := f, down_sampler := Some r'\<rparr>"
    "in_buf_ok 2 r'" "wr \<le> frame_count b" "wr = frame_count b \<or> echo_rest q = []"
    "used_up r' @ pending 0 r' @ echo_rest q = used_up r @ pending 0 r @ samples (raw_frames b)"
proof -
  let ?n = "frame_count b"
  define p where "p = e\<lparr>wr_src_buf := CallerBuf (raw_frames b), wr_frames_in := ?n\<rparr>"
  have good: "echo_good p p" and room: "unat ?n * 2 \<le> echo_room p" and rest: "echo_rest p = samples (raw_frames b)"
    using b e by (simp_all add: echo_good_def echo_room_def echo_rest_def src_mem_def p_def)
  obtain wr r' p' where run: "resampler_resample_from_provider (recorded 2 S) echo_provider r p ?n = Some (Ret (0, wr, r', p'))"
    and p': "in_buf_ok 2 r'" "echo_good p p'" "wr \<le> ?n" "wr = ?n \<or> echo_rest p' = []"
      "used_up r' @ pending 0 r' @ echo_rest p' = used_up r @ pending 0 r @ samples (raw_frames b)"
    using echo.from_provider_conserves[OF r(2-4) good room S] unfolding rest by blast
  obtain w f where eq: "p' = p\<lparr>wr_buf := w, wr_frames_in := f\<rparr>"
    using echo_good_frame[OF p'(2)] by blast
  let ?q = "p'\<lparr>down_sampler := Some r'\<rparr>"
  have "resample_wr_buf (recorded 2 S) b e = Some (Ret (0, wr, ?q))"
    using e(1-3) r(1) run by (simp add: resample_wr_buf_def make_down_sampler_def p_def[symmetric] Let_def)
  moreover have "?q = e\<lparr>wr_src_buf := CallerBuf (raw_frames b), wr_buf := w, wr_frames_in := f, down_sampler := Some r'\<rparr>"
    by (simp add: eq p_def)
  moreover have "length (wr_buf ?q) = 4 * unat ?n"
    using p'(2) e(5) by (simp add: echo_good_def p_def)
  moreover have "echo_rest ?q = echo_rest p'"
    by (simp add: echo_rest_def src_mem_def eq p_def)
  note p'(4,5)[folded this]
  ultimately show thesis
    using that[OF _ _ _ p'(1,3)] by metis
qed


text \<open>A Speex that copies its input, and a reference from 16000 to 8000 frames a second with a new resampler.\<close>

definition copy_speex :: "unit speex" where
  "copy_speex =
     \<lparr>spx_init = \<lambda>_ _ _ _. Some (), spx_process = \<lambda>_ ws n. (let u = min (length ws div 2) n in (u, take (2 * u) ws, ())),
      spx_reset_mem = \<lambda>x. x, spx_input_latency = \<lambda>_. 0, spx_output_latency = \<lambda>_. 0\<rparr>"

definition new_resampler :: "(unit \<times> 16 word list) resampler" where
  "new_resampler = the (snd (the (create_resampler (recorded 2 copy_speex) 16000 8000 2 RESAMPLER_QUALITY_VOIP True)))"

definition two_rates :: "(unit \<times> 16 word list) echo_reference" where
  "two_rates = the (snd (create_echo_reference 1 (\<lambda>_. 2) 1 2 8000 1 2 16000))
     \<lparr>er_state := ECHOREF_READING OR ECHOREF_WRITING, down_sampler := Some new_resampler\<rparr>"

definition two_frames :: echo_reference_buffer where
  "two_frames = \<lparr>raw_frames = [1, 2, 3, 4, 5, 6, 7, 8], frame_count = 2, delay_ns = 0, time_stamp = (1, 0)\<rparr>"

lemma copy_speex_ok: "speex_ok copy_speex 2"
  by (auto simp: speex_ok_def copy_speex_def Let_def min_def)

lemma new_resampler_eq:
  "new_resampler = \<lparr>speex_resampler = ((), []), has_provider = True, in_sample_rate = 16000, out_sample_rate = 8000, channel_count = 2,
     in_buf = [], in_buf_size = 0, frames_in = 0, frames_rq = 0, frames_needed = 0, speex_delay_ns = 0\<rparr>"
  by (simp add: new_resampler_def create_resampler_def recorded_def copy_speex_def resampler_reset_def frames_ns_def Let_def)

lemma two_rates_ok:
  "echo_ok 4 two_rates" "echo_active two_rates" "rd_channel_count two_rates = 2" "wr_channel_count two_rates = 2"
  "wr_sampling_rate two_rates \<noteq> rd_sampling_rate two_rates" "length (wr_buf two_rates) = 4 * unat (wr_buf_size two_rates)"
  "down_sampler two_rates = Some new_resampler" "wr_buf_size two_rates = 0" "er_frames_in two_rates = 0" "echo_queue two_rates = []"
  by (simp_all add: two_rates_def create_echo_reference_def echo_ok_def echo_active_def echoref_defs echo_queue_def)


section \<open>Alignment in time\<close>

text \<open>
  Stretching and shrinking keep the buffer's bounds, and leave at least the frames that the reader takes.
\<close>

lemma zero_fill_ok:
  assumes "echo_ok fs er" "zero_fill off n er = Some er'"
  shows "echo_ok fs er'" "er_frames_in er' = er_frames_in er" "rd_sampling_rate er' = rd_sampling_rate er"
  using assms by (auto simp: zero_fill_def echo_ok_def dest: blit_length)

lemma copy_down_ok:
  assumes "echo_ok fs er" "copy_down from n er = Some er'"
  shows "echo_ok fs er'" "er_frames_in er' = er_frames_in er"
  using assms by (auto simp: copy_down_def echo_ok_def bind_eq_Some_conv dest: blit_length split: if_splits)

lemma fewer_frames_ok: "echo_ok fs er \<Longrightarrow> f \<le> er_frames_in er \<Longrightarrow> echo_ok fs (er\<lparr>er_frames_in := f\<rparr>)"
  by (auto simp: echo_ok_def)

lemma stretch_ok:
  assumes er: "echo_ok fs er" and s: "stretch expected er = Some er'"
    and f: "expected_frames expected (rd_sampling_rate er) = Some (int F)" "unat (er_frames_in er) \<le> F" "F * fs < 2 ^ 31"
  shows "echo_ok fs er'" "unat (er_frames_in er') = F"
proof -
  let ?new = "of_nat F :: 32 word"
  have e: "0 < fs" "unat (rd_frame_size er) = fs" "length (er_buffer er) = unat (buf_size er) * fs"
    using er by (simp_all add: echo_ok_def)
  have n: "unat ?new = F"
    using frames_less[OF f(3) e(1)] by (simp add: unat_of_nat)
  have bytes: "unat (?new * rd_frame_size er) = F * fs"
    using unat_frames[of ?new "rd_frame_size er"] f(3) by (simp add: n e(2))
  define g where "g = (if ?new > buf_size er
      then er\<lparr>er_frames_in := ?new, buf_size := ?new, er_buffer := realloc_bytes (er_buffer er) (?new * rd_frame_size er)\<rparr>
      else er\<lparr>er_frames_in := ?new\<rparr>)"
  have le: "unat (buf_size er) * fs \<le> F * fs" if "buf_size er < ?new"
    using that by (simp add: word_less_nat_alt n)
  have g: "echo_ok fs g" "er_frames_in g = ?new"
    using er f(3) le bytes e(3) unfolding g_def echo_ok_def realloc_bytes_def by (auto simp: n not_less)
  have "er' = g \<or> (\<exists>off k. zero_fill off k g = Some er')"
    using s f(1) unfolding stretch_def g_def by (auto simp: Let_def split: if_splits)
  then show "echo_ok fs er'" "unat (er_frames_in er') = F"
    using g zero_fill_ok[of fs g] n by auto
qed

lemma shrink_ok:
  assumes er: "echo_ok fs er" and s: "shrink expected c er = Some er'" and c: "c \<le> er_frames_in er"
    and f: "expected_frames expected (rd_sampling_rate er) = Some (int F)" "F \<le> unat (er_frames_in er)"
  shows "echo_ok fs er'" "c \<le> er_frames_in er'"
proof -
  have e: "0 < fs" "er_frames_in er \<le> buf_size er" "unat (buf_size er) * fs < 2 ^ 31"
    using er by (simp_all add: echo_ok_def)
  have "unat (er_frames_in er) < 2 ^ 31"
    using frames_less[OF e(3,1)] e(2) by (simp add: word_le_nat_alt)
  then have small: "F < 2 ^ 31" "unat c < 2 ^ 31"
    using f(2) c by (simp_all add: word_le_nat_alt)
  then have sF: "signed_take_bit 31 (int F) = int F" and F: "unat (of_nat F :: 32 word) = F"
    by (simp_all add: signed_take_bit_int_eq_self unat_of_nat)
  have sc: "sint c = int (unat c)"
    using small(2) by (rule sint_small)
  note s' = s[unfolded shrink_def f(1), simplified, unfolded Let_def sF]
  have "echo_ok fs er' \<and> c \<le> er_frames_in er'"
  proof (cases "int F < sint c")
    case True
    then obtain e where "er' = e\<lparr>er_frames_in := c\<rparr>" "e = er \<or> (\<exists>off k. zero_fill off k er = Some e)"
      using s' by (auto simp: bind_eq_Some_conv split: if_splits)
    moreover from this(2) have "echo_ok fs e" "er_frames_in e = er_frames_in er"
      using er zero_fill_ok[OF er] by auto
    ultimately show ?thesis
      using c fewer_frames_ok[of fs e c] by simp
  next
    case False
    then obtain e where "er' = e\<lparr>er_frames_in := of_nat F\<rparr>" "e = er \<or> (\<exists>off k. copy_down off k er = Some e)"
      using s' by (auto simp: bind_eq_Some_conv split: if_splits)
    moreover from this(2) have "echo_ok fs e" "er_frames_in e = er_frames_in er"
      using er copy_down_ok[OF er] by auto
    moreover have "unat c \<le> F"
      using False sc by linarith
    then have "of_nat F \<le> er_frames_in er" "c \<le> of_nat F"
      using f(2) by (simp_all add: word_le_nat_alt F)
    ultimately show ?thesis
      using fewer_frames_ok[of fs e "of_nat F"] by simp
  qed
  then show "echo_ok fs er'" "c \<le> er_frames_in er'"
    by simp_all
qed

lemma less_div_int:
  fixes a r x :: int
  assumes "0 < r"
  shows "a div r < x \<longleftrightarrow> a < x * r"
proof -
  have "x \<le> a div r \<longleftrightarrow> x * r \<le> a"
  proof
    assume "x \<le> a div r"
    then have "x * r \<le> a div r * r"
      using assms by simp
    also have "\<dots> \<le> a"
      using assms div_mult_mod_eq[of a r] pos_mod_sign[of r a] by linarith
    finally show "x * r \<le> a" .
  next
    assume "x * r \<le> a"
    then have "x * r div r \<le> a div r"
      using assms by (rule zdiv_mono1)
    then show "x \<le> a div r"
      using assms by simp
  qed
  then show ?thesis
    by linarith
qed

lemma align_frames_ok:
  assumes er: "echo_ok fs er" and c: "frame_count b \<le> er_frames_in er" and a: "align_frames b er = Some er'"
    and small: "nat (expected_delay b er * uint (rd_sampling_rate er) div 1000000000) * fs < 2 ^ 31"
  shows "echo_ok fs er' \<and> frame_count b \<le> er_frames_in er'"
proof (cases "er' = er")
  case False
  let ?x = "expected_delay b er" and ?r = "uint (rd_sampling_rate er)" and ?n = "uint (er_frames_in er)"
  have r: "rd_sampling_rate er \<noteq> 0" and x: "0 < ?x" "(if ?n * 1000000000 div ?r - ?x < 0 then stretch ?x er else shrink ?x (frame_count b) er) = Some er'"
    using a False by (simp_all add: align_frames_def Let_def bind_eq_Some_conv split: if_split_asm)
  have rpos: "0 < ?r"
    using r by (metis less_le uint_0_iff uint_ge_0)
  define F where "F = nat (?x * ?r div 1000000000)"
  have F: "?x * ?r div 1000000000 = int F"
    using x(1) rpos by (simp add: F_def pos_imp_zdiv_nonneg_iff)
  have f: "expected_frames ?x (rd_sampling_rate er) = Some (int F)"
  proof -
    have "expected_frames ?x (rd_sampling_rate er) \<noteq> None"
      using x(2) by (cases "expected_frames ?x (rd_sampling_rate er)") (simp_all add: stretch_def shrink_def split: if_split_asm)
    then show ?thesis
      using F by (simp add: expected_frames_def split: if_split_asm)
  qed
  have n: "?n = int (unat (er_frames_in er))"
    by simp
  show ?thesis
  proof (cases "?n * 1000000000 div ?r - ?x < 0")
    case True
    then have "?n * 1000000000 < ?x * ?r"
      using less_div_int[OF rpos, of "?n * 1000000000" ?x] by simp
    then have "?n * 1000000000 div 1000000000 \<le> int F"
      unfolding F[symmetric] by (intro zdiv_mono1) simp_all
    then have "?n \<le> int F"
      by simp
    then have "unat (er_frames_in er) \<le> F"
      unfolding n of_nat_le_iff .
    then show ?thesis
      using stretch_ok[OF er _ f] True x(2) small c by (simp add: F_def word_le_nat_alt)
  next
    case False
    then have "?x * ?r \<le> ?n * 1000000000"
      using less_div_int[OF rpos, of "?n * 1000000000" ?x] by simp
    then have "int F \<le> ?n * 1000000000 div 1000000000"
      unfolding F[symmetric] by (intro zdiv_mono1) simp_all
    then have "int F \<le> ?n"
      by simp
    then have "F \<le> unat (er_frames_in er)"
      unfolding n of_nat_le_iff .
    then show ?thesis
      using shrink_ok[OF er _ c f] False x(2) by simp
  qed
qed (use er c in simp)

section \<open>Where the code is undefined\<close>

text \<open>
  \<open>wr_buf_size\<close> only grows.  A later buffer that is at most half as long as \<open>wr_buf\<close> is read behind its end.
\<close>

lemma short_buffer_outside:
  assumes "wr_src_buf er = CallerBuf bs" "length bs = 4 * unat n" "rd_channel_count er = 2" "wr_frames_in er = n" "n \<noteq> 0"
    and "2 * unat n \<le> unat (wr_buf_size er)" "unat (wr_buf_size er) < 2 ^ 29"
  shows "fst (echo_reference_get_next_buffer er k) = Some []"
proof -
  have "unat ((wr_buf_size er - n) * 2) = 2 * (unat (wr_buf_size er) - unat n)"
    using assms(6,7) by (simp add: unat_word_ariths unat_sub word_le_nat_alt)
  then show ?thesis
    using assms by (simp add: echo_reference_get_next_buffer_def Let_def src_mem_def)
qed

text \<open>A read that leaves more frames than it takes copies the buffer onto itself.\<close>

lemma read_overlaps:
  assumes er: "echo_plain fs er" and b: "time_stamp b = (0, 0)" "frame_count b \<le> er_frames_in er"
    "unat (frame_count b) < unat (er_frames_in er) - unat (frame_count b)" "unat (frame_count b) * fs \<le> length (raw_frames b)"
  shows "echo_reference_read wait (Some er) (Some b) = None"
proof -
  define k l where "k = unat (frame_count b)" and "l = unat (er_frames_in er) - k"
  have e: "0 < fs" "unat (rd_frame_size er) = fs" "k + l \<le> unat (buf_size er)" "unat (buf_size er) * fs < 2 ^ 31"
    using er b by (simp_all add: echo_plain_def echo_ok_def word_le_nat_alt k_def l_def)
  have "(k + l) * fs < 2 ^ 31"
    using e(3,4) by (rule le_less_trans[OF mult_le_mono1])
  then have small: "k * fs < 2 ^ 31" "l * fs < 2 ^ 31"
    by (simp_all add: add_mult_distrib)
  have left: "unat (er_frames_in er - frame_count b) = l"
    using b(2) by (simp add: unat_sub l_def k_def)
  have "unat (frame_count b * rd_frame_size er) = k * fs" "unat ((er_frames_in er - frame_count b) * rd_frame_size er) = l * fs"
    using unat_frames[of "frame_count b" "rd_frame_size er"] unat_frames[of "er_frames_in er - frame_count b" "rd_frame_size er"] small
    by (simp_all add: e(2) left k_def[symmetric])
  moreover have "k < l"
    using b(3) by (simp add: k_def l_def)
  ultimately have "take_frames b er = None"
    using e(1) by (simp add: take_frames_def copy_down_def Let_def Option.bind_eq_None_conv)
  moreover have "wait_frames wait b er = Some (b, er)" "align_frames b er = Some er" "echo_active er"
    using b(1,2) er by (simp_all add: wait_frames_def align_frames_def echo_plain_def leD)
  ultimately show ?thesis
    by (simp add: echo_reference_read_def echo_active_def Let_def)
qed

end
