(* ===== verification/Audio_File.thy ===== *)
theory Audio_File
  imports Usb_Audio Event_Loop
begin

text \<open>
  The sound files and the buffers of Android's audio classes in \<open>upil_audio/upil_audio.cpp\<close>:
  the WAV header, the two functions that open a file, the time arithmetic, the set-up of
  the streams, and the loops that exchange frames with an \<open>AudioRecord\<close> or \<open>AudioTrack\<close>.
  The classes are Android's; what their methods return is an argument.
\<close>

section \<open>Files of the C library\<close>

record FILE =
  f_data :: "byte list"
  f_pos :: nat

definition fseek_set :: "nat \<Rightarrow> FILE \<Rightarrow> FILE" where
  "fseek_set n f = f\<lparr>f_pos := n\<rparr>"

text \<open>Writing behind the end fills the gap with zeros.\<close>

definition fwrite :: "byte list \<Rightarrow> FILE \<Rightarrow> FILE" where
  "fwrite bs f =
     (if bs = [] then f
      else let d = f_data f; n = f_pos f
           in f\<lparr>f_data := take n (d @ replicate (n - length d) 0) @ bs @ drop (n + length bs) d,
                f_pos := n + length bs\<rparr>)"

definition fread :: "nat \<Rightarrow> FILE \<Rightarrow> byte list \<times> FILE" where
  "fread n f = (let bs = take n (drop (f_pos f) (f_data f)) in (bs, f\<lparr>f_pos := f_pos f + length bs\<rparr>))"

section \<open>The WAV header\<close>

definition ID_RIFF :: "32 word" where "ID_RIFF = 0x46464952"
definition ID_WAVE :: "32 word" where "ID_WAVE = 0x45564157"
definition ID_FMT :: "32 word" where "ID_FMT = 0x20746d66"
definition ID_DATA :: "32 word" where "ID_DATA = 0x61746164"
definition FORMAT_PCM :: "16 word" where "FORMAT_PCM = 1"

lemmas wav_ids = ID_RIFF_def ID_WAVE_def ID_FMT_def ID_DATA_def FORMAT_PCM_def

record wav_header =
  riff_id :: "32 word"
  riff_sz :: "32 word"
  riff_fmt :: "32 word"
  fmt_id :: "32 word"
  fmt_sz :: "32 word"
  audio_format :: "16 word"
  num_channels :: "16 word"
  sample_rate :: "32 word"
  byte_rate :: "32 word"
  block_align :: "16 word"
  bits_per_sample :: "16 word"
  data_id :: "32 word"
  data_sz :: "32 word"

text \<open>The structure in memory: little endian, without padding, 44 bytes.\<close>

definition le16 :: "16 word \<Rightarrow> byte list" where
  "le16 w = [ucast w, ucast (drop_bit 8 w)]"

definition of_le16 :: "byte list \<Rightarrow> 16 word" where
  "of_le16 bs = ucast (bs ! 0) OR push_bit 8 (ucast (bs ! 1))"

definition le32 :: "32 word \<Rightarrow> byte list" where
  "le32 w = [ucast w, ucast (drop_bit 8 w), ucast (drop_bit 16 w), ucast (drop_bit 24 w)]"

definition of_le32 :: "byte list \<Rightarrow> 32 word" where
  "of_le32 bs = ucast (bs ! 0) OR push_bit 8 (ucast (bs ! 1)) OR push_bit 16 (ucast (bs ! 2)) OR push_bit 24 (ucast (bs ! 3))"

lemma le16_inverse [simp]: "of_le16 (le16 w @ bs) = w"
  by (rule bit_word_eqI) (auto simp: of_le16_def le16_def bit_simps)

lemma le32_inverse [simp]: "of_le32 (le32 w @ bs) = w"
proof (rule bit_word_eqI)
  fix n assume "n < LENGTH(32)"
  then consider "n < 8" | "8 \<le> n" "n < 16" | "16 \<le> n" "n < 24" | "24 \<le> n" "n < 32"
    by fastforce
  then show "bit (of_le32 (le32 w @ bs)) n = bit w n"
    by cases (auto simp: of_le32_def le32_def bit_simps)
qed

lemma length_le [simp]: "length (le16 w) = 2" "length (le32 v) = 4"
  by (simp_all add: le16_def le32_def)

lemma drop_le [simp]: "drop 2 (le16 w @ bs) = bs" "drop 4 (le32 v @ bs) = bs"
  by (simp_all add: le16_def le32_def)

definition wav_bytes :: "wav_header \<Rightarrow> byte list" where
  "wav_bytes h =
     le32 (riff_id h) @ le32 (riff_sz h) @ le32 (riff_fmt h) @ le32 (fmt_id h) @ le32 (fmt_sz h) @
     le16 (audio_format h) @ le16 (num_channels h) @ le32 (sample_rate h) @ le32 (byte_rate h) @
     le16 (block_align h) @ le16 (bits_per_sample h) @ le32 (data_id h) @ le32 (data_sz h)"

definition wav_of_bytes :: "byte list \<Rightarrow> wav_header" where
  "wav_of_bytes b0 =
     (let b1 = drop 4 b0; b2 = drop 4 b1; b3 = drop 4 b2; b4 = drop 4 b3; b5 = drop 4 b4; b6 = drop 2 b5;
          b7 = drop 2 b6; b8 = drop 4 b7; b9 = drop 4 b8; b10 = drop 2 b9; b11 = drop 2 b10; b12 = drop 4 b11
      in \<lparr>riff_id = of_le32 b0, riff_sz = of_le32 b1, riff_fmt = of_le32 b2, fmt_id = of_le32 b3,
          fmt_sz = of_le32 b4, audio_format = of_le16 b5, num_channels = of_le16 b6, sample_rate = of_le32 b7,
          byte_rate = of_le32 b8, block_align = of_le16 b9, bits_per_sample = of_le16 b10,
          data_id = of_le32 b11, data_sz = of_le32 b12\<rparr>)"

lemma length_wav_bytes [simp]: "length (wav_bytes h) = 44"
  by (simp add: wav_bytes_def)

lemma wav_bytes_inverse: "wav_of_bytes (wav_bytes h @ bs) = h"
  by (cases h) (simp add: wav_bytes_def wav_of_bytes_def Let_def)

text \<open>
  \<open>file_setup_record\<close>: \<open>file\<close> is what \<open>fopen\<close> finds, \<open>junk\<close> what the header holds before it is
  read; a shorter file leaves the rest of it.  The result has the open file, the rate and
  the number of channels.
\<close>

definition file_setup_record :: "byte list option \<Rightarrow> byte list \<Rightarrow> int \<times> (FILE \<times> int \<times> int) option" where
  "file_setup_record file junk =
     (case file of None \<Rightarrow> (-1, None)
      | Some d \<Rightarrow>
          let (bs, f) = fread 44 \<lparr>f_data = d, f_pos = 0\<rparr>;
              header = wav_of_bytes (bs @ drop (length bs) junk)
          in if riff_id header \<noteq> ID_RIFF \<or> riff_fmt header \<noteq> ID_WAVE \<or> fmt_id header \<noteq> ID_FMT \<or>
                audio_format header \<noteq> FORMAT_PCM \<or> fmt_sz header \<noteq> 16 then (-1, None)
             else if bits_per_sample header \<noteq> 16 then (-1, None)
             else (0, Some (f, sint (sample_rate header), uint (num_channels header))))"

text \<open>\<open>file_setup_track\<close>: \<open>ok\<close> says whether \<open>fopen\<close> creates the file.  The data size of the
  header is set by the caller at the end.\<close>

definition file_setup_track :: "bool \<Rightarrow> 32 word \<Rightarrow> 32 word \<Rightarrow> wav_header \<Rightarrow> int \<times> (wav_header \<times> FILE) option" where
  "file_setup_track ok rate channels header =
     (if \<not> ok then (-1, None)
      else (0, Some
        (header\<lparr>riff_id := ID_RIFF, riff_sz := 0, riff_fmt := ID_WAVE, fmt_id := ID_FMT, fmt_sz := 16,
                audio_format := FORMAT_PCM, num_channels := ucast channels, sample_rate := rate,
                bits_per_sample := 16, byte_rate := (16 div 8) * channels * rate,
                block_align := ucast (channels * (16 div 8)), data_id := ID_DATA\<rparr>,
         fseek_set 44 \<lparr>f_data = [], f_pos = 0\<rparr>)))"

section \<open>Time\<close>

definition tim_subtract :: "timeval \<Rightarrow> timeval \<Rightarrow> timeval \<Rightarrow> int \<times> timeval" where
  "tim_subtract result x y =
     (if tv_sec x > tv_sec y then (-1, result)
      else if tv_sec x = tv_sec y \<and> tv_usec x > tv_usec y then (-1, result)
      else let sec = tv_sec y - tv_sec x; usec = tv_usec y - tv_usec x
           in if usec < 0 then (0, TV (sec - 1) (usec + 1000000)) else (0, TV sec usec))"

text \<open>For times in order it is the event loop's \<open>timersub\<close>.\<close>

lemma tim_subtract_timersub: "x \<le> y \<Longrightarrow> tim_subtract result x y = (0, timersub y x)"
  by (auto simp: tim_subtract_def timersub_def less_eq_timeval_def Let_def)

lemma tim_subtract_backwards: "y < x \<Longrightarrow> tim_subtract result x y = (-1, result)"
  by (auto simp: tim_subtract_def less_timeval_def timercmp_def Let_def split: if_splits)

section \<open>Set-up of the streams\<close>

definition pcm_config_ua_out :: pcm_config where
  "pcm_config_ua_out =
     \<lparr>cfg_channels = 2, cfg_rate = 48000, period_size = 1024, period_count = 4, cfg_format = PCM_FORMAT_S16_LE,
      start_threshold = 0, stop_threshold = 0, silence_threshold = 0, avail_min = 0\<rparr>"

definition pcm_config_ua_in :: pcm_config where
  "pcm_config_ua_in =
     \<lparr>cfg_channels = 1, cfg_rate = 8000, period_size = 512, period_count = 2, cfg_format = PCM_FORMAT_S16_LE,
      start_threshold = 0, stop_threshold = 0, silence_threshold = 0, avail_min = 0\<rparr>"

text \<open>The pair is the result of \<open>getMinFrameCount\<close>, its status and the number of frames; \<open>set_ok\<close>
  says whether \<open>set\<close> succeeds.  \<open>ready\<close> is \<open>is_host_track_setup\<close>.\<close>

definition hosta_setup_track :: "bool \<times> int \<Rightarrow> bool \<Rightarrow> bool \<Rightarrow> int \<times> nat option \<times> bool" where
  "hosta_setup_track min_frames set_ok ready =
     (case min_frames of (status, frame_count) \<Rightarrow>
        if \<not> status \<or> frame_count \<le> 0 then (-1, None, ready)
        else if \<not> ready \<and> \<not> set_ok then (-1, None, ready)
        else (0, Some (nat frame_count), True))"

definition hosta_setup_record :: "bool \<times> int \<Rightarrow> bool \<Rightarrow> nat \<Rightarrow> int \<times> nat option" where
  "hosta_setup_record min_frames set_ok frameSize =
     (case min_frames of (status, frame_count) \<Rightarrow>
        if \<not> status \<or> frame_count \<le> 0 then (-1, None)
        else if \<not> set_ok then (-1, None)
        else (0, Some (nat frame_count * frameSize)))"

definition usba_setup_record :: "'x speex \<Rightarrow> pcm_config \<Rightarrow> sound \<Rightarrow>
    (int \<times> ('x usb_audio_pcm \<times> nat) option \<times> pcm_config \<times> sound) run" where
  "usba_setup_record S config k =
     run_bind (usb_audio_open 1 0 PCM_IN config k) (\<lambda>(u, config, k).
       case u of
         None \<Rightarrow> Ret (-1, None, config, k)
       | Some u \<Rightarrow>
           run_bind (defined (usb_audio_set_resample S 44100 2 5 u)) (\<lambda>(ret, u).
             if ret \<noteq> 0 then run_bind (usb_audio_close u k) (\<lambda>k. Ret (-1, None, config, k))
             else Ret (0, Some (u, unat (usb_audio_get_buffer_size u)), config, k)))"

definition usba_setup_track :: "'x speex \<Rightarrow> int \<Rightarrow> int \<Rightarrow> pcm_config \<Rightarrow> sound \<Rightarrow>
    (int \<times> ('x usb_audio_pcm \<times> nat) option \<times> pcm_config \<times> sound) run" where
  "usba_setup_track S rate channel config k =
     run_bind (usb_audio_open 1 0 PCM_OUT config k) (\<lambda>(u, config, k).
       case u of
         None \<Rightarrow> Ret (-1, None, config, k)
       | Some u \<Rightarrow>
           run_bind (defined (usb_audio_set_resample S (word_of_int rate) (word_of_int channel) 5 u)) (\<lambda>(ret, u).
             if ret \<noteq> 0 then run_bind (usb_audio_close u k) (\<lambda>k. Ret (-1, None, config, k))
             else run_bind (usb_audio_set_volume 12 u k) (\<lambda>(ret, k).
               if ret \<noteq> 0 then run_bind (usb_audio_close u k) (\<lambda>k. Ret (-1, None, config, k))
               else Ret (0, Some (u, unat (usb_audio_get_buffer_size u)), config, k))))"

text \<open>What opening keeps of the configuration: channels, rate, format and flags.\<close>

definition same_stream :: "pcm \<Rightarrow> pcm \<Rightarrow> bool" where
  "same_stream p q \<longleftrightarrow>
     cfg_channels (pcm_cfg p) = cfg_channels (pcm_cfg q) \<and> cfg_rate (pcm_cfg p) = cfg_rate (pcm_cfg q) \<and>
     cfg_format (pcm_cfg p) = cfg_format (pcm_cfg q) \<and> pcm_flags p = pcm_flags q"

lemma same_stream_trans: "same_stream p q \<Longrightarrow> same_stream q r \<Longrightarrow> same_stream p r"
  by (simp add: same_stream_def)

lemma pcm_open_fail_same [simp]:
  "same_stream p (fst (pcm_open_close config q k)) \<longleftrightarrow> same_stream p q"
  "same_stream p (fst (pcm_open_fail config q k)) \<longleftrightarrow> same_stream p q"
  "same_stream p (snd (oops_pcm e fmt q)) \<longleftrightarrow> same_stream p q"
  by (simp_all add: pcm_open_fail_def pcm_open_close_def oops_pcm_def same_stream_def)

lemma pcm_sync_ptr_all: "(\<And>r k'. ret_all P (f (r, k'))) \<Longrightarrow> ret_all P (run_bind (pcm_sync_ptr flags p k) f)"
  unfolding pcm_sync_ptr_def by (simp add: sys_def split: list.split)

lemma mmap_error_same: "ret_all (\<lambda>(_, q, _). same_stream p q) (mmap_status_error p k)"
  unfolding mmap_status_error_def Let_def
  by (intro ret_all_sys) (auto intro!: pcm_sync_ptr_all simp: same_stream_def set_avail_min_def)

lemma same_stream_update:
  "same_stream (p\<lparr>mmap_status := a\<rparr>) q \<longleftrightarrow> same_stream p q" "same_stream (p\<lparr>mmap_control := a\<rparr>) q \<longleftrightarrow> same_stream p q"
  "same_stream (p\<lparr>boundary := b\<rparr>) q \<longleftrightarrow> same_stream p q" "same_stream (p\<lparr>mmap_buffer := a\<rparr>) q \<longleftrightarrow> same_stream p q"
  "same_stream (p\<lparr>buffer_size := b\<rparr>) q \<longleftrightarrow> same_stream p q" "same_stream (p\<lparr>pcm_fd := fd\<rparr>) q \<longleftrightarrow> same_stream p q"
  "same_stream (p\<lparr>noirq_frames_per_msec := b\<rparr>) q \<longleftrightarrow> same_stream p q"
  by (simp_all add: same_stream_def)

lemma mmap_status_same: "ret_all (\<lambda>(_, q, _). same_stream p q) (pcm_hw_mmap_status p k)"
  unfolding pcm_hw_mmap_status_def
  using mmap_error_same[of "p\<lparr>mmap_status := False\<rparr>"] mmap_error_same[of "p\<lparr>mmap_status := False, mmap_control := False\<rparr>"]
  by (auto simp: same_stream_update intro!: ret_all_sys) (simp_all add: same_stream_def set_avail_min_def)

lemma mmap_status_then:
  assumes "\<And>rc q k'. same_stream p q \<Longrightarrow> ret_all P (f (rc, q, k'))"
  shows "ret_all P (run_bind (pcm_hw_mmap_status p k) f)"
  using assms mmap_status_same[of p k] by (intro ret_all_bind) (auto elim!: ret_all_mono)

lemma pcm_open_sw_same: "ret_all (\<lambda>r. same_stream p (fst r)) (pcm_open_sw config p k)"
proof -
  obtain sw cfg where t: "pcm_thresholds (pcm_flags p) config (pcm_cfg p) = (sw, cfg)"
    by fastforce
  then have cfg: "same_stream p (p\<lparr>pcm_cfg := cfg, boundary := b\<rparr>)" for b
    by (auto simp: pcm_thresholds_def same_stream_def Let_def)
  have last: "same_stream p (q\<lparr>underruns := 0\<rparr>)" if "same_stream p q" for q
    using that by (simp add: same_stream_def)
  show ?thesis
    unfolding pcm_open_sw_def t Let_def prod.case
    by (cases "boundary_loop (buffer_size (p\<lparr>pcm_cfg := cfg\<rparr>)) (buffer_size (p\<lparr>pcm_cfg := cfg\<rparr>))")
      (auto intro!: ret_all_sys mmap_status_then last; use cfg same_stream_trans in blast)+
qed

lemma pcm_open_hw_same: "ret_all (\<lambda>r. same_stream p (fst r)) (pcm_open_hw config p k)"
  unfolding pcm_open_hw_def Let_def
  by (auto intro!: ret_all_sys ret_all_mono[OF pcm_open_sw_same] simp: same_stream_update) (simp_all add: same_stream_def)

lemma pcm_open_device_same:
  "ret_all (\<lambda>r. same_stream (zero_pcm\<lparr>pcm_cfg := config, pcm_flags := flags\<rparr>) (fst r)) (pcm_open_device flags config b k)"
  unfolding pcm_open_device_def Let_def
  by (auto intro!: ret_all_sys ret_all_mono[OF pcm_open_hw_same] simp: same_stream_update) (simp_all add: same_stream_def)

lemma pcm_open_keeps:
  assumes "pcm_open crd device flags config k = Ret (p, config', k')" "\<not> is_bad_pcm p"
  shows "cfg_channels (pcm_cfg p) = cfg_channels config" "cfg_rate (pcm_cfg p) = cfg_rate config"
    "cfg_format (pcm_cfg p) = cfg_format config" "pcm_flags p = flags"
proof -
  obtain b k2 where "pcm_open_device flags config b k2 = Ret (p, config', k')"
    using assms unfolding pcm_open_def by (auto simp: run_bind_Ret Let_def bad_pcm_def split: if_splits)
  from ret_allD[OF pcm_open_device_same this] show "cfg_channels (pcm_cfg p) = cfg_channels config"
    "cfg_rate (pcm_cfg p) = cfg_rate config" "cfg_format (pcm_cfg p) = cfg_format config" "pcm_flags p = flags"
    by (simp_all add: same_stream_def)
qed

text \<open>A set-up for recording that succeeds gives a stream as \<open>usb_audio_read\<close> expects it.\<close>

lemma usba_setup_record_stream:
  fixes u :: "'x usb_audio_pcm"
  assumes "usba_setup_record S config k = Ret (0, Some (u, n), config', k')" "\<not> is_bad_pcm (ua_pcm u)"
    and "cfg_channels config = 1" "cfg_rate config = 8000" "cfg_format config = PCM_FORMAT_S16_LE"
  shows "\<exists>r. capture_stream u r"
proof -
  obtain w :: "'x usb_audio_pcm option" and cf k1 where w: "usb_audio_open 1 0 PCM_IN config k = Ret (w, cf, k1)"
    using assms(1) by (auto simp: usba_setup_record_def run_bind_Ret)
  then obtain v :: "'x usb_audio_pcm" where v: "usb_audio_open 1 0 PCM_IN config k = Ret (Some v, config', k1)"
    and set: "usb_audio_set_resample S 44100 2 5 v = Some (0, u)"
    using assms(1) by (cases w) (auto simp: usba_setup_record_def run_bind_Ret defined_def split: option.split_asm if_split_asm)
  from v obtain k0 k2 where op: "pcm_open 1 0 PCM_IN config k0 = Ret (ua_pcm v, config', k2)"
    and new: "ua_resampler v = None" "ua_flags v = PCM_IN"
    by (auto simp: usb_audio_open_def run_bind_Ret split: option.splits if_splits)
  have pcm: "ua_pcm u = ua_pcm v"
    using set by (auto simp: usb_audio_set_resample_def Let_def bind_eq_Some split: if_splits)
  note keeps = pcm_open_keeps[OF op assms(2)[unfolded pcm]]
  have in_flag: "PCM_IN AND PCM_IN \<noteq> 0"
    by (simp add: PCM_IN_def)
  from set obtain r where "create_resampler S 8000 44100 1 5 False = Some (0, r)"
    and u: "u = v\<lparr>ua_resampler := r, need_resample := True, source_channels := 1, target_channels := 2\<rparr>"
    using keeps assms(3-5) new in_flag by (auto simp: usb_audio_set_resample_def Let_def bind_eq_Some split: if_splits)
  from this(1) obtain r' where r: "r = Some r'" "channel_count r' = 1" "\<not> has_provider r'"
    by (auto simp: create_resampler_def resampler_reset_def Let_def bind_eq_Some split: option.splits if_splits)
  show ?thesis
    using r u keeps assms(3-5) in_flag by (auto simp: capture_stream_def mono_16_def)
qed

section \<open>Frames of the host's audio\<close>

text \<open>
  What \<open>obtainBuffer\<close> answers: a buffer (of a track the number of its frames, of a record its
  contents), no buffer in time, or an error.
\<close>

datatype 'b obtain_buffer = Obtained 'b | TIMED_OUT | WOULD_BLOCK | ObtainError

text \<open>
  The loop of \<open>hosta_write_data\<close>; \<open>track\<close> is what the track got.  It returns what is left of the
  \<open>chances\<close>.
\<close>

fun hosta_write_loop :: "nat \<Rightarrow> byte list \<Rightarrow> int \<Rightarrow> nat \<Rightarrow> int \<Rightarrow> nat obtain_buffer list \<Rightarrow> byte list \<Rightarrow>
    (nat \<times> byte list \<times> nat obtain_buffer list) run" where
  "hosta_write_loop fs data fc 0 remain as track = Ret (0, track, as)"
| "hosta_write_loop fs data fc (Suc chances) remain as track =
     (if chances > 0 \<and> remain > 0
      then (case as of
          [] \<Rightarrow> Waits
        | Obtained m # as \<Rightarrow>
            run_bind (defined (slice data (nat (fc - remain) * fs) (m * fs))) (\<lambda>bs.
              hosta_write_loop fs data fc chances (remain - int m) as (track @ bs))
        | ObtainError # as \<Rightarrow> Ret (chances, track, as)
        | _ # as \<Rightarrow> hosta_write_loop fs data fc chances remain as track)
      else Ret (chances, track, as))"

definition hosta_write_data :: "nat \<Rightarrow> byte list \<Rightarrow> nat \<Rightarrow> nat obtain_buffer list \<Rightarrow> byte list \<Rightarrow>
    (int \<times> byte list \<times> nat obtain_buffer list) run" where
  "hosta_write_data frameSize data n as track =
     (let frame_count = int (n div frameSize)
      in if frame_count \<le> 0 then Ret (0, track, as)
         else run_bind (hosta_write_loop frameSize data frame_count 100 frame_count as track) (\<lambda>(chances, track, as).
           Ret (if chances = 0 then -1 else 0, track, as)))"

text \<open>The loop of \<open>hosta_read_data\<close>; \<open>None\<close> in its result is the early return on an error.\<close>

fun hosta_read_loop :: "nat \<Rightarrow> byte list \<Rightarrow> int \<Rightarrow> nat \<Rightarrow> int \<Rightarrow> byte list obtain_buffer list \<Rightarrow>
    (nat option \<times> byte list \<times> byte list obtain_buffer list) run" where
  "hosta_read_loop fs data fc 0 remain as = Ret (Some 0, data, as)"
| "hosta_read_loop fs data fc (Suc chances) remain as =
     (if chances > 0 \<and> remain > 0
      then (case as of
          [] \<Rightarrow> Waits
        | Obtained bs # as \<Rightarrow>
            run_bind (defined (blit data (nat (fc - remain) * fs) bs)) (\<lambda>data.
              hosta_read_loop fs data fc chances (remain - int (length bs div fs)) as)
        | ObtainError # as \<Rightarrow> Ret (None, data, as)
        | _ # as \<Rightarrow> hosta_read_loop fs data fc chances remain as)
      else Ret (Some chances, data, as))"

definition hosta_read_data :: "nat \<Rightarrow> byte list \<Rightarrow> nat \<Rightarrow> byte list obtain_buffer list \<Rightarrow>
    (int \<times> byte list \<times> byte list obtain_buffer list) run" where
  "hosta_read_data frameSize data n as =
     (let frame_count = int (n div frameSize)
      in if frame_count \<le> 0 then Ret (0, data, as)
         else run_bind (hosta_read_loop frameSize data frame_count 100 frame_count as) (\<lambda>(chances, data, as).
           Ret (if chances = None \<or> chances = Some 0 then -1 else 0, data, as)))"

text \<open>The frames that a sequence of answers makes room for, when none is an error.\<close>

fun room :: "nat obtain_buffer list \<Rightarrow> nat option" where
  "room [] = Some 0"
| "room (Obtained m # as) = map_option ((+) m) (room as)"
| "room (ObtainError # as) = None"
| "room (_ # as) = room as"

lemma hosta_write_loop_skip:
  "a = TIMED_OUT \<or> a = WOULD_BLOCK \<Longrightarrow> 0 < remain \<Longrightarrow>
    hosta_write_loop fs data fc (Suc (Suc c)) remain (a # as) track = hosta_write_loop fs data fc (Suc c) remain as track"
  by auto

lemma hosta_write_loop_room:
  assumes "room as = Some m" "m < remain" "length as < chances" "remain \<le> fc" "fc * fs \<le> length data"
  shows "hosta_write_loop fs data (int fc) (Suc chances) (int remain) (as @ later) track =
    hosta_write_loop fs data (int fc) (Suc (chances - length as)) (int (remain - m)) later
      (track @ take (m * fs) (drop ((fc - remain) * fs) data))"
  using assms
proof (induction as arbitrary: m remain chances track)
  case (Cons a as)
  obtain c where chances: "chances = Suc c" "length as < c"
    using Cons.prems(3) by (cases chances) auto
  have wait: ?case if "a = TIMED_OUT \<or> a = WOULD_BLOCK"
  proof -
    have "room as = Some m"
      using Cons.prems(1) that by auto
    from Cons.IH[OF this Cons.prems(2) chances(2) Cons.prems(4,5), of track] show ?thesis
      using that Cons.prems(2) chances by (simp only: append_Cons hosta_write_loop_skip of_nat_0_less_iff length_Cons diff_Suc_Suc)
  qed
  show ?case
  proof (cases a)
    case (Obtained k)
    from Cons.prems(1) Obtained obtain m' where m: "room as = Some m'" "m = k + m'"
      by auto
    obtain c where c: "chances = Suc c" "length as < c"
      using Cons.prems(3) by (cases chances) auto
    have "(fc - remain + k) * fs \<le> fc * fs"
      using Cons.prems(2,4) m(2) by (intro mult_right_mono) auto
    then have sl: "slice data ((fc - remain) * fs) (k * fs) = Some (take (k * fs) (drop ((fc - remain) * fs) data))"
      using Cons.prems(5) by (simp add: slice_def algebra_simps)
    have off: "nat (int fc - int remain) = fc - remain" "int remain - int k = int (remain - k)" "fc - (remain - k) = fc - remain + k"
      using Cons.prems(2,4) m(2) by auto
    have "hosta_write_loop fs data (int fc) (Suc chances) (int remain) ((Obtained k # as) @ later) track =
        hosta_write_loop fs data (int fc) (Suc c) (int (remain - k)) (as @ later)
          (track @ take (k * fs) (drop ((fc - remain) * fs) data))"
      using Cons.prems(2) by (simp add: c(1) sl off)
    also have "\<dots> = hosta_write_loop fs data (int fc) (Suc (c - length as)) (int (remain - k - m')) later
          ((track @ take (k * fs) (drop ((fc - remain) * fs) data)) @ take (m' * fs) (drop ((fc - (remain - k)) * fs) data))"
      using Cons.prems(2,4,5) m c by (intro Cons.IH) auto
    also have "(track @ take (k * fs) (drop ((fc - remain) * fs) data)) @ take (m' * fs) (drop ((fc - (remain - k)) * fs) data)
        = track @ take (m * fs) (drop ((fc - remain) * fs) data)"
      using m(2) by (simp add: off take_add algebra_simps)
    finally show ?thesis
      using m(2) c(1) Obtained by simp
  qed (use wait Cons.prems(1) in auto)
qed auto

text \<open>
  \<open>hosta_write_data\<close>: when the track has room for all whole frames of the data within 98
  answers, each an amount of room or a time-out, the result is 0 and the track got exactly
  these frames, in order; when the last frame fits in the 99th answer only, the track got
  them all but the result is -1; an error of the track before that ends the writing with
  the result 0 although the rest of the frames was not written.
\<close>

lemma hosta_write_all:
  fixes data :: "byte list" and n frameSize :: nat
  defines "frames \<equiv> n div frameSize"
  assumes n: "0 < frameSize" "frameSize \<le> n" "n \<le> length data"
    and before: "room as = Some m" "m < frames" "length as \<le> 98"
  shows "hosta_write_data frameSize data n (as @ Obtained (frames - m) # later) track =
      Ret (if length as = 98 then -1 else 0, track @ take (frames * frameSize) data, later)"
    and "hosta_write_data frameSize data n (as @ ObtainError # later) track =
      Ret (0, track @ take (m * frameSize) data, later)"
proof -
  have fc: "0 < frames" "frames * frameSize \<le> length data"
    using n by (auto simp: frames_def div_greater_zero_iff dest: order_trans[OF div_times_less_eq_dividend])
  define c where "c = 98 - length as"
  then have c: "99 - length as = Suc c" "c = 0 \<longleftrightarrow> length as = 98"
    using before(3) by auto
  have part: "hosta_write_loop frameSize data (int frames) 100 (int frames) (as @ rest) track =
      hosta_write_loop frameSize data (int frames) (Suc (Suc c)) (int (frames - m)) rest (track @ take (m * frameSize) data)" for rest
    using hosta_write_loop_room[OF before(1,2), of 99 frames frameSize data rest track] before(3) fc(2) c(1) by simp
  have "(m + (frames - m)) * frameSize \<le> length data"
    using before(2) fc(2) by simp
  then have "slice data (m * frameSize) ((frames - m) * frameSize) =
      Some (take ((frames - m) * frameSize) (drop (m * frameSize) data))"
    unfolding slice_def add_mult_distrib by simp
  moreover have "take (m * frameSize) data @ take ((frames - m) * frameSize) (drop (m * frameSize) data)
      = take (frames * frameSize) data"
    using before(2) by (simp add: take_add[symmetric] add_mult_distrib[symmetric])
  moreover have "nat (int frames - int (frames - m)) = m"
    using before(2) by simp
  ultimately have last: "hosta_write_loop frameSize data (int frames) (Suc (Suc c)) (int (frames - m)) (Obtained (frames - m) # later)
      (track @ take (m * frameSize) data) = Ret (c, track @ take (frames * frameSize) data, later)"
    using before(2) by simp
  show "hosta_write_data frameSize data n (as @ Obtained (frames - m) # later) track =
      Ret (if length as = 98 then -1 else 0, track @ take (frames * frameSize) data, later)"
    using fc(1) last c(2) part by (simp add: hosta_write_data_def flip: frames_def)
  show "hosta_write_data frameSize data n (as @ ObtainError # later) track =
      Ret (0, track @ take (m * frameSize) data, later)"
    using fc(1) before(2) part by (simp add: hosta_write_data_def flip: frames_def)
qed

lemma hosta_write_all_witness:
  "hosta_write_data 2 [1, 2, 3, 4] 4 [TIMED_OUT, Obtained 1, Obtained 1] [] = Ret (0, [1, 2, 3, 4], []) \<and>
   hosta_write_data 2 [1, 2, 3, 4] 4 (replicate 97 TIMED_OUT @ [Obtained 1, Obtained 1]) [] = Ret (-1, [1, 2, 3, 4], []) \<and>
   hosta_write_data 2 [1, 2, 3, 4] 4 [Obtained 1, ObtainError] [] = Ret (0, [1, 2], [])"
proof -
  have room_timeouts: "room (replicate k TIMED_OUT @ [Obtained 1]) = Some 1" for k
    by (induction k) simp_all
  show ?thesis
    using hosta_write_all(1)[of 2 4 "[1, 2, 3, 4]" "[TIMED_OUT, Obtained 1]" 1 "[]" "[]"]
      hosta_write_all(1)[of 2 4 "[1, 2, 3, 4]" "replicate 97 TIMED_OUT @ [Obtained 1]" 1 "[]" "[]"]
      hosta_write_all(2)[of 2 4 "[1, 2, 3, 4]" "[Obtained 1]" 1 "[]" "[]"] room_timeouts[of 97]
    by (simp del: hosta_write_loop.simps)
qed

end
