(* ===== verification/Audio_Threads.thy ===== *)
theory Audio_Threads
  imports Audio_File
begin

text \<open>
  The threads of \<open>upil_audio/upil_audio.cpp\<close> and the functions that start and stop them.

  A thread is the place in its function at which it stands, with the local variables that
  are live there.  A step takes a thread from one access of the shared variables to the
  next; what the devices and the file system do in a step is its \<open>outcome\<close>: \<open>out_ok\<close> for the
  calls of the card and of the host's audio, \<open>out_file_ok\<close> for \<open>fopen\<close> and \<open>fwrite\<close>,
  \<open>out_size\<close> for a buffer size or the length of a short write, \<open>out_bytes\<close> for the
  bytes that \<open>usb_audio_read\<close> gives, \<open>out_time\<close> for the clock, and \<open>out_junk\<close>,
  \<open>out_diff\<close> for what uninitialised local variables hold; \<open>Audio_Streams\<close> has the steps with
  the calls that give these outcomes.  The functions of the interface
  are called by one thread, the state machine's; those that wait are split at their
  sleeps (\<open>client\<close>).
\<close>

section \<open>State\<close>

datatype callfunc = No_Func | Begin_Record | End_Record

record outcome =
  out_ok :: bool
  out_file_ok :: bool
  out_size :: nat
  out_bytes :: "byte list"
  out_time :: timeval
  out_diff :: timeval
  out_junk :: "byte list"

datatype in_pc = InSetup | InTest nat | InBody nat | InEnd

datatype out_pc = OutSetup | OutTest | OutBody | OutEnd

datatype play_pc =
    PlaySetup
  | PlayTest FILE nat
  | PlayBody FILE nat
  | PlayClose
  | PlayAsk
  | PlayCall
  | PlayClear

record rec_state =
  rc_name :: "byte list"
  rc_start :: timeval
  rc_diff :: timeval
  rc_bytes :: "32 word"
  rc_header :: wav_header
  rc_file :: FILE

datatype rec_pc =
    RecSetup
  | RecTest rec_state
  | RecBody rec_state
  | RecEnd rec_state
  | RecClear timeval
  | RecAsk timeval

datatype thread = In in_pc | Out out_pc | Play play_pc | Rec rec_pc

datatype client = Ready | StartWait nat | StopWait nat

text \<open>\<open>disk\<close> has the files, \<open>usb_out\<close> what was written to the card, \<open>callbacks\<close> the calls of the
  two end functions.\<close>

record audio_mod =
  s_audio_running :: bool
  s_track_ready :: bool
  s_play_endfunc :: callfunc
  s_play_filename :: "byte list"
  s_record_endfunc :: callfunc
  s_record_filename :: "byte list"
  s_record_timeout :: int
  s_tid_audio_in :: "nat option"
  s_tid_audio_out :: "nat option"
  s_tid_audio_play :: "nat option"
  s_tid_audio_record :: "nat option"
  threads :: "nat \<Rightarrow> thread option"
  next_tid :: nat
  disk :: "byte list \<Rightarrow> byte list option"
  usb_out :: "byte list"
  callbacks :: "callfunc list"
  client :: client

definition audio_init :: "(byte list \<Rightarrow> byte list option) \<Rightarrow> audio_mod" where
  "audio_init fs =
     \<lparr>s_audio_running = False, s_track_ready = False, s_play_endfunc = No_Func, s_play_filename = [],
      s_record_endfunc = No_Func, s_record_filename = [], s_record_timeout = 0, s_tid_audio_in = None,
      s_tid_audio_out = None, s_tid_audio_play = None, s_tid_audio_record = None, threads = (\<lambda>_. None),
      next_tid = 1, disk = fs, usb_out = [], callbacks = [], client = Ready\<rparr>"

definition call :: "callfunc \<Rightarrow> audio_mod \<Rightarrow> audio_mod option" where
  "call f a = (if f = No_Func then None else Some (a\<lparr>callbacks := callbacks a @ [f]\<rparr>))"

section \<open>The threads\<close>

text \<open>A step gives the next place, or none when the function returns.\<close>

fun usba_to_hosta :: "outcome \<Rightarrow> in_pc \<Rightarrow> audio_mod \<Rightarrow> (in_pc option \<times> audio_mod) option" where
  "usba_to_hosta d InSetup a = Some (if out_ok d then Some (InTest 0) else None, a)"
| "usba_to_hosta d (InTest n) a = Some (Some (if s_audio_running a then InBody n else InEnd), a)"
| "usba_to_hosta d (InBody n) a =
     (if \<not> out_ok d then Some (Some InEnd, a)
      else if s_track_ready a then Some (Some (InTest n), a)
      else Some (Some (InTest (n + 1)), a\<lparr>s_track_ready := (n + 1 \<ge> 5)\<rparr>))"
| "usba_to_hosta d InEnd a = Some (None, a\<lparr>s_audio_running := False\<rparr>)"

fun hosta_to_usba :: "outcome \<Rightarrow> out_pc \<Rightarrow> audio_mod \<Rightarrow> (out_pc option \<times> audio_mod) option" where
  "hosta_to_usba d OutSetup a = Some (if out_ok d then Some OutTest else None, a)"
| "hosta_to_usba d OutTest a = Some (Some (if s_audio_running a then OutBody else OutEnd), a)"
| "hosta_to_usba d OutBody a = Some (Some (if out_ok d then OutTest else OutEnd), a)"
| "hosta_to_usba d OutEnd a = Some (None, a\<lparr>s_audio_running := False\<rparr>)"

fun file_to_usba :: "outcome \<Rightarrow> play_pc \<Rightarrow> audio_mod \<Rightarrow> (play_pc option \<times> audio_mod) option" where
  "file_to_usba d PlaySetup a =
     (case snd (file_setup_record (disk a (s_play_filename a)) (out_junk d)) of
        None \<Rightarrow> Some (None, a)
      | Some (f, rate, channel) \<Rightarrow> Some (if out_ok d then Some (PlayTest f (out_size d)) else None, a))"
| "file_to_usba d (PlayTest f n) a = Some (Some (if s_audio_running a then PlayBody f n else PlayClose), a)"
| "file_to_usba d (PlayBody f n) a =
     (let (bs, f') = fread n f
      in if length bs > MAX_BUF_SIZE then None
         else if bs = [] then Some (Some PlayClose, a)
         else if out_ok d then Some (Some (PlayTest f' n), a\<lparr>usb_out := usb_out a @ bs\<rparr>)
         else Some (Some PlayClose, a))"
| "file_to_usba d PlayClose a = Some (Some PlayAsk, a)"
| "file_to_usba d PlayAsk a = Some (Some (if s_audio_running a then PlayCall else PlayClear), a)"
| "file_to_usba d PlayCall a = map_option (Pair (Some PlayClear)) (call (s_play_endfunc a) a)"
| "file_to_usba d PlayClear a = Some (None, a\<lparr>s_audio_running := False\<rparr>)"

definition rec_finish :: "rec_state \<Rightarrow> byte list" where
  "rec_finish s =
     (let header = (rc_header s)\<lparr>data_sz := (rc_bytes s div 4) * ucast (block_align (rc_header s))\<rparr>
      in f_data (fwrite (wav_bytes header) (fseek_set 0 (rc_file s))))"

fun usba_to_file :: "outcome \<Rightarrow> rec_pc \<Rightarrow> audio_mod \<Rightarrow> (rec_pc option \<times> audio_mod) option" where
  "usba_to_file d RecSetup a =
     (if \<not> out_ok d then Some (None, a)
      else case snd (file_setup_track (out_file_ok d) 44100 2 (wav_of_bytes (out_junk d))) of
        None \<Rightarrow> Some (None, a)
      | Some (header, f) \<Rightarrow>
          Some (Some (RecTest \<lparr>rc_name = s_record_filename a, rc_start = out_time d, rc_diff = out_diff d,
                  rc_bytes = 0, rc_header = header, rc_file = f\<rparr>),
                a\<lparr>disk := (disk a)(s_record_filename a := Some [])\<rparr>))"
| "usba_to_file d (RecTest s) a = Some (Some (if s_audio_running a then RecBody s else RecEnd s), a)"
| "usba_to_file d (RecBody s) a =
     (if \<not> out_ok d then Some (Some (RecEnd s), a)
      else if \<not> out_file_ok d
      then Some (Some (RecEnd (s\<lparr>rc_file := fwrite (take (out_size d) (out_bytes d)) (rc_file s)\<rparr>)), a)
      else
        let s = s\<lparr>rc_file := fwrite (out_bytes d) (rc_file s), rc_bytes := rc_bytes s + of_nat (length (out_bytes d))\<rparr>
        in if s_record_timeout a > 0
           then let s = s\<lparr>rc_diff := snd (tim_subtract (rc_diff s) (rc_start s) (out_time d))\<rparr>
                in Some (Some (if tv_sec (rc_diff s) \<ge> s_record_timeout a then RecEnd s else RecTest s), a)
           else Some (Some (RecTest s), a))"
| "usba_to_file d (RecEnd s) a =
     Some (Some (RecClear (rc_diff s)), a\<lparr>disk := (disk a)(rc_name s := Some (rec_finish s))\<rparr>)"
| "usba_to_file d (RecClear diff) a = Some (Some (RecAsk diff), a\<lparr>s_audio_running := False\<rparr>)"
| "usba_to_file d (RecAsk diff) a =
     (if tv_sec diff \<ge> s_record_timeout a then map_option (Pair None) (call (s_record_endfunc a) a)
      else Some (None, a))"

definition thread_body :: "outcome \<Rightarrow> thread \<Rightarrow> audio_mod \<Rightarrow> (thread option \<times> audio_mod) option" where
  "thread_body d th a =
     (case th of
        In p \<Rightarrow> map_option (map_prod (map_option In) id) (usba_to_hosta d p a)
      | Out p \<Rightarrow> map_option (map_prod (map_option Out) id) (hosta_to_usba d p a)
      | Play p \<Rightarrow> map_option (map_prod (map_option Play) id) (file_to_usba d p a)
      | Rec p \<Rightarrow> map_option (map_prod (map_option Rec) id) (usba_to_file d p a))"

text \<open>A step of the thread \<open>t\<close>; only a thread that runs has one.\<close>

definition thread_step :: "nat \<Rightarrow> outcome \<Rightarrow> audio_mod \<Rightarrow> audio_mod option" where
  "thread_step t d a =
     (case threads a t of None \<Rightarrow> None
      | Some th \<Rightarrow> map_option (\<lambda>(th', a). a\<lparr>threads := (threads a)(t := th')\<rparr>) (thread_body d th a))"

section \<open>The interface\<close>

text \<open>\<open>ret\<close> is the result of \<open>pthread_create\<close>, 0 when the thread is created; the functions take
  negative results for failures.\<close>

definition new_thread :: "int \<Rightarrow> thread \<Rightarrow> (nat option \<Rightarrow> audio_mod \<Rightarrow> audio_mod) \<Rightarrow> audio_mod \<Rightarrow> int \<times> audio_mod" where
  "new_thread ret th set_tid a =
     (let a = (if ret = 0
               then set_tid (Some (next_tid a)) (a\<lparr>threads := (threads a)(next_tid a := Some th), next_tid := next_tid a + 1\<rparr>)
               else a)
      in (if ret < 0 then -1 else 0, a))"

definition start_sound_in_thread :: "int \<Rightarrow> audio_mod \<Rightarrow> int \<times> audio_mod" where
  "start_sound_in_thread ret = new_thread ret (In InSetup) (\<lambda>t a. a\<lparr>s_tid_audio_in := t\<rparr>)"

definition start_sound_out_thread :: "int \<Rightarrow> audio_mod \<Rightarrow> int \<times> audio_mod" where
  "start_sound_out_thread ret = new_thread ret (Out OutSetup) (\<lambda>t a. a\<lparr>s_tid_audio_out := t\<rparr>)"

definition start_play_thread :: "int \<Rightarrow> audio_mod \<Rightarrow> int \<times> audio_mod" where
  "start_play_thread ret = new_thread ret (Play PlaySetup) (\<lambda>t a. a\<lparr>s_tid_audio_play := t\<rparr>)"

definition start_record_thread :: "int \<Rightarrow> audio_mod \<Rightarrow> int \<times> audio_mod" where
  "start_record_thread ret = new_thread ret (Rec RecSetup) (\<lambda>t a. a\<lparr>s_tid_audio_record := t\<rparr>)"

definition upil_audio_stop :: "audio_mod \<Rightarrow> audio_mod" where
  "upil_audio_stop a = a\<lparr>s_audio_running := False, client := StopWait 30\<rparr>"

definition tid_gone :: "nat option \<Rightarrow> audio_mod \<Rightarrow> bool" where
  "tid_gone tid a \<longleftrightarrow> (case tid of None \<Rightarrow> True | Some t \<Rightarrow> threads a t = None)"

definition all_gone :: "audio_mod \<Rightarrow> bool" where
  "all_gone a \<longleftrightarrow> tid_gone (s_tid_audio_in a) a \<and> tid_gone (s_tid_audio_out a) a \<and>
     tid_gone (s_tid_audio_play a) a \<and> tid_gone (s_tid_audio_record a) a"

text \<open>A turn of the loop of \<open>upil_audio_stop\<close> with \<open>n\<close> turns left, and the end of the function.\<close>

definition upil_audio_stop_turn :: "nat \<Rightarrow> audio_mod \<Rightarrow> audio_mod" where
  "upil_audio_stop_turn n a =
     (if n = 0 \<or> all_gone a
      then a\<lparr>s_tid_audio_in := None, s_tid_audio_out := None, s_tid_audio_play := None, s_tid_audio_record := None,
             client := Ready\<rparr>
      else a\<lparr>client := StopWait (n - 1)\<rparr>)"

definition upil_audio_start :: "int \<Rightarrow> audio_mod \<Rightarrow> audio_mod" where
  "upil_audio_start ret a =
     (if \<not> s_audio_running a
      then let (r, a) = start_sound_in_thread ret (a\<lparr>s_audio_running := True, s_track_ready := False\<rparr>)
           in if r < 0 then a\<lparr>s_audio_running := False\<rparr> else a\<lparr>client := StartWait 20\<rparr>
      else a)"

text \<open>A turn of the loop that waits for the track, with the start of the second thread behind it.\<close>

definition upil_audio_start_turn :: "nat \<Rightarrow> int \<Rightarrow> audio_mod \<Rightarrow> audio_mod" where
  "upil_audio_start_turn n ret a =
     (if n = 0 \<or> s_track_ready a
      then let (r, a) = start_sound_out_thread ret a
           in if r < 0 then upil_audio_stop a else a\<lparr>client := Ready\<rparr>
      else a\<lparr>client := StartWait (n - 1)\<rparr>)"

text \<open>The file names have arrays of 2048 bytes.\<close>

definition upil_audio_play_file :: "byte list \<Rightarrow> callfunc \<Rightarrow> int \<Rightarrow> audio_mod \<Rightarrow> audio_mod option" where
  "upil_audio_play_file filename func ret a =
     (if \<not> s_audio_running a
      then if length filename \<ge> 2048 then None
           else let (r, a) = start_play_thread ret (a\<lparr>s_audio_running := True, s_play_endfunc := func, s_play_filename := filename\<rparr>)
                in Some (if r < 0 then a\<lparr>s_audio_running := False\<rparr> else a)
      else Some a)"

definition upil_audio_record_file :: "byte list \<Rightarrow> callfunc \<Rightarrow> int \<Rightarrow> int \<Rightarrow> audio_mod \<Rightarrow> audio_mod option" where
  "upil_audio_record_file filename func timeout ret a =
     (if \<not> s_audio_running a
      then if length filename \<ge> 2048 then None
           else let (r, a) = start_record_thread ret (a\<lparr>s_audio_running := True, s_record_endfunc := func,
                      s_record_timeout := timeout, s_record_filename := filename\<rparr>)
                in Some (if r < 0 then a\<lparr>s_audio_running := False\<rparr> else a)
      else Some a)"

text \<open>One event of the module: a step of a thread, a call of the interface, or a turn of a call
  that waits.\<close>

datatype audio_event =
    Thread nat outcome
  | Start int
  | Stop
  | Turn int
  | PlayFile "byte list" callfunc int
  | RecordFile "byte list" callfunc int int

fun audio_do :: "audio_event \<Rightarrow> audio_mod \<Rightarrow> audio_mod option" where
  "audio_do (Thread t d) a = thread_step t d a"
| "audio_do (Turn ret) a =
     (case client a of Ready \<Rightarrow> None
      | StartWait n \<Rightarrow> Some (upil_audio_start_turn n ret a)
      | StopWait n \<Rightarrow> Some (upil_audio_stop_turn n a))"
| "audio_do (Start ret) a = (if client a = Ready then Some (upil_audio_start ret a) else None)"
| "audio_do Stop a = (if client a = Ready then Some (upil_audio_stop a) else None)"
| "audio_do (PlayFile f cb ret) a = (if client a = Ready then upil_audio_play_file f cb ret a else None)"
| "audio_do (RecordFile f cb tm ret) a = (if client a = Ready then upil_audio_record_file f cb tm ret a else None)"

fun audio_run :: "audio_event list \<Rightarrow> audio_mod \<Rightarrow> audio_mod option" where
  "audio_run [] a = Some a"
| "audio_run (e # es) a = Option.bind (audio_do e a) (audio_run es)"

lemma audio_run_append: "audio_run (es @ fs) a = Option.bind (audio_run es a) (audio_run fs)"
  by (induction es arbitrary: a) (simp_all split: bind_splits)

section \<open>Threads end\<close>

text \<open>How many steps a thread takes at most once the module is stopped.\<close>

definition in_left :: "in_pc \<Rightarrow> nat" where
  "in_left p = (case p of InSetup \<Rightarrow> 3 | InTest _ \<Rightarrow> 2 | InBody _ \<Rightarrow> 3 | InEnd \<Rightarrow> 1)"

definition out_left :: "out_pc \<Rightarrow> nat" where
  "out_left p = (case p of OutSetup \<Rightarrow> 3 | OutTest \<Rightarrow> 2 | OutBody \<Rightarrow> 3 | OutEnd \<Rightarrow> 1)"

definition play_left :: "play_pc \<Rightarrow> nat" where
  "play_left p =
     (case p of PlaySetup \<Rightarrow> 5 | PlayTest _ _ \<Rightarrow> 4 | PlayBody _ _ \<Rightarrow> 5 | PlayClose \<Rightarrow> 3 | PlayAsk \<Rightarrow> 2 | PlayCall \<Rightarrow> 2
      | PlayClear \<Rightarrow> 1)"

definition rec_left :: "rec_pc \<Rightarrow> nat" where
  "rec_left p =
     (case p of RecSetup \<Rightarrow> 5 | RecTest _ \<Rightarrow> 4 | RecBody _ \<Rightarrow> 5 | RecEnd _ \<Rightarrow> 3 | RecClear _ \<Rightarrow> 2 | RecAsk _ \<Rightarrow> 1)"

lemmas left_defs = in_left_def out_left_def play_left_def rec_left_def

fun rank :: "thread option \<Rightarrow> nat" where
  "rank None = 0"
| "rank (Some (In p)) = in_left p"
| "rank (Some (Out p)) = out_left p"
| "rank (Some (Play p)) = play_left p"
| "rank (Some (Rec p)) = rec_left p"

lemma rank_le: "rank th \<le> 5"
  by (induction th rule: rank.induct) (simp_all add: left_defs split: in_pc.split out_pc.split play_pc.split rec_pc.split)

lemma rank_0 [simp]: "rank th = 0 \<longleftrightarrow> th = None"
  by (induction th rule: rank.induct) (simp_all add: left_defs split: in_pc.split out_pc.split play_pc.split rec_pc.split)

lemma call_same: "call f a = Some a' \<Longrightarrow> threads a' = threads a \<and> s_audio_running a' = s_audio_running a \<and> client a' = client a"
  by (auto simp: call_def split: if_splits)

text \<open>
  What the end of the module needs of a thread's function: in a stopped module a step comes
  nearer to the end, leaves the module stopped and touches no other thread.
\<close>

locale stoppable =
  fixes step :: "outcome \<Rightarrow> 'p \<Rightarrow> audio_mod \<Rightarrow> ('p option \<times> audio_mod) option"
    and left :: "'p \<Rightarrow> nat"
    and wrap :: "'p \<Rightarrow> thread"
  assumes nearer: "step d p a = Some (p', a') \<Longrightarrow> \<not> s_audio_running a \<Longrightarrow>
      (case p' of None \<Rightarrow> 0 | Some q \<Rightarrow> left q) < left p \<and> \<not> s_audio_running a' \<and> threads a' = threads a"
    and rank_wrap: "rank (Some (wrap p)) = left p"
begin

lemma wrapped_nearer:
  assumes "map_option (map_prod (map_option wrap) id) (step d p a) = Some (th', a')" "\<not> s_audio_running a"
  shows "rank th' < rank (Some (wrap p)) \<and> \<not> s_audio_running a' \<and> threads a' = threads a"
proof -
  obtain p' where "step d p a = Some (p', a')" "th' = map_option wrap p'"
    using assms(1) by auto
  then show ?thesis
    using nearer[of d p a p' a'] assms(2) by (cases p') (auto simp: rank_wrap)
qed

end

interpretation in_thread: stoppable usba_to_hosta in_left In
proof unfold_locales
  fix d p a p' a'
  assume "usba_to_hosta d p a = Some (p', a')" "\<not> s_audio_running a"
  then show "(case p' of None \<Rightarrow> 0 | Some q \<Rightarrow> in_left q) < in_left p \<and> \<not> s_audio_running a' \<and> threads a' = threads a"
    by (cases p) (auto simp: in_left_def split: if_splits)
qed simp

interpretation out_thread: stoppable hosta_to_usba out_left Out
proof unfold_locales
  fix d p a p' a'
  assume "hosta_to_usba d p a = Some (p', a')" "\<not> s_audio_running a"
  then show "(case p' of None \<Rightarrow> 0 | Some q \<Rightarrow> out_left q) < out_left p \<and> \<not> s_audio_running a' \<and> threads a' = threads a"
    by (cases p) (auto simp: out_left_def split: if_splits)
qed simp

interpretation play_thread: stoppable file_to_usba play_left Play
proof unfold_locales
  fix d p a p' a'
  assume "file_to_usba d p a = Some (p', a')" "\<not> s_audio_running a"
  then show "(case p' of None \<Rightarrow> 0 | Some q \<Rightarrow> play_left q) < play_left p \<and> \<not> s_audio_running a' \<and> threads a' = threads a"
    by (cases p) (auto simp: play_left_def Let_def case_prod_beta dest!: call_same split: if_splits option.splits)
qed simp

interpretation rec_thread: stoppable usba_to_file rec_left Rec
proof unfold_locales
  fix d p a p' a'
  assume "usba_to_file d p a = Some (p', a')" "\<not> s_audio_running a"
  then show "(case p' of None \<Rightarrow> 0 | Some q \<Rightarrow> rec_left q) < rec_left p \<and> \<not> s_audio_running a' \<and> threads a' = threads a"
    by (cases p) (auto simp: rec_left_def Let_def dest!: call_same split: if_splits option.splits)
qed simp

text \<open>A step of a stopped module's thread.\<close>

lemma body_stopped:
  assumes "thread_body d th a = Some (th', a')" "\<not> s_audio_running a"
  shows "rank th' < rank (Some th) \<and> \<not> s_audio_running a' \<and> threads a' = threads a"
proof (cases th)
  case (In p)
  show ?thesis
    using in_thread.wrapped_nearer[of d p a th' a'] assms unfolding In thread_body_def thread.case by blast
next
  case (Out p)
  show ?thesis
    using out_thread.wrapped_nearer[of d p a th' a'] assms unfolding Out thread_body_def thread.case by blast
next
  case (Play p)
  show ?thesis
    using play_thread.wrapped_nearer[of d p a th' a'] assms unfolding Play thread_body_def thread.case by blast
next
  case (Rec p)
  show ?thesis
    using rec_thread.wrapped_nearer[of d p a th' a'] assms unfolding Rec thread_body_def thread.case by blast
qed

lemma step_stopped:
  assumes "thread_step t d a = Some a'" "\<not> s_audio_running a"
  shows "\<not> s_audio_running a'" "rank (threads a' t) < rank (threads a t)" "s \<noteq> t \<Longrightarrow> threads a' s = threads a s"
  using assms body_stopped[of d _ a]
  by (auto simp: thread_step_def split: option.splits if_splits)

text \<open>What keeps a step defined: the functions that a thread calls at its end are set, and the
  buffer of a file is not larger than the array for it.\<close>

fun thread_ok :: "audio_mod \<Rightarrow> thread \<Rightarrow> bool" where
  "thread_ok a (Play p) \<longleftrightarrow> s_play_endfunc a \<noteq> No_Func \<and>
     (case p of PlayTest f n \<Rightarrow> n \<le> MAX_BUF_SIZE | PlayBody f n \<Rightarrow> n \<le> MAX_BUF_SIZE | _ \<Rightarrow> True)"
| "thread_ok a (Rec p) \<longleftrightarrow> s_record_endfunc a \<noteq> No_Func"
| "thread_ok a th \<longleftrightarrow> True"

definition threads_ok :: "audio_mod \<Rightarrow> bool" where
  "threads_ok a \<longleftrightarrow> (\<forall>t th. threads a t = Some th \<longrightarrow> thread_ok a th)"

fun event_ok :: "audio_event \<Rightarrow> bool" where
  "event_ok (Thread t d) \<longleftrightarrow> out_size d \<le> MAX_BUF_SIZE"
| "event_ok (PlayFile f cb ret) \<longleftrightarrow> cb \<noteq> No_Func \<and> length f < 2048"
| "event_ok (RecordFile f cb tm ret) \<longleftrightarrow> cb \<noteq> No_Func \<and> length f < 2048"
| "event_ok e \<longleftrightarrow> True"

inductive audio_reach :: "audio_mod \<Rightarrow> bool" where
  reach_init: "audio_reach (audio_init fs)"
| reach_step: "audio_reach a \<Longrightarrow> event_ok e \<Longrightarrow> audio_do e a = Some a' \<Longrightarrow> audio_reach a'"

text \<open>A step of a thread is defined, keeps the interface's variables and gives a thread that is
  fine again.\<close>

definition same_funcs :: "audio_mod \<Rightarrow> audio_mod \<Rightarrow> bool" where
  "same_funcs a a' \<longleftrightarrow> threads a' = threads a \<and> s_play_endfunc a' = s_play_endfunc a \<and>
     s_record_endfunc a' = s_record_endfunc a \<and> client a' = client a"

lemma call_defined: "f \<noteq> No_Func \<Longrightarrow> \<exists>a'. call f a = Some a' \<and> same_funcs a a'"
  by (simp add: call_def same_funcs_def)

lemma body_ok:
  assumes "thread_ok a th" "out_size d \<le> MAX_BUF_SIZE"
  shows "\<exists>th' a'. thread_body d th a = Some (th', a') \<and> same_funcs a a' \<and> (\<forall>x. th' = Some x \<longrightarrow> thread_ok a' x)"
proof (cases th)
  case (In p)
  then show ?thesis
    by (cases p) (auto simp: thread_body_def same_funcs_def)
next
  case (Out p)
  then show ?thesis
    by (cases p) (auto simp: thread_body_def same_funcs_def)
next
  case (Play p)
  obtain c where c: "call (s_play_endfunc a) a = Some c" "same_funcs a c"
    using assms(1) Play call_defined[of "s_play_endfunc a" a] by auto
  have len: "length (fst (fread n f)) \<le> n" for n f
    by (simp add: fread_def Let_def)
  show ?thesis
    using assms Play c
    by (cases p) (auto simp: thread_body_def same_funcs_def Let_def case_prod_beta not_less
        intro: order_trans[OF len] split: option.split)
next
  case (Rec p)
  obtain c where c: "call (s_record_endfunc a) a = Some c" "same_funcs a c"
    using assms(1) Rec call_defined[of "s_record_endfunc a" a] by auto
  show ?thesis
    using assms Rec c
    by (cases p) (auto simp: thread_body_def same_funcs_def Let_def split: option.split)
qed

lemma thread_ok_cong:
  "s_play_endfunc a' = s_play_endfunc a \<Longrightarrow> s_record_endfunc a' = s_record_endfunc a \<Longrightarrow> thread_ok a' x = thread_ok a x"
  by (cases x) auto

lemma step_ok:
  assumes "threads_ok a" "threads a t \<noteq> None" "out_size d \<le> MAX_BUF_SIZE"
  shows "\<exists>a'. thread_step t d a = Some a' \<and> threads_ok a' \<and> client a' = client a"
proof -
  obtain th where th: "threads a t = Some th" "thread_ok a th"
    using assms(1,2) by (auto simp: threads_ok_def)
  obtain th' b where b: "thread_body d th a = Some (th', b)" "same_funcs a b" "\<forall>x. th' = Some x \<longrightarrow> thread_ok b x"
    using body_ok[OF th(2) assms(3)] by blast
  then have "thread_ok (b\<lparr>threads := th0\<rparr>) x = thread_ok a x" and "thread_ok b x = thread_ok a x" for x th0
    by (auto simp: same_funcs_def intro!: thread_ok_cong)
  then show ?thesis
    using assms(1) th b by (auto simp: thread_step_def threads_ok_def same_funcs_def)
qed

text \<open>The interface keeps the threads that run, may add one, and only sets the two functions.\<close>

lemma threads_ok_more:
  assumes "threads_ok a"
    and "s_play_endfunc a \<noteq> No_Func \<longrightarrow> s_play_endfunc a' \<noteq> No_Func"
    and "s_record_endfunc a \<noteq> No_Func \<longrightarrow> s_record_endfunc a' \<noteq> No_Func"
    and "threads a' = threads a \<or> threads a' = (threads a)(t \<mapsto> th) \<and> thread_ok a' th"
  shows "threads_ok a'"
proof -
  have "thread_ok a' x" if "thread_ok a x" for x
    using that assms(2,3) by (cases x) auto
  then show ?thesis
    using assms(1,4) by (auto simp: threads_ok_def split: if_splits)
qed

lemmas interface_defs = upil_audio_start_def upil_audio_start_turn_def upil_audio_stop_def upil_audio_stop_turn_def
  upil_audio_play_file_def upil_audio_record_file_def start_sound_in_thread_def start_sound_out_thread_def
  start_play_thread_def start_record_thread_def new_thread_def Let_def

lemma audio_do_ok:
  assumes "threads_ok a" "event_ok e" "audio_do e a = Some a'"
  shows "threads_ok a'"
proof (cases e)
  case (Thread t d)
  with assms show ?thesis
    using step_ok[OF assms(1), of t d] by (cases "threads a t") (auto simp: thread_step_def)
next
  case (Start ret)
  with assms show ?thesis
    by (intro threads_ok_more[OF assms(1), of a' "next_tid a" "In InSetup"]) (auto simp: interface_defs split: if_splits)
next
  case Stop
  with assms show ?thesis
    by (intro threads_ok_more[OF assms(1), of a']) (auto simp: interface_defs split: if_splits)
next
  case (Turn ret)
  with assms show ?thesis
    by (intro threads_ok_more[OF assms(1), of a' "next_tid a" "Out OutSetup"])
      (auto simp: interface_defs split: if_splits client.splits)
next
  case (PlayFile f cb ret)
  with assms show ?thesis
    by (intro threads_ok_more[OF assms(1), of a' "next_tid a" "Play PlaySetup"]) (auto simp: interface_defs split: if_splits)
next
  case (RecordFile f cb tm ret)
  with assms show ?thesis
    by (intro threads_ok_more[OF assms(1), of a' "next_tid a" "Rec RecSetup"]) (auto simp: interface_defs split: if_splits)
qed

lemma reach_ok: "audio_reach a \<Longrightarrow> threads_ok a"
proof (induction rule: audio_reach.induct)
  case (reach_init fs)
  then show ?case by (simp add: threads_ok_def audio_init_def)
next
  case (reach_step a e a')
  then show ?case by (blast intro: audio_do_ok)
qed

text \<open>A schedule of the threads; turns of threads that have ended are skipped.\<close>

fun schedule :: "(nat \<times> outcome) list \<Rightarrow> audio_mod \<Rightarrow> audio_mod option" where
  "schedule [] a = Some a"
| "schedule ((t, d) # es) a =
     (if threads a t = None then schedule es a else Option.bind (thread_step t d a) (schedule es))"

definition turns :: "nat \<Rightarrow> (nat \<times> outcome) list \<Rightarrow> nat" where
  "turns t es = length (filter (\<lambda>e. fst e = t) es)"

lemma schedule_stopped:
  assumes "threads_ok a" "\<not> s_audio_running a" "\<forall>(t, d) \<in> set es. out_size d \<le> MAX_BUF_SIZE"
  shows "\<exists>a'. schedule es a = Some a' \<and> threads_ok a' \<and> \<not> s_audio_running a' \<and> client a' = client a \<and>
    (\<forall>t. threads a' t = None \<or> rank (threads a' t) + turns t es \<le> rank (threads a t))"
  using assms
proof (induction es a rule: schedule.induct)
  case (2 t d es a)
  show ?case
  proof (cases "threads a t")
    case None
    with "2.IH"(1) "2.prems" obtain a' where a': "schedule es a = Some a'" "threads_ok a'" "\<not> s_audio_running a'" "client a' = client a"
        "\<And>s. threads a' s = None \<or> rank (threads a' s) + turns s es \<le> rank (threads a s)"
      by auto
    have "threads a' s = None \<or> rank (threads a' s) + turns s ((t, d) # es) \<le> rank (threads a s)" for s
      using a'(5)[of s] a'(5)[of t] None by (auto simp: turns_def)
    with a' None show ?thesis
      by simp
  next
    case (Some th)
    with "2.prems" obtain b where b: "thread_step t d a = Some b" "threads_ok b" "client b = client a"
      using step_ok[of a t d] by auto
    note st = step_stopped[OF b(1) "2.prems"(2)]
    from "2.IH"(2)[of b] b Some st(1) "2.prems"(3) obtain a' where a': "schedule es b = Some a'" "threads_ok a'"
        "\<not> s_audio_running a'" "client a' = client b" "\<And>s. threads a' s = None \<or> rank (threads a' s) + turns s es \<le> rank (threads b s)"
      by auto
    have "threads a' s = None \<or> rank (threads a' s) + turns s ((t, d) # es) \<le> rank (threads a s)" for s
      using a'(5)[of s] st(2) st(3)[of s] by (auto simp: turns_def)
    with a' b Some show ?thesis
      by simp
  qed
qed (simp add: turns_def)


definition outcome0 :: outcome where
  "outcome0 = \<lparr>out_ok = True, out_file_ok = True, out_size = 1024, out_bytes = [1, 0, 2, 0], out_time = TV 0 0,
     out_diff = TV 0 0, out_junk = replicate 44 0\<rparr>"


section \<open>A recording can be played\<close>

text \<open>The file of a recording that has the bytes \<open>bs\<close> so far.\<close>

definition rec_file :: "byte list \<Rightarrow> FILE" where
  "rec_file bs =
     (if bs = [] then \<lparr>f_data = [], f_pos = 44\<rparr> else \<lparr>f_data = replicate 44 0 @ bs, f_pos = 44 + length bs\<rparr>)"

lemma fwrite_rec_file: "fwrite cs (rec_file bs) = rec_file (bs @ cs)"
  by (auto simp: fwrite_def rec_file_def Let_def)

lemma header_before: "f_data (fwrite (wav_bytes h) (fseek_set 0 (rec_file bs))) = wav_bytes h @ bs"
proof -
  have "wav_bytes h \<noteq> []"
    using length_wav_bytes[of h] by (metis list.size(3) zero_neq_numeral)
  then show ?thesis
    by (simp add: fwrite_def fseek_set_def rec_file_def)
qed

text \<open>The header of a recording.\<close>

definition rec_header :: "nat \<Rightarrow> wav_header" where
  "rec_header n =
     \<lparr>riff_id = ID_RIFF, riff_sz = 0, riff_fmt = ID_WAVE, fmt_id = ID_FMT, fmt_sz = 16, audio_format = FORMAT_PCM,
      num_channels = 2, sample_rate = 44100, byte_rate = 176400, block_align = 4, bits_per_sample = 16,
      data_id = ID_DATA, data_sz = (of_nat n div 4) * 4\<rparr>"

definition recording :: "byte list \<Rightarrow> byte list" where
  "recording bs = wav_bytes (rec_header (length bs)) @ bs"

text \<open>The state of a recording with the bytes \<open>bs\<close>.\<close>

definition rec_at :: "rec_state \<Rightarrow> byte list \<Rightarrow> bool" where
  "rec_at s bs \<longleftrightarrow> rc_file s = rec_file bs \<and> rc_bytes s = of_nat (length bs) \<and>
     (rc_header s)\<lparr>data_sz := 0\<rparr> = rec_header 0"

lemma rec_finish_at:
  assumes "rec_at s bs"
  shows "rec_finish s = recording bs"
proof -
  have h: "(rc_header s)\<lparr>data_sz := 0\<rparr> = rec_header 0"
    using assms by (simp add: rec_at_def)
  have "(rc_header s)\<lparr>data_sz := m\<rparr> = (rec_header 0)\<lparr>data_sz := m\<rparr>" for m
    using arg_cong[OF h, of "\<lambda>x. x\<lparr>data_sz := m\<rparr>"] by simp
  moreover have "block_align (rc_header s) = 4"
    using arg_cong[OF h, of block_align] by (simp add: rec_header_def)
  ultimately show ?thesis
    using assms by (simp add: rec_finish_def rec_at_def header_before recording_def Let_def) (simp add: rec_header_def)
qed

text \<open>A thread at a place, in a module with the flag, and steps of it.\<close>

lemma run_thread:
  assumes "threads a t = Some th" "thread_body d th a = Some (th', b)"
  shows "audio_run (Thread t d # es) a = audio_run es (b\<lparr>threads := (threads b)(t := th')\<rparr>)"
  using assms by (simp add: thread_step_def)

text \<open>The outcomes of reads that go on: sound, a full write, and the time-out not reached.\<close>

definition goes_on :: "int \<Rightarrow> timeval \<Rightarrow> outcome \<Rightarrow> bool" where
  "goes_on timeout start d \<longleftrightarrow> out_ok d \<and> out_file_ok d \<and>
     (timeout > 0 \<longrightarrow> start \<le> out_time d \<and> tv_sec (timersub (out_time d) start) < timeout)"

lemma rec_step_at:
  assumes "rec_at s bs" "goes_on (s_record_timeout a) (rc_start s) d"
  shows "\<exists>s'. usba_to_file d (RecBody s) a = Some (Some (RecTest s'), a) \<and> rec_at s' (bs @ out_bytes d) \<and>
    rc_start s' = rc_start s \<and> rc_name s' = rc_name s"
  using assms by (auto simp: goes_on_def rec_at_def fwrite_rec_file Let_def tim_subtract_timersub)

lemma rec_chunks:
  assumes "threads a t = Some (Rec (RecTest s))" "rec_at s bs" "s_audio_running a"
    and "\<forall>d \<in> set ds. goes_on (s_record_timeout a) (rc_start s) d"
  shows "\<exists>s'. audio_run (concat (map (\<lambda>d. [Thread t d, Thread t d]) ds)) a =
      Some (a\<lparr>threads := (threads a)(t \<mapsto> Rec (RecTest s'))\<rparr>) \<and> rec_at s' (bs @ concat (map out_bytes ds)) \<and> rc_start s' = rc_start s \<and> rc_name s' = rc_name s"
  using assms
proof (induction ds arbitrary: a s bs)
  case Nil
  then show ?case
    by (intro exI[of _ s]) (simp add: fun_upd_idem)
next
  case (Cons d ds)
  obtain s' where s': "usba_to_file d (RecBody s) (a\<lparr>threads := (threads a)(t \<mapsto> Rec (RecBody s))\<rparr>)
        = Some (Some (RecTest s'), a\<lparr>threads := (threads a)(t \<mapsto> Rec (RecBody s))\<rparr>)"
      "rec_at s' (bs @ out_bytes d)" "rc_start s' = rc_start s" "rc_name s' = rc_name s"
    using rec_step_at[OF Cons.prems(2), of "a\<lparr>threads := (threads a)(t \<mapsto> Rec (RecBody s))\<rparr>" d] Cons.prems(4) by auto
  let ?a = "a\<lparr>threads := (threads a)(t \<mapsto> Rec (RecTest s'))\<rparr>"
  have run: "audio_run (concat (map (\<lambda>d. [Thread t d, Thread t d]) (d # ds))) a =
      audio_run (concat (map (\<lambda>d. [Thread t d, Thread t d]) ds)) ?a"
    using Cons.prems(1,3) s'(1) by (simp add: thread_step_def thread_body_def)
  have "threads ?a t = Some (Rec (RecTest s'))" "s_audio_running ?a"
      "\<forall>d \<in> set ds. goes_on (s_record_timeout ?a) (rc_start s') d"
    using Cons.prems(3,4) s'(3) by simp_all
  from Cons.IH[OF this(1) s'(2) this(2,3)] obtain s'' where s'':
      "audio_run (concat (map (\<lambda>d. [Thread t d, Thread t d]) ds)) ?a = Some (?a\<lparr>threads := (threads ?a)(t \<mapsto> Rec (RecTest s''))\<rparr>)"
      "rec_at s'' ((bs @ out_bytes d) @ concat (map out_bytes ds))" "rc_start s'' = rc_start s" "rc_name s'' = rc_name s"
    unfolding s'(3,4) by blast
  have last: "?a\<lparr>threads := (threads ?a)(t \<mapsto> Rec (RecTest s''))\<rparr> = a\<lparr>threads := (threads a)(t \<mapsto> Rec (RecTest s''))\<rparr>"
    by simp
  show ?case
  proof (intro exI conjI)
    show "audio_run (concat (map (\<lambda>d. [Thread t d, Thread t d]) (d # ds))) a =
        Some (a\<lparr>threads := (threads a)(t \<mapsto> Rec (RecTest s''))\<rparr>)"
      unfolding run s''(1) last ..
    show "rec_at s'' (bs @ concat (map out_bytes (d # ds)))"
      using s''(2) by simp
  qed (fact s''(3,4))+
qed

text \<open>The set-up of a recording, and the whole recording: set-up, the reads, and the end after the
  flag was cleared.\<close>

lemma rec_setup_at:
  assumes "threads a t = Some (Rec RecSetup)" "out_ok d" "out_file_ok d"
  shows "\<exists>s. (\<forall>es. audio_run (Thread t d # es) a =
      audio_run es (a\<lparr>disk := (disk a)(s_record_filename a := Some []), threads := (threads a)(t \<mapsto> Rec (RecTest s))\<rparr>)) \<and>
    rec_at s [] \<and> rc_start s = out_time d \<and> rc_name s = s_record_filename a"
proof -
  define s where "s = \<lparr>rc_name = s_record_filename a, rc_start = out_time d, rc_diff = out_diff d, rc_bytes = 0,
    rc_header = (rec_header 0)\<lparr>data_sz := data_sz (wav_of_bytes (out_junk d))\<rparr>, rc_file = rec_file []\<rparr>"
  have s: "rec_at s []" "rc_start s = out_time d" "rc_name s = s_record_filename a"
    by (simp_all add: s_def rec_at_def) (simp add: rec_header_def)
  have "thread_body d (Rec RecSetup) a = Some (Some (Rec (RecTest s)), a\<lparr>disk := (disk a)(s_record_filename a := Some [])\<rparr>)"
    using assms(2,3) by (cases "wav_of_bytes (out_junk d)")
      (simp add: thread_body_def file_setup_track_def s_def rec_header_def rec_file_def fseek_set_def)
  from run_thread[OF assms(1) this] s show ?thesis
    by (intro exI[of _ s]) simp
qed

lemma recording_written:
  assumes "threads a t = Some (Rec RecSetup)" "s_audio_running a" "client a = Ready" "s_record_endfunc a \<noteq> No_Func"
    and "out_ok d" "out_file_ok d" "\<forall>x \<in> set ds. goes_on (s_record_timeout a) (out_time d) x"
  shows "\<exists>a'. audio_run ([Thread t d] @ concat (map (\<lambda>d. [Thread t d, Thread t d]) ds) @ [Stop] @ replicate 4 (Thread t e)) a = Some a' \<and>
    threads a' = (threads a)(t := None) \<and> \<not> s_audio_running a' \<and> client a' = StopWait 30 \<and> usb_out a' = usb_out a \<and>
    disk a' (s_record_filename a) = Some (recording (concat (map out_bytes ds)))"
proof -
  obtain s where s: "rec_at s []" "rc_start s = out_time d" "rc_name s = s_record_filename a"
    and run: "\<And>es. audio_run (Thread t d # es) a =
      audio_run es (a\<lparr>disk := (disk a)(s_record_filename a := Some []), threads := (threads a)(t \<mapsto> Rec (RecTest s))\<rparr>)"
    using rec_setup_at[OF assms(1,5,6)] by blast
  define b where "b = a\<lparr>disk := (disk a)(s_record_filename a := Some []), threads := (threads a)(t \<mapsto> Rec (RecTest s))\<rparr>"
  note first = run[folded b_def]
  have "threads b t = Some (Rec (RecTest s))" "s_audio_running b" "\<forall>x \<in> set ds. goes_on (s_record_timeout b) (rc_start s) x"
    using assms(2,7) s(2) by (simp_all add: b_def)
  from rec_chunks[OF this(1) s(1) this(2,3)] obtain s' where s':
      "audio_run (concat (map (\<lambda>d. [Thread t d, Thread t d]) ds)) b = Some (b\<lparr>threads := (threads b)(t \<mapsto> Rec (RecTest s'))\<rparr>)"
      "rec_at s' (concat (map out_bytes ds))" "rc_name s' = s_record_filename a"
    using s(3) by auto
  have last: "\<exists>a'. audio_run ([Stop] @ replicate 4 (Thread t e)) (b\<lparr>threads := (threads b)(t \<mapsto> Rec (RecTest s'))\<rparr>) = Some a' \<and>
      threads a' = (threads a)(t := None) \<and> \<not> s_audio_running a' \<and> client a' = StopWait 30 \<and> usb_out a' = usb_out a \<and>
      disk a' (rc_name s') = Some (rec_finish s')"
    using assms(3,4) by (simp add: b_def upil_audio_stop_def numeral_eq_Suc thread_step_def thread_body_def call_def)
  show ?thesis
    using last s' rec_finish_at[OF s'(2)] by (simp only: append_Cons append_Nil first audio_run_append bind.bind_lunit)
qed

text \<open>The header of a recording is accepted, and the file stands at its sound.\<close>

lemma file_setup_record_recording:
  "file_setup_record (Some (recording bs)) junk = (0, Some (\<lparr>f_data = recording bs, f_pos = 44\<rparr>, 44100, 2))"
  by (simp add: file_setup_record_def fread_def recording_def Let_def wav_bytes_inverse) (simp add: rec_header_def)

lemma play_chunks:
  assumes "threads a t = Some (Play (PlayTest \<lparr>f_data = d, f_pos = p\<rparr> n))" "s_audio_running a" "out_ok e" "0 < n" "n \<le> MAX_BUF_SIZE"
    "p \<le> length d"
  shows "\<exists>k. audio_run (replicate k (Thread t e)) a =
    Some (a\<lparr>usb_out := usb_out a @ drop p d, threads := (threads a)(t \<mapsto> Play (PlayTest \<lparr>f_data = d, f_pos = length d\<rparr> n))\<rparr>)"
  using assms(1,2,6)
proof (induction "length d - p" arbitrary: a p rule: less_induct)
  case less
  show ?case
  proof (cases "p = length d")
    case True
    then show ?thesis
      using less.prems(1) by (intro exI[of _ 0]) (simp add: fun_upd_idem)
  next
    case False
    let ?bs = "take n (drop p d)"
    let ?p = "p + length ?bs"
    let ?a = "a\<lparr>usb_out := usb_out a @ ?bs, threads := (threads a)(t \<mapsto> Play (PlayTest \<lparr>f_data = d, f_pos = ?p\<rparr> n))\<rparr>"
    have bs: "?bs \<noteq> []" "length ?bs \<le> MAX_BUF_SIZE"
      using False less.prems(3) assms(4,5) by auto
    have two: "audio_run (Thread t e # Thread t e # es) a = audio_run es ?a" for es
      using less.prems(1,2) assms(3,5) bs by (simp add: thread_step_def thread_body_def fread_def Let_def not_less)
    have "length d - ?p < length d - p" "?p \<le> length d"
      using False less.prems(3) assms(4) by auto
    moreover have "threads ?a t = Some (Play (PlayTest \<lparr>f_data = d, f_pos = ?p\<rparr> n))" "s_audio_running ?a"
      using less.prems(2) by simp_all
    ultimately obtain k where k: "audio_run (replicate k (Thread t e)) ?a =
        Some (?a\<lparr>usb_out := usb_out ?a @ drop ?p d, threads := (threads ?a)(t \<mapsto> Play (PlayTest \<lparr>f_data = d, f_pos = length d\<rparr> n))\<rparr>)"
      using less.hyps[of ?p ?a] by blast
    have "drop ?p d = drop n (drop p d)"
      using less.prems(3) by (auto simp: min_def ac_simps)
    then have "?bs @ drop ?p d = drop p d"
      by (simp only: append_take_drop_id)
    then have same: "?a\<lparr>usb_out := usb_out ?a @ drop ?p d, threads := (threads ?a)(t \<mapsto> Play (PlayTest \<lparr>f_data = d, f_pos = length d\<rparr> n))\<rparr>
        = a\<lparr>usb_out := usb_out a @ drop p d, threads := (threads a)(t \<mapsto> Play (PlayTest \<lparr>f_data = d, f_pos = length d\<rparr> n))\<rparr>"
      by simp
    have "audio_run (replicate (Suc (Suc k)) (Thread t e)) a =
        Some (a\<lparr>usb_out := usb_out a @ drop p d, threads := (threads a)(t \<mapsto> Play (PlayTest \<lparr>f_data = d, f_pos = length d\<rparr> n))\<rparr>)"
      unfolding replicate_Suc two k same ..
    then show ?thesis
      by blast
  qed
qed

text \<open>A recording is played from the call to the end of the thread.\<close>

lemma recording_played:
  assumes "disk a name = Some (recording bs)" "\<not> s_audio_running a" "client a = Ready" "length name < 2048"
    and "cb \<noteq> No_Func" "out_ok e" "0 < out_size e" "out_size e \<le> MAX_BUF_SIZE"
  shows "\<exists>k a'. audio_run (PlayFile name cb 0 # replicate k (Thread (next_tid a) e)) a = Some a' \<and>
    usb_out a' = usb_out a @ bs \<and> callbacks a' = callbacks a @ [cb] \<and> \<not> s_audio_running a' \<and> threads a' (next_tid a) = None"
proof -
  let ?t = "next_tid a"
  define b where "b = a\<lparr>s_audio_running := True, s_play_endfunc := cb, s_play_filename := name, next_tid := ?t + 1,
    s_tid_audio_play := Some ?t, threads := (threads a)(?t \<mapsto> Play (PlayTest \<lparr>f_data = recording bs, f_pos = 44\<rparr> (out_size e)))\<rparr>"
  have first: "audio_run (PlayFile name cb 0 # Thread ?t e # es) a = audio_run es b" for es
    using assms by (simp add: interface_defs thread_step_def thread_body_def file_setup_record_recording b_def)
  have "44 \<le> length (recording bs)" "drop 44 (recording bs) = bs"
    by (simp_all add: recording_def)
  moreover have "threads b ?t = Some (Play (PlayTest \<lparr>f_data = recording bs, f_pos = 44\<rparr> (out_size e)))" "s_audio_running b"
    by (simp_all add: b_def)
  ultimately obtain k where k: "audio_run (replicate k (Thread ?t e)) b =
      Some (b\<lparr>usb_out := usb_out b @ bs, threads := (threads b)(?t \<mapsto> Play (PlayTest \<lparr>f_data = recording bs, f_pos = length (recording bs)\<rparr> (out_size e)))\<rparr>)"
    using play_chunks[of b ?t "recording bs" 44 "out_size e" e] assms(6-8) by auto
  have last: "\<exists>a'. audio_run (replicate 6 (Thread ?t e))
      (b\<lparr>usb_out := usb_out b @ bs, threads := (threads b)(?t \<mapsto> Play (PlayTest \<lparr>f_data = recording bs, f_pos = length (recording bs)\<rparr> (out_size e)))\<rparr>) = Some a' \<and>
      usb_out a' = usb_out a @ bs \<and> callbacks a' = callbacks a @ [cb] \<and> \<not> s_audio_running a' \<and> threads a' ?t = None"
    using assms(5) by (simp add: b_def numeral_eq_Suc thread_step_def thread_body_def call_def fread_def Let_def)
  have "audio_run (PlayFile name cb 0 # replicate (Suc (k + 6)) (Thread ?t e)) a =
      Option.bind (audio_run (replicate k (Thread ?t e)) b) (audio_run (replicate 6 (Thread ?t e)))"
    unfolding replicate_Suc first replicate_add audio_run_append ..
  with last show ?thesis
    unfolding k bind.bind_lunit by metis
qed



section \<open>Streams that are refused or lost\<close>

text \<open>While the flag is set, the module ignores every call but \<open>upil_audio_stop\<close>.\<close>

lemma running_refuses:
  assumes "s_audio_running a" "client a = Ready"
  shows "audio_do (Start r) a = Some a" "audio_do (PlayFile f cb r) a = Some a" "audio_do (RecordFile f cb tm r) a = Some a"
  using assms by (simp_all add: upil_audio_start_def upil_audio_play_file_def upil_audio_record_file_def)

text \<open>
  A file that cannot be played blocks the module: after a call of \<open>upil_audio_play_file\<close>
  whose file does not exist, or whose card cannot be opened, the thread ends at once
  without the end function, the flag stays set, and every later call to start, play or
  record is ignored until the module is stopped.
\<close>

lemma play_failure_blocks:
  assumes "\<not> s_audio_running a" "client a = Ready" "length name < 2048"
    and "disk a name = None \<or> \<not> out_ok d"
  shows "\<exists>b. audio_run [PlayFile name cb 0, Thread (next_tid a) d] a = Some b \<and>
    threads b (next_tid a) = None \<and> callbacks b = callbacks a \<and>
    audio_do (Start r) b = Some b \<and> audio_do (PlayFile f cb' r) b = Some b \<and> audio_do (RecordFile f cb' tm r) b = Some b"
proof -
  let ?b = "a\<lparr>s_audio_running := True, s_play_endfunc := cb, s_play_filename := name, next_tid := next_tid a + 1,
    s_tid_audio_play := Some (next_tid a), threads := (threads a)(next_tid a := None)\<rparr>"
  have "snd (file_setup_record (disk a name) (out_junk d)) = None \<or> \<not> out_ok d"
    using assms(4) by (auto simp: file_setup_record_def)
  then have "audio_run [PlayFile name cb 0, Thread (next_tid a) d] a = Some ?b"
    using assms(1-3) by (cases "snd (file_setup_record (disk a name) (out_junk d))")
      (auto simp: interface_defs thread_step_def thread_body_def)
  then show ?thesis
    using running_refuses[of ?b] assms(2) by (intro exI[of _ ?b]) (simp del: audio_run.simps audio_do.simps)
qed

lemma play_failure_blocks_witness:
  "let a = audio_init (\<lambda>_. None)
   in \<exists>b. audio_run [PlayFile [119] Begin_Record 0, Thread 1 outcome0] a = Some b \<and> callbacks b = [] \<and>
        audio_do (RecordFile [114] End_Record 30 0) b = Some b"
  using play_failure_blocks[of "audio_init (\<lambda>_. None)" "[119]" outcome0 Begin_Record 0 "[114]" End_Record 30]
  unfolding Let_def by (simp add: audio_init_def del: audio_run.simps audio_do.simps) blast

end
