(* ===== verification/Audio_Programs.thy ===== *)
theory Audio_Programs
  imports Audio_Threads C_Strings
begin

text \<open>
  The two programs beside the audio module that record from and play to the telephone's card:
  \<open>upil_audio/uacap.c\<close> and \<open>upil_audio/uaplay.c\<close>.  They call the streams of \<open>Usb_Audio\<close> and write and read
  the WAV files of \<open>Audio_File\<close>.  Arguments are strings; what the signal handler and the file system do is an
  argument.
\<close>

section \<open>Recording\<close>

record cap_args =
  cap_device :: "32 word"
  cap_channels :: "32 word"
  cap_rate :: "32 word"
  cap_bits :: "32 word"

definition cap_defaults :: cap_args where
  "cap_defaults = \<lparr>cap_device = 0, cap_channels = 1, cap_rate = 8000, cap_bits = 16\<rparr>"

text \<open>The arguments behind the name of the file; an option without its value reads \<open>NULL\<close>.\<close>

fun cap_options :: "byte list list \<Rightarrow> cap_args \<Rightarrow> cap_args option" where
  "cap_options [] a = Some a"
| "cap_options (s # ss) a =
     (if s = str ''-d'' \<or> s = str ''-c'' \<or> s = str ''-r'' \<or> s = str ''-b''
      then (case ss of [] \<Rightarrow> None
            | v # vs \<Rightarrow> do {
                n \<leftarrow> atoi v;
                cap_options vs (if s = str ''-d'' then a\<lparr>cap_device := of_int n\<rparr>
                  else if s = str ''-c'' then a\<lparr>cap_channels := of_int n\<rparr>
                  else if s = str ''-r'' then a\<lparr>cap_rate := of_int n\<rparr>
                  else a\<lparr>cap_bits := of_int n\<rparr>) })
      else cap_options ss a)"

text \<open>
  The loop of \<open>capture_sample\<close>.  For each turn a pair says whether \<open>capturing\<close> is still set and, for a
  write that fails, the number of bytes that were written; \<open>data\<close> is the program's buffer, \<open>bytes\<close> is
  \<open>bytes_read\<close>.
\<close>

fun capture_loop ::
  "'x speex \<Rightarrow> nat \<Rightarrow> (bool \<times> nat option) list \<Rightarrow> byte list \<Rightarrow> 32 word \<Rightarrow> FILE \<Rightarrow> 'x usb_audio_pcm \<Rightarrow> sound \<Rightarrow>
     (32 word \<times> FILE \<times> 'x usb_audio_pcm \<times> sound) run" where
  "capture_loop S count [] data bytes f u k = Waits"
| "capture_loop S count ((capturing, short) # ts) data bytes f u k =
     (if \<not> capturing then Ret (bytes, f, u, k)
      else run_bind (usb_audio_read S u data MAX_BUF_SIZE count k) (\<lambda>(r, data, u, k).
        if r < 0 then Ret (bytes, f, u, k)
        else case short of
          Some n \<Rightarrow> Ret (bytes, fwrite (take n (take (nat r) data)) f, u, k)
        | None \<Rightarrow> capture_loop S count ts data (bytes + of_int r) (fwrite (take (nat r) data) f) u k))"

definition capture_sample ::
  "'x speex \<Rightarrow> (bool \<times> nat option) list \<Rightarrow> 32 word \<Rightarrow> 32 word \<Rightarrow> 32 word \<Rightarrow> 32 word \<Rightarrow> 32 word \<Rightarrow> FILE \<Rightarrow> sound \<Rightarrow>
     (32 word \<times> FILE \<times> sound) run" where
  "capture_sample S ts crd device channels rate bits f k =
     run_bind (usb_audio_open crd device PCM_IN pcm_config_ua_in k) (\<lambda>(u, _, k).
       case u of None \<Rightarrow> Ret (0, f, k)
       | Some u \<Rightarrow>
           run_bind (defined (usb_audio_set_resample S rate channels 5 u)) (\<lambda>(_, u).
           run_bind (capture_loop S (unat (usb_audio_get_buffer_size u)) ts (replicate MAX_BUF_SIZE 0) 0 f u k) (\<lambda>(bytes, f, u, k).
           run_bind (usb_audio_close u k) (\<lambda>k.
             if (bits div 8) * channels = 0 then Fault
             else Ret (bytes div ((bits div 8) * channels), f, k)))))"

text \<open>The header before the recording; \<open>junk\<close> is what the field \<open>data_sz\<close> holds.\<close>

definition cap_header :: "cap_args \<Rightarrow> 32 word \<Rightarrow> wav_header" where
  "cap_header a junk =
     (let bits = ucast (cap_bits a) :: 16 word
      in \<lparr>riff_id = ID_RIFF, riff_sz = 0, riff_fmt = ID_WAVE, fmt_id = ID_FMT, fmt_sz = 16, audio_format = FORMAT_PCM,
          num_channels = ucast (cap_channels a), sample_rate = cap_rate a,
          byte_rate = (ucast bits div 8) * cap_channels a * cap_rate a,
          block_align = ucast (cap_channels a * (ucast bits div 8)), bits_per_sample = bits,
          data_id = ID_DATA, data_sz = junk\<rparr>)"

text \<open>\<open>args\<close> are the arguments without the name of the program, \<open>created\<close> says whether \<open>fopen\<close> creates the file; the result has the file.\<close>

definition uacap_main ::
  "'x speex \<Rightarrow> byte list list \<Rightarrow> bool \<Rightarrow> 32 word \<Rightarrow> (bool \<times> nat option) list \<Rightarrow> sound \<Rightarrow> (int \<times> byte list option \<times> sound) run" where
  "uacap_main S args created junk ts k =
     (case args of [] \<Rightarrow> Ret (1, None, k)
      | name # opts \<Rightarrow>
          if \<not> created then Ret (1, None, k)
          else run_bind (defined (cap_options opts cap_defaults)) (\<lambda>a.
            let h = cap_header a junk
            in run_bind (capture_sample S ts 1 (cap_device a) (ucast (num_channels h)) (sample_rate h) (ucast (bits_per_sample h))
                   (fseek_set 44 \<lparr>f_data = [], f_pos = 0\<rparr>) k) (\<lambda>(frames, f, k).
                 Ret (0, Some (f_data (fwrite (wav_bytes (h\<lparr>data_sz := frames * ucast (block_align h)\<rparr>)) (fseek_set 0 f))), k))))"

section \<open>Playing\<close>

text \<open>The loop of \<open>play_sample\<close>, which ends with the file.\<close>

function play_loop :: "'x speex \<Rightarrow> nat \<Rightarrow> FILE \<Rightarrow> 'x usb_audio_pcm \<Rightarrow> sound \<Rightarrow> ('x usb_audio_pcm \<times> sound) run" where
  "play_loop S count f u k =
     (let bs = take count (drop (f_pos f) (f_data f))
      in if bs = [] then Ret (u, k)
         else run_bind (usb_audio_write S u bs (length bs) k) (\<lambda>(r, u, k).
           if r < 0 then Ret (u, k) else play_loop S count (f\<lparr>f_pos := f_pos f + length bs\<rparr>) u k))"
  by pat_completeness auto

termination
  by (relation "measure (\<lambda>(S, count, f, u, k). length (f_data f) - f_pos f)") auto

declare play_loop.simps [simp del]

definition play_sample ::
  "'x speex \<Rightarrow> bool \<Rightarrow> 32 word \<Rightarrow> 32 word \<Rightarrow> 32 word \<Rightarrow> 32 word \<Rightarrow> FILE \<Rightarrow> sound \<Rightarrow> sound run" where
  "play_sample S malloc_ok crd device channels rate f k =
     run_bind (usb_audio_open crd device PCM_OUT pcm_config_ua_out k) (\<lambda>(u, _, k).
       case u of None \<Rightarrow> Ret k
       | Some u \<Rightarrow>
           run_bind (defined (usb_audio_set_resample S rate channels 5 u)) (\<lambda>(_, u).
             if \<not> malloc_ok then usb_audio_close u k
             else run_bind (play_loop S (unat (usb_audio_get_buffer_size u)) f u k) (\<lambda>(u, k). usb_audio_close u k)))"

fun play_options :: "byte list list \<Rightarrow> 32 word \<Rightarrow> 32 word option" where
  "play_options [] device = Some device"
| "play_options (s # ss) device =
     (if s = str ''-d'' then (case ss of [] \<Rightarrow> None | v # vs \<Rightarrow> do { n \<leftarrow> atoi v; play_options vs (of_int n) })
      else play_options ss device)"

definition is_wave :: "wav_header \<Rightarrow> bool" where
  "is_wave h \<longleftrightarrow> riff_id h = ID_RIFF \<and> riff_fmt h = ID_WAVE \<and> fmt_id h = ID_FMT \<and> audio_format h = FORMAT_PCM \<and> fmt_sz h = 16"

text \<open>\<open>file\<close> is what \<open>fopen\<close> finds, \<open>junk\<close> what the header holds before.  The message for a file that is no WAV file
  names \<open>argv[1]\<close>, behind the end of the array, where \<open>argv\<close> points by then.\<close>

definition uaplay_main ::
  "'x speex \<Rightarrow> byte list list \<Rightarrow> byte list option \<Rightarrow> byte list \<Rightarrow> bool \<Rightarrow> sound \<Rightarrow> (int \<times> sound) run" where
  "uaplay_main S args file junk malloc_ok k =
     (case args of [] \<Rightarrow> Ret (1, k)
      | name # opts \<Rightarrow>
          (case file of None \<Rightarrow> Ret (1, k)
           | Some d \<Rightarrow> run_bind (defined (play_options opts 0)) (\<lambda>device.
               let (bs, f) = fread 44 \<lparr>f_data = d, f_pos = 0\<rparr>;
                   h = wav_of_bytes (bs @ drop (length bs) junk)
               in if \<not> is_wave h then Fault
                  else if bits_per_sample h \<noteq> 16 then Ret (1, k)
                  else run_bind (play_sample S malloc_ok 1 device (ucast (num_channels h)) (sample_rate h) f k) (\<lambda>k. Ret (0, k)))))"

section \<open>What is recorded can be played\<close>

lemma capture_loop_file:
  assumes "capture_loop S count ts data bytes (rec_file bs) u k = Ret (n, f, u', k')"
  shows "\<exists>cs. f = rec_file (bs @ cs)"
  using assms
proof (induction ts arbitrary: data bytes bs u k)
  case (Cons t ts)
  obtain capturing short where t: "t = (capturing, short)"
    by fastforce
  show ?case
  proof (cases capturing)
    case False
    then have "f = rec_file (bs @ [])"
      using Cons.prems by (simp add: t)
    then show ?thesis
      by blast
  next
    case True
    then obtain r data' u1 k1 where "usb_audio_read S u data MAX_BUF_SIZE count k = Ret (r, data', u1, k1)" and
      rest: "(if r < 0 then Ret (bytes, rec_file bs, u1, k1)
        else case short of Some m \<Rightarrow> Ret (bytes, fwrite (take m (take (nat r) data')) (rec_file bs), u1, k1)
        | None \<Rightarrow> capture_loop S count ts data' (bytes + of_int r) (fwrite (take (nat r) data') (rec_file bs)) u1 k1) = Ret (n, f, u', k')"
      using Cons.prems by (auto simp: t run_bind_Ret)
    consider "r < 0" | m where "\<not> r < 0" "short = Some m" | "\<not> r < 0" "short = None"
      by (cases short) auto
    then show ?thesis
    proof cases
      case 1
      then show ?thesis
        using rest by (intro exI[of _ "[]"]) simp
    next
      case 2
      then show ?thesis
        using rest by (auto simp: fwrite_rec_file)
    next
      case 3
      then show ?thesis
        using rest Cons.IH[of data' "bytes + of_int r" "bs @ take (nat r) data'" u1 k1] by (simp add: fwrite_rec_file) blast
    qed
  qed
qed simp

lemma capture_sample_file:
  assumes "capture_sample S ts crd device channels rate bits (rec_file []) k = Ret (frames, f, k')"
  shows "\<exists>bs. f = rec_file bs"
proof -
  obtain u c k1 where "usb_audio_open crd device PCM_IN pcm_config_ua_in k = Ret (u, c, k1)"
    and rest: "(case u of None \<Rightarrow> Ret (0, rec_file [], k1)
       | Some u \<Rightarrow>
           run_bind (defined (usb_audio_set_resample S rate channels 5 u)) (\<lambda>(_, u).
           run_bind (capture_loop S (unat (usb_audio_get_buffer_size u)) ts (replicate MAX_BUF_SIZE 0) 0 (rec_file []) u k1) (\<lambda>(bytes, f, u, k).
           run_bind (usb_audio_close u k) (\<lambda>k.
             if (bits div 8) * channels = 0 then Fault
             else Ret (bytes div ((bits div 8) * channels), f, k))))) = Ret (frames, f, k')"
    using assms by (auto simp: capture_sample_def run_bind_Ret)
  show ?thesis
  proof (cases u)
    case None
    then show ?thesis
      using rest by auto
  next
    case (Some v)
    then show ?thesis
      using rest by (auto simp: run_bind_Ret dest!: capture_loop_file split: if_splits)
  qed
qed

text \<open>
  A file that \<open>uacap\<close> has written is a header and the recorded bytes, and \<open>uaplay\<close> takes it: with 16 bits it plays
  the bytes behind the header with the rate and the channels of the recording, without 16 bits it refuses the file.
\<close>

lemma recorded_file_plays:
  assumes cap: "uacap_main S args created junk ts k = Ret (0, Some d, k')" and opts: "play_options (tl args') 0 = Some device" "args' \<noteq> []"
  obtains a h bs where "cap_options (tl args) cap_defaults = Some a" "d = wav_bytes h @ bs" "is_wave h"
    "num_channels h = ucast (cap_channels a)" "sample_rate h = cap_rate a" "bits_per_sample h = ucast (cap_bits a)"
    "uaplay_main S args' (Some d) junk' malloc_ok k2 =
      (if bits_per_sample h \<noteq> 16 then Ret (1, k2)
       else run_bind (play_sample S malloc_ok 1 device (ucast (num_channels h)) (sample_rate h) \<lparr>f_data = d, f_pos = 44\<rparr> k2) (\<lambda>k. Ret (0, k)))"
proof -
  have start: "fseek_set 44 \<lparr>f_data = [], f_pos = 0\<rparr> = rec_file []"
    by (simp add: fseek_set_def rec_file_def)
  obtain a frames f where a: "cap_options (tl args) cap_defaults = Some a"
    and f: "capture_sample S ts 1 (cap_device a) (ucast (num_channels (cap_header a junk))) (sample_rate (cap_header a junk))
      (ucast (bits_per_sample (cap_header a junk))) (rec_file []) k = Ret (frames, f, k')"
    and d: "d = f_data (fwrite (wav_bytes ((cap_header a junk)\<lparr>data_sz := frames * ucast (block_align (cap_header a junk))\<rparr>)) (fseek_set 0 f))"
    using cap unfolding uacap_main_def start by (cases args) (auto simp: run_bind_Ret defined_def Let_def split: if_splits option.splits)
  let ?h = "(cap_header a junk)\<lparr>data_sz := frames * ucast (block_align (cap_header a junk))\<rparr>"
  obtain bs where "f = rec_file bs"
    using capture_sample_file[OF f] by blast
  then have eq: "d = wav_bytes ?h @ bs"
    unfolding d by (simp only: header_before)
  have wave: "is_wave ?h"
    by (simp add: is_wave_def cap_header_def Let_def)
  obtain name rest where args': "args' = name # rest"
    using opts(2) by (cases args') auto
  have "fread 44 \<lparr>f_data = d, f_pos = 0\<rparr> = (wav_bytes ?h, \<lparr>f_data = d, f_pos = 44\<rparr>)"
    by (simp add: fread_def Let_def eq)
  then have "uaplay_main S args' (Some d) junk' malloc_ok k2 =
      (if bits_per_sample ?h \<noteq> 16 then Ret (1, k2)
       else run_bind (play_sample S malloc_ok 1 device (ucast (num_channels ?h)) (sample_rate ?h) \<lparr>f_data = d, f_pos = 44\<rparr> k2) (\<lambda>k. Ret (0, k)))"
    using opts(1) wave unfolding uaplay_main_def args' by (simp add: wav_bytes_inverse)
  then show thesis
    using that[OF a eq wave] by (simp add: cap_header_def Let_def)
qed

end
