(* ===== verification/Upil_Tools.thy ===== *)
theory Upil_Tools
  imports Ctrl
begin

text \<open>
  What surrounds the program: its log (\<open>upil_debug.c\<close>, \<open>include/upil_debug.h\<close>), the options and
  the start of \<open>upil.c\<close>, the command line client \<open>upil_client.c\<close>, and the tools \<open>upil_tools/hidtool.c\<close>
  and \<open>upil_tools/hiddump.c\<close> for the device.

  Text is given as the bytes that the format functions of C make of it; what is printed is
  a list.  What a tool reads (arguments, lines, answers of system calls) is an argument.  \<open>None\<close> is an access
  outside of an array.
\<close>

section \<open>The log\<close>

abbreviation (input) MSG_MSGDUMP :: int where "MSG_MSGDUMP \<equiv> 1"
abbreviation (input) MSG_DEBUG :: int where "MSG_DEBUG \<equiv> 2"
abbreviation (input) MSG_INFO :: int where "MSG_INFO \<equiv> 3"
abbreviation (input) MSG_WARNING :: int where "MSG_WARNING \<equiv> 4"
abbreviation (input) MSG_ERROR :: int where "MSG_ERROR \<equiv> 5"

definition MAX_MSG_SIZE :: nat where
  "MAX_MSG_SIZE = 1024"

datatype android_priority = ANDROID_LOG_DEBUG | ANDROID_LOG_INFO | ANDROID_LOG_WARN | ANDROID_LOG_ERROR

text \<open>\<open>log_out\<close> has the lines of the log, with a flag for those that begin with the time.\<close>

record log =
  upil_debug_level :: int
  upil_debug_ts :: bool
  g_dbg_count :: int
  log_out :: "(android_priority \<times> bool \<times> byte list) list"

definition upil_log_init :: log where
  "upil_log_init = \<lparr>upil_debug_level = MSG_INFO, upil_debug_ts = False, g_dbg_count = 0, log_out = []\<rparr>"

definition android_level :: "int \<Rightarrow> android_priority" where
  "android_level level =
     (if level = MSG_ERROR then ANDROID_LOG_ERROR
      else if level = MSG_WARNING then ANDROID_LOG_WARN
      else if level = MSG_INFO then ANDROID_LOG_INFO
      else ANDROID_LOG_DEBUG)"

text \<open>With the time, the text is cut to the size of a local array.\<close>

definition upil_printf :: "int \<Rightarrow> byte list \<Rightarrow> log \<Rightarrow> log" where
  "upil_printf level txt l =
     (if level \<ge> upil_debug_level l
      then l\<lparr>log_out := log_out l @ [(android_level level, upil_debug_ts l,
              if upil_debug_ts l then take (MAX_MSG_SIZE - 1) txt else txt)]\<rparr>
      else l)"

definition strcat :: "byte list \<Rightarrow> byte list \<Rightarrow> byte list option" where
  "strcat dst src = blit dst (length (c_string dst)) (src @ [0])"

definition hex_digit :: "byte \<Rightarrow> byte" where
  "hex_digit d = (if d < 10 then 48 + d else 55 + d)"

text \<open>\<open>%02X\<close> and a blank.\<close>

definition hex_byte :: "byte \<Rightarrow> byte list" where
  "hex_byte b = [hex_digit (drop_bit 4 b), hex_digit (b AND 15), 32]"

fun hexdump_loop :: "byte list \<Rightarrow> byte list \<Rightarrow> byte list option" where
  "hexdump_loop line [] = Some line"
| "hexdump_loop line (b # bs) = do { line \<leftarrow> strcat line (hex_byte b); hexdump_loop line bs }"

text \<open>The line that \<open>upil_hexdump\<close> makes, in an array of 1024 bytes; the function \<open>hexdump\<close> of \<open>hiddump.c\<close> is the same.
  \<open>data\<close> is \<open>None\<close> for \<open>NULL\<close>.\<close>

definition hexdump_line :: "byte list \<Rightarrow> byte list option \<Rightarrow> byte list option" where
  "hexdump_line title data = do {
     line \<leftarrow> strcpy (replicate MAX_MSG_SIZE 0) (title @ [32]);
     (if data = None \<or> data = Some [] then strcat line (str '' [NULL]'' @ [10])
      else do { line \<leftarrow> hexdump_loop line (the data); strcat line [10] }) }"

definition upil_hexdump :: "int \<Rightarrow> byte list \<Rightarrow> byte list option \<Rightarrow> log \<Rightarrow> log option" where
  "upil_hexdump level title data l = do { line \<leftarrow> hexdump_line title data; Some (upil_printf level (c_string line) l) }"

subsection \<open>Entering and leaving functions\<close>

text \<open>
  The macro \<open>ENTER_LEAVE_LOG\<close>, which is expanded in every function whatever the level is: two blanks for each level of
  nesting go to an array of 64 bytes, which a NUL ends.
\<close>

datatype log_call = ENTER_LOG | LEAVE_LOG

definition space_enter :: "int \<Rightarrow> byte list option" where
  "space_enter count = blit (replicate 64 0) 0 (concat (replicate (nat count) [32, 32]) @ [0])"

definition enter_leave_log :: "byte list \<Rightarrow> log_call \<Rightarrow> log \<Rightarrow> log option" where
  "enter_leave_log func call l = do {
     let l = (if call = ENTER_LOG then l else l\<lparr>g_dbg_count := g_dbg_count l - 1\<rparr>);
     sp \<leftarrow> space_enter (g_dbg_count l);
     let l = upil_printf MSG_MSGDUMP (c_string sp @ [40] @ dec_int (g_dbg_count l) @ str '') ['' @ func @ str ''] ''
               @ (if call = ENTER_LOG then str ''ENTER'' else str ''LEAVE'')) l;
     Some (if call = ENTER_LOG then l\<lparr>g_dbg_count := g_dbg_count l + 1\<rparr> else l) }"

fun trace_calls :: "(byte list \<times> log_call) list \<Rightarrow> log \<Rightarrow> log option" where
  "trace_calls [] l = Some l"
| "trace_calls ((func, call) # cs) l = do { l \<leftarrow> enter_leave_log func call l; trace_calls cs l }"

text \<open>
  The traces of two messages that \<open>processCommandBuffer\<close> drops: on the control socket one that is no command, on the RIL
  socket a lone carriage return.  No function is called between them; \<open>processCommandBuffer\<close> returns without leaving.
\<close>

definition unknown_command :: "byte list \<Rightarrow> bool" where
  "unknown_command buffer \<longleftrightarrow>
     \<not> strncmp_eq (c_string buffer) UPIL_CTRL_GET_VER (length UPIL_CTRL_GET_VER) \<and>
     \<not> strncmp_eq (c_string buffer) UPIL_CTRL_DIAL (length UPIL_CTRL_DIAL) \<and>
     \<not> strncmp_eq (c_string buffer) UPIL_CTRL_HANGUP (length UPIL_CTRL_HANGUP) \<and>
     \<not> strncmp_eq (c_string buffer) UPIL_CTRL_GET_STATE UPIL_CTRL_GET_STATE_LEN"

definition dropped_trace :: "(byte list \<times> log_call) list" where
  "dropped_trace =
     [(str ''processCommandsCallback'', ENTER_LOG), (str ''processCommandBuffer'', ENTER_LOG), (str ''processCommandsCallback'', LEAVE_LOG)]"

section \<open>The start of the program\<close>

text \<open>What \<open>getopt\<close> returns one after the other; \<open>None\<close> is \<open>exit(-1)\<close> behind the usage.\<close>

fun main_options :: "char list \<Rightarrow> log \<Rightarrow> log option" where
  "main_options [] l = Some l"
| "main_options (ch # chs) l =
     (if ch = CHR ''d'' then main_options chs (l\<lparr>upil_debug_level := upil_debug_level l - 1\<rparr>)
      else if ch = CHR ''t'' then main_options chs (l\<lparr>upil_debug_ts := True\<rparr>)
      else None)"

text \<open>What \<open>access\<close> returns one after the other; the result is the number of seconds, and \<open>None\<close> says that the device
  does not appear.\<close>

fun wait_device :: "int list \<Rightarrow> nat option" where
  "wait_device [] = None"
| "wait_device (a # as) = (if a = 0 then Some 1 else map_option Suc (wait_device as))"

text \<open>\<open>main\<close>: \<open>start\<close> is the state with the machine that \<open>upil_sm_start\<close> gives, or \<open>None\<close> when it fails.  \<open>MainExit\<close> is \<open>exit(-1)\<close>, \<open>MainWaits\<close> the wait
  for the device, \<open>MainRuns\<close> the endless sleep beside the running loop.\<close>

datatype main_result = MainExit | MainWaits | MainRuns log upil

definition upil_main ::
    "char list \<Rightarrow> int list \<Rightarrow> int \<Rightarrow> (int \<times> int) option \<Rightarrow> int \<Rightarrow> int \<Rightarrow> int \<Rightarrow> int \<Rightarrow> upil option \<Rightarrow> main_result option" where
  "upil_main opts accesses created filedes cfd mfd dfd rfd start =
     (case (main_options opts upil_log_init, start) of
       (None, _) \<Rightarrow> Some MainExit
     | (_, None) \<Rightarrow> Some MainExit
     | (Some l, Some c) \<Rightarrow> do {
         (ret, c1) \<leftarrow> uew_startEventLoop created filedes c;
         if ret \<noteq> 0 then Some MainExit
         else if wait_device accesses = None then Some MainWaits
         else do {
           r \<leftarrow> main_setup created filedes cfd mfd dfd rfd c;
           Some (case r of None \<Rightarrow> MainExit | Some c \<Rightarrow> MainRuns l c) } })"

text \<open>The program runs exactly when the options are known, the machine and the event loop start, the device appears and can be opened, and
  then the log has the level and the flag of the options.\<close>

lemma main_runs_iff:
  "upil_main opts accesses created filedes cfd mfd dfd rfd start = Some (MainRuns l c') \<longleftrightarrow>
    main_options opts upil_log_init = Some l \<and> wait_device accesses \<noteq> None \<and>
    (\<exists>c. start = Some c \<and> main_setup created filedes cfd mfd dfd rfd c = Some (Some c'))"
proof -
  have "main_setup created filedes cfd mfd dfd rfd c \<noteq> Some (Some c')"
    if "\<not> (\<exists>c1. uew_startEventLoop created filedes c = Some (0, c1))" for c
    using that by (auto simp: main_setup_def bind_eq_Some_conv)
  then show ?thesis
    by (auto simp: upil_main_def bind_eq_Some_conv split: option.splits if_splits)
qed

lemma main_options_level:
  "main_options opts l = Some l' \<Longrightarrow>
    upil_debug_level l' = upil_debug_level l - int (count_list opts CHR ''d'') \<and> (upil_debug_ts l' \<longleftrightarrow> upil_debug_ts l \<or> CHR ''t'' \<in> set opts)"
  by (induction opts arbitrary: l) (fastforce split: if_splits)+

section \<open>The tool \<open>hidtool\<close>\<close>

text \<open>\<open>strtoul\<close> with the place at which it stops; without a digit that is the beginning.\<close>

definition strtoul_end :: "int \<Rightarrow> byte list \<Rightarrow> int \<times> byte list" where
  "strtoul_end base s =
     (case strtoul base s of None \<Rightarrow> (0, s)
      | Some n \<Rightarrow>
          let t = dropWhile is_space s;
              t = (case t of c # cs \<Rightarrow> if c = 45 \<or> c = 43 then cs else t | [] \<Rightarrow> t)
          in (n, dropWhile (digit_in base) (skip_0x base t)))"

text \<open>The loop from the index \<open>i\<close> on, with \<open>k\<close> bytes left of \<open>data_size\<close>.\<close>

fun str2hex_loop :: "byte list \<Rightarrow> byte list \<Rightarrow> nat \<Rightarrow> nat \<Rightarrow> (nat \<times> byte list) option" where
  "str2hex_loop s data i 0 = Some (i, data)"
| "str2hex_loop s data i (Suc k) =
     (let (n, ptr) = strtoul_end 16 s
      in if n > 0xFF then Some (i, data)
         else if ptr = s then Some (i, data)
         else if i \<ge> length data then None
         else
           let data = data[i := of_int n]
           in if ptr = [] then Some (i, data) else str2hex_loop (drop 1 ptr) data (i + 1) k)"

definition str2hex :: "byte list \<Rightarrow> byte list \<Rightarrow> nat \<Rightarrow> (nat \<times> byte list) option" where
  "str2hex s data data_size = str2hex_loop s data 0 data_size"

text \<open>\<open>args\<close> are the arguments with the name of the program, \<open>fd\<close> what \<open>open\<close> returns, \<open>junk\<close> what the array \<open>data\<close> holds
  before.  The result are the code and the bytes that go to the device.\<close>

definition hidtool_main :: "byte list list \<Rightarrow> int \<Rightarrow> byte list \<Rightarrow> log \<Rightarrow> (int \<times> byte list option \<times> log) option" where
  "hidtool_main args fd junk l =
     (if fd < 0 then Some (-1, None, l)
      else if length args < 2 then None
      else do {
        (_, data) \<leftarrow> str2hex (args ! 1) junk 8;
        l \<leftarrow> upil_hexdump MSG_DEBUG (str ''send:'') (Some data) l;
        Some (0, Some data, l) })"

section \<open>The tool \<open>hiddump\<close>\<close>

record hiddump =
  hd_pdu_buf :: "byte list"
  hd_pdu_offset :: int
  hd_out :: "byte list list"
  hd_watched :: bool

definition hd_print :: "byte list \<Rightarrow> hiddump \<Rightarrow> hiddump" where
  "hd_print line h = h\<lparr>hd_out := hd_out h @ [line]\<rparr>"

definition hd_hexdump :: "string \<Rightarrow> byte list \<Rightarrow> hiddump \<Rightarrow> hiddump option" where
  "hd_hexdump title data h = do { line \<leftarrow> hexdump_line (str title) (Some data); Some (hd_print (c_string line) h) }"

text \<open>\<open>hidpdu2event\<close> of \<open>tp_protocol.c\<close> with \<open>NULL\<close> for the event.\<close>

definition hidpdu2event_null :: "byte list \<Rightarrow> byte list \<Rightarrow> int \<Rightarrow> (int \<times> byte list \<times> int) option" where
  "hidpdu2event_null data reply tp_index = do {
     flag \<leftarrow> nth_opt data 0;
     if flag \<noteq> HID_FLAG then Some (-1, reply, tp_index)
     else do {
       tp_size \<leftarrow> nth_opt data 1;
       bs \<leftarrow> slice data 2 (unat tp_size);
       reply \<leftarrow> blit reply (nat tp_index) bs;
       let tp_index = tp_index + uint tp_size;
       if tp_size > 0
       then do {
         result \<leftarrow> check_tppdu reply tp_index;
         Some (if result > 0 then 1 else if result < 0 then -1 else 0, reply, tp_index) }
       else Some (0, reply, tp_index) } }"

text \<open>\<open>memset (s_pdu_buf, 0, s_pdu_offset); s_pdu_offset = 0\<close> behind a unit that is complete or bad.\<close>

definition hd_unit :: "int \<Rightarrow> hiddump \<Rightarrow> hiddump option" where
  "hd_unit ret h =
     (if ret = 0 then Some h
      else do {
        h \<leftarrow> (if ret > 0 then hd_hexdump ''++'' (take (nat (hd_pdu_offset h)) (hd_pdu_buf h)) h else Some h);
        b \<leftarrow> blit (hd_pdu_buf h) 0 (replicate (nat (hd_pdu_offset h)) 0);
        Some (h\<lparr>hd_pdu_buf := b, hd_pdu_offset := 0\<rparr>) })"

text \<open>The reports of one read: \<open>buf\<close> is the array, \<open>pbuf\<close> the place and \<open>n\<close> the number of bytes left.\<close>

function hd_loop :: "byte list \<Rightarrow> nat \<Rightarrow> nat \<Rightarrow> hiddump \<Rightarrow> hiddump option" where
  "hd_loop buf pbuf n h =
     (if n \<ge> HIDPDU_LINE_BYTES
      then do {
        h \<leftarrow> hd_hexdump ''<<'' (take HIDPDU_LINE_BYTES (drop pbuf buf)) h;
        a \<leftarrow> nth_opt buf pbuf;
        b \<leftarrow> nth_opt buf (pbuf + 1);
        let ack = (a = 0x03 \<and> b AND 0x80 = 0x80);
        let h = (if ack then hd_print (str ''[ACK]'' @ [10]) h else h);
        let buf = (if ack then buf[1 := buf ! 1 AND 0x3F] else buf);
        (ret, r, i) \<leftarrow> hidpdu2event_null (drop pbuf buf) (hd_pdu_buf h) (hd_pdu_offset h);
        h \<leftarrow> hd_unit ret (h\<lparr>hd_pdu_buf := r, hd_pdu_offset := i\<rparr>);
        hd_loop buf (pbuf + HIDPDU_LINE_BYTES) (n - HIDPDU_LINE_BYTES) h }
      else if n > 0 then hd_hexdump ''<<'' (take n (drop pbuf buf)) h
      else Some h)"
  by pat_completeness auto

termination
  by (relation "measure (\<lambda>(buf, pbuf, n, h). n)") (auto simp: HIDPDU_LINE_BYTES_def)

declare hd_loop.simps [simp del]

text \<open>\<open>input\<close> is what \<open>read\<close> returns (\<open>None\<close> for a failure), \<open>junk\<close> what the array holds before.\<close>

definition recv_event_cb :: "byte list option \<Rightarrow> byte list \<Rightarrow> hiddump \<Rightarrow> (int \<times> hiddump) option" where
  "recv_event_cb input junk h =
     (case input of
       None \<Rightarrow> Some (-1, h\<lparr>hd_watched := False\<rparr>)
     | Some bs \<Rightarrow> do {
         buf \<leftarrow> blit junk 0 bs;
         h \<leftarrow> hd_loop buf 0 (length bs) h;
         Some (0, h) })"

text \<open>What \<open>main\<close> comes to: a return, or the wait for reports of the device.  \<open>opts\<close> is what \<open>getopt\<close> returns before
  -1, \<open>c\<close> what the variable holds at first; the string of the options names no argument, so \<open>optarg\<close> is \<open>NULL\<close>.\<close>

datatype hiddump_end = HdReturn int | HdDevice "byte list"

fun hd_options :: "char list \<Rightarrow> int option" where
  "hd_options [] = Some (-1)"
| "hd_options (ch # chs) = (if ch = CHR ''d'' \<or> ch = CHR ''f'' then None else hd_options chs)"

definition hiddump_main :: "nat \<Rightarrow> char list \<Rightarrow> int \<Rightarrow> int \<Rightarrow> int \<Rightarrow> hiddump_end option" where
  "hiddump_main argc opts c fd started = do {
     c \<leftarrow> (if argc > 1 then hd_options opts else Some c);
     Some (if c = -1 then HdReturn (-1)
           else if fd < 0 then HdReturn (-1)
           else if started \<noteq> 0 then HdReturn (-1)
           else HdDevice (str ''/dev/hidraw0'')) }"

section \<open>The client\<close>

definition print_help :: "byte list" where
  "print_help = str ''-------- upil command --------'' @ [10] @ str ''DIALxxxx'' @ [9, 9] @ str ''call number or connect'' @ [10] @
     str ''HANGUP'' @ [9, 9] @ str ''hangup'' @ [10]"

text \<open>The lines of the input, with the answers of the system calls in a request; \<open>gets\<close> knows no bound.  The result are the lines that are printed.\<close>

fun client_loop :: "(byte list \<times> request_env) list \<Rightarrow> byte list \<Rightarrow> ctrl \<Rightarrow> (byte list list \<times> ctrl) option" where
  "client_loop [] response c = Some ([], c)"
| "client_loop ((line, env) # ls) response c =
     (if length line \<ge> 512 then None
      else let cmd = c_string line
           in if cmd = str ''EXIT'' then Some ([], c)
              else if cmd = str ''HELP'' then do { (out, c) \<leftarrow> client_loop ls response c; Some (print_help # out, c) }
              else if cmd = [] then client_loop ls response c
              else do {
                (_, response, c) \<leftarrow> upil_ctrl_request env cmd response c;
                (out, c) \<leftarrow> client_loop ls response c;
                Some (if c_string response \<noteq> [] then (str ''>> '' @ c_string response @ [10]) # out else out, c) })"

text \<open>The thread that prints what the monitor socket gives.\<close>

fun readLoop :: "recv_env list \<Rightarrow> byte list \<Rightarrow> ctrl \<Rightarrow> (byte list list \<times> ctrl) option" where
  "readLoop [] buf c = Some ([], c)"
| "readLoop (env # envs) buf c = do {
     (r, buf, c) \<leftarrow> upil_monitor_recv env buf c;
     if r \<ge> 0
     then do { (out, c) \<leftarrow> readLoop envs buf c; Some ((str ''<< '' @ c_string buf @ [10]) # out, c) }
     else Some ([str ''exit read loop'' @ [10]], c) }"

definition client_main :: "connect_env \<Rightarrow> connect_env \<Rightarrow> (byte list \<times> request_env) list \<Rightarrow> ctrl \<Rightarrow> (int \<times> byte list list \<times> ctrl) option" where
  "client_main env1 env2 ls c =
     (let (ret, c) = upil_connect env1 env2 c
      in if ret \<noteq> 0 then Some (-1, [], c)
         else do {
           (out, c) \<leftarrow> client_loop ls (replicate 1024 0) c;
           Some (0, out, upil_disconnect c) })"

section \<open>What is shown of the log\<close>

text \<open>An array of \<open>N\<close> bytes with the string \<open>t\<close> and zeros behind it.\<close>

definition padded :: "nat \<Rightarrow> byte list \<Rightarrow> byte list" where
  "padded N t = t @ replicate (N - length t) 0"

lemma strcat_padded:
  assumes "0 \<notin> set t" "length t < N"
  shows "strcat (padded N t) s = (if length t + length s < N then Some (padded N (t @ s)) else None)"
proof -
  have "c_string (padded N t) = t"
    using assms by (simp add: padded_def c_string_def takeWhile_append)
  then show ?thesis
    using assms by (auto simp: strcat_def blit_def padded_def drop_replicate Suc_diff_Suc replicate_app_Cons_same simp flip: replicate_Suc)
qed

lemma hex_digit_value:
  assumes "d < 16"
  shows "hex_digit d \<noteq> 0" "digit_value (hex_digit d) = Some (uint d)" "digit_in 16 (hex_digit d)" "\<not> is_space (hex_digit d)"
    "hex_digit d \<noteq> 45" "hex_digit d \<noteq> 43" "hex_digit d \<noteq> 120" "hex_digit d \<noteq> 88"
proof -
  have "unat d < 16"
    using assms by (simp add: word_less_nat_alt)
  then have "d = of_nat (unat d)" "unat d \<in> {0..<16}"
    by simp_all
  moreover have "\<forall>n\<in>{0..<16}. let h = hex_digit (of_nat n) in h \<noteq> 0 \<and> digit_value h = Some (uint (of_nat n :: byte)) \<and> digit_in 16 h \<and>
      \<not> is_space h \<and> h \<noteq> 45 \<and> h \<noteq> 43 \<and> h \<noteq> 120 \<and> h \<noteq> 88"
    by code_simp
  ultimately show "hex_digit d \<noteq> 0" "digit_value (hex_digit d) = Some (uint d)" "digit_in 16 (hex_digit d)" "\<not> is_space (hex_digit d)"
    "hex_digit d \<noteq> 45" "hex_digit d \<noteq> 43" "hex_digit d \<noteq> 120" "hex_digit d \<noteq> 88"
    unfolding Let_def by metis+
qed

lemma nibbles_less: "drop_bit 4 (b :: byte) < 16" "b AND 15 < 16"
proof -
  have "uint b < 256"
    using uint_lt2p[of b] by simp
  then show "drop_bit 4 b < 16"
    by (simp add: word_less_def drop_bit_eq_div uint_div)
  have "b AND 15 \<le> 15"
    by (rule word_and_le1)
  then show "b AND 15 < 16"
    by (simp add: word_le_nat_alt word_less_nat_alt)
qed

lemma hex_byte_simps [simp]: "0 \<notin> set (hex_byte b)" "length (hex_byte b) = 3"
  using hex_digit_value(1)[OF nibbles_less(1), of b] hex_digit_value(1)[OF nibbles_less(2), of b] by (auto simp: hex_byte_def)

lemma length_hex_bytes [simp]: "length (concat (map hex_byte bs)) = 3 * length bs"
  by (induction bs) simp_all

lemma hexdump_loop_padded:
  assumes "0 \<notin> set t" "length t < N"
  shows "hexdump_loop (padded N t) bs =
    (if length t + 3 * length bs < N then Some (padded N (t @ concat (map hex_byte bs))) else None)"
  using assms
proof (induction bs arbitrary: t)
  case (Cons b bs)
  then show ?case
    using Cons.IH[of "t @ hex_byte b"] by (auto simp: strcat_padded)
qed simp



subsection \<open>Nesting\<close>

lemma upil_printf_count [simp]: "g_dbg_count (upil_printf level txt l) = g_dbg_count l"
  by (simp add: upil_printf_def)

lemma space_enter_None: "space_enter count = None \<longleftrightarrow> count > 31"
proof -
  have "length (concat (replicate n [32, 32 :: byte])) = 2 * n" for n
    by (induction n) simp_all
  then have "space_enter count = None \<longleftrightarrow> 64 < 2 * nat count + 1"
    by (simp add: space_enter_def blit_def)
  then show ?thesis
    by linarith
qed

lemma enter_log: "map_option g_dbg_count (enter_leave_log f ENTER_LOG l) = (if g_dbg_count l \<le> 31 then Some (g_dbg_count l + 1) else None)"
  using space_enter_None[of "g_dbg_count l"] by (cases "space_enter (g_dbg_count l)") (auto simp: enter_leave_log_def Let_def)

lemma leave_log: "map_option g_dbg_count (enter_leave_log f LEAVE_LOG l) = (if g_dbg_count l \<le> 32 then Some (g_dbg_count l - 1) else None)"
  using space_enter_None[of "g_dbg_count l - 1"] by (cases "space_enter (g_dbg_count l - 1)") (auto simp: enter_leave_log_def Let_def)

lemma trace_calls_append: "trace_calls (as @ bs) l = Option.bind (trace_calls as l) (trace_calls bs)"
proof (induction as arbitrary: l)
  case (Cons a as)
  obtain f call where "a = (f, call)"
    by fastforce
  then show ?case
    using Cons.IH by (cases "enter_leave_log f call l") simp_all
qed simp

lemma dropped_trace_count:
  "map_option g_dbg_count (trace_calls dropped_trace l) = (if g_dbg_count l \<le> 30 then Some (g_dbg_count l + 1) else None)"
proof -
  let ?a = "str ''processCommandsCallback''" and ?b = "str ''processCommandBuffer''"
  show ?thesis
  proof (cases "enter_leave_log ?a ENTER_LOG l")
    case None
    then show ?thesis
      using enter_log[of ?a l] by (simp add: dropped_trace_def split: if_splits)
  next
    case (Some l1)
    then have 1: "g_dbg_count l1 = g_dbg_count l + 1"
      using enter_log[of ?a l] by (simp split: if_splits)
    show ?thesis
    proof (cases "enter_leave_log ?b ENTER_LOG l1")
      case None
      then show ?thesis
        using Some 1 enter_log[of ?b l1] by (simp add: dropped_trace_def split: if_splits)
    next
      case 2: (Some l2)
      then have "g_dbg_count l2 = g_dbg_count l + 2" "g_dbg_count l \<le> 30"
        using 1 enter_log[of ?b l1] by (auto split: if_splits)
      then show ?thesis
        using Some 2 leave_log[of ?a l2] by (cases "enter_leave_log ?a LEAVE_LOG l2") (auto simp: dropped_trace_def split: if_splits)
    qed
  qed
qed


text \<open>The messages change nothing else.\<close>

lemma dropped_messages_ignored:
  "unknown_command buffer \<Longrightarrow> cmd_processCommandBuffer fd buffer c = Some c"
  "c_string buffer = [13] \<Longrightarrow> ril_processCommandBuffer fd buffer c = Some c"
  by (simp_all add: unknown_command_def cmd_processCommandBuffer_def ril_processCommandBuffer_def)

section \<open>A dump is read back\<close>

lemma hex_nibbles: "16 * uint (drop_bit 4 (b :: byte)) + uint (b AND 15) = uint b"
proof -
  have "b AND 15 = take_bit 4 b"
    by (simp add: take_bit_eq_mask mask_numeral)
  then show ?thesis
    by (simp add: drop_bit_eq_div uint_div take_bit_eq_mod uint_mod)
qed

lemma strtoul_hex_byte: "strtoul_end 16 (hex_byte b @ rest) = (uint b, 32 # rest)"
proof -
  define h1 h2 where h: "h1 = hex_digit (drop_bit 4 b)" "h2 = hex_digit (b AND 15)"
  note d1 = hex_digit_value[OF nibbles_less(1), of b, folded h(1)] and d2 = hex_digit_value[OF nibbles_less(2), of b, folded h(2)]
  have blank: "\<not> digit_in 16 32"
    by code_simp
  have s: "hex_byte b @ rest = h1 # h2 # 32 # rest"
    by (simp add: hex_byte_def h)
  have scan: "scan_number 16 (h1 # h2 # 32 # rest) = (False, [h1, h2])"
    using d1 d2 blank by (simp add: scan_number_def)
  have "digits_in 16 [h1, h2] = uint b"
    using d1(2) d2(2) hex_nibbles[of b] by (simp add: digits_in_def)
  moreover have "uint b < 2 ^ 32"
    using uint_lt2p[of b] by simp
  ultimately have "strtoul 16 (h1 # h2 # 32 # rest) = Some (uint b)"
    unfolding strtoul_def scan by (simp add: LONG_BITS_def)
  then show ?thesis
    unfolding strtoul_end_def s using d1 d2 blank by simp
qed

lemma str2hex_loop_dump:
  assumes "i + length bs \<le> length data" "length bs \<le> k"
  shows "str2hex_loop (concat (map hex_byte bs)) data i k = Some (i + length bs, take i data @ bs @ drop (i + length bs) data)"
  using assms
proof (induction bs arbitrary: i k data)
  case Nil
  have "strtoul_end 16 [] = (0, [])"
    by code_simp
  then show ?case
    by (cases k) simp_all
next
  case (Cons b bs)
  then obtain k' where k: "k = Suc k'" "length bs \<le> k'"
    by (cases k) auto
  have b: "strtoul_end 16 (hex_byte b @ concat (map hex_byte bs)) = (uint b, 32 # concat (map hex_byte bs))" "\<not> uint b > 255"
    using strtoul_hex_byte uint_lt2p[of b] by simp_all
  have ne: "32 # concat (map hex_byte bs) \<noteq> hex_byte b @ concat (map hex_byte bs)"
    by (auto dest: arg_cong[of _ _ length])
  have "i < length data"
    using Cons.prems(1) by simp
  then have "str2hex_loop (concat (map hex_byte (b # bs))) data i k = str2hex_loop (concat (map hex_byte bs)) (data[i := b]) (i + 1) k'"
    using b ne unfolding k(1) by simp
  moreover have "take (i + 1) (data[i := b]) = take i data @ [b]"
    using \<open>i < length data\<close> by (simp add: take_Suc_conv_app_nth)
  ultimately show ?case
    using Cons.IH[of "i + 1" "data[i := b]" k'] Cons.prems k(2) by simp
qed

text \<open>
  \<open>str2hex\<close> of the tool reads back the bytes of a dump as \<open>upil_hexdump\<close> prints them, whatever
  the bytes are, and leaves the rest of its array as it is.
\<close>

lemma hexdump_read_back:
  assumes "length bs \<le> length data" "length bs \<le> n"
  shows "str2hex (concat (map hex_byte bs)) data n = Some (length bs, bs @ drop (length bs) data)"
  using str2hex_loop_dump[of 0 bs data n] assms by (simp add: str2hex_def)

lemma hexdump_read_back_witness:
  "str2hex (str ''03 A7 FF '') [0, 0, 0, 0] 4 = Some (3, [0x03, 0xA7, 0xFF, 0])"
proof -
  have "concat (map hex_byte [0x03, 0xA7, 0xFF]) = str ''03 A7 FF ''"
    by code_simp
  then show ?thesis
    using hexdump_read_back[of "[0x03, 0xA7, 0xFF]" "[0, 0, 0, 0]" 4] by simp
qed

text \<open>Without a blank at the end the count that \<open>str2hex\<close> returns is one too small.\<close>

lemma str2hex_count: "str2hex (str ''03 A7'') [0, 0, 0, 0] 4 = Some (1, [0x03, 0xA7, 0, 0])"
  by code_simp

text \<open>With any argument \<open>hiddump\<close> returns at once or is undefined.\<close>

lemma hiddump_no_arguments:
  assumes "argc > 1"
  shows "hiddump_main argc opts c fd started \<in> {None, Some (HdReturn (-1))}"
proof -
  have "hd_options opts \<in> {None, Some (-1)}"
    by (induction opts) auto
  then show ?thesis
    using assms by (auto simp: hiddump_main_def)
qed

section \<open>A session of the client\<close>

lemma strcpy_fits: "length t < length reply \<Longrightarrow> \<exists>r. strcpy reply t = Some r \<and> length r = length reply"
  by (auto simp: strcpy_def blit_def)

lemma request_sends:
  assumes "env_send env" "fd_ok (s_fd_sender c)" "UPIL_MAX_MSG_LEN \<le> length reply"
  shows "\<exists>r reply'. upil_ctrl_request env cmd reply c = Some (r, reply', c\<lparr>ctl_sent := ctl_sent c @ [(s_fd_sender c, cmd)]\<rparr>) \<and> length reply' = length reply"
proof -
  have pos: "0 < UPIL_MAX_MSG_LEN"
    by (simp add: UPIL_MAX_MSG_LEN_def)
  then obtain r0 where r0: "blit reply 0 [0] = Some r0" "length r0 = length reply"
    using assms(3) by (auto simp: blit_def)
  have fits: "\<exists>r. strcpy r0 t = Some r \<and> length r = length reply" if "length t \<le> UPIL_MAX_MSG_LEN - 1" for t
    using strcpy_fits[of t r0] that assms(3) pos r0(2) by fastforce
  have msg: "length (drop n (c_string (take (UPIL_MAX_MSG_LEN - 1) bs))) \<le> UPIL_MAX_MSG_LEN - 1" for n bs
    using length_c_string[of "take (UPIL_MAX_MSG_LEN - 1) bs"] by auto
  show ?thesis
  proof (cases "env_recv env")
    case None
    then show ?thesis
      using assms(1,2) r0 by (simp add: upil_ctrl_request_def Let_def)
  next
    case (Some bs)
    then show ?thesis
      using assms(1,2) r0 fits[OF msg[of "length REPLY_SUCCESS" bs]] fits[OF msg[of "length REPLY_FAILURE" bs]] fits[OF msg[of 0 bs]]
      by (auto simp: upil_ctrl_request_def Let_def)
  qed
qed

text \<open>The commands of an input: the lines before \<open>EXIT\<close> that are neither empty nor \<open>HELP\<close>.\<close>

definition client_commands :: "byte list list \<Rightarrow> byte list list" where
  "client_commands ls = filter (\<lambda>l. l \<noteq> [] \<and> l \<noteq> str ''HELP'') (takeWhile (\<lambda>l. l \<noteq> str ''EXIT'') (map c_string ls))"

text \<open>The client sends the commands of its input in their order, one by one, as long as no line is longer than its array.\<close>

lemma client_sends_commands:
  assumes "\<forall>(line, env)\<in>set ls. length line < 512 \<and> env_send env" "fd_ok (s_fd_sender c)" "UPIL_MAX_MSG_LEN \<le> length response"
  shows "\<exists>out. client_loop ls response c =
    Some (out, c\<lparr>ctl_sent := ctl_sent c @ map (\<lambda>l. (s_fd_sender c, l)) (client_commands (map fst ls))\<rparr>)"
  using assms
proof (induction ls arbitrary: c response)
  case Nil
  then show ?case
    by (simp add: client_commands_def)
next
  case (Cons a ls)
  obtain line env where a: "a = (line, env)"
    by fastforce
  have l: "length line < 512" "env_send env" and rest: "\<forall>(line, env)\<in>set ls. length line < 512 \<and> env_send env"
    using Cons.prems(1) a by auto
  let ?cmd = "c_string line"
  consider "?cmd = str ''EXIT''" | "?cmd = str ''HELP''" | "?cmd = []" | "?cmd \<noteq> str ''EXIT''" "?cmd \<noteq> str ''HELP''" "?cmd \<noteq> []"
    by blast
  then show ?case
  proof cases
    case 4
    let ?c = "c\<lparr>ctl_sent := ctl_sent c @ [(s_fd_sender c, ?cmd)]\<rparr>"
    obtain r reply where "upil_ctrl_request env ?cmd response c = Some (r, reply, ?c)" "length reply = length response"
      using request_sends[OF l(2) Cons.prems(2,3)] by blast
    then show ?thesis
      using Cons.IH[OF rest, of ?c reply] Cons.prems(2,3) 4 l(1) by (auto simp: a client_commands_def)
  qed (use Cons.IH[OF rest, of c response] Cons.prems(2,3) l(1) in \<open>auto simp: a client_commands_def str_def\<close>)
qed

end
