(* ===== verification/Audio_Streams.thy ===== *)
theory Audio_Streams
  imports Audio_Threads
begin

text \<open>
  The threads of \<open>upil_audio/upil_audio.cpp\<close> with the calls that they make: what
  \<open>Audio_Threads\<close> takes as the outcome of a step is here what the functions of
  \<open>Audio_File\<close> and \<open>Usb_Audio\<close> return.  A step has the local variables of the thread
  (\<open>thread_vars\<close>) and the devices that it uses (\<open>devices\<close>); of its outcome only the clock, the
  file system and the uninitialised variables are left open.
\<close>

section \<open>Local variables and devices\<close>

record 'x thread_vars =
  st_card :: "'x usb_audio_pcm option"
  st_buf :: "byte list"
  st_size :: nat

text \<open>Of Android's classes: \<open>getMinFrameCount\<close>, \<open>set\<close>, \<open>frameSize\<close> and the answers of
  \<open>obtainBuffer\<close>, for the track and for the record; \<open>host_track\<close> is what the track got.\<close>

record devices =
  sound_card :: sound
  ua_in :: pcm_config
  ua_out :: pcm_config
  is_host_track_setup :: bool
  track_min :: "bool \<times> int"
  track_set :: bool
  track_frame :: nat
  track_answers :: "nat obtain_buffer list"
  host_track :: "byte list"
  record_min :: "bool \<times> int"
  record_set :: bool
  record_frame :: nat
  record_answers :: "byte list obtain_buffer list"

definition with_card :: "'x thread_vars \<Rightarrow> ('x usb_audio_pcm \<Rightarrow> 'b run) \<Rightarrow> 'b run" where
  "with_card st f = (case st_card st of None \<Rightarrow> Fault | Some u \<Rightarrow> f u)"

definition goto_next :: "('p option \<times> audio_mod) option \<Rightarrow> 'x thread_vars \<Rightarrow> devices \<Rightarrow>
    (('p option \<times> audio_mod) \<times> 'x thread_vars \<times> devices) run" where
  "goto_next x st v = run_bind (defined x) (\<lambda>y. Ret (y, st, v))"

definition close_card :: "'x thread_vars \<Rightarrow> devices \<Rightarrow> ('x thread_vars \<times> devices) run" where
  "close_card st v = with_card st (\<lambda>u.
     run_bind (usb_audio_close u (sound_card v)) (\<lambda>k. Ret (st\<lparr>st_card := None\<rparr>, v\<lparr>sound_card := k\<rparr>)))"

section \<open>Steps with their calls\<close>

fun in_step :: "'x speex \<Rightarrow> outcome \<Rightarrow> in_pc \<Rightarrow> 'x thread_vars \<Rightarrow> devices \<Rightarrow> audio_mod \<Rightarrow>
    ((in_pc option \<times> audio_mod) \<times> 'x thread_vars \<times> devices) run" where
  "in_step S d InSetup st v a =
     run_bind (usba_setup_record S (ua_in v) (sound_card v)) (\<lambda>(r, u, cfg, k).
       let (q, _, ready) = (if r < 0 then (-1, None, is_host_track_setup v)
                            else hosta_setup_track (track_min v) (track_set v) (is_host_track_setup v))
       in goto_next (usba_to_hosta (d\<lparr>out_ok := (r \<ge> 0 \<and> q \<ge> 0)\<rparr>) InSetup a) (st\<lparr>st_card := map_option fst u\<rparr>)
            (v\<lparr>sound_card := k, ua_in := cfg, is_host_track_setup := ready\<rparr>))"
| "in_step S d (InBody n) st v a = with_card st (\<lambda>u.
     run_bind (usb_audio_read S u (st_buf st) MAX_BUF_SIZE 1024 (sound_card v)) (\<lambda>(r, buf, u, k).
       let st = st\<lparr>st_card := Some u, st_buf := buf\<rparr>; v = v\<lparr>sound_card := k\<rparr>
       in if r < 0 then goto_next (usba_to_hosta (d\<lparr>out_ok := False\<rparr>) (InBody n) a) st v
          else run_bind (hosta_write_data (track_frame v) buf (nat r) (track_answers v) (host_track v)) (\<lambda>(w, track, as).
            goto_next (usba_to_hosta (d\<lparr>out_ok := (w \<ge> 0)\<rparr>) (InBody n) a) st
              (v\<lparr>host_track := track, track_answers := as\<rparr>))))"
| "in_step S d InEnd st v a =
     run_bind (close_card st v) (\<lambda>(st, v). goto_next (usba_to_hosta d InEnd a) st v)"
| "in_step S d pc st v a = goto_next (usba_to_hosta d pc a) st v"

fun out_step :: "'x speex \<Rightarrow> outcome \<Rightarrow> out_pc \<Rightarrow> 'x thread_vars \<Rightarrow> devices \<Rightarrow> audio_mod \<Rightarrow>
    ((out_pc option \<times> audio_mod) \<times> 'x thread_vars \<times> devices) run" where
  "out_step S d OutSetup st v a =
     (case hosta_setup_record (record_min v) (record_set v) (record_frame v) of
        (q, None) \<Rightarrow> goto_next (hosta_to_usba (d\<lparr>out_ok := False\<rparr>) OutSetup a) st v
      | (q, Some size_in) \<Rightarrow>
          run_bind (usba_setup_track S 44100 2 (ua_out v) (sound_card v)) (\<lambda>(r, u, cfg, k).
            goto_next (hosta_to_usba (d\<lparr>out_ok := (r \<ge> 0)\<rparr>) OutSetup a)
              (case u of None \<Rightarrow> st | Some (u, size_out) \<Rightarrow> st\<lparr>st_card := Some u, st_size := min size_in size_out\<rparr>)
              (v\<lparr>sound_card := k, ua_out := cfg\<rparr>)))"
| "out_step S d OutBody st v a =
     run_bind (hosta_read_data (record_frame v) (st_buf st) (st_size st) (record_answers v)) (\<lambda>(r, buf, as).
       let st = st\<lparr>st_buf := buf\<rparr>; v = v\<lparr>record_answers := as\<rparr>
       in if r < 0 then goto_next (hosta_to_usba (d\<lparr>out_ok := False\<rparr>) OutBody a) st v
          else with_card st (\<lambda>u.
            run_bind (usb_audio_write S u buf (st_size st) (sound_card v)) (\<lambda>(w, u, k).
              goto_next (hosta_to_usba (d\<lparr>out_ok := (w \<ge> 0)\<rparr>) OutBody a) (st\<lparr>st_card := Some u\<rparr>) (v\<lparr>sound_card := k\<rparr>))))"
| "out_step S d OutEnd st v a =
     run_bind (close_card st v) (\<lambda>(st, v). goto_next (hosta_to_usba d OutEnd a) st v)"
| "out_step S d pc st v a = goto_next (hosta_to_usba d pc a) st v"

fun play_step :: "'x speex \<Rightarrow> outcome \<Rightarrow> play_pc \<Rightarrow> 'x thread_vars \<Rightarrow> devices \<Rightarrow> audio_mod \<Rightarrow>
    ((play_pc option \<times> audio_mod) \<times> 'x thread_vars \<times> devices) run" where
  "play_step S d PlaySetup st v a =
     (case snd (file_setup_record (disk a (s_play_filename a)) (out_junk d)) of
        None \<Rightarrow> goto_next (file_to_usba d PlaySetup a) st v
      | Some (f, rate, channel) \<Rightarrow>
          run_bind (usba_setup_track S rate channel (ua_out v) (sound_card v)) (\<lambda>(r, u, cfg, k).
            goto_next (file_to_usba (d\<lparr>out_ok := (r \<ge> 0), out_size := (case u of None \<Rightarrow> 0 | Some (u, n) \<Rightarrow> n)\<rparr>) PlaySetup a)
              (st\<lparr>st_card := map_option fst u\<rparr>) (v\<lparr>sound_card := k, ua_out := cfg\<rparr>)))"
| "play_step S d (PlayBody f n) st v a =
     (let bs = fst (fread n f)
      in run_bind (defined (blit (st_buf st) 0 bs)) (\<lambda>buf.
        if bs = [] then goto_next (file_to_usba d (PlayBody f n) a) (st\<lparr>st_buf := buf\<rparr>) v
        else with_card st (\<lambda>u.
          run_bind (usb_audio_write S u buf (length bs) (sound_card v)) (\<lambda>(w, u, k).
            goto_next (file_to_usba (d\<lparr>out_ok := (w \<ge> 0)\<rparr>) (PlayBody f n) a) (st\<lparr>st_buf := buf, st_card := Some u\<rparr>)
              (v\<lparr>sound_card := k\<rparr>)))))"
| "play_step S d PlayClose st v a =
     run_bind (close_card st v) (\<lambda>(st, v). goto_next (file_to_usba d PlayClose a) st v)"
| "play_step S d pc st v a = goto_next (file_to_usba d pc a) st v"

fun rec_step :: "'x speex \<Rightarrow> outcome \<Rightarrow> rec_pc \<Rightarrow> 'x thread_vars \<Rightarrow> devices \<Rightarrow> audio_mod \<Rightarrow>
    ((rec_pc option \<times> audio_mod) \<times> 'x thread_vars \<times> devices) run" where
  "rec_step S d RecSetup st v a =
     run_bind (usba_setup_record S (ua_in v) (sound_card v)) (\<lambda>(r, u, cfg, k).
       goto_next (usba_to_file (d\<lparr>out_ok := (r \<ge> 0)\<rparr>) RecSetup a) (st\<lparr>st_card := map_option fst u\<rparr>)
         (v\<lparr>sound_card := k, ua_in := cfg\<rparr>))"
| "rec_step S d (RecBody s) st v a = with_card st (\<lambda>u.
     run_bind (usb_audio_read S u (st_buf st) MAX_BUF_SIZE 1024 (sound_card v)) (\<lambda>(r, buf, u, k).
       goto_next (usba_to_file (d\<lparr>out_ok := (r \<ge> 0), out_bytes := take (nat r) buf\<rparr>) (RecBody s) a)
         (st\<lparr>st_card := Some u, st_buf := buf\<rparr>) (v\<lparr>sound_card := k\<rparr>)))"
| "rec_step S d (RecEnd s) st v a =
     run_bind (close_card st v) (\<lambda>(st, v). goto_next (usba_to_file d (RecEnd s) a) st v)"
| "rec_step S d pc st v a = goto_next (usba_to_file d pc a) st v"

text \<open>A run of steps of one thread, up to its end.\<close>

fun steps :: "(outcome \<Rightarrow> 'p \<Rightarrow> 'x thread_vars \<Rightarrow> devices \<Rightarrow> audio_mod \<Rightarrow> (('p option \<times> audio_mod) \<times> 'x thread_vars \<times> devices) run) \<Rightarrow>
    outcome list \<Rightarrow> 'p option \<times> audio_mod \<Rightarrow> 'x thread_vars \<Rightarrow> devices \<Rightarrow> (('p option \<times> audio_mod) \<times> 'x thread_vars \<times> devices) run" where
  "steps step [] x st v = Ret (x, st, v)"
| "steps step (d # ds) (None, a) st v = Ret ((None, a), st, v)"
| "steps step (d # ds) (Some pc, a) st v = run_bind (step d pc st v a) (\<lambda>(x, st, v). steps step ds x st v)"

fun outcomes_run :: "(outcome \<Rightarrow> 'p \<Rightarrow> audio_mod \<Rightarrow> ('p option \<times> audio_mod) option) \<Rightarrow> outcome list \<Rightarrow>
    'p option \<times> audio_mod \<Rightarrow> ('p option \<times> audio_mod) option" where
  "outcomes_run body [] x = Some x"
| "outcomes_run body (d # ds) (None, a) = Some (None, a)"
| "outcomes_run body (d # ds) (Some pc, a) = Option.bind (body d pc a) (outcomes_run body ds)"

section \<open>The calls give outcomes\<close>

text \<open>Whatever the calls return, a step with its calls is a step of the thread for some outcome: what
  holds of the threads for all outcomes holds with the calls.\<close>

locale calls_give_outcome =
  fixes body :: "outcome \<Rightarrow> 'p \<Rightarrow> audio_mod \<Rightarrow> ('p option \<times> audio_mod) option"
    and step :: "outcome \<Rightarrow> 'p \<Rightarrow> 'x thread_vars \<Rightarrow> devices \<Rightarrow> audio_mod \<Rightarrow> (('p option \<times> audio_mod) \<times> 'x thread_vars \<times> devices) run"
  assumes step_outcome: "step d pc st v a = Ret (y, st', v') \<Longrightarrow> \<exists>d'. body d' pc a = Some y"
begin

lemma steps_outcomes:
  "steps step ds x st v = Ret (y, st', v') \<Longrightarrow> \<exists>ds'. length ds' = length ds \<and> outcomes_run body ds' x = Some y"
proof (induction ds arbitrary: x st v)
  case (Cons d ds)
  show ?case
  proof (cases "fst x")
    case None
    then show ?thesis
      using Cons.prems by (cases x) (auto intro!: exI[of _ "d # ds"])
  next
    case (Some pc)
    then obtain a where x: "x = (Some pc, a)"
      by (cases x) auto
    from Cons.prems obtain z st1 v1 where z: "step d pc st v a = Ret (z, st1, v1)" "steps step ds z st1 v1 = Ret (y, st', v')"
      by (auto simp: x run_bind_Ret)
    obtain d' ds' where "body d' pc a = Some z" "length ds' = length ds" "outcomes_run body ds' z = Some y"
      using step_outcome[OF z(1)] Cons.IH[OF z(2)] by blast
    then show ?thesis
      by (intro exI[of _ "d' # ds'"]) (simp add: x)
  qed
qed simp

end

lemma goto_next_Ret: "goto_next x st v = Ret (y, st', v') \<longleftrightarrow> x = Some y \<and> st' = st \<and> v' = v"
  by (auto simp: goto_next_def defined_def split: option.split)

lemma with_card_Ret: "with_card st f = Ret y \<longleftrightarrow> (\<exists>u. st_card st = Some u \<and> f u = Ret y)"
  by (auto simp: with_card_def split: option.split)

lemmas calls_Ret = goto_next_Ret with_card_Ret run_bind_Ret Let_def

interpretation in_calls: calls_give_outcome usba_to_hosta "in_step S"
proof unfold_locales
  fix d pc st v a y st' v'
  assume "in_step S d pc st v a = Ret (y, st', v')"
  then show "\<exists>d'. usba_to_hosta d' pc a = Some y"
    by (cases pc) (auto simp: calls_Ret split_beta simp del: usba_to_hosta.simps split: if_splits)
qed

interpretation out_calls: calls_give_outcome hosta_to_usba "out_step S"
proof unfold_locales
  fix d pc st v a y st' v'
  assume "out_step S d pc st v a = Ret (y, st', v')"
  then show "\<exists>d'. hosta_to_usba d' pc a = Some y"
    by (cases pc) (auto simp: calls_Ret simp del: hosta_to_usba.simps split: prod.splits if_splits option.splits)
qed

interpretation play_calls: calls_give_outcome file_to_usba "play_step S"
proof unfold_locales
  fix d pc st v a y st' v'
  assume "play_step S d pc st v a = Ret (y, st', v')"
  then show "\<exists>d'. file_to_usba d' pc a = Some y"
    by (cases pc; auto simp: calls_Ret simp del: file_to_usba.simps split: if_splits option.split_asm; blast)
qed

interpretation rec_calls: calls_give_outcome usba_to_file "rec_step S"
proof unfold_locales
  fix d pc st v a y st' v'
  assume "rec_step S d pc st v a = Ret (y, st', v')"
  then show "\<exists>d'. usba_to_file d' pc a = Some y"
    by (cases pc) (auto simp: calls_Ret simp del: usba_to_file.simps)
qed

text \<open>Both contracts together: in a stopped module a thread with its calls, if they return, ends.\<close>

locale stoppable_calls = stoppable body left wrap + calls_give_outcome body step
  for body :: "outcome \<Rightarrow> 'p \<Rightarrow> audio_mod \<Rightarrow> ('p option \<times> audio_mod) option"
    and left :: "'p \<Rightarrow> nat" and wrap :: "'p \<Rightarrow> thread"
    and step :: "outcome \<Rightarrow> 'p \<Rightarrow> 'x thread_vars \<Rightarrow> devices \<Rightarrow> audio_mod \<Rightarrow> (('p option \<times> audio_mod) \<times> 'x thread_vars \<times> devices) run"
begin

lemma left_pos: "0 < left p"
  using rank_wrap[of p] rank_0[of "Some (wrap p)"] by simp

lemma outcomes_end:
  "outcomes_run body ds (q, a) = Some (p', b) \<Longrightarrow> \<not> s_audio_running a \<Longrightarrow> (case q of None \<Rightarrow> 0 | Some p \<Rightarrow> left p) \<le> length ds \<Longrightarrow>
    p' = None \<and> \<not> s_audio_running b"
proof (induction ds arbitrary: q a)
  case Nil
  then show ?case
    using left_pos[of "the q"] by (auto split: option.splits)
next
  case (Cons d ds)
  show ?case
  proof (cases q)
    case (Some p)
    then obtain q1 a1 where step: "body d p a = Some (q1, a1)" "outcomes_run body ds (q1, a1) = Some (p', b)"
      using Cons.prems(1) by (auto simp: bind_eq_Some_conv)
    with nearer[OF step(1) Cons.prems(2)] Cons.prems(3) Some show ?thesis
      by (intro Cons.IH[of q1 a1]) auto
  qed (use Cons.prems in auto)
qed

lemma stopped_ends:
  assumes "steps step ds (Some p, a) st v = Ret ((p', b), st', v')" "\<not> s_audio_running a" "left p \<le> length ds"
  shows "p' = None \<and> \<not> s_audio_running b"
proof -
  obtain ds' where "length ds' = length ds" "outcomes_run body ds' (Some p, a) = Some (p', b)"
    using steps_outcomes[OF assms(1)] by blast
  then show ?thesis
    using outcomes_end[of ds' "Some p" a p' b] assms(2,3) by simp
qed

end

interpretation in_ends: stoppable_calls usba_to_hosta in_left In "in_step S" ..

interpretation out_ends: stoppable_calls hosta_to_usba out_left Out "out_step S" ..

interpretation play_ends: stoppable_calls file_to_usba play_left Play "play_step S" ..

interpretation rec_ends: stoppable_calls usba_to_file rec_left Rec "rec_step S" ..

section \<open>The far party is heard\<close>

text \<open>A resampler that hands the samples on and a stream with it, for examples.\<close>

definition pass_through :: "unit speex" where
  "pass_through = \<lparr>spx_init = \<lambda>_ _ _ _. Some (), spx_process = \<lambda>x ws n. (length ws, take n ws, x),
     spx_reset_mem = \<lambda>x. x, spx_input_latency = \<lambda>_. 0, spx_output_latency = \<lambda>_. 0\<rparr>"

definition example_stream :: "unit usb_audio_pcm" where
  "example_stream =
     \<lparr>ua_pcm = zero_pcm\<lparr>pcm_cfg := zero_config\<lparr>cfg_channels := 1, cfg_rate := 8000\<rparr>, pcm_flags := PCM_IN\<rparr>,
      ua_mixer = \<lparr>mixer_fd = 4, mixer_count = 0, ctl = [], ctl_array = True, info_array = True\<rparr>,
      ua_resampler = Some \<lparr>speex_resampler = (), has_provider = False, in_sample_rate = 8000, out_sample_rate = 44100,
        channel_count = 1, in_buf = [], in_buf_size = 0, frames_in = 0, frames_rq = 0, frames_needed = 0, speex_delay_ns = 0\<rparr>,
      need_resample = True, ua_flags = PCM_IN, source_channels = 1, target_channels = 2\<rparr>"

definition example_devices :: "sys_answer list \<Rightarrow> nat obtain_buffer list \<Rightarrow> devices" where
  "example_devices as track =
     \<lparr>sound_card = \<lparr>sys_answers = as, sys_log = [], buffer_read = replicate MAX_BUF_SIZE 0, buffer_resample = replicate MAX_BUF_SIZE 0\<rparr>,
      ua_in = pcm_config_ua_in, ua_out = pcm_config_ua_out, is_host_track_setup = True, track_min = (True, 1024), track_set = True,
      track_frame = 4, track_answers = track, host_track = [], record_min = (True, 1024), record_set = True, record_frame = 4,
      record_answers = []\<rparr>"

text \<open>
  Property C15.  A turn of the thread that lets the user hear the far party.  The 1024 bytes that the
  card delivers, to a stream that runs or is started now, go through the resampler, each
  sample goes to both channels, and all of these frames are appended to the host's
  track, in order, when the track has room for them in the answers to \<open>obtainBuffer\<close>; the
  thread goes on, except that room which comes with the 99th answer only ends the
  conversation although nothing was lost.  When the track fails the thread goes on
  without the rest of the frames.
\<close>

theorem conversation_turn:
  fixes u :: "'x usb_audio_pcm"
  assumes st: "st_card st = Some u" "length (st_buf st) = MAX_BUF_SIZE" and u: "capture_stream u r"
    and k: "card_buffers (sound_card v)" "sys_answers (sound_card v) = as @ Bytes bs # rest" "start_answers (ua_pcm u) as" "length bs = 1024"
    and spx: "spx_process S (speex_resampler r) (samples bs) 65536 = (used, out, x)" "length out \<le> 32768"
    and track: "track_frame v = 4" "room answers = Some m" "m < length out" "length answers \<le> 98"
    and a: "s_track_ready a"
  shows "(track_answers v = answers @ Obtained (length out - m) # later \<longrightarrow>
      (\<exists>st' v'. in_step S d (InBody n) st v a = Ret ((Some (if length answers = 98 then InEnd else InTest n), a), st', v') \<and>
        host_track v' = host_track v @ sample_bytes (mono_to_stereo out) \<and> track_answers v' = later \<and> sys_answers (sound_card v') = rest)) \<and>
    (track_answers v = answers @ ObtainError # later \<longrightarrow>
      (\<exists>st' v'. in_step S d (InBody n) st v a = Ret ((Some (InTest n), a), st', v') \<and>
        host_track v' = host_track v @ take (4 * m) (sample_bytes (mono_to_stereo out)) \<and> sys_answers (sound_card v') = rest))"
proof -
  let ?bytes = "sample_bytes (mono_to_stereo out)"
  let ?buf = "?bytes @ drop (4 * length out) (st_buf st)"
  have len: "4 * length out \<le> MAX_BUF_SIZE" "length ?bytes = 4 * length out"
    using spx(2) by (simp_all add: MAX_BUF_SIZE_def)
  have n: "even (1024 :: nat)" "1024 \<le> MAX_BUF_SIZE"
    by (simp_all add: MAX_BUF_SIZE_def)
  obtain u' :: "'x usb_audio_pcm" and k' where read: "usb_audio_read S u (st_buf st) MAX_BUF_SIZE 1024 (sound_card v) = Ret (int (4 * length out), ?buf, u', k')"
      and k': "sys_answers k' = rest"
    using usb_capture_read(1)[OF u n k(1,2,3,4) spx(1), of MAX_BUF_SIZE "st_buf st"] st(2) spx(2) len
    by (auto simp: min.absorb1)
  have fr: "0 < (4::nat)" "4 \<le> 4 * length out" "4 * length out \<le> length ?buf" "m < 4 * length out div 4"
    using track(3) len st(2) by auto
  have takes: "take (4 * length out) ?buf = ?bytes" "take (4 * m) ?buf = take (4 * m) ?bytes"
    using len(2) track(3) by simp_all
  have nat: "nat (int (length out) * 4) = length out * 4"
    by (metis nat_int of_nat_mult of_nat_numeral)
  note step = in_step.simps(2) with_card_def st(1) read Let_def goto_next_def track(1) defined_def nat mult.commute[of 4]
  have "\<exists>st' v'. in_step S d (InBody n) st v a = Ret ((Some (if length answers = 98 then InEnd else InTest n), a), st', v') \<and>
        host_track v' = host_track v @ ?bytes \<and> track_answers v' = later \<and> sys_answers (sound_card v') = rest"
    if "track_answers v = answers @ Obtained (length out - m) # later"
    using hosta_write_all(1)[OF fr(1-3) track(2) fr(4) track(4), of later "host_track v"] that takes(1) k' a by (simp add: step)
  moreover have "\<exists>st' v'. in_step S d (InBody n) st v a = Ret ((Some (InTest n), a), st', v') \<and>
        host_track v' = host_track v @ take (4 * m) ?bytes \<and> sys_answers (sound_card v') = rest"
    if "track_answers v = answers @ ObtainError # later"
    using hosta_write_all(2)[OF fr(1-3) track(2) fr(4) track(4), of later "host_track v"] that takes(2) k' a by (simp add: step)
  ultimately show ?thesis
    by blast
qed

theorem conversation_turn_witness:
  "let st = \<lparr>st_card = Some example_stream, st_buf = replicate MAX_BUF_SIZE 0, st_size = 0\<rparr>; bs = replicate 1024 0;
       a = (audio_init (\<lambda>_. None))\<lparr>s_track_ready := True\<rparr>
   in (\<exists>st' v'. in_step pass_through outcome0 (InBody 5) st
          (example_devices [Done 0, Done 0, Bytes bs] [TIMED_OUT, Obtained 100, Obtained 412]) a = Ret ((Some (InTest 5), a), st', v') \<and>
        host_track v' = sample_bytes (mono_to_stereo (samples bs))) \<and>
      (\<exists>st' v'. in_step pass_through outcome0 (InBody 5) st
          (example_devices [Done 0, Done 0, Bytes bs] [Obtained 100, ObtainError]) a = Ret ((Some (InTest 5), a), st', v') \<and>
        host_track v' = take 400 (sample_bytes (mono_to_stereo (samples bs))))"
proof -
  let ?st = "\<lparr>st_card = Some example_stream, st_buf = replicate MAX_BUF_SIZE 0, st_size = 0\<rparr>" and ?bs = "replicate 1024 (0 :: byte)"
  let ?a = "(audio_init (\<lambda>_. None))\<lparr>s_track_ready := True\<rparr>"
  let ?v = "example_devices [Done 0, Done 0, Bytes ?bs]"
  have st: "st_card ?st = Some example_stream" "length (st_buf ?st) = MAX_BUF_SIZE"
      "capture_stream example_stream (the (ua_resampler example_stream))"
    by (simp_all add: capture_stream_def example_stream_def mono_16_def zero_config_def zero_pcm_def PCM_IN_def)
  have v: "card_buffers (sound_card (?v t))" "sys_answers (sound_card (?v t)) = [Done 0, Done 0] @ Bytes ?bs # []"
      "start_answers (ua_pcm example_stream) [Done 0, Done 0]" "length ?bs = 1024" "track_frame (?v t) = 4" "track_answers (?v t) = t"
      "host_track (?v t) = []" for t
    by (simp_all add: example_devices_def card_buffers_def start_answers_def example_stream_def zero_pcm_def)
  have len: "length (samples ?bs) = 512"
    by (simp add: length_samples)
  then have spx: "spx_process pass_through (speex_resampler (the (ua_resampler example_stream))) (samples ?bs) 65536 = (512, samples ?bs, ())"
      "length (samples ?bs) \<le> 32768"
    by (simp_all add: pass_through_def)
  have room: "room [TIMED_OUT, Obtained 100] = Some 100" "room [Obtained 100] = Some 100"
    by simp_all
  let ?t1 = "[TIMED_OUT, Obtained 100, Obtained 412]" and ?t2 = "[Obtained 100, ObtainError]"
  have 1: "\<exists>st' v'. in_step pass_through outcome0 (InBody 5) ?st (?v [TIMED_OUT, Obtained 100, Obtained 412]) ?a = Ret ((Some (InTest 5), ?a), st', v') \<and>
      host_track v' = sample_bytes (mono_to_stereo (samples ?bs))"
    using conversation_turn[OF st v(1)[of ?t1] v(2)[of ?t1] v(3,4) spx v(5)[of ?t1] room(1), where a = ?a and d = outcome0 and n = 5 and later = "[]"] len
    by (auto simp: v(6,7))
  have 2: "\<exists>st' v'. in_step pass_through outcome0 (InBody 5) ?st (?v [Obtained 100, ObtainError]) ?a = Ret ((Some (InTest 5), ?a), st', v') \<and>
      host_track v' = take 400 (sample_bytes (mono_to_stereo (samples ?bs)))"
    using conversation_turn[OF st v(1)[of ?t2] v(2)[of ?t2] v(3,4) spx v(5)[of ?t2] room(2), where a = ?a and d = outcome0 and n = 5 and later = "[]"] len
    by (auto simp: v(6,7))
  show ?thesis
    using 1 2 by (simp only: Let_def)
qed

section \<open>The caller is recorded\<close>

text \<open>What the resampler makes of the card's data, read after read.\<close>

fun resampled :: "'x speex \<Rightarrow> 'x \<Rightarrow> byte list list \<Rightarrow> 16 word list list" where
  "resampled S x [] = []"
| "resampled S x (bs # bss) = (case spx_process S x (samples bs) 65536 of (_, out, x') \<Rightarrow> out # resampled S x' bss)"

definition stereo_bytes :: "16 word list list \<Rightarrow> byte list" where
  "stereo_bytes outs = concat (map (\<lambda>out. sample_bytes (mono_to_stereo out)) outs)"

text \<open>The stream of a recording thread: set up, not mapped, with the buffers in place.\<close>

definition rec_stream :: "'x thread_vars \<Rightarrow> devices \<Rightarrow> 'x usb_audio_pcm \<Rightarrow> 'x resampler \<Rightarrow> bool" where
  "rec_stream st v u r \<longleftrightarrow> st_card st = Some u \<and> length (st_buf st) = MAX_BUF_SIZE \<and> capture_stream u r \<and>
     \<not> has_flag (pcm_flags (ua_pcm u)) PCM_MMAP \<and> card_buffers (sound_card v)"

lemma rec_read_step:
  fixes u :: "'x usb_audio_pcm"
  assumes str: "rec_stream st v u r"
    and k: "sys_answers (sound_card v) = as @ Bytes bs # rest" "start_answers (ua_pcm u) as" "length bs = 1024"
    and spx: "spx_process S (speex_resampler r) (samples bs) 65536 = (used, out, x)" "length out \<le> 32768"
    and a: "s_audio_running a" "rec_at s cs" "goes_on (s_record_timeout a) (rc_start s) (d\<lparr>out_ok := True\<rparr>)"
  shows "\<exists>s' st' v' u'. (\<forall>ds. steps (rec_step S) (d # d # ds) (Some (RecTest s), a) st v = steps (rec_step S) ds (Some (RecTest s'), a) st' v') \<and>
    rec_at s' (cs @ sample_bytes (mono_to_stereo out)) \<and> rc_start s' = rc_start s \<and> rc_name s' = rc_name s \<and>
    rec_stream st' v' u' (r\<lparr>speex_resampler := x\<rparr>) \<and> running (ua_pcm u') \<and> sys_answers (sound_card v') = rest"
proof -
  let ?bytes = "sample_bytes (mono_to_stereo out)"
  let ?buf = "?bytes @ drop (4 * length out) (st_buf st)"
  have st: "st_card st = Some u" "length (st_buf st) = MAX_BUF_SIZE" "capture_stream u r" "\<not> has_flag (pcm_flags (ua_pcm u)) PCM_MMAP"
      "card_buffers (sound_card v)"
    using str by (simp_all add: rec_stream_def)
  have len: "4 * length out \<le> MAX_BUF_SIZE" "length ?bytes = 4 * length out" and n: "even (1024 :: nat)" "1024 \<le> MAX_BUF_SIZE"
    using spx(2) by (simp_all add: MAX_BUF_SIZE_def)
  obtain u' :: "'x usb_audio_pcm" and k' where
      read: "usb_audio_read S u (st_buf st) MAX_BUF_SIZE 1024 (sound_card v) = Ret (int (4 * length out), ?buf, u', k')"
      and k': "sys_answers k' = rest" "card_buffers k'" "capture_stream u' (r\<lparr>speex_resampler := x\<rparr>)" "running (ua_pcm u')"
        "pcm_flags (ua_pcm u') = pcm_flags (ua_pcm u)"
    using usb_capture_read(1)[OF st(3) n st(5) k spx(1), of MAX_BUF_SIZE "st_buf st"] st(2) spx(2) len by (auto simp: min.absorb1)
  define st' where "st' = st\<lparr>st_card := Some u', st_buf := ?buf\<rparr>"
  define v' where "v' = v\<lparr>sound_card := k'\<rparr>"
  let ?d = "d\<lparr>out_ok := True, out_bytes := ?bytes\<rparr>"
  have "goes_on (s_record_timeout a) (rc_start s) ?d"
    using a(3) by (simp add: goes_on_def)
  from rec_step_at[OF a(2) this] obtain s' where s': "usba_to_file ?d (RecBody s) a = Some (Some (RecTest s'), a)"
      "rec_at s' (cs @ ?bytes)" "rc_start s' = rc_start s" "rc_name s' = rc_name s"
    by auto
  have "take (nat (int (4 * length out))) ?buf = ?bytes"
    using len(2) by (simp only: nat_int take_append append_Nil2 diff_self_eq_0 take_0) simp
  then have "rec_step S d (RecBody s) st v a = Ret ((Some (RecTest s'), a), st', v')"
    using s'(1) by (simp only: rec_step.simps(2) with_card_def st(1) option.case read run_bind.simps prod.case goto_next_def)
      (simp add: defined_def st'_def v'_def del: usba_to_file.simps)
  then have "steps (rec_step S) (d # d # ds) (Some (RecTest s), a) st v = steps (rec_step S) ds (Some (RecTest s'), a) st' v'" for ds
    using a(1) by (simp add: goto_next_def defined_def)
  moreover have "rec_stream st' v' u' (r\<lparr>speex_resampler := x\<rparr>)" "sys_answers (sound_card v') = rest"
    using st(2,4) k' len by (simp_all add: rec_stream_def st'_def v'_def)
  ultimately show ?thesis
    using s' k'(4) by (intro exI[of _ s'] exI[of _ st'] exI[of _ v'] exI[of _ u']) simp
qed

lemma rec_reads:
  fixes u :: "'x usb_audio_pcm"
  assumes "rec_stream st v u r" "sys_answers (sound_card v) = as @ map Bytes bss @ rest" "start_answers (ua_pcm u) as" "bss = [] \<Longrightarrow> as = []"
    and "\<forall>bs \<in> set bss. length bs = 1024" "\<forall>out \<in> set (resampled S (speex_resampler r) bss). length out \<le> 32768"
    and "length ds = length bss" "s_audio_running a" "rec_at s cs" "\<forall>d \<in> set ds. goes_on (s_record_timeout a) (rc_start s) (d\<lparr>out_ok := True\<rparr>)"
  shows "\<exists>s' st' v' u' r'. steps (rec_step S) (concat (map (\<lambda>d. [d, d]) ds)) (Some (RecTest s), a) st v = Ret ((Some (RecTest s'), a), st', v') \<and>
    rec_at s' (cs @ stereo_bytes (resampled S (speex_resampler r) bss)) \<and> rc_name s' = rc_name s \<and>
    rec_stream st' v' u' r' \<and> sys_answers (sound_card v') = rest"
  using assms
proof (induction bss arbitrary: ds st v u r as s cs)
  case Nil
  then show ?case
    by (intro exI[of _ s] exI[of _ st] exI[of _ v] exI[of _ u] exI[of _ r]) (simp add: stereo_bytes_def)
next
  case (Cons bs bss)
  obtain d ds' where ds: "ds = d # ds'" "length ds' = length bss"
    using Cons.prems(7) by (cases ds) auto
  obtain used out x where spx: "spx_process S (speex_resampler r) (samples bs) 65536 = (used, out, x)"
    by (cases "spx_process S (speex_resampler r) (samples bs) 65536") auto
  let ?r = "r\<lparr>speex_resampler := x\<rparr>"
  have res: "resampled S (speex_resampler r) (bs # bss) = out # resampled S (speex_resampler ?r) bss"
    by (simp add: spx)
  have k: "sys_answers (sound_card v) = as @ Bytes bs # (map Bytes bss @ rest)" "length bs = 1024" "length out \<le> 32768"
    using Cons.prems(2,5,6) unfolding res by simp_all
  have d: "goes_on (s_record_timeout a) (rc_start s) (d\<lparr>out_ok := True\<rparr>)"
    using Cons.prems(10) ds(1) by simp
  obtain s1 st1 v1 and u1 :: "'x usb_audio_pcm" where
      first: "\<And>ds. steps (rec_step S) (d # d # ds) (Some (RecTest s), a) st v = steps (rec_step S) ds (Some (RecTest s1), a) st1 v1"
      and s1: "rec_at s1 (cs @ sample_bytes (mono_to_stereo out))" "rc_start s1 = rc_start s" "rc_name s1 = rc_name s"
        "rec_stream st1 v1 u1 ?r" "running (ua_pcm u1)" "sys_answers (sound_card v1) = [] @ map Bytes bss @ rest"
    using rec_read_step[OF Cons.prems(1) k(1) Cons.prems(3) k(2) spx k(3) Cons.prems(8,9) d] by auto
  have "start_answers (ua_pcm u1) []"
    using s1(5) by (simp add: start_answers_def)
  from Cons.IH[OF s1(4,6) this _ _ _ ds(2) Cons.prems(8) s1(1)] obtain s' st' v' and u' :: "'x usb_audio_pcm" and r' where
      "steps (rec_step S) (concat (map (\<lambda>d. [d, d]) ds')) (Some (RecTest s1), a) st1 v1 = Ret ((Some (RecTest s'), a), st', v')"
      "rec_at s' ((cs @ sample_bytes (mono_to_stereo out)) @ stereo_bytes (resampled S (speex_resampler ?r) bss))" "rc_name s' = rc_name s1"
      "rec_stream st' v' u' r'" "sys_answers (sound_card v') = rest"
    using Cons.prems(5,6,10) ds(1) s1(2) unfolding res by auto
  then show ?case
    unfolding res by (intro exI[of _ s'] exI[of _ st'] exI[of _ v'] exI[of _ u'] exI[of _ r'])
      (simp add: ds(1) first s1(3) stereo_bytes_def del: steps.simps)
qed

lemma usb_audio_close_Ret:
  assumes "\<not> has_flag (pcm_flags (ua_pcm u)) PCM_MMAP"
  shows "\<exists>k'. usb_audio_close u k = Ret k'"
proof -
  have "pcm_flags (fst (pcm_hw_munmap_status p k)) = pcm_flags p" for p k
    by (simp add: pcm_hw_munmap_status_def Let_def)
  then show ?thesis
    using assms by (simp add: usb_audio_close_def pcm_close_def Let_def split_beta)
qed

text \<open>
  Property C14.  What the caller says is recorded.  A recording thread behind its set-up reads the
  card's data in pieces of 1024 bytes; every piece goes through the resampler, in the order
  of the reads and with the state that the pieces before left, and each sample goes to
  both channels.  When the module is stopped the thread closes the card and leaves the file
  of exactly these samples.
\<close>

theorem card_sound_recorded:
  fixes u :: "'x usb_audio_pcm"
  assumes "rec_stream st v u r" "sys_answers (sound_card v) = as @ map Bytes bss @ rest" "start_answers (ua_pcm u) as" "bss \<noteq> []"
    and "\<forall>bs \<in> set bss. length bs = 1024" "\<forall>out \<in> set (resampled S (speex_resampler r) bss). length out \<le> 32768"
    and "length ds = length bss" "s_audio_running a" "rec_at s []" "\<forall>d \<in> set ds. goes_on (s_record_timeout a) (rc_start s) (d\<lparr>out_ok := True\<rparr>)"
  shows "\<exists>s' st' v'. steps (rec_step S) (concat (map (\<lambda>d. [d, d]) ds)) (Some (RecTest s), a) st v = Ret ((Some (RecTest s'), a), st', v') \<and>
    sys_answers (sound_card v') = rest \<and>
    (\<exists>diff b st'' v''. steps (rec_step S) [e, e] (Some (RecTest s'), a\<lparr>s_audio_running := False\<rparr>) st' v' = Ret ((Some (RecClear diff), b), st'', v'') \<and>
       st_card st'' = None \<and> disk b (rc_name s) = Some (recording (stereo_bytes (resampled S (speex_resampler r) bss))))"
proof -
  obtain s' st' v' and u' :: "'x usb_audio_pcm" and r' where
      run: "steps (rec_step S) (concat (map (\<lambda>d. [d, d]) ds)) (Some (RecTest s), a) st v = Ret ((Some (RecTest s'), a), st', v')"
      and s': "rec_at s' (stereo_bytes (resampled S (speex_resampler r) bss))" "rc_name s' = rc_name s" "rec_stream st' v' u' r'"
        "sys_answers (sound_card v') = rest"
    using rec_reads[OF assms(1-3) _ assms(5-10)] assms(4) by auto
  obtain k where "usb_audio_close u' (sound_card v') = Ret k"
    using usb_audio_close_Ret[of u'] s'(3) by (auto simp: rec_stream_def)
  then have "\<exists>diff b st'' v''. steps (rec_step S) [e, e] (Some (RecTest s'), a\<lparr>s_audio_running := False\<rparr>) st' v' = Ret ((Some (RecClear diff), b), st'', v'') \<and>
       st_card st'' = None \<and> disk b (rc_name s) = Some (recording (stereo_bytes (resampled S (speex_resampler r) bss)))"
    using s'(2,3) rec_finish_at[OF s'(1)]
    by (simp add: goto_next_def defined_def close_card_def with_card_def rec_stream_def)
  then show ?thesis
    using run s'(4) by (intro exI[of _ s'] exI[of _ st'] exI[of _ v']) simp
qed

theorem card_sound_recorded_witness:
  "let st = \<lparr>st_card = Some example_stream, st_buf = replicate MAX_BUF_SIZE 0, st_size = 0\<rparr>; bs = replicate 1024 0;
       v = example_devices [Done 0, Done 0, Bytes bs, Bytes bs] []; a = (audio_init (\<lambda>_. None))\<lparr>s_audio_running := True\<rparr>;
       s = \<lparr>rc_name = [114], rc_start = TV 0 0, rc_diff = TV 0 0, rc_bytes = 0, rc_header = rec_header 0, rc_file = rec_file []\<rparr>
   in \<exists>s' st' v' diff b st'' v''.
        steps (rec_step pass_through) [outcome0, outcome0, outcome0, outcome0] (Some (RecTest s), a) st v = Ret ((Some (RecTest s'), a), st', v') \<and>
        steps (rec_step pass_through) [outcome0, outcome0] (Some (RecTest s'), a\<lparr>s_audio_running := False\<rparr>) st' v' = Ret ((Some (RecClear diff), b), st'', v'') \<and>
        disk b [114] = Some (recording (stereo_bytes [samples bs, samples bs]))"
proof -
  let ?st = "\<lparr>st_card = Some example_stream, st_buf = replicate MAX_BUF_SIZE 0, st_size = 0\<rparr>" and ?bs = "replicate 1024 (0 :: byte)"
  let ?v = "example_devices [Done 0, Done 0, Bytes ?bs, Bytes ?bs] []" and ?a = "(audio_init (\<lambda>_. None))\<lparr>s_audio_running := True\<rparr>"
  let ?s = "\<lparr>rc_name = [114], rc_start = TV 0 0, rc_diff = TV 0 0, rc_bytes = 0, rc_header = rec_header 0, rc_file = rec_file []\<rparr>"
  let ?r = "the (ua_resampler example_stream)"
  have st: "rec_stream ?st ?v example_stream ?r"
    by (simp add: rec_stream_def capture_stream_def example_stream_def mono_16_def zero_config_def zero_pcm_def PCM_IN_def PCM_MMAP_def
        example_devices_def card_buffers_def)
  have v: "sys_answers (sound_card ?v) = [Done 0, Done 0] @ map Bytes [?bs, ?bs] @ []" "start_answers (ua_pcm example_stream) [Done 0, Done 0]"
    by (simp_all add: example_devices_def start_answers_def example_stream_def zero_pcm_def)
  have res: "resampled pass_through (speex_resampler ?r) [?bs, ?bs] = [samples ?bs, samples ?bs]"
    by (simp add: pass_through_def)
  have a: "s_audio_running ?a" "rec_at ?s []" "\<forall>d \<in> set [outcome0, outcome0]. goes_on (s_record_timeout ?a) (rc_start ?s) (d\<lparr>out_ok := True\<rparr>)"
    by (simp_all add: rec_at_def rec_header_def goes_on_def outcome0_def audio_init_def)
  have len: "\<forall>bs \<in> set [?bs, ?bs]. length bs = 1024" "\<forall>out \<in> set (resampled pass_through (speex_resampler ?r) [?bs, ?bs]). length out \<le> 32768"
    unfolding res by simp_all
  have two: "concat (map (\<lambda>d. [d, d]) [outcome0, outcome0]) = [outcome0, outcome0, outcome0, outcome0]" "rc_name ?s = [114]"
    by simp_all
  show ?thesis
    using card_sound_recorded[OF st v _ len _ a, of outcome0] unfolding res two Let_def by auto
qed

end
