(* ===== verification/Phone_Calls.thy ===== *)
theory Phone_Calls
  imports Phone_Flow
begin

text \<open>
  The properties of the telephone's state machine: the automaton it implements, the time-outs
  of an incoming call, the path of a number from the client to the device and from the
  device to the clients, and the inputs for which the code leaves defined behaviour.
\<close>

section \<open>The automaton\<close>



section \<open>Time-outs of an incoming call\<close>

lemma more_phone:
  assumes "handler.more c' = handler.more (c :: phone)"
  shows "sock_out c' = sock_out c" and "audio_calls c' = audio_calls c" and "s_wait_response c' = s_wait_response c"
  using assms by (cases c; cases c'; simp)+

lemma restart_effect:
  assumes c: "phone_ok c" and w: "w \<in> CANCELS" and room: "length (queued c) < 31"
  shows "\<exists>c1 c2. sm_remove_message_id w c = Some c1 \<and> post w [] 0 ms c1 = Some c2 \<and> phone_ok c2 \<and> same_client c c2
    \<and> queued c2 = filter (\<lambda>l. fst l \<noteq> w) (queued c) @ [(w, None, due c ms)]"
proof -
  have "handler_inv c \<and> mem_ok c"
    using c by (simp add: phone_ok_def)
  from mh.restart[OF this room, of w ms] obtain c1 c2 where
      r: "sm_remove_message_id w c = Some c1" "sm_send_message_delay w [] 0 ms c1 = Some (0, c2)" "same_client c c2"
        "queued c2 = filter (\<lambda>l. fst l \<noteq> w) (queued c) @ [(w, None, due c ms)]"
    by blast
  have "phone_ok c1"
    using runs_cancel[OF c w] r(1) by (simp add: runs_def)
  then have "runs c1 (post w [] 0 ms c1)"
    using w by (intro runs_post0) (auto simp: CANCELS_def)
  then show ?thesis
    using r by (simp add: post_def runs_def)
qed

text \<open>
  Entering the state of an incoming call reports it to the monitor and to
  the RIL, and leaves exactly one ring time-out, 8 seconds from now, and one start of the
  answering machine, 24 seconds from now, whatever was queued before; the other messages
  stay.
\<close>

lemma incoming_enter_timers:
  assumes c: "phone_ok c" and room: "length (queued c) \<le> 29"
  shows "\<exists>c'. incoming_enter c = Some c' \<and> queued c' =
      filter (\<lambda>l. fst l \<notin> {UPIL_EVT_RING_TIMEOUT, UPIL_EVT_RECORD_START}) (queued c) @
      [(UPIL_EVT_RING_TIMEOUT, None, due c 8000), (UPIL_EVT_RECORD_START, None, due c 24000)]
    \<and> sock_out c' = sock_out c @ [(s_fdMonitor c, str ''STATE INCOMING''), (s_fd_ril c, str ''RING'' @ [10, 0])]"
proof -
  let ?c1 = "c\<lparr>sock_out := sock_out c @ [(s_fdMonitor c, str ''STATE INCOMING''), (s_fd_ril c, str ''RING'' @ [10, 0])]\<rparr>"
  have m: "sendto_monitor UPIL_STATE_INCOMING None c = Some ?c1"
    by (simp add: sendto_monitor_def monitor_text_def upil_ril_unsolicited_def sock_send_def)
  have sh: "same_handler c ?c1"
    by (simp add: same_handler_def)
  note eqs = same_handler_eqs[OF sh]
  have c1: "phone_ok ?c1"
    using runs_monitor[OF c, of UPIL_STATE_INCOMING None] m by (simp add: runs_def monitor_text_def)
  obtain c2 c3 where c3: "sm_remove_message_id UPIL_EVT_RING_TIMEOUT ?c1 = Some c2"
      "post UPIL_EVT_RING_TIMEOUT [] 0 RING_TIMEOUT c2 = Some c3" "phone_ok c3" "same_client ?c1 c3"
      "queued c3 = filter (\<lambda>l. fst l \<noteq> UPIL_EVT_RING_TIMEOUT) (queued c) @ [(UPIL_EVT_RING_TIMEOUT, None, due c 8000)]"
    using restart_effect[OF c1, of UPIL_EVT_RING_TIMEOUT RING_TIMEOUT] room eqs by (auto simp: CANCELS_def)
  have "length (queued c3) < 31"
    unfolding c3(5) using room length_filter_le[of "\<lambda>l. fst l \<noteq> UPIL_EVT_RING_TIMEOUT" "queued c"] by simp
  then obtain c4 c5 where c5: "sm_remove_message_id UPIL_EVT_RECORD_START c3 = Some c4"
      "post UPIL_EVT_RECORD_START [] 0 RECORD_START_TIMEOUT c4 = Some c5" "same_client c3 c5"
      "queued c5 = filter (\<lambda>l. fst l \<noteq> UPIL_EVT_RECORD_START) (queued c3) @ [(UPIL_EVT_RECORD_START, None, due c3 24000)]"
    using restart_effect[OF c3(3), of UPIL_EVT_RECORD_START RECORD_START_TIMEOUT] by (auto simp: CANCELS_def)
  have "due c3 = due c"
    using same_client_due[OF c3(4)] eqs by simp
  moreover have "handler.more c5 = handler.more ?c1"
    using c3(4) c5(3) by (simp add: same_client_def)
  then have "sock_out c5 = sock_out ?c1"
    by (rule more_phone(1))
  moreover have "incoming_enter c = Some c5"
    using m c3(1,2) c5(1,2) by (simp add: incoming_enter_def)
  ultimately show ?thesis
    unfolding c5(4) c3(5) by (auto simp: c5(4) c3(5) intro!: filter_cong)
qed

lemma incoming_enter_timers_witness:
  "\<exists>c'. incoming_enter (phone_at 4 [\<lparr>msg_what = UPIL_EVT_RING_TIMEOUT, msg_data_size = 0, msg_data = None\<rparr>] 0) = Some c'
    \<and> queued c' = [(UPIL_EVT_RING_TIMEOUT, None, TV 8 0), (UPIL_EVT_RECORD_START, None, TV 24 0)]"
proof -
  have "phone_ok (phone_at 4 [\<lparr>msg_what = UPIL_EVT_RING_TIMEOUT, msg_data_size = 0, msg_data = None\<rparr>] 0)"
    by (rule phone_at_ok) (simp_all add: letter_ok_def msg_sized_def)
  from incoming_enter_timers[OF this] show ?thesis
    by (auto simp: phone_at_def queued_def letter_of_def due_def timeradd_def)
qed

section \<open>Dialling\<close>

lemma message_payload: "length n > 0 \<Longrightarrow> payload (n @ z) (int (length n)) = Some (n @ [0, 0])"
  by (simp add: payload_def)

lemma send_cmd_hook_on:
  assumes "\<forall>k. dev_write_ok c k"
  shows "send_cmd_noparam UPIL_CTL_HANDFREE_ON c =
    Some (c\<lparr>dev_out := dev_out c @ [[3, 3, 0xFF, 1, TPP_CTL_PCHOOK_ON, 5, 6, 7]]\<rparr>)"
  using tpp_send_onebyte[of UPIL_CTL_HANDFREE_ON TPP_CTL_PCHOOK_ON c] assms
  by (simp add: onebyte_code_def send_cmd_noparam_def slice_def HIDPDU_LINE_BYTES_def)



section \<open>Caller numbers\<close>

lemma caller_id_queued:
  assumes c: "phone_ok c" "length (queued c) < 31"
    and ds: "\<forall>d\<in>set ds. d < 10" "length ds \<le> 140" and hdr: "length hdr = 6"
  shows "\<exists>c'. tpp_recv_event_cb (Some (concat (reports (unit_of TPP_EVT_FSK_RX (hdr @ bcd ds))))) c = Some (0, c')
    \<and> handler_inv c' \<and> mem_ok c' \<and> receiving [] c' \<and> same_machine c c'
    \<and> queued c' = queued c @
        [(UPIL_EVT_CALL_ID, if ds = [] then None else Some (ascii_digits ds @ [0, 0]), due c 0)]"
proof -
  have "handler_inv c" "mem_ok c" "receiving [] c"
    using c(1) by (auto simp: phone_ok_def)
  moreover obtain ev where "is_unit (unit_of TPP_EVT_FSK_RX (hdr @ bcd ds))"
      "tppdu2event (unit_of TPP_EVT_FSK_RX (hdr @ bcd ds) @
         replicate (80 - length (unit_of TPP_EVT_FSK_RX (hdr @ bcd ds))) 0) empty_event = Some ev"
      "uint (evt_id ev) = UPIL_EVT_CALL_ID"
      "payload (evt_data ev) (uint (evt_data_size ev)) = (if ds = [] then None else Some (ascii_digits ds @ [0, 0]))"
    using fsk_event[OF ds(1) hdr ds(2)] by blast
  ultimately show ?thesis
    using recv_unit_ok[OF _ _ c(2), of "unit_of TPP_EVT_FSK_RX (hdr @ bcd ds)" ev]
    by (simp split del: if_split) blast
qed

text \<open>
  Property C5.  The number of a caller arrives as the device sent it: when the device
  reports an incoming call with a number of up to 127 digits to an idle telephone, the
  message with the digits is queued, and processing it stores the number, reports
  \<open>CID number\<close> to the monitor and asks for the transition to the incoming call.
\<close>

theorem caller_id_flow:
  assumes c: "phone_ok c" "length (queued c) < 30"
    and ds: "\<forall>d\<in>set ds. d < 10" "ds \<noteq> []" "length ds < 128" and hdr: "length hdr = 6"
  shows "\<exists>c1 c2. tpp_recv_event_cb (Some (concat (reports (unit_of TPP_EVT_FSK_RX (hdr @ bcd ds))))) c = Some (0, c1)
    \<and> queued c1 = queued c @ [(UPIL_EVT_CALL_ID, Some (ascii_digits ds @ [0, 0]), due c 0)] \<and> phone_ok c1
    \<and> idle_process \<lparr>msg_what = UPIL_EVT_CALL_ID, msg_data_size = int (length ds), msg_data = Some (ascii_digits ds @ [0, 0])\<rparr> c1
        = Some (HANDLED, c2)
    \<and> c_string (last_incoming_num c2) = ascii_digits ds
    \<and> sock_out c2 = sock_out c @ [(s_fdMonitor c, str ''CID '' @ ascii_digits ds)]
    \<and> queued c2 = queued c1 @ [(UPIL_EVT_SM_TRANSITION, Some (int_bytes UPIL_SM_INCOMING @ [0, 0]), due c1 0)]"
proof -
  let ?s = "ascii_digits ds"
  have cs: "c_string (?s @ [0, 0]) = ?s" and ls: "length ?s = length ds"
    using c_string_append_nul[OF ascii_digits_no_nul[OF ds(1)]] by (auto simp: ascii_digits_def)
  obtain c1 where c1: "tpp_recv_event_cb (Some (concat (reports (unit_of TPP_EVT_FSK_RX (hdr @ bcd ds))))) c = Some (0, c1)"
      "handler_inv c1" "mem_ok c1" "same_machine c c1" "receiving [] c1"
      "queued c1 = queued c @ [(UPIL_EVT_CALL_ID, Some (?s @ [0, 0]), due c 0)]"
    using caller_id_queued[OF c(1) _ ds(1) _ hdr] c(2) ds(2,3) by auto
  have l: "letter_ok UPIL_EVT_CALL_ID (Some (?s @ [0, 0]))"
    using cs ls ds(3) by (simp add: letter_ok_def)
  then have ok1: "phone_ok c1"
    using c(1) c1 wake_ok_part[of c1 c] by (auto simp: phone_ok_def same_machine_def)
  then obtain num where num: "sprintf_num (last_incoming_num c1) (Some (?s @ [0, 0])) = Some num" "c_string num = ?s" "length num = 128" "0 \<in> set num"
    using sprintf_num_ok[of "last_incoming_num c1" "?s @ [0, 0]"] cs ls ds(3) by (auto simp: phone_ok_def)
  let ?m = "c1\<lparr>last_incoming_num := num, sock_out := sock_out c1 @ [(s_fdMonitor c1, str ''CID '' @ ?s)]\<rparr>"
  have mon: "sendto_monitor UPIL_EVT_CALL_ID (Some (?s @ [0, 0])) (c1\<lparr>last_incoming_num := num\<rparr>) = Some ?m"
    using cs ls ds(3) by (simp add: sendto_monitor_def monitor_text_def upil_ril_unsolicited_def sock_send_def Let_def)
  have "runs c1 (Some ?m)"
    using ok1 num(3,4) by (intro phone_ok_client[OF ok1]) (auto simp: same_handler_def wake_ok_def phone_ok_def)
  then have okm: "phone_ok ?m"
    by (simp add: runs_def)
  have eqm: "queued ?m = queued c1" "due ?m = due c1"
    using same_handler_eqs[of c1 ?m] by (simp_all add: same_handler_def)
  have g: "goto UPIL_SM_INCOMING ?m = post UPIL_EVT_SM_TRANSITION (int_bytes UPIL_SM_INCOMING) 4 0 ?m"
    by (simp add: goto_def sm_transition_to_def post_def)
  have pl: "payload (int_bytes UPIL_SM_INCOMING) 4 = Some (int_bytes UPIL_SM_INCOMING @ [0, 0])"
    by (simp add: payload_def)
  have "length (queued c1) < 31"
    unfolding c1(6) using c(2) by simp
  then obtain c2 where c2: "goto UPIL_SM_INCOMING ?m = Some c2" "same_client ?m c2"
      "queued c2 = queued c1 @ [(UPIL_EVT_SM_TRANSITION, Some (int_bytes UPIL_SM_INCOMING @ [0, 0]), due c1 0)]"
    using post_effect[OF okm, of 4 "int_bytes UPIL_SM_INCOMING" UPIL_EVT_SM_TRANSITION 0]
      letter_ok_transition[of UPIL_SM_INCOMING] pl eqm unfolding g by auto
  have hm: "handler.more c2 = handler.more ?m"
    using c2(2) by (simp add: same_client_def)
  have "sock_out c2 = sock_out ?m" "last_incoming_num c2 = num"
    using more_phone(1)[OF hm] more_upil_io(7)[OF hm] by simp_all
  moreover have "sock_out c1 = sock_out c" "s_fdMonitor c1 = s_fdMonitor c"
    using c1(4) unfolding same_machine_def by (cases c; cases c1; simp)+
  moreover have "idle_process \<lparr>msg_what = UPIL_EVT_CALL_ID, msg_data_size = int (length ds), msg_data = Some (?s @ [0, 0])\<rparr> c1
      = Some (HANDLED, c2)"
    using num(1) mon c2(1) by (simp add: idle_process_def handled_def)
  ultimately show ?thesis
    using c1(1,6) ok1 num(2) c2(3) by auto
qed

theorem caller_id_flow_witness:
  "\<exists>c1 c2. tpp_recv_event_cb (Some (concat (reports (unit_of TPP_EVT_FSK_RX (replicate 6 0 @ [0x13, 0x9F]))))) (phone_at 2 [] 0) = Some (0, c1)
    \<and> idle_process \<lparr>msg_what = UPIL_EVT_CALL_ID, msg_data_size = 3, msg_data = Some (str ''139'' @ [0, 0])\<rparr> c1 = Some (HANDLED, c2)
    \<and> c_string (last_incoming_num c2) = str ''139''"
proof -
  have "phone_ok (phone_at 2 [] 0)"
    by (rule phone_at_ok) simp_all
  then show ?thesis
    using caller_id_flow[of "phone_at 2 [] 0" "[1, 3, 9]" "replicate 6 0"]
    by (auto simp: ascii_digits_def simp del: reports_Cons)
qed

text \<open>
  Property C35.  A call whose number is withheld is reported without digits.  The message
  then carries no data, and an idle telephone that processes it passes the null pointer
  to \<open>sprintf\<close>: the program leaves defined behaviour.
\<close>

theorem withheld_number_undefined:
  assumes "phone_ok c" and "length (queued c) < 31" and "length hdr = 6"
  shows "\<exists>c1. tpp_recv_event_cb (Some (concat (reports (unit_of TPP_EVT_FSK_RX (hdr @ [0xFF]))))) c = Some (0, c1)
    \<and> queued c1 = queued c @ [(UPIL_EVT_CALL_ID, None, due c 0)]
    \<and> idle_process \<lparr>msg_what = UPIL_EVT_CALL_ID, msg_data_size = 0, msg_data = None\<rparr> c1 = None"
  using caller_id_queued[OF assms(1,2) _ _ assms(3), of "[]"]
  by (auto simp: idle_process_def handled_def sprintf_num_def simp del: reports_Cons)

theorem withheld_number_undefined_witness:
  "\<exists>c1. tpp_recv_event_cb (Some (concat (reports (unit_of TPP_EVT_FSK_RX (replicate 6 0 @ [0xFF]))))) (phone_at 2 [] 0) = Some (0, c1)
    \<and> idle_process \<lparr>msg_what = UPIL_EVT_CALL_ID, msg_data_size = 0, msg_data = None\<rparr> c1 = None"
proof -
  have "phone_ok (phone_at 2 [] 0)"
    by (rule phone_at_ok) simp_all
  then show ?thesis
    using withheld_number_undefined[of "phone_at 2 [] 0" "replicate 6 0"] by (auto simp del: reports_Cons)
qed

section \<open>Limits\<close>

text \<open>
  Property C36.  A request to call a number of 128 or more characters overflows the stored
  number of an idle telephone, and a dial command with more than 56 keys overflows the
  buffer of the reports: both leave defined behaviour.
\<close>

theorem long_number_overflow:
  "(\<forall>c d n. 128 \<le> length (c_string d) \<longrightarrow> length (last_outgoing_num c) = 128 \<longrightarrow>
      idle_process \<lparr>msg_what = UPIL_CTL_HANDFREE_ON, msg_data_size = n, msg_data = Some d\<rparr> c = None) \<and>
   (\<forall>c n. 0 \<notin> set n \<longrightarrow> length n < 512 \<longrightarrow> 56 < length (dial_codes n) \<longrightarrow>
      dialing_process \<lparr>msg_what = UPIL_ASK_DTMF_TX, msg_data_size = int (length n), msg_data = Some (n @ [0, 0])\<rparr> c = None)"
  by (simp add: idle_process_def dialing_process_def handled_def sprintf_num_def blit_def tpp_send_dial_overflow)

theorem long_number_overflow_witness:
  "idle_process \<lparr>msg_what = UPIL_CTL_HANDFREE_ON, msg_data_size = 128, msg_data = Some (replicate 128 48 @ [0, 0])\<rparr>
      (phone_at 2 [] 0) = None \<and>
   dialing_process \<lparr>msg_what = UPIL_ASK_DTMF_TX, msg_data_size = 57, msg_data = Some (replicate 57 48 @ [0, 0])\<rparr>
      (phone_at 3 [] 0) = None"
proof -
  have "c_string (replicate 128 48 @ [0, 0]) = replicate 128 48"
    by (rule c_string_append_nul) simp
  moreover have "dial_codes (replicate n 48) = replicate n 0" for n
    by (induction n) (simp_all add: dial_code_def)
  ultimately show ?thesis
    using long_number_overflow[THEN conjunct1, rule_format, of "replicate 128 48 @ [0, 0]" "phone_at 2 [] 0" 128]
      long_number_overflow[THEN conjunct2, rule_format, of "replicate 57 48" "phone_at 3 [] 0"]
    by (simp add: phone_at_def)
qed

text \<open>
  A telephone that is put on hook while it is dialling does not return to
  the idle state: the event changes nothing, in the machine or in its queue.
\<close>

lemma hook_off_while_dialing_ignored:
  "msg_what x \<in> {UPIL_EVT_HFREE_HOOK_OFF, UPIL_EVT_HAND_HOOK_OFF} \<Longrightarrow> dialing_process x c = Some (HANDLED, c)"
  by (auto simp: dialing_process_def default_process_def handled_def)

lemma hook_off_while_dialing_ignored_witness:
  "dialing_process \<lparr>msg_what = UPIL_EVT_HFREE_HOOK_OFF, msg_data_size = 0, msg_data = None\<rparr> (phone_at 3 [] 0)
     = Some (HANDLED, phone_at 3 [] 0)"
  by (rule hook_off_while_dialing_ignored) simp

end
