(* ===== verification/Audio_Memo.thy ===== *)
theory Audio_Memo
  imports Phone_Calls Audio_Threads
begin

text \<open>
  The answering machine: the state machine of \<open>upil_sm.c\<close> together with the audio module.
  The calls that the machine records are the module's events, and the module's end
  functions send the machine its messages.
\<close>

section \<open>The machine and the module together\<close>

text \<open>The arguments with which \<open>upil_sm.c\<close> calls the module.\<close>

fun audio_request :: "audio_call \<Rightarrow> int \<Rightarrow> audio_event" where
  "audio_request AudioStart ret = Start ret"
| "audio_request AudioStop ret = Stop"
| "audio_request (AudioPlayFile f) ret = PlayFile (str f) Begin_Record ret"
| "audio_request (AudioRecordFile f tm) ret = RecordFile (str f) End_Record tm ret"

definition audio_callback :: "callfunc \<Rightarrow> phone \<Rightarrow> phone option" where
  "audio_callback f c = (case f of No_Func \<Rightarrow> None | Begin_Record \<Rightarrow> begin_record c | End_Record \<Rightarrow> end_record c)"

fun notify :: "callfunc list \<Rightarrow> phone \<Rightarrow> phone option" where
  "notify [] c = Some c"
| "notify (f # fs) c = Option.bind (audio_callback f c) (notify fs)"

text \<open>A step of a thread of the module makes its calls of the end functions; the handling of a
  message by the machine makes its calls of the module.\<close>

datatype memo_event = Step nat outcome | Handle MSG

fun memo_do :: "memo_event \<Rightarrow> phone \<times> audio_mod \<Rightarrow> (phone \<times> audio_mod) option" where
  "memo_do (Step t d) (c, a) = do {
     a' \<leftarrow> thread_step t d a;
     c' \<leftarrow> notify (drop (length (callbacks a)) (callbacks a')) c;
     Some (c', a') }"
| "memo_do (Handle x) (c, a) = do {
     (_, c') \<leftarrow> memo_process x c;
     a' \<leftarrow> audio_run (map (\<lambda>q. audio_request q 0) (drop (length (audio_calls c)) (audio_calls c'))) a;
     Some (c', a') }"

fun memo_run :: "memo_event list \<Rightarrow> phone \<times> audio_mod \<Rightarrow> (phone \<times> audio_mod) option" where
  "memo_run [] s = Some s"
| "memo_run (e # es) s = Option.bind (memo_do e s) (memo_run es)"

lemma memo_run_append: "memo_run (es @ fs) s = Option.bind (memo_run es s) (memo_run fs)"
  by (induction es arbitrary: s) (simp_all split: bind_splits)

lemma notify_append: "notify (fs @ gs) c = Option.bind (notify fs c) (notify gs)"
  by (induction fs arbitrary: c) (simp_all split: bind_splits)

lemma thread_step_callbacks:
  assumes "thread_step t d a = Some b"
  shows "\<exists>fs. callbacks b = callbacks a @ fs"
proof -
  obtain th th' a' where th: "threads a t = Some th" "thread_body d th a = Some (th', a')" "callbacks b = callbacks a'"
    using assms by (auto simp: thread_step_def split: option.splits)
  show ?thesis
  proof (cases th)
    case (In p)
    then show ?thesis
      using th(2,3) by (cases p) (auto simp: thread_body_def split: if_splits)
  next
    case (Out p)
    then show ?thesis
      using th(2,3) by (cases p) (auto simp: thread_body_def split: if_splits)
  next
    case (Play p)
    then show ?thesis
      using th(2,3) by (cases p) (auto simp: thread_body_def call_def Let_def split: option.splits if_splits prod.splits)
  next
    case (Rec p)
    then show ?thesis
      using th(2,3) by (cases p) (auto simp: thread_body_def call_def Let_def split: option.splits if_splits prod.splits)
  qed
qed

text \<open>Steps of the threads alone: the machine gets the calls that they make.\<close>

lemma memo_steps:
  assumes "audio_run (map (\<lambda>(t, d). Thread t d) es) a = Some b"
  shows "\<exists>fs. callbacks b = callbacks a @ fs \<and>
    memo_run (map (\<lambda>(t, d). Step t d) es) (c, a) = map_option (\<lambda>c'. (c', b)) (notify fs c)"
  using assms
proof (induction es arbitrary: a c)
  case (Cons e es)
  obtain t d where e: "e = (t, d)"
    by (cases e)
  from Cons.prems obtain a1 where a1: "thread_step t d a = Some a1" "audio_run (map (\<lambda>(t, d). Thread t d) es) a1 = Some b"
    by (auto simp: e bind_eq_Some_conv)
  obtain fs where fs: "callbacks a1 = callbacks a @ fs"
    using thread_step_callbacks[OF a1(1)] by blast
  obtain gs where gs: "callbacks b = callbacks a1 @ gs"
      "\<And>c. memo_run (map (\<lambda>(t, d). Step t d) es) (c, a1) = map_option (\<lambda>c'. (c', b)) (notify gs c)"
  proof -
    obtain gs where "callbacks b = callbacks a1 @ gs"
      using Cons.IH[OF a1(2)] by blast
    with that Cons.IH[OF a1(2)] show ?thesis
      by (metis append_eq_append_conv)
  qed
  have "memo_run (map (\<lambda>(t, d). Step t d) (e # es)) (c, a) = map_option (\<lambda>c'. (c', b)) (notify (fs @ gs) c)"
    using a1(1) fs gs(2) by (cases "notify fs c") (simp_all add: e notify_append)
  then show ?case
    using fs gs(1) by (intro exI[of _ "fs @ gs"]) simp
qed simp

lemma memo_steps_calls:
  assumes "audio_run (map (\<lambda>(t, d). Thread t d) es) a = Some b" "callbacks b = callbacks a @ fs"
  shows "memo_run (map (\<lambda>(t, d). Step t d) es @ rest) (c, a) = Option.bind (notify fs c) (\<lambda>c'. memo_run rest (c', b))"
  using memo_steps[OF assms(1), of c] assms(2) by (cases "notify fs c") (auto simp: memo_run_append)

abbreviation (input) record_call :: audio_call where
  "record_call \<equiv> AudioRecordFile ''/data/record.wav'' 30"

lemma memo_handles_start:
  assumes "msg_what x = UPIL_CTL_RECORD_START"
  shows "memo_run (Handle x # es) (c, a) =
    Option.bind (audio_do (audio_request record_call 0) a) (\<lambda>a'. memo_run es (audio record_call c, a'))"
  using assms by (simp add: memo_process_def handled_def audio_def split: bind_splits)

lemma memo_handles_end:
  assumes "msg_what x = UPIL_EVT_RECORD_END" "\<forall>k. dev_write_ok c k"
  shows "memo_run [Handle x] (c, a) = Some (c\<lparr>dev_out := dev_out c @ [[3, 3, 0xFF, 1, TPP_CTL_PCHOOK_OFF, 5, 6, 7]]\<rparr>, a)"
  using assms tpp_send_onebyte[of UPIL_CTL_HANDFREE_OFF TPP_CTL_PCHOOK_OFF c]
  by (simp add: memo_process_def handled_def onebyte_code_def send_cmd_noparam_def slice_def HIDPDU_LINE_BYTES_def)

text \<open>The end functions queue their messages.\<close>

lemma notify_effect:
  assumes "phone_ok c" "length (queued c) < 31" "f \<noteq> No_Func"
  shows "\<exists>c'. notify [f] c = Some c' \<and> phone_ok c' \<and> same_client c c' \<and>
    queued c' = queued c @ [(if f = Begin_Record then UPIL_CTL_RECORD_START else UPIL_EVT_RECORD_END, None, due c 0)]"
proof -
  have l: "letter_ok UPIL_CTL_RECORD_START (payload [] 0)" "letter_ok UPIL_EVT_RECORD_END (payload [] 0)"
    by (simp_all add: payload_def letter_ok_plain)
  show ?thesis
    using assms post_effect[OF assms(1) _ l(1), of 0] post_effect[OF assms(1) _ l(2), of 0]
    by (cases f) (auto simp: audio_callback_def begin_record_def end_record_def payload_def)
qed

section \<open>Who is first\<close>

text \<open>
  Property C34.  Two orders of the same steps decide whether the answering machine records.  The
  thread that plays the announcement calls \<open>begin_record\<close>, which sends the machine the
  message to start the recording, before it clears the flag of the module.  If the
  machine handles the message first, the module ignores its call, the thread ends, and
  nothing runs any more: no recording and no end of it.  If the thread goes first, the
  recording starts.
\<close>

theorem memo_recording_race:
  assumes "phone_ok c" "length (queued c) < 31" "msg_what x = UPIL_CTL_RECORD_START"
    and "threads a = [t \<mapsto> Play PlayCall]" "s_audio_running a" "s_play_endfunc a = Begin_Record" "client a = Ready"
  shows "(\<exists>c' b. memo_run [Step t d, Handle x, Step t d] (c, a) = Some (c', b) \<and>
      queued c' = queued c @ [(UPIL_CTL_RECORD_START, None, due c 0)] \<and> audio_calls c' = audio_calls c @ [record_call] \<and>
      (\<forall>s. threads b s = None) \<and> \<not> s_audio_running b) \<and>
    (\<exists>c' b. memo_run [Step t d, Step t d, Handle x] (c, a) = Some (c', b) \<and>
      queued c' = queued c @ [(UPIL_CTL_RECORD_START, None, due c 0)] \<and> audio_calls c' = audio_calls c @ [record_call] \<and>
      threads b = [next_tid a \<mapsto> Rec RecSetup] \<and> s_audio_running b \<and> s_record_endfunc b = End_Record \<and> s_record_timeout b = 30)"
proof -
  obtain c1 where c1: "notify [Begin_Record] c = Some c1" "same_client c c1"
      "queued c1 = queued c @ [(UPIL_CTL_RECORD_START, None, due c 0)]"
    using notify_effect[OF assms(1,2), of Begin_Record] by auto
  have "audio_calls c1 = audio_calls c"
    using c1(2) by (intro more_phone(2)) (simp add: same_client_def)
  moreover have "queued (audio record_call c1) = queued c1"
    by (rule same_handler_eqs(2)) (simp add: same_handler_def audio_def)
  ultimately have phone: "queued (audio record_call c1) = queued c @ [(UPIL_CTL_RECORD_START, None, due c 0)]"
      "audio_calls (audio record_call c1) = audio_calls c @ [record_call]"
    using c1(3) by (simp_all add: audio_def)
  let ?a = "a\<lparr>callbacks := callbacks a @ [Begin_Record], threads := [t \<mapsto> Play PlayClear]\<rparr>"
  have call: "memo_run (Step t d # es) (c, a) = memo_run es (c1, ?a)" for es
    using assms(4-6) c1(1) by (simp add: thread_step_def thread_body_def call_def)
  have clear: "memo_run (Step t d # es) (c1, ?a) = memo_run es (c1, ?a\<lparr>s_audio_running := False, threads := Map.empty\<rparr>)" for es
    by (simp add: thread_step_def thread_body_def)
  have "\<exists>c' b. memo_run [Step t d, Handle x, Step t d] (c, a) = Some (c', b) \<and>
      queued c' = queued c @ [(UPIL_CTL_RECORD_START, None, due c 0)] \<and> audio_calls c' = audio_calls c @ [record_call] \<and>
      (\<forall>s. threads b s = None) \<and> \<not> s_audio_running b"
    unfolding call memo_handles_start[OF assms(3)]
    using assms(4-7) phone by (simp add: thread_step_def thread_body_def upil_audio_record_file_def)
  moreover have "\<exists>c' b. memo_run [Step t d, Step t d, Handle x] (c, a) = Some (c', b) \<and>
      queued c' = queued c @ [(UPIL_CTL_RECORD_START, None, due c 0)] \<and> audio_calls c' = audio_calls c @ [record_call] \<and>
      threads b = [next_tid a \<mapsto> Rec RecSetup] \<and> s_audio_running b \<and> s_record_endfunc b = End_Record \<and> s_record_timeout b = 30"
    unfolding call clear memo_handles_start[OF assms(3)]
    using assms(7) phone by (simp add: interface_defs)
  ultimately show ?thesis
    by blast
qed

text \<open>The module when an announcement was just played, for examples.\<close>

definition announced :: audio_mod where
  "announced = (audio_init (\<lambda>_. None))\<lparr>s_audio_running := True, s_play_endfunc := Begin_Record,
     s_play_filename := str ''/data/welcome.wav'', s_tid_audio_play := Some 1, threads := [1 \<mapsto> Play PlayCall], next_tid := 2\<rparr>"

lemma announced_state: "threads announced = [1 \<mapsto> Play PlayCall]" "s_audio_running announced"
  "s_play_endfunc announced = Begin_Record" "client announced = Ready" "next_tid announced = 2" "callbacks announced = []"
  by (simp_all add: announced_def audio_init_def)

theorem memo_recording_race_witness:
  "let c = phone_at 6 [] 0; x = \<lparr>msg_what = UPIL_CTL_RECORD_START, msg_data_size = 0, msg_data = None\<rparr>
   in (\<exists>c' b. memo_run [Step 1 outcome0, Handle x, Step 1 outcome0] (c, announced) = Some (c', b) \<and> (\<forall>s. threads b s = None)) \<and>
      (\<exists>c' b. memo_run [Step 1 outcome0, Step 1 outcome0, Handle x] (c, announced) = Some (c', b) \<and> threads b = [2 \<mapsto> Rec RecSetup])"
proof -
  let ?c = "phone_at 6 [] 0" and ?x = "\<lparr>msg_what = UPIL_CTL_RECORD_START, msg_data_size = 0, msg_data = None\<rparr>"
  have c: "phone_ok ?c" "length (queued ?c) < 31" "msg_what ?x = UPIL_CTL_RECORD_START"
    by (rule phone_at_ok) (simp_all add: queued_def phone_at_def)
  show ?thesis
    using memo_recording_race[OF c announced_state(1-4), of outcome0] unfolding Let_def announced_state(5) by blast
qed

section \<open>A complete recording\<close>

text \<open>The read that reaches the time-out ends the recording.\<close>

lemma rec_last_at:
  assumes "rec_at s bs" "out_ok d" "out_file_ok d" "s_record_timeout a > 0" "rc_start s \<le> out_time d"
    and "tv_sec (timersub (out_time d) (rc_start s)) \<ge> s_record_timeout a"
  shows "\<exists>s'. usba_to_file d (RecBody s) a = Some (Some (RecEnd s'), a) \<and> rec_at s' (bs @ out_bytes d) \<and>
    tv_sec (rc_diff s') \<ge> s_record_timeout a \<and> rc_name s' = rc_name s"
  using assms by (auto simp: rec_at_def fwrite_rec_file Let_def tim_subtract_timersub)

text \<open>From the last read to the end of the thread.\<close>

lemma rec_timeout_ends:
  assumes "threads a t = Some (Rec (RecTest s))" "s_audio_running a" "rec_at s bs" "s_record_endfunc a = End_Record"
    and "out_ok d" "out_file_ok d" "s_record_timeout a > 0" "rc_start s \<le> out_time d"
      "tv_sec (timersub (out_time d) (rc_start s)) \<ge> s_record_timeout a"
  shows "\<exists>b. audio_run ([Thread t d, Thread t d] @ replicate 3 (Thread t e)) a = Some b \<and> callbacks b = callbacks a @ [End_Record] \<and>
    threads b = (threads a)(t := None) \<and> \<not> s_audio_running b \<and> disk b (rc_name s) = Some (recording (bs @ out_bytes d))"
proof -
  let ?a = "a\<lparr>threads := (threads a)(t \<mapsto> Rec (RecBody s))\<rparr>"
  obtain s' where s': "usba_to_file d (RecBody s) ?a = Some (Some (RecEnd s'), ?a)" "rec_at s' (bs @ out_bytes d)"
      "tv_sec (rc_diff s') \<ge> s_record_timeout a" "rc_name s' = rc_name s"
    using rec_last_at[OF assms(3,5,6), of ?a] assms(7-9) by auto
  have "audio_run ([Thread t d, Thread t d] @ es) a = audio_run es (a\<lparr>threads := (threads a)(t \<mapsto> Rec (RecEnd s'))\<rparr>)" for es
    using assms(1,2) s'(1) by (simp add: thread_step_def thread_body_def)
  then show ?thesis
    using assms(4) s'(3,4) rec_finish_at[OF s'(2)]
    by (simp add: numeral_eq_Suc thread_step_def thread_body_def call_def del: audio_run.simps(2))
      (simp add: thread_step_def thread_body_def call_def)
qed

text \<open>The recording thread from its set-up to its end.\<close>

lemma recording_runs:
  assumes "threads a = [r \<mapsto> Rec RecSetup]" "s_audio_running a" "s_record_endfunc a = End_Record" "s_record_timeout a = 30"
    and "out_ok d" "out_file_ok d" "\<forall>x \<in> set ds. goes_on 30 (out_time d) x"
    and "out_ok l" "out_file_ok l" "out_time d \<le> out_time l" "tv_sec (timersub (out_time l) (out_time d)) \<ge> 30"
  shows "\<exists>b. audio_run ([Thread r d] @ concat (map (\<lambda>d. [Thread r d, Thread r d]) ds) @
        [Thread r l, Thread r l] @ replicate 3 (Thread r e)) a = Some b \<and>
      callbacks b = callbacks a @ [End_Record] \<and> (\<forall>s. threads b s = None) \<and> \<not> s_audio_running b \<and>
      disk b (s_record_filename a) = Some (recording (concat (map out_bytes (ds @ [l]))))"
proof -
  have "threads a r = Some (Rec RecSetup)"
    using assms(1) by simp
  from rec_setup_at[OF this assms(5,6)] obtain s where s: "rec_at s []" "rc_start s = out_time d" "rc_name s = s_record_filename a"
    and begins: "\<And>es. audio_run (Thread r d # es) a =
      audio_run es (a\<lparr>disk := (disk a)(s_record_filename a := Some []), threads := (threads a)(r \<mapsto> Rec (RecTest s))\<rparr>)"
    by auto
  define b1 where "b1 = a\<lparr>disk := (disk a)(s_record_filename a := Some []), threads := (threads a)(r \<mapsto> Rec (RecTest s))\<rparr>"
  have b1: "threads b1 r = Some (Rec (RecTest s))" "s_audio_running b1" "\<forall>x \<in> set ds. goes_on (s_record_timeout b1) (rc_start s) x"
    using assms(2,4,7) s(2) by (simp_all add: b1_def)
  from rec_chunks[OF b1(1) s(1) b1(2,3)] obtain s' where s':
      "audio_run (concat (map (\<lambda>d. [Thread r d, Thread r d]) ds)) b1 = Some (b1\<lparr>threads := (threads b1)(r \<mapsto> Rec (RecTest s'))\<rparr>)"
      "rec_at s' (concat (map out_bytes ds))" "rc_start s' = out_time d" "rc_name s' = s_record_filename a"
    using s(2,3) by auto
  let ?b = "b1\<lparr>threads := (threads b1)(r \<mapsto> Rec (RecTest s'))\<rparr>"
  have "threads ?b r = Some (Rec (RecTest s'))" "s_audio_running ?b" "s_record_endfunc ?b = End_Record" "s_record_timeout ?b = 30"
    using assms(2-4) by (simp_all add: b1_def)
  from rec_timeout_ends[OF this(1,2) s'(2) this(3) assms(8,9), of e] assms(10,11) this(4) s'(3) obtain b' where
      "audio_run ([Thread r l, Thread r l] @ replicate 3 (Thread r e)) ?b = Some b'" "callbacks b' = callbacks ?b @ [End_Record]"
      "threads b' = (threads ?b)(r := None)" "\<not> s_audio_running b'" "disk b' (rc_name s') = Some (recording (concat (map out_bytes ds) @ out_bytes l))"
    by auto
  moreover have "callbacks ?b = callbacks a" "(threads ?b)(r := None) = (\<lambda>_. None)"
    using assms(1) by (auto simp: b1_def)
  moreover have "audio_run ([Thread r d] @ concat (map (\<lambda>d. [Thread r d, Thread r d]) ds) @ [Thread r l, Thread r l] @ replicate 3 (Thread r e)) a =
      audio_run ([Thread r l, Thread r l] @ replicate 3 (Thread r e)) ?b"
    unfolding append_Cons[of _ "[]"] append_Nil begins b1_def[symmetric]
      audio_run_append[of "concat (map (\<lambda>d. [Thread r d, Thread r d]) ds)"] s'(1) bind.bind_lunit ..
  ultimately show ?thesis
    using s'(4) by (intro exI[of _ b']) simp
qed

text \<open>The machine's part of a recording: both messages are queued, and the recording is asked for
  once.\<close>

lemma both_messages_sent:
  assumes "phone_ok c" "length (queued c) < 30" "\<forall>k. dev_write_ok c k"
  shows "\<exists>c1 c2. notify [Begin_Record] c = Some c1 \<and> notify [End_Record] (audio record_call c1) = Some c2 \<and>
    queued c2 = queued c @ [(UPIL_CTL_RECORD_START, None, due c 0), (UPIL_EVT_RECORD_END, None, due c 0)] \<and>
    dev_out c2 = dev_out c \<and> (\<forall>k. dev_write_ok c2 k) \<and> audio_calls c2 = audio_calls c @ [record_call]"
proof -
  obtain c1 where c1: "notify [Begin_Record] c = Some c1" "phone_ok c1" "same_client c c1"
      "queued c1 = queued c @ [(UPIL_CTL_RECORD_START, None, due c 0)]"
    using notify_effect[OF assms(1), of Begin_Record] assms(2) by auto
  let ?c1 = "audio record_call c1"
  have sh: "same_handler c1 ?c1"
    by (simp add: same_handler_def audio_def)
  note eqs = same_handler_eqs[OF sh]
  have ok1: "phone_ok ?c1"
    using runs_audio[OF c1(2)] by (simp add: runs_def)
  obtain c2 where c2: "notify [End_Record] ?c1 = Some c2" "same_client ?c1 c2" "queued c2 = queued c1 @ [(UPIL_EVT_RECORD_END, None, due c1 0)]"
    using notify_effect[OF ok1, of End_Record] assms(2) c1(4) eqs by auto
  have more: "handler.more c1 = handler.more c" "handler.more c2 = handler.more ?c1" "due c1 = due c"
    using c1(3) c2(2) same_client_due[OF c1(3)] by (auto simp only: same_client_def)
  have io: "dev_out c2 = dev_out c" "\<forall>k. dev_write_ok c2 k" "audio_calls c2 = audio_calls c @ [record_call]"
    using more_upil_io(3,4)[OF more(1)] more_upil_io(3,4)[OF more(2)] more_phone(2)[OF more(1)] more_phone(2)[OF more(2)] assms(3)
    by (simp_all add: audio_def)
  from c1(1,4) c2(1,3) more(3) io show ?thesis
    by (intro exI[of _ c1] exI[of _ c2]) simp
qed

text \<open>
  Property C13.  A complete recording of the answering machine.  When the thread of the announcement
  ends before the machine handles its message, the recording thread writes all the sound
  that it reads to \<open>/data/record.wav\<close>; with the first read that is 30 seconds after the
  start it stops, clears the flag and calls \<open>end_record\<close>, once; the message that this sends
  makes the machine hang up the telephone.
\<close>

theorem memo_recording_complete:
  assumes "phone_ok c" "length (queued c) < 30" "\<forall>k. dev_write_ok c k"
    and "msg_what x = UPIL_CTL_RECORD_START" "msg_what y = UPIL_EVT_RECORD_END"
    and "threads a = [t \<mapsto> Play PlayCall]" "s_audio_running a" "s_play_endfunc a = Begin_Record" "client a = Ready"
    and "out_ok d" "out_file_ok d" "\<forall>x \<in> set ds. goes_on 30 (out_time d) x"
    and "out_ok l" "out_file_ok l" "out_time d \<le> out_time l" "tv_sec (timersub (out_time l) (out_time d)) \<ge> 30"
    and "r = next_tid a"
  shows "\<exists>c' b. memo_run ([Step t e, Step t e, Handle x, Step r d] @ concat (map (\<lambda>d. [Step r d, Step r d]) ds) @
        [Step r l, Step r l] @ replicate 3 (Step r e) @ [Handle y]) (c, a) = Some (c', b) \<and>
      queued c' = queued c @ [(UPIL_CTL_RECORD_START, None, due c 0), (UPIL_EVT_RECORD_END, None, due c 0)] \<and>
      audio_calls c' = audio_calls c @ [record_call] \<and>
      dev_out c' = dev_out c @ [[3, 3, 0xFF, 1, TPP_CTL_PCHOOK_OFF, 5, 6, 7]] \<and>
      (\<forall>s. threads b s = None) \<and> \<not> s_audio_running b \<and>
      disk b (str ''/data/record.wav'') = Some (recording (concat (map out_bytes (ds @ [l]))))"
proof -
  let ?first = "[(t, e), (t, e)]"
  let ?then = "[(r, d)] @ concat (map (\<lambda>d. [(r, d), (r, d)]) ds) @ [(r, l), (r, l)] @ replicate 3 (r, e)"
  have split: "[Step t e, Step t e, Handle x, Step r d] @ concat (map (\<lambda>d. [Step r d, Step r d]) ds) @
        [Step r l, Step r l] @ replicate 3 (Step r e) @ [Handle y] =
      map (\<lambda>(t, d). Step t d) ?first @ Handle x # map (\<lambda>(t, d). Step t d) ?then @ [Handle y]"
    by (simp add: map_concat comp_def)
  obtain c1 c2 where c1: "notify [Begin_Record] c = Some c1" and c2: "notify [End_Record] (audio record_call c1) = Some c2"
      "queued c2 = queued c @ [(UPIL_CTL_RECORD_START, None, due c 0), (UPIL_EVT_RECORD_END, None, due c 0)]"
      "dev_out c2 = dev_out c" "\<forall>k. dev_write_ok c2 k" "audio_calls c2 = audio_calls c @ [record_call]"
    using both_messages_sent[OF assms(1-3)] by blast
  let ?a1 = "a\<lparr>callbacks := callbacks a @ [Begin_Record], s_audio_running := False, threads := Map.empty\<rparr>"
  have "audio_run (map (\<lambda>(t, d). Thread t d) ?first) a = Some ?a1" "callbacks ?a1 = callbacks a @ [Begin_Record]"
    using assms(6-8) by (simp_all add: thread_step_def thread_body_def call_def)
  note first = memo_steps_calls[OF this]
  define a2 where "a2 = ?a1\<lparr>s_audio_running := True, s_record_endfunc := End_Record, s_record_timeout := 30,
    s_record_filename := str ''/data/record.wav'', threads := [r \<mapsto> Rec RecSetup], next_tid := r + 1, s_tid_audio_record := Some r\<rparr>"
  have req: "audio_do (audio_request record_call 0) ?a1 = Some a2"
    using assms(9,17) by (simp add: interface_defs a2_def)
  have "threads a2 = [r \<mapsto> Rec RecSetup]" "s_audio_running a2" "s_record_endfunc a2 = End_Record" "s_record_timeout a2 = 30"
    and name: "s_record_filename a2 = str ''/data/record.wav''"
    by (simp_all add: a2_def)
  from recording_runs[OF this(1-4) assms(10-16), of e] obtain b where b:
      "audio_run (map (\<lambda>(t, d). Thread t d) ?then) a2 = Some b" "callbacks b = callbacks a2 @ [End_Record]" "\<forall>s. threads b s = None"
      "\<not> s_audio_running b" "disk b (str ''/data/record.wav'') = Some (recording (concat (map out_bytes (ds @ [l]))))"
    unfolding name by (auto simp: map_concat comp_def)
  let ?c3 = "c2\<lparr>dev_out := dev_out c2 @ [[3, 3, 0xFF, 1, TPP_CTL_PCHOOK_OFF, 5, 6, 7]]\<rparr>"
  have "queued ?c3 = queued c2"
    by (rule same_handler_eqs(2)[OF dev_out_same_handler])
  moreover have "memo_run ([Step t e, Step t e, Handle x, Step r d] @ concat (map (\<lambda>d. [Step r d, Step r d]) ds) @
        [Step r l, Step r l] @ replicate 3 (Step r e) @ [Handle y]) (c, a) = Some (?c3, b)"
    unfolding split first c1 bind.bind_lunit memo_handles_start[OF assms(4)] req
      memo_steps_calls[OF b(1,2)] c2(1) memo_handles_end[OF assms(5) c2(4)] ..
  ultimately show ?thesis
    using b(3-5) c2(2,3,5) by (intro exI[of _ ?c3] exI[of _ b]) simp
qed

theorem memo_recording_complete_witness:
  "let l = outcome0\<lparr>out_time := TV 30 0\<rparr>; x = \<lparr>msg_what = UPIL_CTL_RECORD_START, msg_data_size = 0, msg_data = None\<rparr>;
       y = \<lparr>msg_what = UPIL_EVT_RECORD_END, msg_data_size = 0, msg_data = None\<rparr>
   in \<exists>c' b. memo_run ([Step 1 outcome0, Step 1 outcome0, Handle x, Step 2 outcome0] @ [Step 2 outcome0, Step 2 outcome0] @
          [Step 2 l, Step 2 l] @ replicate 3 (Step 2 outcome0) @ [Handle y]) (phone_at 6 [] 0, announced) = Some (c', b) \<and>
        (\<forall>s. threads b s = None) \<and> disk b (str ''/data/record.wav'') = Some (recording [1, 0, 2, 0, 1, 0, 2, 0])"
proof -
  let ?l = "outcome0\<lparr>out_time := TV 30 0\<rparr>" and ?c = "phone_at 6 [] 0"
  let ?x = "\<lparr>msg_what = UPIL_CTL_RECORD_START, msg_data_size = 0, msg_data = None\<rparr>"
    and ?y = "\<lparr>msg_what = UPIL_EVT_RECORD_END, msg_data_size = 0, msg_data = None\<rparr>"
  have c: "phone_ok ?c" "length (queued ?c) < 30" "\<forall>k. dev_write_ok ?c k" "msg_what ?x = UPIL_CTL_RECORD_START" "msg_what ?y = UPIL_EVT_RECORD_END"
    by (rule phone_at_ok) (simp_all add: queued_def phone_at_def)
  have o: "out_ok outcome0" "out_file_ok outcome0" "\<forall>x \<in> set [outcome0]. goes_on 30 (out_time outcome0) x" "out_ok ?l" "out_file_ok ?l"
      "out_time outcome0 \<le> out_time ?l" "tv_sec (timersub (out_time ?l) (out_time outcome0)) \<ge> 30" "2 = next_tid announced"
    by (simp_all add: outcome0_def goes_on_def timersub_def less_eq_timeval_def announced_state)
  have bytes: "concat (map out_bytes ([outcome0] @ [?l])) = [1, 0, 2, 0, 1, 0, 2, 0]"
    and pairs: "concat (map (\<lambda>d. [Step 2 d, Step 2 d]) [outcome0]) = [Step 2 outcome0, Step 2 outcome0]"
    by (simp_all add: outcome0_def)
  show ?thesis
    using memo_recording_complete[OF c announced_state(1-4) o, of outcome0] unfolding bytes pairs Let_def by blast
qed

end
